(* ===== verification/Sparse_Prelude.thy ===== *)
theory Sparse_Prelude
  imports Main "HOL-Library.Word" "HOL-Library.Multiset"
begin

text \<open>
  Facts and names that every component shares: the machine integer types of the C code
  (\<open>unsigned long long\<close>, \<open>unsigned int\<close> and \<open>unsigned char\<close> as words), the
  collections of simplification rules, and generic lemmas on lists.
\<close>

named_theorems blk_simps \<open>facts about lists of blocks\<close>
named_theorems cint_simps \<open>facts about C integer conversions\<close>

type_synonym u64 = "64 word"
type_synonym u32 = "32 word"
type_synonym u8 = "8 word"

subsection \<open>Lists\<close>

lemma concat_filter_nonempty [simp, blk_simps]:
  "concat (filter (\<lambda>b. b \<noteq> []) bs) = concat bs"
  by (induction bs) auto

lemma list_all_take: "list_all P xs \<Longrightarrow> list_all P (take n xs)"
  by (auto simp: list_all_iff dest: in_set_takeD)

lemma list_all_drop: "list_all P xs \<Longrightarrow> list_all P (drop n xs)"
  by (auto simp: list_all_iff dest: in_set_dropD)

lemma take_Suc_snoc: "n < length xs \<Longrightarrow> take n xs @ [xs ! n] = take (Suc n) xs"
  by (simp add: take_Suc_conv_app_nth)

lemma of_char_less: "of_char c < (256 :: nat)"
  using rangeI [of "of_char :: char \<Rightarrow> nat" c] by (simp only: range_nat_of_char) simp

lemma unat_of_char: "unat (of_char c :: u8) = of_char c"
proof -
  have "(of_char c :: u8) = of_nat (of_char c)" by (rule of_nat_of_char [symmetric])
  then have "unat (of_char c :: u8) = of_char c mod 256" by (simp only: unat_of_nat) simp
  then show ?thesis using of_char_less [of c] by simp
qed

end
