(* ===== verification/Ptr_List.thy ===== *)
theory Ptr_List
  imports Sparse_Prelude
begin

text \<open>
  Pointer lists (\<open>ptrlist.c\<close>, \<open>ptrlist.h\<close>): a ring of blocks of at most
  \<open>LIST_NODE_NR\<close> entries. A \<open>struct ptr_list *\<close> is modelled by the blocks of the ring
  read from the head by \<open>next\<close>, the null pointer by no block; \<open>head->prev\<close> is the last
  block. A block is its first \<open>nr\<close> entries; slots past \<open>nr\<close> are dead storage (the
  code scribbles \<open>0xf0f0f0f0\<close> there). An operation taking \<open>struct ptr_list **\<close> returns
  the new ring. Each iteration macro is a function over the blocks in the order the macro visits.
\<close>

section \<open>Blocks and rings\<close>

definition LIST_NODE_NR :: nat where
  "LIST_NODE_NR = 29"

type_synonym 'a block = "'a list"
type_synonym 'a ptr_list = "'a block list"

text \<open>What a walk over the list visits.\<close>

definition entries :: "'a ptr_list \<Rightarrow> 'a list" where
  "entries l = concat l"

text \<open>The bound every block keeps, and the packed form: no block is empty.\<close>

definition blocks_ok :: "'a ptr_list \<Rightarrow> bool" where
  "blocks_ok l = list_all (\<lambda>b. length b \<le> LIST_NODE_NR) l"

definition packed :: "'a ptr_list \<Rightarrow> bool" where
  "packed l = (blocks_ok l \<and> list_all (\<lambda>b. b \<noteq> []) l)"

section \<open>Operations\<close>

text \<open>The sum of the \<open>nr\<close> fields.\<close>

fun ptr_list_size :: "'a ptr_list \<Rightarrow> nat" where
  "ptr_list_size [] = 0"
| "ptr_list_size (b # bs) = length b + ptr_list_size bs"

text \<open>
  Copies at most \<open>max\<close> entries to an array; the result is the part of the array written.
  The walk stops when \<open>max\<close> reaches 0.
\<close>

fun linearize_blocks :: "'a ptr_list \<Rightarrow> nat \<Rightarrow> 'a list" where
  "linearize_blocks [] mx = []"
| "linearize_blocks (b # bs) mx =
     (let i = (if length b > mx then mx else length b);
          mx' = mx - i
      in take i b @ (if mx' = 0 then [] else linearize_blocks bs mx'))"

definition linearize_ptr_list :: "'a ptr_list \<Rightarrow> int \<Rightarrow> 'a list \<times> nat" where
  "linearize_ptr_list head mx =
     (if head \<noteq> [] \<and> mx > 0
      then (let arr = linearize_blocks head (nat mx) in (arr, length arr))
      else ([], 0))"

text \<open>
  Unlinks every block whose \<open>nr\<close> is 0; when the head goes, its successor becomes the head,
  and when the last block goes the list becomes null.
\<close>

fun pack_ptr_list :: "'a ptr_list \<Rightarrow> 'a ptr_list" where
  "pack_ptr_list [] = []"
| "pack_ptr_list (b # bs) = (if length b = 0 then pack_ptr_list bs else b # pack_ptr_list bs)"

text \<open>Splits the block at position \<open>i\<close> of the ring: the new block holds the upper half.\<close>

definition split_ptr_list_head :: "'a ptr_list \<Rightarrow> nat \<Rightarrow> 'a ptr_list" where
  "split_ptr_list_head l i =
     (let b = l ! i; nr = length b div 2; old = length b - nr
      in take i l @ [take old b, take nr (drop old b)] @ drop (Suc i) l)"

text \<open>
  Appends one entry: to the last block while it has room, else to a new block linked in
  between the last block and the head.
\<close>

definition add_ptr_list :: "'a ptr_list \<Rightarrow> 'a \<Rightarrow> 'a ptr_list" where
  "add_ptr_list l p =
     (if l = [] \<or> length (last l) \<ge> LIST_NODE_NR then l @ [[p]]
      else butlast l @ [last l @ [p]])"

text \<open>
  With its two assertions: the pointer has clear low bits and the tag uses only them. \<open>None\<close>
  is a failed assertion.
\<close>

definition add_ptr_list_tag :: "u64 ptr_list \<Rightarrow> u64 \<Rightarrow> u64 \<Rightarrow> u64 ptr_list option" where
  "add_ptr_list_tag l ptr tag =
     (if and 3 ptr \<noteq> 0 then None
      else if and (not 3) tag \<noteq> 0 then None
      else Some (add_ptr_list l (or tag ptr)))"

definition add_ptr_list_notag :: "u64 ptr_list \<Rightarrow> u64 \<Rightarrow> u64 ptr_list option" where
  "add_ptr_list_notag l entry = add_ptr_list_tag l (and entry (not 3)) (and entry 3)"

definition PTR_ENTRY :: "u64 \<Rightarrow> u64" where
  "PTR_ENTRY p = and (not 3) p"

definition CURRENT_TAG :: "u64 \<Rightarrow> u64" where
  "CURRENT_TAG p = and 3 p"

definition update_tag :: "u64 \<Rightarrow> u64 \<Rightarrow> u64" where
  "update_tag p tag = or tag (and (not 3) p)"

definition tag_ptr :: "u64 \<Rightarrow> u64 \<Rightarrow> u64" where
  "tag_ptr p tag = or tag p"

text \<open>
  The deletion loop. \<open>count\<close> is a C \<open>int\<close> that is decremented at every deletion and
  ends the walk when it becomes 0, so a count of 0 or less deletes every occurrence. The third
  component says that the walk ended by \<open>goto out\<close>.
\<close>

fun delete_in_block :: "'a \<Rightarrow> 'a block \<Rightarrow> int \<Rightarrow> 'a block \<times> int \<times> bool" where
  "delete_in_block e [] c = ([], c, False)"
| "delete_in_block e (x # xs) c =
     (if x = e then
        (let c' = c - 1 in
         if c' = 0 then (xs, c', True) else delete_in_block e xs c')
      else (let (ys, r) = delete_in_block e xs c in (x # ys, r)))"

fun delete_in_blocks :: "'a \<Rightarrow> 'a ptr_list \<Rightarrow> int \<Rightarrow> 'a ptr_list \<times> int \<times> bool" where
  "delete_in_blocks e [] c = ([], c, False)"
| "delete_in_blocks e (b # bs) c =
     (case delete_in_block e b c of
        (b', c', True) \<Rightarrow> (b' # bs, c', True)
      | (b', c', False) \<Rightarrow> (let (bs', r) = delete_in_blocks e bs c' in (b' # bs', r)))"

text \<open>\<open>None\<close>: \<open>assert(count <= 0)\<close> failed, fewer occurrences than asked for.\<close>

definition delete_ptr_list_entry :: "'a ptr_list \<Rightarrow> 'a \<Rightarrow> int \<Rightarrow> ('a ptr_list \<times> int) option" where
  "delete_ptr_list_entry l e c =
     (case delete_in_blocks e l c of
        (l', c', out) \<Rightarrow>
          if \<not> out \<and> \<not> c' \<le> 0 then None else Some (pack_ptr_list l', c'))"

fun replace_in_block :: "'a \<Rightarrow> 'a \<Rightarrow> 'a block \<Rightarrow> int \<Rightarrow> 'a block \<times> int \<times> bool" where
  "replace_in_block old new [] c = ([], c, False)"
| "replace_in_block old new (x # xs) c =
     (if x = old then
        (let c' = c - 1 in
         if c' = 0 then (new # xs, c', True)
         else (let (ys, r) = replace_in_block old new xs c' in (new # ys, r)))
      else (let (ys, r) = replace_in_block old new xs c in (x # ys, r)))"

fun replace_in_blocks :: "'a \<Rightarrow> 'a \<Rightarrow> 'a ptr_list \<Rightarrow> int \<Rightarrow> 'a ptr_list \<times> int \<times> bool" where
  "replace_in_blocks old new [] c = ([], c, False)"
| "replace_in_blocks old new (b # bs) c =
     (case replace_in_block old new b c of
        (b', c', True) \<Rightarrow> (b' # bs, c', True)
      | (b', c', False) \<Rightarrow> (let (bs', r) = replace_in_blocks old new bs c' in (b' # bs', r)))"

definition replace_ptr_list_entry ::
    "'a ptr_list \<Rightarrow> 'a \<Rightarrow> 'a \<Rightarrow> int \<Rightarrow> ('a ptr_list \<times> int) option" where
  "replace_ptr_list_entry l old new c =
     (case replace_in_blocks old new l c of
        (l', c', out) \<Rightarrow> if \<not> out \<and> \<not> c' \<le> 0 then None else Some (l', c'))"

text \<open>
  Takes the last entry off the last nonempty block and leaves the blocks in place. The walk
  goes backwards from the last block until it is back at the head.
\<close>

fun undo_rev :: "'a ptr_list \<Rightarrow> 'a ptr_list \<times> 'a option" where
  "undo_rev [] = ([], None)"
| "undo_rev (b # bs) =
     (if length b \<noteq> 0 then (butlast b # bs, Some (last b))
      else (let (bs', r) = undo_rev bs in (b # bs', r)))"

definition undo_ptr_list_last :: "'a ptr_list \<Rightarrow> 'a ptr_list \<times> 'a option" where
  "undo_ptr_list_last l = (let (l', r) = undo_rev (rev l) in (rev l', r))"

text \<open>
  Takes the last entry off the last block and unlinks the block when it is (or was) empty.
\<close>

definition delete_ptr_list_last :: "'a ptr_list \<Rightarrow> 'a ptr_list \<times> 'a option" where
  "delete_ptr_list_last l =
     (if l = [] then ([], None)
      else (let b = last l;
                ptr = (if length b \<noteq> 0 then Some (last b) else None);
                b' = (if length b \<noteq> 0 then butlast b else b)
            in (if length b' = 0 then butlast l else butlast l @ [b'], ptr)))"

definition concat_ptr_list :: "'a ptr_list \<Rightarrow> 'a ptr_list \<Rightarrow> 'a ptr_list" where
  "concat_ptr_list a b = foldl add_ptr_list b (entries a)"

text \<open>Every block is handed back to the allocator, in ring order.\<close>

fun free_ptr_list :: "'a ptr_list \<Rightarrow> 'a ptr_list \<times> 'a block list" where
  "free_ptr_list [] = ([], [])"
| "free_ptr_list (b # bs) = (let (l, freed) = free_ptr_list bs in (l, b # freed))"

text \<open>\<open>None\<close> in the inner option: the slot read is dead storage (the block is empty).\<close>

definition first_ptr_list :: "'a ptr_list \<Rightarrow> 'a option option" where
  "first_ptr_list l =
     (case l of [] \<Rightarrow> Some None | b # _ \<Rightarrow> (if b = [] then None else Some (Some (b ! 0))))"

definition last_ptr_list :: "'a ptr_list \<Rightarrow> 'a option option" where
  "last_ptr_list l =
     (if l = [] then Some None
      else (let b = last l in if b = [] then None else Some (Some (b ! (length b - 1)))))"

section \<open>Cursors\<close>

text \<open>
  The iteration macros keep a cursor: the current block and the index in it. \<open>NEXT_PTR_LIST\<close>
  yields a null pointer (here \<open>None\<close>) when the walk is back at the head.
\<close>

type_synonym cursor = "nat \<times> nat"

definition cur_pos :: "'a ptr_list \<Rightarrow> cursor \<Rightarrow> nat" where
  "cur_pos l c = length (concat (take (fst c) l)) + snd c"

definition cur_ok :: "'a ptr_list \<Rightarrow> cursor \<Rightarrow> bool" where
  "cur_ok l c = (fst c < length l \<and> snd c < length (l ! fst c))"

definition prepare_ptr_list :: "'a ptr_list \<Rightarrow> cursor \<times> 'a option" where
  "prepare_ptr_list l = ((0, 0), if l \<noteq> [] then Some (l ! 0 ! 0) else None)"

fun next_ptr_list :: "'a ptr_list \<Rightarrow> cursor \<times> 'a option \<Rightarrow> cursor \<times> 'a option" where
  "next_ptr_list l (c, None) = (c, None)"
| "next_ptr_list l ((i, n), Some p) =
     (if Suc n < length (l ! i) then ((i, Suc n), Some (l ! i ! Suc n))
      else if Suc i \<noteq> length l then ((Suc i, 0), Some (l ! Suc i ! 0))
      else ((0, Suc n), None))"

fun split_current :: "'a ptr_list \<Rightarrow> cursor \<Rightarrow> 'a ptr_list \<times> cursor" where
  "split_current l (i, n) =
     (let l' = split_ptr_list_head l i; k = length (l' ! i)
      in (l', if n \<ge> k then (Suc i, n - k) else (i, n)))"

text \<open>
  \<open>INSERT_CURRENT\<close> puts a new entry before the current one, splitting the block first when
  it is full. The cursor then stands on the new entry.
\<close>

definition insert_current :: "'a \<Rightarrow> 'a ptr_list \<Rightarrow> cursor \<Rightarrow> 'a ptr_list \<times> cursor" where
  "insert_current new l c =
     (let (l', (i, n)) = (if length (l ! fst c) = LIST_NODE_NR then split_current l c else (l, c));
          b = l' ! i
      in (l'[i := take n b @ [new] @ drop n b], (i, n)))"

text \<open>\<open>DELETE_CURRENT_PTR\<close>: the entries behind the current one move down by one slot.\<close>

fun delete_current :: "'a ptr_list \<Rightarrow> cursor \<Rightarrow> 'a ptr_list \<times> nat \<times> int" where
  "delete_current l (i, n) =
     (let b = l ! i in (l[i := take n b @ drop (Suc n) b], i, int n - 1))"

fun replace_current :: "'a \<Rightarrow> 'a ptr_list \<Rightarrow> cursor \<Rightarrow> 'a ptr_list" where
  "replace_current new l (i, n) = l[i := (l ! i)[n := new]]"

section \<open>The abstraction to lists\<close>

lemma entries_simps [simp, blk_simps]:
  "entries [] = []"
  "entries (b # bs) = b @ entries bs"
  "entries (l @ l') = entries l @ entries l'"
  by (simp_all add: entries_def)

lemma blocks_ok_simps [simp, blk_simps]:
  "blocks_ok []"
  "blocks_ok (b # bs) = (length b \<le> LIST_NODE_NR \<and> blocks_ok bs)"
  "blocks_ok (l @ l') = (blocks_ok l \<and> blocks_ok l')"
  by (auto simp: blocks_ok_def)

lemma packed_simps [simp, blk_simps]:
  "packed []"
  "packed (b # bs) = (length b \<le> LIST_NODE_NR \<and> b \<noteq> [] \<and> packed bs)"
  "packed (l @ l') = (packed l \<and> packed l')"
  by (auto simp: packed_def)

lemma packed_blocks_ok: "packed l \<Longrightarrow> blocks_ok l"
  by (simp add: packed_def)

lemma snoc_cases: "(l = [] \<Longrightarrow> P) \<Longrightarrow> (\<And>l' b. l = l' @ [b] \<Longrightarrow> P) \<Longrightarrow> P"
  by (cases l rule: rev_cases) auto

lemma entries_update:
  "i < length l \<Longrightarrow> entries (l[i := b]) = entries (take i l) @ b @ entries (drop (Suc i) l)"
  by (simp add: upd_conv_take_nth_drop)

lemma entries_at: "i < length l \<Longrightarrow> entries l = entries (take i l) @ (l ! i) @ entries (drop (Suc i) l)"
  using entries_update [of i l "l ! i"] by simp

lemma ptr_list_size_entries: "ptr_list_size l = length (entries l)"
  by (induction l) auto

lemma linearize_blocks_take: "linearize_blocks l mx = take mx (entries l)"
  by (induction l mx rule: linearize_blocks.induct) (auto simp: Let_def)

lemma entries_pack [simp]: "entries (pack_ptr_list l) = entries l"
  by (induction l) auto

lemma packed_pack: "blocks_ok l \<Longrightarrow> packed (pack_ptr_list l)"
  by (induction l) auto

lemma pack_packed: "packed l \<Longrightarrow> pack_ptr_list l = l"
  by (induction l) auto

lemma entries_add [simp]: "entries (add_ptr_list l x) = entries l @ [x]"
  by (cases l rule: snoc_cases) (auto simp: add_ptr_list_def)

lemma blocks_ok_add [simp]: "blocks_ok l \<Longrightarrow> blocks_ok (add_ptr_list l x)"
  by (cases l rule: snoc_cases) (auto simp: add_ptr_list_def LIST_NODE_NR_def)

lemma packed_add [simp]: "packed l \<Longrightarrow> packed (add_ptr_list l x)"
  by (cases l rule: snoc_cases) (auto simp: add_ptr_list_def LIST_NODE_NR_def)

lemma entries_split:
  assumes "i < length l"
  shows "entries (split_ptr_list_head l i) = entries l"
  using entries_at [OF assms]
  by (simp add: split_ptr_list_head_def Let_def)

lemma split_block_take_drop:
  "take (length b div 2) (drop (length b - length b div 2) b) = drop (length b - length b div 2) b"
  by simp

lemma length_split [simp]: "i < length l \<Longrightarrow> length (split_ptr_list_head l i) = Suc (length l)"
  by (simp add: split_ptr_list_head_def Let_def)

lemma blocks_ok_nth: "blocks_ok l \<Longrightarrow> i < length l \<Longrightarrow> length (l ! i) \<le> LIST_NODE_NR"
  by (simp add: blocks_ok_def list_all_length)

lemma blocks_ok_take_drop:
  "blocks_ok l \<Longrightarrow> blocks_ok (take i l)" "blocks_ok l \<Longrightarrow> blocks_ok (drop i l)"
  by (simp_all add: blocks_ok_def list_all_take list_all_drop)

lemma blocks_ok_split:
  assumes "blocks_ok l" "i < length l"
  shows "blocks_ok (split_ptr_list_head l i)"
  using assms blocks_ok_nth [OF assms]
  by (auto simp: split_ptr_list_head_def Let_def blocks_ok_take_drop)

lemma blocks_ok_update:
  "blocks_ok l \<Longrightarrow> length b \<le> LIST_NODE_NR \<Longrightarrow> blocks_ok (l[i := b])"
  by (auto simp: blocks_ok_def list_all_iff dest: set_update_subset_insert [THEN subsetD])

section \<open>Deletion and replacement\<close>

text \<open>The reference: the first \<open>n\<close> occurrences of \<open>e\<close> are mapped, the rest is kept.\<close>

fun remove_first_n :: "'a \<Rightarrow> nat \<Rightarrow> 'a list \<Rightarrow> 'a list" where
  "remove_first_n e n [] = []"
| "remove_first_n e n (x # xs) =
     (if n > 0 \<and> x = e then remove_first_n e (n - 1) xs else x # remove_first_n e n xs)"

fun replace_first_n :: "'a \<Rightarrow> 'a \<Rightarrow> nat \<Rightarrow> 'a list \<Rightarrow> 'a list" where
  "replace_first_n old new n [] = []"
| "replace_first_n old new n (x # xs) =
     (if n > 0 \<and> x = old then new # replace_first_n old new (n - 1) xs
      else x # replace_first_n old new n xs)"

lemma remove_first_0 [simp]: "remove_first_n e 0 xs = xs"
  by (induction xs) auto

lemma replace_first_0 [simp]: "replace_first_n e e' 0 xs = xs"
  by (induction xs) auto

lemma remove_first_all: "count_list xs e \<le> n \<Longrightarrow> remove_first_n e n xs = filter (\<lambda>x. x \<noteq> e) xs"
  by (induction xs arbitrary: n)
     (auto simp: count_list_0_iff intro!: filter_True [symmetric])

lemma delete_in_block_append:
  "delete_in_block e (xs @ ys) c =
     (case delete_in_block e xs c of
        (x', c', True) \<Rightarrow> (x' @ ys, c', True)
      | (x', c', False) \<Rightarrow> (let (y', r) = delete_in_block e ys c' in (x' @ y', r)))"
  by (induction xs arbitrary: c) (auto simp: Let_def split: prod.splits bool.splits)

lemma replace_in_block_append:
  "replace_in_block e f (xs @ ys) c =
     (case replace_in_block e f xs c of
        (x', c', True) \<Rightarrow> (x' @ ys, c', True)
      | (x', c', False) \<Rightarrow> (let (y', r) = replace_in_block e f ys c' in (x' @ y', r)))"
  by (induction xs arbitrary: c) (auto simp: Let_def split: prod.splits bool.splits)

lemma delete_in_blocks_entries:
  "delete_in_blocks e l c = (l', r) \<Longrightarrow> delete_in_block e (entries l) c = (entries l', r)"
  by (induction e l c arbitrary: l' r rule: delete_in_blocks.induct)
     (auto simp: delete_in_block_append Let_def split: prod.splits bool.splits)

lemma replace_in_blocks_entries:
  "replace_in_blocks e f l c = (l', r) \<Longrightarrow> replace_in_block e f (entries l) c = (entries l', r)"
  by (induction e f l c arbitrary: l' r rule: replace_in_blocks.induct)
     (auto simp: replace_in_block_append Let_def split: prod.splits bool.splits)

lemma delete_in_block_all:
  "c \<le> 0 \<Longrightarrow> delete_in_block e xs c
     = (filter (\<lambda>x. x \<noteq> e) xs, c - int (count_list xs e), False)"
  by (induction xs arbitrary: c) (auto simp: Let_def)

lemma delete_in_block_enough:
  "0 < c \<Longrightarrow> c \<le> int (count_list xs e) \<Longrightarrow>
   delete_in_block e xs c = (remove_first_n e (nat c) xs, 0, True)"
proof (induction xs arbitrary: c)
  case (Cons x xs)
  show ?case
  proof (cases "x = e \<and> c = 1")
    case False
    with Cons show ?thesis by (auto simp: Let_def nat_diff_distrib split: prod.splits)
  qed (auto simp: Let_def)
qed simp

lemma delete_in_block_few:
  "int (count_list xs e) < c \<Longrightarrow>
   delete_in_block e xs c = (filter (\<lambda>x. x \<noteq> e) xs, c - int (count_list xs e), False)"
  by (induction xs arbitrary: c) (auto simp: Let_def)

lemma replace_in_block_enough:
  "0 < c \<Longrightarrow> c \<le> int (count_list xs e) \<Longrightarrow>
   replace_in_block e f xs c = (replace_first_n e f (nat c) xs, 0, True)"
proof (induction xs arbitrary: c)
  case (Cons x xs)
  show ?case
  proof (cases "x = e \<and> c = 1")
    case False
    with Cons show ?thesis by (auto simp: Let_def nat_diff_distrib split: prod.splits)
  qed (auto simp: Let_def)
qed simp

lemma replace_in_block_all:
  "c \<le> 0 \<Longrightarrow> replace_in_block e f xs c
     = (map (\<lambda>x. if x = e then f else x) xs, c - int (count_list xs e), False)"
  by (induction xs arbitrary: c) (auto simp: Let_def)

lemma replace_in_block_few:
  "int (count_list xs e) < c \<Longrightarrow>
   replace_in_block e f xs c
     = (map (\<lambda>x. if x = e then f else x) xs, c - int (count_list xs e), False)"
  by (induction xs arbitrary: c) (auto simp: Let_def)

lemma length_delete_in_block: "delete_in_block e xs c = (ys, r) \<Longrightarrow> length ys \<le> length xs"
  by (induction e xs c arbitrary: ys r rule: delete_in_block.induct)
     (fastforce simp: Let_def split: if_splits prod.splits)+

lemma blocks_ok_delete: "delete_in_blocks e l c = (l', r) \<Longrightarrow> blocks_ok l \<Longrightarrow> blocks_ok l'"
  by (induction e l c arbitrary: l' r rule: delete_in_blocks.induct)
     (auto simp: Let_def split: prod.splits bool.splits dest!: length_delete_in_block)

text \<open>
  C2. Deletion with a count: for a positive count that the list can serve, exactly the first
  \<open>c\<close> occurrences go and 0 is returned; a count of 0 or less deletes them all; a count that
  the list cannot serve fails the assertion. The list that comes back has no empty block.
\<close>

theorem delete_ptr_list_entry_spec:
  assumes "blocks_ok l"
  shows "case delete_ptr_list_entry l e c of
           None \<Rightarrow> 0 < c \<and> int (count_list (entries l) e) < c
         | Some (l', k) \<Rightarrow> packed l' \<and>
             (if c > 0 then c \<le> int (count_list (entries l) e) \<and> k = 0
                \<and> entries l' = remove_first_n e (nat c) (entries l)
              else k = c - int (count_list (entries l) e)
                \<and> entries l' = filter (\<lambda>x. x \<noteq> e) (entries l))"
proof -
  obtain l' c' out where d: "delete_in_blocks e l c = (l', c', out)"
    by (cases "delete_in_blocks e l c") auto
  note f = delete_in_blocks_entries [OF d]
  have p: "packed (pack_ptr_list l')"
    using blocks_ok_delete [OF d assms] by (rule packed_pack)
  consider "c \<le> 0" | "0 < c" "c \<le> int (count_list (entries l) e)"
    | "0 < c" "int (count_list (entries l) e) < c" by linarith
  then show ?thesis
  proof cases
    case 1 with d f p show ?thesis
      by (simp add: delete_ptr_list_entry_def delete_in_block_all)
  next
    case 2 with d f p show ?thesis
      by (simp add: delete_ptr_list_entry_def delete_in_block_enough)
  next
    case 3 with d f p show ?thesis
      by (simp add: delete_ptr_list_entry_def delete_in_block_few remove_first_all)
  qed
qed


lemma delete_ptr_list_entry_spec_witness:
  "packed [[1::nat, 2, 1], [1, 3]]
   \<and> delete_ptr_list_entry [[1::nat, 2, 1], [1, 3]] 1 2 = Some ([[2], [1, 3]], 0)
   \<and> entries [[2::nat], [1, 3]] = remove_first_n 1 2 [1, 2, 1, 1, 3]"
  using delete_ptr_list_entry_spec [of "[[1::nat, 2, 1], [1, 3]]" 1 2]
  by (simp add: delete_ptr_list_entry_def LIST_NODE_NR_def Let_def)

text \<open>
  C4. Replacement with a count: the first \<open>c\<close> occurrences are replaced in place (all of them
  for a count of 0 or less), the length of the list is unchanged, and too large a count fails.
\<close>

theorem replace_ptr_list_entry_spec:
  "case replace_ptr_list_entry l old new c of
     None \<Rightarrow> 0 < c \<and> int (count_list (entries l) old) < c
   | Some (l', k) \<Rightarrow>
       (if c > 0 then c \<le> int (count_list (entries l) old) \<and> k = 0
          \<and> entries l' = replace_first_n old new (nat c) (entries l)
        else k = c - int (count_list (entries l) old)
          \<and> entries l' = map (\<lambda>x. if x = old then new else x) (entries l))"
proof -
  obtain l' c' out where d: "replace_in_blocks old new l c = (l', c', out)"
    by (cases "replace_in_blocks old new l c") auto
  note f = replace_in_blocks_entries [OF d]
  consider "c \<le> 0" | "0 < c" "c \<le> int (count_list (entries l) old)"
    | "0 < c" "int (count_list (entries l) old) < c" by linarith
  then show ?thesis
  proof cases
    case 1 with d f show ?thesis
      by (simp add: replace_ptr_list_entry_def replace_in_block_all)
  next
    case 2 with d f show ?thesis
      by (simp add: replace_ptr_list_entry_def replace_in_block_enough)
  next
    case 3 with d f show ?thesis
      by (simp add: replace_ptr_list_entry_def replace_in_block_few)
  qed
qed

section \<open>Taking entries off the end\<close>

lemma undo_rev_spec:
  "undo_rev m = (m', r) \<Longrightarrow>
     r = (if entries (rev m) = [] then None else Some (last (entries (rev m))))
     \<and> entries (rev m') = butlast (entries (rev m)) \<and> length m' = length m"
  by (induction m arbitrary: m' r)
     (auto simp: Let_def butlast_append split: if_splits prod.splits)

lemma undo_ptr_list_last_spec:
  "undo_ptr_list_last l = (l', r) \<Longrightarrow>
     r = (if entries l = [] then None else Some (last (entries l)))
     \<and> entries l' = butlast (entries l) \<and> length l' = length l"
  using undo_rev_spec [of "rev l"]
  by (auto simp: undo_ptr_list_last_def Let_def split: prod.splits)

lemma delete_ptr_list_last_snoc:
  "b \<noteq> [] \<Longrightarrow> delete_ptr_list_last (l @ [b]) = (if butlast b = [] then l else l @ [butlast b], Some (last b))"
  by (cases b rule: rev_cases) (auto simp: delete_ptr_list_last_def Let_def)

text \<open>
  C5. Removing the last entry of a packed list undoes an append, keeps the list packed, and
  reports a null pointer exactly on the null list.
\<close>

theorem delete_ptr_list_last_spec:
  assumes "packed l"
  shows "packed (fst (delete_ptr_list_last l))
         \<and> entries (fst (delete_ptr_list_last l)) = butlast (entries l)
         \<and> snd (delete_ptr_list_last l) = (if l = [] then None else Some (last (entries l)))
         \<and> (let (l', r) = delete_ptr_list_last (add_ptr_list l x)
            in entries l' = entries l \<and> r = Some x)"
proof -
  have spec: "entries (fst (delete_ptr_list_last m)) = butlast (entries m)
        \<and> snd (delete_ptr_list_last m) = (if m = [] then None else Some (last (entries m)))
        \<and> packed (fst (delete_ptr_list_last m))" if "packed m" for m :: "'a ptr_list"
  proof (cases m rule: snoc_cases)
    case (2 m' b)
    with that show ?thesis
      by (auto simp: delete_ptr_list_last_snoc butlast_append LIST_NODE_NR_def)
  qed (simp add: delete_ptr_list_last_def)
  from assms have "packed (add_ptr_list l x)" "add_ptr_list l x \<noteq> []"
    by (simp_all, simp add: add_ptr_list_def)
  with spec [of "add_ptr_list l x"] spec [OF assms] show ?thesis
    by (auto simp: Let_def split: prod.splits)
qed

lemma delete_ptr_list_last_spec_witness:
  "packed [[1::nat, 2], [3]] \<and> delete_ptr_list_last [[1::nat, 2], [3]] = ([[1, 2]], Some 3)"
  using delete_ptr_list_last_spec [of "[[1::nat, 2], [3]]" 0]
  by (simp add: delete_ptr_list_last_def LIST_NODE_NR_def)

section \<open>Inserting at a cursor\<close>

lemma split_nth:
  assumes "i < length l"
  shows "split_ptr_list_head l i ! i = take (length (l ! i) - length (l ! i) div 2) (l ! i)"
    and "split_ptr_list_head l i ! Suc i = drop (length (l ! i) - length (l ! i) div 2) (l ! i)"
    and "take i (split_ptr_list_head l i) = take i l"
  using assms by (simp_all add: split_ptr_list_head_def Let_def nth_append)

lemma split_current_pos:
  assumes "cur_ok l (i, n)" "split_current l (i, n) = (l', c')"
  shows "cur_pos l' c' = cur_pos l (i, n) \<and> fst c' < length l' \<and> snd c' \<le> length (l' ! fst c')"
proof -
  let ?s = "split_ptr_list_head l i"
  from assms have i: "i < length l" "n < length (l ! i)" by (simp_all add: cur_ok_def)
  have t: "take (Suc i) ?s = take i l @ [take (length (l ! i) - length (l ! i) div 2) (l ! i)]"
    using i split_nth [of i l] by (simp add: take_Suc_conv_app_nth)
  from assms(2) i show ?thesis
    by (auto simp: Let_def cur_pos_def split_nth t split: if_splits)
qed

lemma insert_at:
  assumes "i < length l" "n \<le> length (l ! i)"
  shows "entries (l[i := take n (l ! i) @ [x] @ drop n (l ! i)])
           = take (cur_pos l (i, n)) (entries l) @ [x] @ drop (cur_pos l (i, n)) (entries l)"
  using assms entries_at [OF assms(1)]
  by (simp add: entries_update cur_pos_def) (simp add: entries_def)

text \<open>
  C3. Inserting before the cursor adds the entry at the cursor's position, whether or not the
  block had to be split, keeps every block within its bound, and leaves the cursor on the new
  entry.
\<close>

theorem insert_current_spec:
  assumes "blocks_ok l" "cur_ok l c" "insert_current x l c = (l', c')"
  shows "entries l' = take (cur_pos l c) (entries l) @ [x] @ drop (cur_pos l c) (entries l)
         \<and> blocks_ok l' \<and> cur_ok l' c' \<and> cur_pos l' c' = cur_pos l c
         \<and> l' ! fst c' ! snd c' = x"
proof -
  obtain i n where c: "c = (i, n)" by (cases c)
  from assms(2) c have i: "i < length l" "n < length (l ! i)" by (simp_all add: cur_ok_def)
  define m where "m = (if length (l ! i) = LIST_NODE_NR then split_current l c else (l, c))"
  obtain l1 j k where m1: "m = (l1, j, k)" by (cases m)
  have b1: "entries l1 = entries l \<and> blocks_ok l1 \<and> cur_pos l1 (j, k) = cur_pos l c
      \<and> j < length l1 \<and> k \<le> length (l1 ! j) \<and> length (l1 ! j) < LIST_NODE_NR"
  proof (cases "length (l ! i) = LIST_NODE_NR")
    case True
    with m1 have s: "split_current l (i, n) = (l1, j, k)" by (simp add: m_def c)
    then have "l1 = split_ptr_list_head l i \<and> j \<in> {i, Suc i}"
      by (auto simp: Let_def split: if_splits)
    with True i split_nth [of i l] have "length (l1 ! j) < LIST_NODE_NR"
      by (auto simp: LIST_NODE_NR_def)
    with s split_current_pos [OF _ s] i assms(1) c show ?thesis
      by (auto simp: Let_def cur_ok_def entries_split blocks_ok_split)
  next
    case False
    with m1 i c assms(1) blocks_ok_nth [OF assms(1) i(1)] show ?thesis
      by (auto simp: m_def)
  qed
  have "insert_current x l c = (let (l', (i, n)) = m; b = l' ! i in (l'[i := take n b @ [x] @ drop n b], (i, n)))"
    by (simp add: insert_current_def m_def c)
  with assms(3) m1 have l': "l' = l1[j := take k (l1 ! j) @ [x] @ drop k (l1 ! j)]" "c' = (j, k)"
    by (simp_all add: Let_def)
  from b1 insert_at [of j l1 k x]
  have "entries l' = take (cur_pos l c) (entries l) @ [x] @ drop (cur_pos l c) (entries l)"
    by (simp add: l')
  with b1 l' show ?thesis
    by (auto simp: blocks_ok_update cur_ok_def cur_pos_def nth_append)
qed

lemma insert_current_spec_witness:
  "\<exists>l' c'. insert_current 0 [[1 ..< 30], [30::nat]] (0, 20) = (l', c')
     \<and> length l' = 3 \<and> blocks_ok l' \<and> l' ! fst c' ! snd c' = 0"
proof -
  let ?l = "[[1 ..< 30], [30::nat]]"
  have h: "blocks_ok ?l" "cur_ok ?l (0, 20)"
    by (simp_all add: LIST_NODE_NR_def cur_ok_def)
  obtain l' c' where e: "insert_current 0 ?l (0, 20) = (l', c')"
    by (cases "insert_current 0 ?l (0, 20)") auto
  then have "length l' = 3"
    by (auto simp: insert_current_def LIST_NODE_NR_def Let_def split: if_splits)
  with insert_current_spec [OF h e] e show ?thesis by blast
qed

end
