(* ===== verification/Char_Stream.thy ===== *)
theory Char_Stream
  imports Sparse_Prelude
begin

text \<open>
  The input side of the tokenizer (\<open>nextchar\<close> and \<open>nextchar_slow\<close> of
  \<open>tokenize.c\<close>): characters come out of a buffer that is refilled by \<open>read\<close>, line ends
  are normalised, backslash-newline pairs are removed, and the position is kept. The results of
  the successive \<open>read\<close> calls are the field \<open>chunks\<close>: a chunk of length 0 is a
  \<open>size <= 0\<close> return, and no further chunk is end of file. A C \<open>int\<close> that is a byte or
  \<open>EOF\<close> is a \<open>char option\<close>.
\<close>

abbreviation NL :: char where "NL \<equiv> CHR 0x0A"
abbreviation CR :: char where "CR \<equiv> CHR 0x0D"
abbreviation TAB :: char where "TAB \<equiv> CHR 0x09"
abbreviation BSL :: char where "BSL \<equiv> CHR 0x5C"

text \<open>
  The fields of \<open>stream_t\<close> the character level uses; \<open>fd\<close> says that the descriptor is not
  negative, \<open>tabstop\<close> is the global of that name and \<open>warnings\<close> collects the messages.
\<close>

datatype warn =
    NoNewlineAtEOF | BackslashNewlineAtEOF | NewlineInString | EOFInString | HexNoDigits
  | UnknownEscape char | StringTooLong nat | EOFInComment | NumberTooLong | EmptyCharConstant

record stream_t =
  fd :: bool
  chunks :: "string list"
  buffer :: string
  offset :: nat
  pos :: nat
  line :: nat
  newline :: bool
  whitespace :: bool
  warnings :: "warn list"
  tabstop :: nat

definition warn :: "warn \<Rightarrow> ('a) stream_t_scheme \<Rightarrow> ('a) stream_t_scheme" where
  "warn w st = st\<lparr>warnings := warnings st @ [w]\<rparr>"

text \<open>What has not been consumed yet.\<close>

fun read_all :: "string list \<Rightarrow> string" where
  "read_all [] = []"
| "read_all (c # cs) = (if c = [] then [] else c @ read_all cs)"

definition pending :: "('a) stream_t_scheme \<Rightarrow> nat \<Rightarrow> string" where
  "pending st off = drop off (buffer st) @ (if fd st then read_all (chunks st) else [])"

definition remaining :: "('a) stream_t_scheme \<Rightarrow> string" where
  "remaining st = pending st (offset st)"

section \<open>Fetching a byte\<close>

text \<open>
  The head of \<open>repeat:\<close>: refill when the buffer is used up. \<open>None\<close> is \<open>goto got_eof\<close>;
  otherwise the byte at the (local) offset, with the stream and the advanced offset.
\<close>

definition fetch :: "('a) stream_t_scheme \<Rightarrow> nat \<Rightarrow> (char \<times> ('a) stream_t_scheme \<times> nat) option" where
  "fetch st off =
     (if off \<ge> length (buffer st) then
        (if \<not> fd st then None
         else (case chunks st of
                 [] \<Rightarrow> None
               | c # cs \<Rightarrow>
                   (case c of
                      [] \<Rightarrow> None
                    | x # xs \<Rightarrow> Some (x, st\<lparr>buffer := c, offset := 0, chunks := cs\<rparr>, 1))))
      else Some (buffer st ! off, st, Suc off))"

lemma pending_upd [simp]:
  "pending (st\<lparr>pos := p\<rparr>) off = pending st off"
  "pending (st\<lparr>line := l\<rparr>) off = pending st off"
  "pending (st\<lparr>newline := b\<rparr>) off = pending st off"
  "pending (st\<lparr>whitespace := b\<rparr>) off = pending st off"
  "pending (st\<lparr>offset := k\<rparr>) off = pending st off"
  "pending (st\<lparr>warnings := w\<rparr>) off = pending st off"
  "pending (warn m st) off = pending st off"
  by (simp_all add: pending_def warn_def)

lemma fetch_pending:
  "fetch st off = Some (x, st', off') \<Longrightarrow> pending st off = x # pending st' off' \<and> 0 < off'
     \<and> pending st' (off' - 1) = pending st off \<and> fd st' = fd st
     \<and> pos st' = pos st \<and> line st' = line st \<and> newline st' = newline st"
  by (auto simp: fetch_def pending_def Cons_nth_drop_Suc [symmetric] not_le
      split: if_splits list.splits)

lemma fetch_length:
  "fetch st off = Some (x, st', off') \<Longrightarrow> length (pending st off) = Suc (length (pending st' off'))
     \<and> length (pending st' (off' - Suc 0)) = Suc (length (pending st' off'))"
  using fetch_pending [of st off x st' off'] by simp

lemma fetch_None: "fetch st off = None \<Longrightarrow> pending st off = []"
  by (auto simp: fetch_def pending_def split: if_splits list.splits)

section \<open>The slow path\<close>

text \<open>What \<open>got_eof\<close> does.\<close>

definition slow_eof :: "('a) stream_t_scheme \<Rightarrow> nat \<Rightarrow> bool \<Rightarrow> bool \<Rightarrow> char option \<times> ('a) stream_t_scheme" where
  "slow_eof st off had_backslash spliced =
     (if had_backslash then (Some BSL, st\<lparr>offset := off\<rparr>)
      else if pos st \<noteq> 0 then (None, warn NoNewlineAtEOF st)
      else if spliced then (None, warn BackslashNewlineAtEOF st)
      else (None, st))"

text \<open>The switch of \<open>norm:\<close> for a byte other than a backslash, not after a backslash.\<close>

definition count_char :: "char \<Rightarrow> ('a) stream_t_scheme \<Rightarrow> ('a) stream_t_scheme" where
  "count_char c st =
     (if c = TAB then st\<lparr>pos := pos st + (tabstop st - pos st mod tabstop st)\<rparr>
      else if c = NL then st\<lparr>line := Suc (line st), pos := 0, newline := True\<rparr>
      else st\<lparr>pos := Suc (pos st)\<rparr>)"

text \<open>
  The loop made of the labels \<open>restart\<close>, \<open>repeat\<close>, \<open>norm\<close> and \<open>check_lf\<close>; the
  flags are its state.
\<close>

function nextchar_slow_loop ::
    "('a) stream_t_scheme \<Rightarrow> nat \<Rightarrow> bool \<Rightarrow> bool \<Rightarrow> bool \<Rightarrow> char option \<times> ('a) stream_t_scheme" where
  "nextchar_slow_loop st off had_cr had_backslash spliced =
     (case fetch st off of
        None \<Rightarrow> slow_eof st off had_backslash spliced
      | Some (c0, st1, off1) \<Rightarrow>
          if \<not> had_cr \<and> c0 = CR then nextchar_slow_loop st1 off1 True had_backslash spliced
          else
            (let off2 = (if had_cr \<and> c0 \<noteq> NL then off1 - 1 else off1);
                 c = (if had_cr then NL else c0)
             in if \<not> had_backslash then
                  (if c = BSL then
                     nextchar_slow_loop (st1\<lparr>pos := Suc (pos st1)\<rparr>) off2 had_cr True spliced
                   else (Some c, (count_char c st1)\<lparr>offset := off2\<rparr>))
                else
                  (if c = NL then
                     nextchar_slow_loop (st1\<lparr>line := Suc (line st1), pos := 0\<rparr>) off2 False False True
                   else (Some BSL, st1\<lparr>offset := off2 - 1\<rparr>))))"
  by pat_completeness auto
termination
proof (relation "measure (\<lambda>(st, off, cr, bs, sp). 2 * length (pending st off) + (if cr then 1 else 0))",
    goal_cases)
  case 1
  show ?case by simp
qed (auto dest!: fetch_length)

declare nextchar_slow_loop.simps [simp del]

definition nextchar_slow :: "('a) stream_t_scheme \<Rightarrow> char option \<times> ('a) stream_t_scheme" where
  "nextchar_slow st = nextchar_slow_loop st (offset st) False False False"

text \<open>The fast path, for a buffered byte that needs no care.\<close>

definition nextchar :: "('a) stream_t_scheme \<Rightarrow> char option \<times> ('a) stream_t_scheme" where
  "nextchar st =
     (if offset st < length (buffer st)
         \<and> buffer st ! offset st \<notin> {TAB, CR, NL, BSL}
      then (Some (buffer st ! offset st), st\<lparr>offset := Suc (offset st), pos := Suc (pos st)\<rparr>)
      else nextchar_slow st)"

section \<open>The text the tokenizer sees\<close>

text \<open>
  The specification works on the whole text: a CR LF pair or a lone CR is one newline (a CR
  at the very end is dropped), and a backslash before a newline removes both.
\<close>

fun crlf :: "string \<Rightarrow> string" where
  "crlf [] = []"
| "crlf [c] = (if c = CR then [] else [c])"
| "crlf (c # d # cs) =
     (if c = CR then (if d = NL then NL # crlf cs else NL # crlf (d # cs)) else c # crlf (d # cs))"

fun splice :: "string \<Rightarrow> string" where
  "splice [] = []"
| "splice [c] = [c]"
| "splice (c # d # cs) = (if c = BSL \<and> d = NL then splice cs else c # splice (d # cs))"

definition logical :: "string \<Rightarrow> string" where
  "logical s = splice (crlf s)"

lemma crlf_Cons: "c \<noteq> CR \<Longrightarrow> crlf (c # cs) = c # crlf cs"
  by (cases cs) auto

lemma crlf_CR: "crlf (CR # d # cs) = NL # crlf (if d = NL then cs else d # cs)"
  by simp

lemma splice_Cons: "c \<noteq> BSL \<Longrightarrow> splice (c # cs) = c # splice cs"
  by (cases cs) auto

lemma splice_BSL: "(\<And>ds. cs \<noteq> NL # ds) \<Longrightarrow> splice (BSL # cs) = BSL # splice cs"
  by (cases cs) auto

lemma char_neqs [simp]:
  "BSL \<noteq> NL" "NL \<noteq> BSL" "CR \<noteq> NL" "NL \<noteq> CR" "CR \<noteq> BSL" "BSL \<noteq> CR" "TAB \<noteq> NL" "TAB \<noteq> BSL" "TAB \<noteq> CR"
  by simp_all

lemma count_char_fields [simp]:
  "fd (count_char c st) = fd st" "buffer (count_char c st) = buffer st"
  "chunks (count_char c st) = chunks st" "pending (count_char c st) off = pending st off"
  "line (count_char c st) = line st + (if c = NL then 1 else 0)"
  "offset (count_char c st) = offset st"
  by (auto simp: count_char_def)

definition tail_of :: "('a) stream_t_scheme \<Rightarrow> nat \<Rightarrow> bool \<Rightarrow> string" where
  "tail_of st off cr = crlf ((if cr then [CR] else []) @ pending st off)"

text \<open>
  The loop delivers the first logical character. For a character, the line number plus the
  newlines still to come is conserved.
\<close>

lemma slow_loop_spec:
  assumes "nextchar_slow_loop st off cr bs sp = (r, st')"
  shows "case r of
           None \<Rightarrow> splice ((if bs then [BSL] else []) @ tail_of st off cr) = []
         | Some c \<Rightarrow> splice ((if bs then [BSL] else []) @ tail_of st off cr) = c # logical (remaining st')
             \<and> line st' + count_list (crlf (remaining st')) NL = line st + count_list (tail_of st off cr) NL"
  using assms
proof (induction st off cr bs sp arbitrary: r st' rule: nextchar_slow_loop.induct)
  case (1 st off cr bs sp)
  note unfold = nextchar_slow_loop.simps [of st off cr bs sp]
  show ?case
  proof (cases "fetch st off")
    case None
    with "1.prems" fetch_None [OF None] show ?thesis
      by (auto simp: unfold slow_eof_def tail_of_def remaining_def logical_def split: if_splits)
  next
    case (Some x)
    then obtain c0 st1 off1 where f: "fetch st off = Some (c0, st1, off1)" by (cases x) auto
    note fp = fetch_pending [OF f]
    define off2 where "off2 = (if cr \<and> c0 \<noteq> NL then off1 - 1 else off1)"
    define c where "c = (if cr then NL else c0)"
    show ?thesis
    proof (cases "\<not> cr \<and> c0 = CR")
      case True
      then have "nextchar_slow_loop st off cr bs sp = nextchar_slow_loop st1 off1 True bs sp"
        unfolding unfold using f by simp
      with "1.prems" have "nextchar_slow_loop st1 off1 True bs sp = (r, st')" by simp
      moreover have "tail_of st off cr = tail_of st1 off1 True"
        using True fp by (simp add: tail_of_def)
      ultimately show ?thesis using "1.IH"(1) [OF f refl refl True] fp by (cases r) simp_all
    next
      case False
      have tail: "tail_of st off cr = c # crlf (pending st1 off2)"
        using False fp by (auto simp: tail_of_def c_def off2_def crlf_CR crlf_Cons)
      have run: "nextchar_slow_loop st off cr bs sp =
          (if \<not> bs then
             (if c = BSL then nextchar_slow_loop (st1\<lparr>pos := Suc (pos st1)\<rparr>) off2 cr True sp
              else (Some c, (count_char c st1)\<lparr>offset := off2\<rparr>))
           else
             (if c = NL then nextchar_slow_loop (st1\<lparr>line := Suc (line st1), pos := 0\<rparr>) off2 False False True
              else (Some BSL, st1\<lparr>offset := off2 - 1\<rparr>)))"
        using f False by (auto simp: unfold c_def off2_def Let_def)
      consider (bsl) "\<not> bs" "c = BSL" | (plain) "\<not> bs" "c \<noteq> BSL" | (nl) "bs" "c = NL" | (other) "bs" "c \<noteq> NL"
        by blast
      then show ?thesis
      proof cases
        case bsl
        then have "\<not> cr" by (auto simp: c_def split: if_splits)
        with bsl run "1.prems" "1.IH"(2) [OF f refl refl False off2_def c_def, of r st'] tail fp show ?thesis
          by (auto simp: tail_of_def split: option.splits)
      next
        case plain
        with run "1.prems" tail fp show ?thesis
          by (auto simp: remaining_def logical_def splice_Cons)
      next
        case nl
        with run "1.prems" "1.IH"(3) [OF f refl refl False off2_def c_def, of r st'] tail fp show ?thesis
          by (auto simp: tail_of_def split: option.splits)
      next
        case other
        then have cr: "\<not> cr" "c = c0" "c0 \<noteq> CR" "c0 \<noteq> NL" "off2 = off1"
          using False by (auto simp: c_def off2_def split: if_splits)
        with fp have "pending st1 (off2 - 1) = c0 # pending st1 off2" by simp
        with other cr run "1.prems" tail fp show ?thesis
          by (auto simp: remaining_def logical_def splice_BSL crlf_Cons)
      qed
    qed
  qed
qed

lemma nextchar_logical:
  "case nextchar st of
     (None, st') \<Rightarrow> logical (remaining st) = []
   | (Some c, st') \<Rightarrow> logical (remaining st) = c # logical (remaining st')
       \<and> line st' + count_list (crlf (remaining st')) NL = line st + count_list (crlf (remaining st)) NL"
proof (cases "offset st < length (buffer st) \<and> buffer st ! offset st \<notin> {TAB, CR, NL, BSL}")
  case True
  then have "pending st (offset st) = buffer st ! offset st # pending st (Suc (offset st))"
    by (simp add: pending_def Cons_nth_drop_Suc)
  with True show ?thesis
    by (auto simp: nextchar_def remaining_def logical_def crlf_Cons splice_Cons)
next
  case False
  then have "nextchar st = nextchar_slow_loop st (offset st) False False False"
    by (simp only: nextchar_def nextchar_slow_def if_False)
  then show ?thesis
    using slow_loop_spec [of st "offset st" False False False]
    by (cases "nextchar_slow_loop st (offset st) False False False")
       (auto simp: tail_of_def remaining_def logical_def split: option.splits)
qed

text \<open>
  C6. Whatever way \<open>read\<close> cuts the file into buffers, one call of \<open>nextchar\<close> delivers the
  first character of the text with line ends normalised and continued lines joined, leaves the
  stream in front of the rest of that text, and keeps the line number equal to the physical lines
  passed; end of file is reported exactly when no character is left.
\<close>

theorem nextchar_spec:
  "case nextchar st of
     (None, st') \<Rightarrow> logical (remaining st) = []
   | (Some c, st') \<Rightarrow> logical (remaining st) = c # logical (remaining st')
       \<and> line st' + count_list (crlf (remaining st')) NL = line st + count_list (crlf (remaining st)) NL"
  by (rule nextchar_logical)

section \<open>Reading a whole text\<close>

text \<open>Up to \<open>n\<close> calls of \<open>nextchar\<close>, stopping at end of file.\<close>

fun drain :: "nat \<Rightarrow> ('a) stream_t_scheme \<Rightarrow> string" where
  "drain 0 st = []"
| "drain (Suc n) st =
     (case nextchar st of (None, _) \<Rightarrow> [] | (Some c, st') \<Rightarrow> c # drain n st')"

text \<open>
  C7. The characters delivered do not depend on the buffering: they are the normalised and
  joined text, in order, and enough calls deliver all of it.
\<close>

theorem drain_logical: "drain n st = take n (logical (remaining st))"
proof (induction n arbitrary: st)
  case (Suc n)
  show ?case
    using nextchar_logical [of st] Suc.IH by (auto split: prod.splits option.splits)
qed simp

text \<open>The measure of the tokenizer's loops: characters left, and one for a pending one.\<close>

definition left_chars :: "char option \<Rightarrow> ('a) stream_t_scheme \<Rightarrow> nat" where
  "left_chars c st = (case c of None \<Rightarrow> 0 | Some _ \<Rightarrow> Suc (length (logical (remaining st))))"

lemma left_chars_nextchar:
  "nextchar st = (c', st') \<Longrightarrow> left_chars c' st' \<le> length (logical (remaining st))"
  using nextchar_logical [of st] by (auto simp: left_chars_def split: option.splits)

lemma left_chars_less [termination_simp]:
  "nextchar st = (c', st') \<Longrightarrow> left_chars c' st' < left_chars (Some c) st"
  using left_chars_nextchar [of st c' st'] by (simp add: left_chars_def)

lemma left_chars_less2 [termination_simp]:
  assumes "nextchar st = (Some d, st1)" "nextchar st1 = (c', st')"
  shows "left_chars c' st' < left_chars (Some c) st"
  using left_chars_less [OF assms(1), of c] left_chars_less [OF assms(2), of d] by linarith

lemma logical_rest_ext:
  "remaining (st\<lparr>newline := b\<rparr>) = remaining st"
  "remaining (st\<lparr>whitespace := b\<rparr>) = remaining st"
  "remaining (warn w st) = remaining st"
  by (simp_all add: remaining_def warn_def)

end
