(* ===== verification/Tokenize.thy ===== *)
theory Tokenize
  imports Char_Stream
begin

text \<open>
  The tokenizer proper (\<open>tokenize.c\<close>): character classes, numbers, strings and character
  constants, comments, punctuators, identifiers and their hash table, and the main loop over a
  stream. The stream is the record of \<open>Char_Stream\<close> extended with the pending white space, the
  token list built so far and the position of the token being read.
\<close>

section \<open>Tokens\<close>

datatype token_type =
    TOKEN_EOF | TOKEN_ERROR | TOKEN_IDENT | TOKEN_ZERO_IDENT | TOKEN_NUMBER
  | TOKEN_CHAR | TOKEN_CHAR_EMBEDDED_0 | TOKEN_CHAR_EMBEDDED_1 | TOKEN_CHAR_EMBEDDED_2
  | TOKEN_CHAR_EMBEDDED_3 | TOKEN_WIDE_CHAR | TOKEN_WIDE_CHAR_EMBEDDED_0
  | TOKEN_WIDE_CHAR_EMBEDDED_1 | TOKEN_WIDE_CHAR_EMBEDDED_2 | TOKEN_WIDE_CHAR_EMBEDDED_3
  | TOKEN_STRING | TOKEN_WIDE_STRING | TOKEN_SPECIAL | TOKEN_STREAMBEGIN | TOKEN_STREAMEND
  | TOKEN_MACRO_ARGUMENT | TOKEN_STR_ARGUMENT | TOKEN_QUOTED_ARGUMENT | TOKEN_CONCAT
  | TOKEN_GNU_KLUDGE | TOKEN_UNTAINT | TOKEN_ARG_COUNT | TOKEN_IF | TOKEN_SKIP_GROUPS
  | TOKEN_ELSE | TOKEN_CONS

text \<open>The enumeration values, for the arithmetic the code does on them.\<close>

definition token_types :: "token_type list" where
  "token_types =
    [TOKEN_EOF, TOKEN_ERROR, TOKEN_IDENT, TOKEN_ZERO_IDENT, TOKEN_NUMBER,
     TOKEN_CHAR, TOKEN_CHAR_EMBEDDED_0, TOKEN_CHAR_EMBEDDED_1, TOKEN_CHAR_EMBEDDED_2,
     TOKEN_CHAR_EMBEDDED_3, TOKEN_WIDE_CHAR, TOKEN_WIDE_CHAR_EMBEDDED_0,
     TOKEN_WIDE_CHAR_EMBEDDED_1, TOKEN_WIDE_CHAR_EMBEDDED_2, TOKEN_WIDE_CHAR_EMBEDDED_3,
     TOKEN_STRING, TOKEN_WIDE_STRING, TOKEN_SPECIAL, TOKEN_STREAMBEGIN, TOKEN_STREAMEND,
     TOKEN_MACRO_ARGUMENT, TOKEN_STR_ARGUMENT, TOKEN_QUOTED_ARGUMENT, TOKEN_CONCAT,
     TOKEN_GNU_KLUDGE, TOKEN_UNTAINT, TOKEN_ARG_COUNT, TOKEN_IF, TOKEN_SKIP_GROUPS,
     TOKEN_ELSE, TOKEN_CONS]"

definition tt_code :: "token_type \<Rightarrow> nat" where
  "tt_code t = length (takeWhile (\<lambda>u. u \<noteq> t) token_types)"

text \<open>The union of a token; \<open>token->string\<close> is the text without its final NUL.\<close>

datatype tok_val =
    VNone | VNumber string | VIdent string | VSpecial nat | VString string | VEmbedded string

record position =
  p_stream :: int
  p_newline :: bool
  p_whitespace :: bool
  p_pos :: nat
  p_line :: nat

record token =
  tok_type :: token_type
  tok_pos :: position
  tok_space :: "string option"
  tok_val :: tok_val

record lexer = stream_t +
  nr :: int
  space :: "string option"
  cur :: "token option"
  tokens :: "token list"

text \<open>\<open>pos\<close> and \<open>line\<close> are bit-fields of 10 and 31 bits in \<open>struct position\<close>.\<close>

definition stream_pos :: "lexer \<Rightarrow> position" where
  "stream_pos st =
     \<lparr>p_stream = nr st, p_newline = newline st, p_whitespace = whitespace st,
      p_pos = pos st mod 2 ^ 10, p_line = line st mod 2 ^ 31\<rparr>"

definition alloc_token_stream :: "lexer \<Rightarrow> token" where
  "alloc_token_stream st =
     \<lparr>tok_type = TOKEN_EOF, tok_pos = stream_pos st, tok_space = space st, tok_val = VNone\<rparr>"

definition token_push_space :: "string \<Rightarrow> lexer \<Rightarrow> lexer" where
  "token_push_space c st =
     st\<lparr>space := Some ((case space st of None \<Rightarrow> [] | Some s \<Rightarrow> s) @ c)\<rparr>"

text \<open>
  The current token gets its type and value, the white space collected so far, and goes to
  the end of the list.
\<close>

definition add_token :: "token_type \<Rightarrow> tok_val \<Rightarrow> lexer \<Rightarrow> lexer" where
  "add_token ty v st =
     (case cur st of
        None \<Rightarrow> st
      | Some t \<Rightarrow>
          st\<lparr>cur := None, space := None,
             tokens := tokens st @ [t\<lparr>tok_type := ty, tok_val := v, tok_space := space st\<rparr>]\<rparr>)"

definition drop_token :: "lexer \<Rightarrow> lexer" where
  "drop_token st =
     (case cur st of
        None \<Rightarrow> st
      | Some t \<Rightarrow>
          st\<lparr>newline := (newline st \<or> p_newline (tok_pos t)),
             whitespace := (whitespace st \<or> p_whitespace (tok_pos t)), cur := None\<rparr>)"

definition mark_eof :: "lexer \<Rightarrow> lexer" where
  "mark_eof st =
     (let e = alloc_token_stream st in
      st\<lparr>tokens := tokens st @
          [e\<lparr>tok_type := TOKEN_STREAMEND, tok_space := None, tok_pos := (tok_pos e)\<lparr>p_newline := True\<rparr>\<rparr>]\<rparr>)"

section \<open>Character classes\<close>

text \<open>\<open>cclass[c + 1]\<close>: one predicate per bit; \<open>EOF\<close> is in no class.\<close>

definition Letter :: "char option \<Rightarrow> bool" where
  "Letter c = (case c of None \<Rightarrow> False
     | Some x \<Rightarrow> x \<in> set ''ABCDEFGHIJKLMNOPQRSTUVWXYZabcdefghijklmnopqrstuvwxyz_'')"

definition Digit :: "char option \<Rightarrow> bool" where
  "Digit c = (case c of None \<Rightarrow> False | Some x \<Rightarrow> x \<in> set ''0123456789'')"

definition Hex :: "char option \<Rightarrow> bool" where
  "Hex c = (case c of None \<Rightarrow> False | Some x \<Rightarrow> x \<in> set ''0123456789ABCDEFabcdef'')"

definition Exp :: "char option \<Rightarrow> bool" where
  "Exp c = (case c of None \<Rightarrow> False | Some x \<Rightarrow> x \<in> set ''EPep'')"

definition Dot :: "char option \<Rightarrow> bool" where
  "Dot c = (case c of None \<Rightarrow> False | Some x \<Rightarrow> x = CHR ''.'')"

definition ValidSecond :: "char option \<Rightarrow> bool" where
  "ValidSecond c = (case c of None \<Rightarrow> False | Some x \<Rightarrow> x \<in> set ''.=+-><&|#'')"

definition Quote :: "char option \<Rightarrow> bool" where
  "Quote c = (case c of None \<Rightarrow> False | Some x \<Rightarrow> x = CHR 0x27 \<or> x = CHR 0x22)"

definition Escape :: "char option \<Rightarrow> bool" where
  "Escape c = (case c of None \<Rightarrow> False
     | Some x \<Rightarrow> x \<in> set ''01234567abefnrtvx?'' \<or> x = CHR 0x27 \<or> x = CHR 0x22 \<or> x = BSL)"

section \<open>Numbers\<close>

definition num_push :: "string \<Rightarrow> char \<Rightarrow> string" where
  "num_push buf c = (if length buf \<noteq> 4095 then buf @ [c] else buf)"

function number_loop :: "string \<Rightarrow> char option \<Rightarrow> lexer \<Rightarrow> string \<times> char option \<times> lexer" where
  "number_loop buf nxt st =
     (case nxt of
        None \<Rightarrow> (buf, nxt, st)
      | Some c \<Rightarrow>
          if \<not> (Dot nxt \<or> Digit nxt \<or> Letter nxt) then (buf, nxt, st)
          else
            (let buf1 = num_push buf c; (n1, st1) = nextchar st in
             case n1 of
               None \<Rightarrow> number_loop buf1 n1 st1
             | Some s \<Rightarrow>
                 if Exp nxt \<and> (s = CHR ''-'' \<or> s = CHR ''+'') then
                   (let (n2, st2) = nextchar st1 in number_loop (num_push buf1 s) n2 st2)
                 else number_loop buf1 n1 st1))"
  by pat_completeness auto
termination
  by (relation "measure (\<lambda>(buf, nxt, st). left_chars nxt st)")
     (auto dest!: sym [of _ "nextchar _"] split: prod.splits
        intro: left_chars_less left_chars_less2)

declare number_loop.simps [simp del]

definition get_one_number :: "char \<Rightarrow> char option \<Rightarrow> lexer \<Rightarrow> char option \<times> lexer" where
  "get_one_number c nxt st =
     (let (buf, n, st1) = number_loop [c] nxt st;
          (text, st2) = (if length buf = 4095 then (''1'', warn NumberTooLong st1) else (buf, st1))
      in (n, add_token TOKEN_NUMBER (VNumber text) st2))"

section \<open>Strings and character constants\<close>

definition MAX_STRING :: nat where
  "MAX_STRING = 8191"

text \<open>
  The loop of \<open>eat_string\<close>. \<open>None\<close> as first component is the early return at end of file;
  otherwise the buffer, the length (which counts past the buffer) and \<open>want_hex\<close>.
\<close>

function eat_loop ::
    "char \<Rightarrow> char option \<Rightarrow> string \<Rightarrow> nat \<Rightarrow> bool \<Rightarrow> bool \<Rightarrow> lexer
     \<Rightarrow> (string \<times> nat \<times> bool) option \<times> lexer" where
  "eat_loop delim nxt buf len escape want_hex st =
     (if \<not> escape \<and> nxt = Some delim then (Some (buf, len, want_hex), st)
      else
        (case nxt of
           None \<Rightarrow> (None, warn EOFInString st)
         | Some c \<Rightarrow>
             (let buf1 = (if len < MAX_STRING then buf @ [c] else buf);
                  st1 = (if c = NL then warn NewlineInString st else st)
              in if c = NL \<and> delim = CHR 0x27 then (Some (buf1, Suc len, want_hex), st1)
              else if \<not> escape then
                (let st2 = (if want_hex \<and> \<not> Hex nxt then warn HexNoDigits st1 else st1);
                     (n, st3) = nextchar st2
                 in eat_loop delim n buf1 (Suc len) (c = BSL) False st3)
              else
                (let st2 = (if \<not> Escape nxt then warn (UnknownEscape c) st1 else st1);
                     (n, st3) = nextchar st2
                 in eat_loop delim n buf1 (Suc len) False (c = CHR ''x'') st3))))"
  by pat_completeness auto
termination
proof (relation "measure (\<lambda>(delim, nxt, buf, len, escape, want_hex, st). left_chars nxt st)", goal_cases)
  case 1
  show ?case by simp
qed (force dest!: sym [of _ "nextchar _"] dest: left_chars_less simp: left_chars_def logical_rest_ext
      split: if_splits)+

declare eat_loop.simps [simp del]

definition embedded_type :: "token_type \<Rightarrow> nat \<Rightarrow> token_type" where
  "embedded_type ty len = token_types ! (tt_code ty + len)"

definition eat_string :: "char option \<Rightarrow> lexer \<Rightarrow> token_type \<Rightarrow> char option \<times> lexer" where
  "eat_string nxt st ty =
     (let delim = (if tt_code ty < tt_code TOKEN_STRING then CHR 0x27 else CHR 0x22) in
      case eat_loop delim nxt [] 0 False False st of
        (None, st1) \<Rightarrow> (None, st1)
      | (Some (buf, len, want_hex), st1) \<Rightarrow>
          (let st2 = (if want_hex then warn HexNoDigits st1 else st1);
               (len', st3) = (if len > MAX_STRING then (MAX_STRING, warn (StringTooLong len) st2)
                              else (len, st2))
           in if delim = CHR 0x27 \<and> len' \<le> 4 then
                (if len' = 0 then nextchar (warn EmptyCharConstant st3)
                 else nextchar (add_token (embedded_type ty len')
                        (VEmbedded (take len' buf @ replicate (4 - len') (CHR 0x00))) st3))
              else nextchar (add_token ty (VString (take len' buf)) st3)))"

section \<open>Comments\<close>

lemma remaining_ext [simp]:
  "remaining (token_push_space c st) = remaining st"
  "remaining (add_token ty v st) = remaining st"
  "remaining (drop_token st) = remaining st"
  "remaining (st\<lparr>cur := t\<rparr>) = remaining st"
  "remaining (st\<lparr>space := sp\<rparr>) = remaining st"
  "remaining (st\<lparr>tokens := ts\<rparr>) = remaining st"
  by (simp_all add: remaining_def pending_def token_push_space_def add_token_def drop_token_def
      split: option.splits)

lemma nextchar_less:
  "nextchar st = (Some c, st') \<Longrightarrow> length (logical (remaining st')) < length (logical (remaining st))"
  using nextchar_logical [of st] by simp

function eoln_loop :: "lexer \<Rightarrow> char option \<times> lexer" where
  "eoln_loop st =
     (case nextchar st of
        (None, st1) \<Rightarrow> (None, st1)
      | (Some c, st1) \<Rightarrow>
          if c = NL then nextchar (token_push_space [c] st1)
          else eoln_loop (token_push_space [c] st1))"
  by pat_completeness auto
termination
  by (relation "measure (\<lambda>st. length (logical (remaining st)))")
     (auto dest!: sym [of _ "nextchar _"] dest: nextchar_less)

declare eoln_loop.simps [simp del]

definition drop_stream_eoln :: "lexer \<Rightarrow> char option \<times> lexer" where
  "drop_stream_eoln st = eoln_loop (drop_token st)"

text \<open>\<open>token_push_space\<close> of the value of \<open>nextchar\<close>: \<open>EOF\<close> is stored as the byte 0xFF.\<close>

definition push_next :: "char option \<Rightarrow> lexer \<Rightarrow> lexer" where
  "push_next c st = token_push_space [case c of None \<Rightarrow> CHR 0xFF | Some x \<Rightarrow> x] st"

lemma left_chars_ext [simp]:
  "left_chars n (push_next c st) = left_chars n st"
  "left_chars n (token_push_space s st) = left_chars n st"
  "left_chars n (add_token ty v st) = left_chars n st"
  "left_chars n (drop_token st) = left_chars n st"
  "left_chars n (st\<lparr>cur := t\<rparr>) = left_chars n st"
  "left_chars n (st\<lparr>newline := b\<rparr>) = left_chars n st"
  "left_chars n (st\<lparr>whitespace := b\<rparr>) = left_chars n st"
  "left_chars n (warn w st) = left_chars n st"
  by (cases n; simp add: left_chars_def push_next_def logical_rest_ext)+

text \<open>\<open>True\<close> in the first component: the comment was closed.\<close>

function comment_loop :: "char option \<Rightarrow> lexer \<Rightarrow> bool \<times> lexer" where
  "comment_loop nxt st =
     (case nxt of
        None \<Rightarrow> (False, warn EOFInComment st)
      | Some c \<Rightarrow>
          (let (n, st1) = nextchar st; st2 = push_next n st1 in
           if c = CHR ''*'' \<and> n = Some (CHR ''/'') then (True, st2) else comment_loop n st2))"
  by pat_completeness auto
termination
  by (relation "measure (\<lambda>(nxt, st). left_chars nxt st)")
     (auto intro: left_chars_less [OF sym])

declare comment_loop.simps [simp del]

definition drop_stream_comment :: "lexer \<Rightarrow> char option \<times> lexer" where
  "drop_stream_comment st =
     (let st0 = drop_token st; nl = newline st0;
          (n, st1) = nextchar st0;
          (closed, st2) = comment_loop n (push_next n st1)
      in if closed then nextchar (st2\<lparr>newline := nl\<rparr>) else (None, st2))"

section \<open>Punctuators\<close>

abbreviation (input) "SPECIAL_BASE \<equiv> (256 :: nat)"
abbreviation (input) "SPECIAL_ADD_ASSIGN \<equiv> (256 :: nat)"
abbreviation (input) "SPECIAL_INCREMENT \<equiv> (257 :: nat)"
abbreviation (input) "SPECIAL_SUB_ASSIGN \<equiv> (258 :: nat)"
abbreviation (input) "SPECIAL_DECREMENT \<equiv> (259 :: nat)"
abbreviation (input) "SPECIAL_DEREFERENCE \<equiv> (260 :: nat)"
abbreviation (input) "SPECIAL_MUL_ASSIGN \<equiv> (261 :: nat)"
abbreviation (input) "SPECIAL_DIV_ASSIGN \<equiv> (262 :: nat)"
abbreviation (input) "SPECIAL_MOD_ASSIGN \<equiv> (263 :: nat)"
abbreviation (input) "SPECIAL_LTE \<equiv> (264 :: nat)"
abbreviation (input) "SPECIAL_GTE \<equiv> (265 :: nat)"
abbreviation (input) "SPECIAL_EQUAL \<equiv> (266 :: nat)"
abbreviation (input) "SPECIAL_NOTEQUAL \<equiv> (267 :: nat)"
abbreviation (input) "SPECIAL_LOGICAL_AND \<equiv> (268 :: nat)"
abbreviation (input) "SPECIAL_AND_ASSIGN \<equiv> (269 :: nat)"
abbreviation (input) "SPECIAL_LOGICAL_OR \<equiv> (270 :: nat)"
abbreviation (input) "SPECIAL_OR_ASSIGN \<equiv> (271 :: nat)"
abbreviation (input) "SPECIAL_XOR_ASSIGN \<equiv> (272 :: nat)"
abbreviation (input) "SPECIAL_HASHHASH \<equiv> (273 :: nat)"
abbreviation (input) "SPECIAL_LEFTSHIFT \<equiv> (274 :: nat)"
abbreviation (input) "SPECIAL_RIGHTSHIFT \<equiv> (275 :: nat)"
abbreviation (input) "SPECIAL_DOTDOT \<equiv> (276 :: nat)"
abbreviation (input) "SPECIAL_SHL_ASSIGN \<equiv> (277 :: nat)"
abbreviation (input) "SPECIAL_SHR_ASSIGN \<equiv> (278 :: nat)"
abbreviation (input) "SPECIAL_ELLIPSIS \<equiv> (279 :: nat)"
abbreviation (input) "SPECIAL_ARG_SEPARATOR \<equiv> (280 :: nat)"
abbreviation (input) "SPECIAL_UNSIGNED_LT \<equiv> (281 :: nat)"
abbreviation (input) "SPECIAL_UNSIGNED_GT \<equiv> (282 :: nat)"
abbreviation (input) "SPECIAL_UNSIGNED_LTE \<equiv> (283 :: nat)"
abbreviation (input) "SPECIAL_UNSIGNED_GTE \<equiv> (284 :: nat)"

text \<open>\<open>COMBINATION_STRINGS\<close>, indexed from \<open>SPECIAL_BASE\<close>.\<close>

definition combinations :: "string list" where
  "combinations =
    [''+='', ''++'', ''-='', ''--'', ''->'', ''*='', ''/='', ''%='', ''<='', ''>='', ''=='', ''!='',
     ''&&'', ''&='', ''||'', ''|='', ''^='', ''##'', ''<<'', ''>>'', ''..'', ''<<='', ''>>='', ''...'',
     [], ''<'', ''>'', ''<='', ''>='']"

definition special_hash :: "nat \<Rightarrow> nat \<Rightarrow> nat" where
  "special_hash c0 c1 = ((c0 * 8 + c1 * 2) + (c0 * 8 + c1 * 2) div 32) mod 32"

text \<open>The entries of \<open>hash_results\<close> and \<open>code\<close>, in the order of the initialisers.\<close>

definition special_entries :: "(char \<times> char \<times> nat) list" where
  "special_entries =
    [(CHR ''+'', CHR ''='', SPECIAL_ADD_ASSIGN), (CHR ''/'', CHR ''='', SPECIAL_DIV_ASSIGN),
     (CHR ''^'', CHR ''='', SPECIAL_XOR_ASSIGN), (CHR ''&'', CHR ''&'', SPECIAL_LOGICAL_AND),
     (CHR ''#'', CHR ''#'', SPECIAL_HASHHASH), (CHR ''<'', CHR ''<'', SPECIAL_LEFTSHIFT),
     (CHR ''<'', CHR ''='', SPECIAL_LTE), (CHR ''!'', CHR ''='', SPECIAL_NOTEQUAL),
     (CHR ''%'', CHR ''='', SPECIAL_MOD_ASSIGN), (CHR ''-'', CHR ''-'', SPECIAL_DECREMENT),
     (CHR ''-'', CHR ''='', SPECIAL_SUB_ASSIGN), (CHR ''-'', CHR ''>'', SPECIAL_DEREFERENCE),
     (CHR ''='', CHR ''='', SPECIAL_EQUAL), (CHR ''&'', CHR ''='', SPECIAL_AND_ASSIGN),
     (CHR ''*'', CHR ''='', SPECIAL_MUL_ASSIGN), (CHR ''.'', CHR ''.'', SPECIAL_DOTDOT),
     (CHR ''+'', CHR ''+'', SPECIAL_INCREMENT), (CHR ''|'', CHR ''='', SPECIAL_OR_ASSIGN),
     (CHR ''>'', CHR ''='', SPECIAL_GTE), (CHR ''|'', CHR ''|'', SPECIAL_LOGICAL_OR),
     (CHR ''>'', CHR ''>'', SPECIAL_RIGHTSHIFT)]"

text \<open>
  \<open>hash_results[i]\<close> and \<open>code[i]\<close>: a later initialiser of the same index overrides an
  earlier one, a missing one leaves zeroes.
\<close>

definition special_slot :: "nat \<Rightarrow> char \<times> char \<times> nat" where
  "special_slot i =
     (case find (\<lambda>(a, b, v). special_hash (of_char a) (of_char b) = i) (rev special_entries) of
        None \<Rightarrow> (CHR 0x00, CHR 0x00, 0) | Some e \<Rightarrow> e)"

text \<open>The value of a punctuator that starts with \<open>c\<close> and the characters consumed for it.\<close>

definition special_value :: "char \<Rightarrow> char option \<Rightarrow> lexer \<Rightarrow> nat \<times> char option \<times> lexer" where
  "special_value c nxt st =
     (case nxt of
        None \<Rightarrow> (of_char c, nxt, st)
      | Some d \<Rightarrow>
          if ValidSecond nxt then
            (let (a, b, v) = special_slot (special_hash (of_char c) (of_char d)) in
             if a = c \<and> b = d then
               (let (n, st1) = nextchar st in
                if v \<ge> SPECIAL_LEFTSHIFT \<and> n = Some (''==.'' ! (v - SPECIAL_LEFTSHIFT))
                then (let (n2, st2) = nextchar st1 in (v + 3, n2, st2))
                else (v, n, st1))
             else (of_char c, nxt, st))
          else (of_char c, nxt, st))"

definition get_one_special :: "char \<Rightarrow> lexer \<Rightarrow> char option \<times> lexer" where
  "get_one_special c st =
     (let (nxt, st1) = nextchar st in
      if c = CHR ''.'' \<and> Digit nxt then get_one_number c nxt st1
      else if c = CHR 0x22 then eat_string nxt st1 TOKEN_STRING
      else if c = CHR 0x27 then eat_string nxt st1 TOKEN_CHAR
      else
        (let st2 = (if c = CHR ''/'' then token_push_space [c] st1 else st1) in
         if c = CHR ''/'' \<and> nxt = Some (CHR ''/'')
         then drop_stream_eoln (token_push_space ''/'' st2)
         else if c = CHR ''/'' \<and> nxt = Some (CHR ''*'')
         then drop_stream_comment (token_push_space ''*'' st2)
         else (let (v, n, st3) = special_value c nxt st2
               in (n, add_token TOKEN_SPECIAL (VSpecial v) st3))))"

section \<open>Identifiers\<close>

text \<open>
  The identifier table: \<open>IDENT_HASH_SIZE\<close> chains, here a map from the hash to the names in
  chain order. An identifier (\<open>struct ident *\<close>) is its place, the hash and the position in the
  chain; chains only grow at the end, so a place never changes.
\<close>

definition IDENT_HASH_BITS :: nat where
  "IDENT_HASH_BITS = 13"

definition ident_hash_add :: "u64 \<Rightarrow> char \<Rightarrow> u64" where
  "ident_hash_add h c = h * 11 + of_char c"

definition ident_hash_end :: "u64 \<Rightarrow> u64" where
  "ident_hash_end h = and (drop_bit IDENT_HASH_BITS h + h) (mask IDENT_HASH_BITS)"

definition hash_name :: "string \<Rightarrow> u64" where
  "hash_name name =
     (case name of
        [] \<Rightarrow> ident_hash_end 0
      | c # cs \<Rightarrow> ident_hash_end (foldl ident_hash_add (of_char c) cs))"

record ident_table =
  chain :: "u64 \<Rightarrow> string list"
  ident_hit :: nat
  ident_miss :: nat
  idents :: nat

type_synonym ident_ref = "u64 \<times> nat"

definition ident_name :: "ident_table \<Rightarrow> ident_ref \<Rightarrow> string" where
  "ident_name t r = chain t (fst r) ! snd r"

text \<open>
  The walk down a chain. Lengths are compared as \<open>unsigned char\<close>, the characters with
  \<open>strncmp\<close> up to \<open>len\<close>; names hold no NUL, so this is equality of the names.
\<close>

fun find_ident :: "string \<Rightarrow> string list \<Rightarrow> nat \<Rightarrow> nat option" where
  "find_ident name [] i = None"
| "find_ident name (x # xs) i =
     (if length x mod 256 = length name mod 256 \<and> take (length name) x = name
      then Some i else find_ident name xs (Suc i))"

definition create_hashed_ident :: "string \<Rightarrow> u64 \<Rightarrow> ident_table \<Rightarrow> ident_ref \<times> ident_table" where
  "create_hashed_ident name h t =
     (case find_ident name (chain t h) 0 of
        Some i \<Rightarrow> ((h, i), t\<lparr>ident_hit := Suc (ident_hit t)\<rparr>)
      | None \<Rightarrow> ((h, length (chain t h)),
          t\<lparr>chain := (chain t)(h := chain t h @ [name]), ident_miss := Suc (ident_miss t),
            idents := Suc (idents t)\<rparr>))"

definition built_in_ident :: "string \<Rightarrow> ident_table \<Rightarrow> ident_ref \<times> ident_table" where
  "built_in_ident name t = create_hashed_ident name (hash_name name) t"

text \<open>
  Reading an identifier: the text is cut at 256 characters, the hash is built on the way.
\<close>

function ident_loop :: "string \<Rightarrow> u64 \<Rightarrow> lexer \<Rightarrow> string \<times> u64 \<times> char option \<times> lexer" where
  "ident_loop buf h st =
     (case nextchar st of
        (None, st1) \<Rightarrow> (buf, h, None, st1)
      | (Some c, st1) \<Rightarrow>
          if \<not> (Letter (Some c) \<or> Digit (Some c)) then (buf, h, Some c, st1)
          else if length buf \<ge> 256 then (buf, h, Some c, st1)
          else ident_loop (buf @ [c]) (ident_hash_add h c) st1)"
  by pat_completeness auto
termination
  by (relation "measure (\<lambda>(buf, h, st). length (logical (remaining st)))")
     (auto dest!: sym [of _ "nextchar _"] dest: nextchar_less)

declare ident_loop.simps [simp del]

text \<open>The whole state of the tokenizer: the stream and the identifier table.\<close>

type_synonym tokenizer = "lexer \<times> ident_table"

definition get_one_identifier :: "char \<Rightarrow> tokenizer \<Rightarrow> char option \<times> tokenizer" where
  "get_one_identifier c s =
     (let (st, t) = s; (buf, h, nxt, st1) = ident_loop [c] (of_char c) st in
      if Quote nxt \<and> length buf = 1 \<and> buf ! 0 = CHR ''L'' then
        (let (n, st2) = nextchar st1;
             ty = (if nxt = Some (CHR 0x27) then TOKEN_WIDE_CHAR else TOKEN_WIDE_STRING);
             (r, st3) = eat_string n st2 ty
         in (r, st3, t))
      else
        (let (r, t1) = create_hashed_ident buf (ident_hash_end h) t
         in (nxt, add_token TOKEN_IDENT (VIdent (ident_name t1 r)) st1, t1)))"

section \<open>The main loop\<close>

definition get_one_token :: "char \<Rightarrow> tokenizer \<Rightarrow> char option \<times> tokenizer" where
  "get_one_token c s =
     (if Digit (Some c) then
        (let (st, t) = s; (n, st1) = nextchar st; (r, st2) = get_one_number c n st1 in (r, st2, t))
      else if Letter (Some c) then get_one_identifier c s
      else (let (st, t) = s; (r, st1) = get_one_special c st in (r, st1, t)))"

text \<open>Each reader consumes what it was given.\<close>

lemma number_loop_left: "number_loop buf nxt st = (b, n, st') \<Longrightarrow> left_chars n st' \<le> left_chars nxt st"
proof (induction "left_chars nxt st" arbitrary: buf nxt st rule: less_induct)
  case less
  show ?case
  proof (cases nxt)
    case None
    with less.prems show ?thesis by (simp add: number_loop.simps)
  next
    case (Some c)
    obtain n1 st1 where n1: "nextchar st = (n1, st1)" by (cases "nextchar st")
    obtain n2 st2 where n2: "nextchar st1 = (n2, st2)" by (cases "nextchar st1")
    have step: "left_chars n st' \<le> left_chars (Some c) st"
      if "number_loop buf' nxt' st'' = (b, n, st')" "left_chars nxt' st'' < left_chars (Some c) st"
      for buf' nxt' st''
      using less.hyps [of nxt' st'' buf'] that Some by force
    show ?thesis
      using less.prems n1 n2 left_chars_less [OF n1, of c] left_chars_less2 [of st _ st1 n2 st2 c] Some
      by (subst (asm) number_loop.simps)
         (auto simp: Let_def split: option.splits if_splits dest!: step)
  qed
qed

lemma eat_loop_left:
  "eat_loop delim nxt buf len escape want_hex st = (r, st') \<Longrightarrow>
   (case r of None \<Rightarrow> True | Some _ \<Rightarrow> Suc (length (logical (remaining st'))) \<le> left_chars nxt st)"
proof (induction "left_chars nxt st" arbitrary: nxt buf len escape want_hex st rule: less_induct)
  case less
  show ?case
  proof (cases nxt)
    case None
    with less.prems show ?thesis by (auto simp: eat_loop.simps)
  next
    case (Some c)
    have step: "case r of None \<Rightarrow> True | Some _ \<Rightarrow> Suc (length (logical (remaining st'))) \<le> left_chars nxt st"
      if "eat_loop delim n buf' len' escape' want_hex' s2 = (r, st')"
         "nextchar s1 = (n, s2)" "remaining s1 = remaining st"
      for s1 n s2 buf' len' escape' want_hex'
    proof -
      have "left_chars n s2 < left_chars nxt st"
        using left_chars_less [OF that(2), of c] that(3) Some by (simp add: left_chars_def)
      with less.hyps [OF this that(1)] show ?thesis by (auto split: option.splits)
    qed
    show ?thesis
    proof (cases r)
      case None
      then show ?thesis by simp
    next
      case r: (Some x)
      note step' = step [unfolded r, simplified]
      show ?thesis
        using less.prems Some r
        by (subst (asm) eat_loop.simps)
           (auto simp: Let_def left_chars_def logical_rest_ext
             split: if_splits prod.splits dest!: step')
    qed
  qed
qed

lemma eat_string_left:
  assumes "eat_string nxt st ty = (n, st')"
  shows "left_chars n st' \<le> left_chars nxt st"
proof -
  let ?d = "if tt_code ty < tt_code TOKEN_STRING then CHR 0x27 else CHR 0x22"
  obtain r st1 where e: "eat_loop ?d nxt [] 0 False False st = (r, st1)"
    by (cases "eat_loop ?d nxt [] 0 False False st")
  note l = eat_loop_left [OF e]
  show ?thesis
  proof (cases r)
    case None
    with assms e show ?thesis by (auto simp: eat_string_def Let_def left_chars_def)
  next
    case (Some x)
    obtain s2 where "nextchar s2 = (n, st')" "remaining s2 = remaining st1"
      using assms e Some
      by (cases x) (auto simp: eat_string_def Let_def logical_rest_ext split: if_splits)
    with l Some left_chars_nextchar [of s2 n st'] show ?thesis by simp
  qed
qed

lemma eoln_loop_left: "eoln_loop st = (n, st') \<Longrightarrow> left_chars n st' \<le> length (logical (remaining st))"
proof (induction "length (logical (remaining st))" arbitrary: st rule: less_induct)
  case less
  obtain c st1 where c: "nextchar st = (c, st1)" by (cases "nextchar st")
  show ?case
  proof (cases c)
    case None
    with less.prems c show ?thesis by (simp add: eoln_loop.simps [of st] left_chars_def)
  next
    case (Some d)
    note l = nextchar_less [OF c [unfolded Some]]
    show ?thesis
    proof (cases "d = NL")
      case True
      with less.prems c Some have "nextchar (token_push_space [d] st1) = (n, st')"
        by (simp add: eoln_loop.simps [of st])
      with left_chars_nextchar [OF this] l show ?thesis by simp
    next
      case False
      with less.prems c Some have "eoln_loop (token_push_space [d] st1) = (n, st')"
        by (simp add: eoln_loop.simps [of st])
      with less.hyps [of "token_push_space [d] st1"] l show ?thesis by simp
    qed
  qed
qed

lemma comment_loop_left:
  "comment_loop nxt st = (b, st') \<Longrightarrow> b \<Longrightarrow> Suc (length (logical (remaining st'))) \<le> left_chars nxt st"
proof (induction "left_chars nxt st" arbitrary: nxt st rule: less_induct)
  case less
  obtain n st1 where n: "nextchar st = (n, st1)" by (cases "nextchar st")
  from less.prems obtain c where c: "nxt = Some c"
    by (subst (asm) comment_loop.simps) (auto split: option.splits)
  note l = left_chars_less [OF n, of c]
  show ?case
  proof (cases "c = CHR ''*'' \<and> n = Some (CHR ''/'')")
    case True
    with less.prems c n nextchar_less [of st "CHR ''/''" st1] show ?thesis
      by (subst (asm) comment_loop.simps) (auto simp: push_next_def left_chars_def)
  next
    case False
    with less.prems c n have "comment_loop n (push_next n st1) = (b, st')"
      by (subst (asm) comment_loop.simps) (simp add: Let_def)
    with less.hyps [of n "push_next n st1"] l c less.prems(2) show ?thesis by simp
  qed
qed

lemma special_value_left: "special_value c nxt st = (v, n, st') \<Longrightarrow> left_chars n st' \<le> left_chars nxt st"
  using left_chars_less left_chars_less2
  by (fastforce simp: special_value_def Let_def split: option.splits if_splits prod.splits
      intro: less_imp_le)

lemma get_one_special_left:
  assumes "get_one_special c st = (n, st')"
  shows "left_chars n st' \<le> length (logical (remaining st))"
proof -
  obtain nxt st1 where n: "nextchar st = (nxt, st1)" by (cases "nextchar st")
  note l = left_chars_nextchar [OF n]
  have num_left: "left_chars n st' \<le> left_chars nxt st1" if "get_one_number c nxt st1 = (n, st')"
    using that number_loop_left [of "[c]" nxt st1]
    by (auto simp: get_one_number_def Let_def split: prod.splits if_splits)
  have eoln_left: "left_chars n st' \<le> left_chars nxt st1"
    if "eoln_loop (drop_token s2) = (n, st')" "remaining s2 = remaining st1" "nxt = Some d" for s2 d
    using eoln_loop_left [OF that(1)] that(2,3) by (simp add: left_chars_def)
  have comm_left: "left_chars n st' \<le> left_chars nxt st1"
    if "drop_stream_comment s2 = (n, st')" "remaining s2 = remaining st1" "nxt = Some d" for s2 d
  proof -
    note drop = that(1) and rest = that(2,3)
    obtain m s3 where m: "nextchar (drop_token s2) = (m, s3)" by (cases "nextchar (drop_token s2)")
    obtain b s4 where b: "comment_loop m (push_next m s3) = (b, s4)"
      by (cases "comment_loop m (push_next m s3)")
    have m': "left_chars m s3 \<le> length (logical (remaining st1))"
      using left_chars_nextchar [OF m] rest(1) by simp
    have rem: "remaining (s4\<lparr>newline := q\<rparr>) = remaining s4" for q by (rule logical_rest_ext)
    show ?thesis
    proof (cases b)
      case True
      obtain q where "nextchar (s4\<lparr>newline := q\<rparr>) = (n, st')"
        using drop m b True by (auto simp: drop_stream_comment_def Let_def)
      from left_chars_nextchar [OF this] have "left_chars n st' \<le> length (logical (remaining s4))"
        by (simp add: rem)
      moreover have "Suc (length (logical (remaining s4))) \<le> left_chars m s3"
        using comment_loop_left [OF b True] by simp
      moreover have "left_chars nxt st1 = Suc (length (logical (remaining st1)))"
        using rest(2) by (simp add: left_chars_def)
      ultimately show ?thesis using m' by linarith
    next
      case False
      with drop m b show ?thesis by (auto simp: drop_stream_comment_def Let_def left_chars_def)
    qed
  qed
  let ?s2 = "if c = CHR ''/'' then token_push_space [c] st1 else st1"
  obtain v m s3 where sv: "special_value c nxt ?s2 = (v, m, s3)" by (cases "special_value c nxt ?s2") auto
  have sv': "left_chars m s3 \<le> left_chars nxt st1"
    using special_value_left [OF sv] by (simp split: if_splits)
  note run = assms [unfolded get_one_special_def n Let_def prod.case sv]
  consider (num) "c = CHR ''.'' \<and> Digit nxt" | (str) "c = CHR 0x22" | (chr) "c = CHR 0x27"
    | (eoln) "c = CHR ''/''" "nxt = Some (CHR ''/'')" | (comm) "c = CHR ''/''" "nxt = Some (CHR ''*'')"
    | (spec) "\<not> (c = CHR ''.'' \<and> Digit nxt)" "c \<noteq> CHR 0x22" "c \<noteq> CHR 0x27"
        "\<not> (c = CHR ''/'' \<and> nxt = Some (CHR ''/''))" "\<not> (c = CHR ''/'' \<and> nxt = Some (CHR ''*''))"
    by blast
  then have "left_chars n st' \<le> left_chars nxt st1"
  proof cases
    case num
    with run have "get_one_number c nxt st1 = (n, st')" by simp
    then show ?thesis by (rule num_left)
  next
    case str
    with run show ?thesis by (auto dest: eat_string_left)
  next
    case chr
    with run show ?thesis by (auto dest: eat_string_left)
  next
    case eoln
    with run have "eoln_loop (drop_token (token_push_space ''/'' (token_push_space [c] st1))) = (n, st')"
      by (simp add: drop_stream_eoln_def)
    from eoln_left [OF this] eoln show ?thesis by simp
  next
    case comm
    with run have "drop_stream_comment (token_push_space ''*'' (token_push_space [c] st1)) = (n, st')"
      by simp
    from comm_left [OF this] comm show ?thesis by simp
  next
    case spec
    with run have "n = m" "st' = add_token TOKEN_SPECIAL (VSpecial v) s3" by simp_all
    with sv' show ?thesis by simp
  qed
  with l show ?thesis by simp
qed

lemma ident_loop_left: "ident_loop buf h st = (b, h', n, st') \<Longrightarrow> left_chars n st' \<le> length (logical (remaining st))"
proof (induction "length (logical (remaining st))" arbitrary: buf h st rule: less_induct)
  case less
  obtain c st1 where c: "nextchar st = (c, st1)" by (cases "nextchar st")
  have IH: "left_chars n st' \<le> length (logical (remaining st))"
    if "ident_loop buf' h'' st1 = (b, h', n, st')" "c = Some d" for buf' h'' d
    using less.hyps [OF _ that(1)] nextchar_less [OF c [unfolded that(2)]] by simp
  show ?case
    using less.prems c left_chars_nextchar [OF c]
    by (subst (asm) ident_loop.simps) (auto split: option.splits if_splits intro: IH)
qed

lemma get_one_token_left:
  assumes "get_one_token c (st, t) = (n, st', t')"
  shows "left_chars n st' < left_chars (Some c) st"
proof -
  obtain d st1 where d: "nextchar st = (d, st1)" by (cases "nextchar st")
  obtain buf h nxt st2 where i: "ident_loop [c] (of_char c) st = (buf, h, nxt, st2)"
    by (cases "ident_loop [c] (of_char c) st") auto
  have wide: "left_chars n st' \<le> length (logical (remaining st))"
    if "nextchar st2 = (m, s3)" "eat_string m s3 ty = (n, st')" "nxt = Some q" for m s3 ty q
    using left_chars_nextchar [OF that(1)] eat_string_left [OF that(2)] ident_loop_left [OF i] that(3)
    by (simp add: left_chars_def)
  have num: "left_chars n st' \<le> left_chars d st1" if "get_one_number c d st1 = (n, st')"
    using that number_loop_left [of "[c]" d st1]
    by (auto simp: get_one_number_def Let_def split: prod.splits if_splits)
  have "left_chars n st' \<le> length (logical (remaining st))"
    using assms d i ident_loop_left [OF i] left_chars_nextchar [OF d] num get_one_special_left [of c st n st']
    by (auto simp: get_one_token_def get_one_identifier_def Let_def Quote_def
        split: if_splits prod.splits option.splits intro: wide)
  then show ?thesis by (simp add: left_chars_def)
qed

definition isspace :: "char \<Rightarrow> bool" where
  "isspace c = (c = CHR '' '' \<or> c = TAB \<or> c = NL \<or> c = CHR 0x0B \<or> c = CHR 0x0C \<or> c = CR)"

text \<open>\<open>tokenize_stream\<close> after its first \<open>nextchar\<close>; \<open>ppnoopt\<close> keeps the white space.\<close>

function token_loop :: "bool \<Rightarrow> char option \<Rightarrow> tokenizer \<Rightarrow> tokenizer" where
  "token_loop ppnoopt nxt s =
     (case nxt of
        None \<Rightarrow> (mark_eof (fst s), snd s)
      | Some c \<Rightarrow>
          if \<not> isspace c then
            (let st = fst s;
                 st1 = st\<lparr>cur := Some (alloc_token_stream st), newline := False, whitespace := False\<rparr>;
                 (n, s2) = get_one_token c (st1, snd s)
             in token_loop ppnoopt n s2)
          else
            (let st = (if ppnoopt then token_push_space [c] (fst s) else fst s);
                 (n, st1) = nextchar (st\<lparr>whitespace := True\<rparr>)
             in token_loop ppnoopt n (st1, snd s)))"
  by pat_completeness auto
termination
proof (relation "measure (\<lambda>(b, nxt, s). left_chars nxt (fst s))", goal_cases)
  case 1
  show ?case by simp
next
  case (2 b nxt s c st st1 r n s2)
  from 2(5,6) have "get_one_token c (st1, snd s) = (n, fst s2, snd s2)" by simp
  from get_one_token_left [OF this] 2(1,3,4) show ?case
    by (simp add: left_chars_def [of "Some c"] logical_rest_ext)
next
  case (3 b nxt s c st r n st1)
  from 3(4,5) have "nextchar (st\<lparr>whitespace := True\<rparr>) = (n, st1)" by simp
  from left_chars_less [OF this, of c] 3(1,3) show ?case
    by (auto simp: left_chars_def [of "Some c"] logical_rest_ext split: if_splits)
qed

declare token_loop.simps [simp del]

definition tokenize_stream :: "bool \<Rightarrow> tokenizer \<Rightarrow> tokenizer" where
  "tokenize_stream ppnoopt s = (let (c, st) = nextchar (fst s) in token_loop ppnoopt c (st, snd s))"

text \<open>
  A fresh stream: over a buffer in memory (\<open>tokenize_buffer\<close>) or over a file, whose buffer
  is empty at first (\<open>tokenize\<close>).
\<close>

definition setup_stream :: "int \<Rightarrow> bool \<Rightarrow> string list \<Rightarrow> string \<Rightarrow> nat \<Rightarrow> lexer" where
  "setup_stream idx has_fd reads buf tabs =
     (let st = \<lparr>fd = has_fd, chunks = reads, buffer = buf, offset = 0, pos = 0, line = 1, newline = True,
                whitespace = False, warnings = [], tabstop = tabs, nr = idx, space = None, cur = None,
                tokens = []\<rparr>
      in st\<lparr>tokens := [(alloc_token_stream st)\<lparr>tok_type := TOKEN_STREAMBEGIN\<rparr>]\<rparr>)"

definition tokenize_buffer :: "bool \<Rightarrow> string \<Rightarrow> int \<Rightarrow> nat \<Rightarrow> ident_table \<Rightarrow> tokenizer" where
  "tokenize_buffer ppnoopt buf idx tabs t = tokenize_stream ppnoopt (setup_stream idx False [] buf tabs, t)"

definition tokenize :: "bool \<Rightarrow> string list \<Rightarrow> int \<Rightarrow> nat \<Rightarrow> ident_table \<Rightarrow> tokenizer" where
  "tokenize ppnoopt reads idx tabs t = tokenize_stream ppnoopt (setup_stream idx True reads [] tabs, t)"

end
