(* ===== verification/Ast.thy ===== *)
theory Ast
  imports Ptr_List Tokenize
begin

text \<open>
  The data of the front end: symbols and types (\<open>symbol_struct.h\<close>), expressions
  (\<open>expression.h\<close>) and statements (\<open>parse.h\<close>). Symbols are shared and mutated, so they live
  in a table and are named by references; expressions and statements are trees, the
  \<open>type\<close> tag and the union of each \<open>struct\<close> being one constructor. A list of expressions
  keeps the blocks of its \<open>ptr_list\<close>.
\<close>

section \<open>Symbols\<close>

text \<open>The symbols that are global variables of the program, and the allocated ones.\<close>

datatype symref =
    Int_type | Fp_type
  | Bool_ctype | Void_ctype | Type_ctype | Char_ctype | Schar_ctype | Uchar_ctype
  | Short_ctype | Sshort_ctype | Ushort_ctype | Int_ctype | Sint_ctype | Uint_ctype
  | Long_ctype | Slong_ctype | Ulong_ctype | Llong_ctype | Sllong_ctype | Ullong_ctype
  | Lllong_ctype | Slllong_ctype | Ulllong_ctype | Float_ctype | Double_ctype | Ldouble_ctype
  | String_ctype | Ptr_ctype | Lazy_ptr_ctype | Incomplete_ctype | Label_ctype | Bad_ctype
  | Null_ctype | Zero_int
  | Sym nat

datatype sym_type =
    SYM_UNINITIALIZED | SYM_PREPROCESSOR | SYM_BASETYPE | SYM_NODE | SYM_PTR | SYM_FN | SYM_ARRAY
  | SYM_STRUCT | SYM_UNION | SYM_ENUM | SYM_TYPEDEF | SYM_TYPEOF | SYM_MEMBER | SYM_BITFIELD
  | SYM_LABEL | SYM_RESTRICT | SYM_FOULED | SYM_KEYWORD | SYM_BAD

abbreviation (input) "MOD_AUTO \<equiv> (0x0001 :: u64)"
abbreviation (input) "MOD_REGISTER \<equiv> (0x0002 :: u64)"
abbreviation (input) "MOD_STATIC \<equiv> (0x0004 :: u64)"
abbreviation (input) "MOD_EXTERN \<equiv> (0x0008 :: u64)"
abbreviation (input) "MOD_CONST \<equiv> (0x0010 :: u64)"
abbreviation (input) "MOD_VOLATILE \<equiv> (0x0020 :: u64)"
abbreviation (input) "MOD_SIGNED \<equiv> (0x0040 :: u64)"
abbreviation (input) "MOD_UNSIGNED \<equiv> (0x0080 :: u64)"
abbreviation (input) "MOD_CHAR \<equiv> (0x0100 :: u64)"
abbreviation (input) "MOD_SHORT \<equiv> (0x0200 :: u64)"
abbreviation (input) "MOD_LONG \<equiv> (0x0400 :: u64)"
abbreviation (input) "MOD_LONGLONG \<equiv> (0x0800 :: u64)"
abbreviation (input) "MOD_LONGLONGLONG \<equiv> (0x1000 :: u64)"
abbreviation (input) "MOD_PURE \<equiv> (0x2000 :: u64)"
abbreviation (input) "MOD_TYPEDEF \<equiv> (0x10000 :: u64)"
abbreviation (input) "MOD_TLS \<equiv> (0x20000 :: u64)"
abbreviation (input) "MOD_INLINE \<equiv> (0x40000 :: u64)"
abbreviation (input) "MOD_ADDRESSABLE \<equiv> (0x80000 :: u64)"
abbreviation (input) "MOD_NOCAST \<equiv> (0x100000 :: u64)"
abbreviation (input) "MOD_NODEREF \<equiv> (0x200000 :: u64)"
abbreviation (input) "MOD_ACCESSED \<equiv> (0x400000 :: u64)"
abbreviation (input) "MOD_TOPLEVEL \<equiv> (0x800000 :: u64)"
abbreviation (input) "MOD_ASSIGNED \<equiv> (0x2000000 :: u64)"
abbreviation (input) "MOD_TYPE \<equiv> (0x4000000 :: u64)"
abbreviation (input) "MOD_SAFE \<equiv> (0x8000000 :: u64)"
abbreviation (input) "MOD_USERTYPE \<equiv> (0x10000000 :: u64)"
abbreviation (input) "MOD_NORETURN \<equiv> (0x20000000 :: u64)"
abbreviation (input) "MOD_EXPLICITLY_SIGNED \<equiv> (0x40000000 :: u64)"
abbreviation (input) "MOD_BITWISE \<equiv> (0x80000000 :: u64)"

definition has_mod :: "u64 \<Rightarrow> u64 \<Rightarrow> bool" where
  "has_mod m f = (and m f \<noteq> 0)"


section \<open>Expressions and statements\<close>

text \<open>
  A \<open>long double\<close> is the pattern of its 80 bits; what arithmetic does to it is a parameter. A step of
  \<open>__builtin_offsetof\<close> is a member (operator \<open>.\<close>) or an index (operator \<open>[\<close>).
\<close>

type_synonym ldouble = "80 word"

datatype binary_type = EXPR_BINOP | EXPR_ASSIGNMENT | EXPR_LOGICAL | EXPR_COMMA | EXPR_COMPARE
datatype unary_type = EXPR_PREOP | EXPR_POSTOP
datatype cast_type =
    EXPR_CAST | EXPR_FORCE_CAST | EXPR_IMPLIED_CAST | EXPR_SIZEOF | EXPR_ALIGNOF | EXPR_PTRSIZEOF
datatype cond_type = EXPR_CONDITIONAL | EXPR_SELECT

abbreviation (input) "Int_const_expr \<equiv> (1 :: u32)"
abbreviation (input) "Float_literal \<equiv> (2 :: u32)"
abbreviation (input) "Taint_comma \<equiv> (1 :: u32)"

datatype expression =
  Expr (e_flags: u32) (e_op: nat) (e_pos: position) (e_ctype: "symref option") (e_node: enode)
and enode =
    EXPR_VALUE (e_value: u64) (e_taint: u32)
  | EXPR_FVALUE (e_fvalue: ldouble)
  | EXPR_STRING bool string
  | EXPR_SYMBOL symref string
  | EXPR_TYPE symref
  | Binary binary_type expression expression
  | EXPR_DEREF expression string
  | Unary unary_type expression (op_value: u64)
  | EXPR_SLICE expression u32 u32
  | Cast cast_type symref "expression option"
  | Cond cond_type expression "expression option" "expression option"
  | EXPR_STATEMENT statement
  | EXPR_CALL expression "expression list list"
  | EXPR_LABEL symref
  | EXPR_INITIALIZER "expression list list"
  | EXPR_IDENTIFIER string symref "expression option"
  | EXPR_INDEX u32 u32 "expression option"
  | EXPR_POS (init_offset: u32) (init_nr: u32) (init_expr: expression)
  | EXPR_OFFSETOF "symref option" "expression option" "string option + expression option"
and statement = Stmt (s_pos: position) (s_node: snode)
and snode =
    STMT_NONE
  | STMT_DECLARATION "symref list"
  | STMT_EXPRESSION "expression option" "expression option"
  | STMT_COMPOUND "statement list" "symref option" "symref option" "statement option"
  | STMT_IF "expression option" "statement option" "statement option"
  | STMT_RETURN "expression option" "symref option"
  | STMT_CASE "expression option" "expression option" "statement option" symref
  | STMT_SWITCH "expression option" "statement option" symref symref
  | STMT_ITERATOR symref symref "symref list" "statement option" "expression option"
      "statement option" "statement option" "expression option"
  | STMT_LABEL symref "statement option"
  | STMT_GOTO "symref option" "expression option" "symref list"
  | STMT_ASM "expression option" "(string option + expression option) list" "(string option + expression option) list"
      "expression option list" "symref list"
  | STMT_CONTEXT "expression option" "expression option"
  | STMT_RANGE "expression option" "expression option" "expression option"

definition set_node :: "expression \<Rightarrow> enode \<Rightarrow> expression" where
  "set_node e n = Expr (e_flags e) (e_op e) (e_pos e) (e_ctype e) n"

definition set_flags :: "expression \<Rightarrow> u32 \<Rightarrow> expression" where
  "set_flags e f = Expr f (e_op e) (e_pos e) (e_ctype e) (e_node e)"

lemma set_node_simps [simp]:
  "e_flags (set_node e n) = e_flags e" "e_op (set_node e n) = e_op e" "e_pos (set_node e n) = e_pos e"
  "e_ctype (set_node e n) = e_ctype e" "e_node (set_node e n) = n"
  "e_flags (set_flags e f) = f" "e_op (set_flags e f) = e_op e" "e_pos (set_flags e f) = e_pos e"
  "e_ctype (set_flags e f) = e_ctype e" "e_node (set_flags e f) = e_node e"
  by (simp_all add: set_node_def set_flags_def)

text \<open>The context changes (\<open>in\<close>, \<open>out\<close>) that a type declares.\<close>

record sym_context =
  cx_expr :: "expression option"
  c_in :: u32
  c_out :: u32

record ctype =
  modifiers :: u64
  alignment :: u64
  contexts :: "sym_context ptr_list"
  address_space :: u32
  base_type :: "symref option"

text \<open>The \<open>expand\<close> member of \<open>struct symbol_op\<close>: two functions of \<open>expand.c\<close> and two of \<open>symbol.c\<close>.\<close>

datatype expand_op = Expand_constant_p | Expand_safe_p | Expand_warning | Expand_expect

record symbol =
  sym_type :: sym_type
  ident :: "string option"
  s_offset :: u64
  bit_size :: int
  bit_offset :: nat
  s_ctype :: ctype
  array_size :: "expression option"
  arguments :: "symref list"
  variadic :: bool
  symbol_list :: "symref list"
  s_stmt :: "statement option"
  initializer :: "expression option"
  op_expand :: "expand_op option"

type_synonym symtab = "symref \<Rightarrow> symbol"

abbreviation mods :: "symtab \<Rightarrow> symref \<Rightarrow> u64" where
  "mods tab s \<equiv> modifiers (s_ctype (tab s))"

abbreviation base_of :: "symtab \<Rightarrow> symref \<Rightarrow> symref option" where
  "base_of tab s \<equiv> base_type (s_ctype (tab s))"

section \<open>Kinds of types\<close>

text \<open>
  The tests of \<open>symbol.h\<close> step from a node, and from an enumeration, to the base type; that
  pointer is not NULL for these symbols.
\<close>

definition node_base :: "symtab \<Rightarrow> symref \<Rightarrow> symref" where
  "node_base tab t =
     (if sym_type (tab t) = SYM_NODE then (case base_of tab t of Some b \<Rightarrow> b | None \<Rightarrow> t) else t)"

definition enum_base :: "symtab \<Rightarrow> symref \<Rightarrow> symref" where
  "enum_base tab t =
     (if sym_type (tab t) = SYM_ENUM then (case base_of tab t of Some b \<Rightarrow> b | None \<Rightarrow> t) else t)"

definition is_int_type :: "symtab \<Rightarrow> symref \<Rightarrow> bool" where
  "is_int_type tab t =
     (let b = enum_base tab (node_base tab t)
      in sym_type (tab b) = SYM_BITFIELD \<or> base_of tab b = Some Int_type)"

definition is_enum_type :: "symtab \<Rightarrow> symref \<Rightarrow> bool" where
  "is_enum_type tab t = (sym_type (tab (node_base tab t)) = SYM_ENUM)"

definition is_type_type :: "symtab \<Rightarrow> symref \<Rightarrow> bool" where
  "is_type_type tab t = has_mod (mods tab t) MOD_TYPE"

definition is_ptr_type :: "symtab \<Rightarrow> symref \<Rightarrow> bool" where
  "is_ptr_type tab t = (sym_type (tab (node_base tab t)) \<in> {SYM_PTR, SYM_ARRAY, SYM_FN})"

definition is_float_type :: "symtab \<Rightarrow> symref \<Rightarrow> bool" where
  "is_float_type tab t = (base_of tab (node_base tab t) = Some Fp_type)"

definition is_byte_type :: "int \<Rightarrow> symtab \<Rightarrow> symref \<Rightarrow> bool" where
  "is_byte_type bits_in_char tab t = (bit_size (tab t) = bits_in_char \<and> sym_type (tab t) \<noteq> SYM_BITFIELD)"

definition is_void_type :: "symtab \<Rightarrow> symref \<Rightarrow> bool" where
  "is_void_type tab t = (node_base tab t = Void_ctype)"

definition is_bool_type :: "symtab \<Rightarrow> symref \<Rightarrow> bool" where
  "is_bool_type tab t = (node_base tab t = Bool_ctype)"

definition is_function :: "symtab \<Rightarrow> symref option \<Rightarrow> bool" where
  "is_function tab t = (case t of None \<Rightarrow> False | Some s \<Rightarrow> sym_type (tab s) = SYM_FN)"

definition is_extern_inline :: "symtab \<Rightarrow> symref \<Rightarrow> bool" where
  "is_extern_inline tab s =
     (has_mod (mods tab s) MOD_EXTERN \<and> has_mod (mods tab s) MOD_INLINE \<and> is_function tab (base_of tab s))"

definition get_sym_type :: "symtab \<Rightarrow> symref \<Rightarrow> sym_type" where
  "get_sym_type tab t = sym_type (tab (enum_base tab (node_base tab t)))"

section \<open>Bits and bytes\<close>

definition bits_to_bytes :: "int \<Rightarrow> int \<Rightarrow> int" where
  "bits_to_bytes bits_in_char bits = (if bits \<ge> 0 then bits div bits_in_char else -1)"

definition bytes_to_bits :: "int \<Rightarrow> int \<Rightarrow> int" where
  "bytes_to_bits bits_in_char bytes = bytes * bits_in_char"

end
