(* ===== verification/Const_Fold.thy ===== *)
theory Const_Fold
  imports Ast "HOL-Library.Signed_Division"
begin

text \<open>
  Folding of constant operands (first part of \<open>expand.c\<close>): sign extension to \<open>long long\<close>,
  casts, integer and floating point operators. \<open>long long\<close> values are 64-bit words, read with
  \<open>sint\<close> where the code uses a signed type.
\<close>

section \<open>State\<close>

text \<open>
  The floating point operations of the compiler that built the program, at the precision the code
  casts the operands to. They are parameters.
\<close>

datatype fprec = Long_double | Double | Float

record fops =
  f_add :: "fprec \<Rightarrow> ldouble \<Rightarrow> ldouble \<Rightarrow> ldouble"
  f_sub :: "fprec \<Rightarrow> ldouble \<Rightarrow> ldouble \<Rightarrow> ldouble"
  f_mul :: "fprec \<Rightarrow> ldouble \<Rightarrow> ldouble \<Rightarrow> ldouble"
  f_div :: "fprec \<Rightarrow> ldouble \<Rightarrow> ldouble \<Rightarrow> ldouble"
  f_neg :: "ldouble \<Rightarrow> ldouble"
  f_zero :: "ldouble \<Rightarrow> bool"
  f_lt :: "ldouble \<Rightarrow> ldouble \<Rightarrow> bool"
  f_le :: "ldouble \<Rightarrow> ldouble \<Rightarrow> bool"
  f_eq :: "ldouble \<Rightarrow> ldouble \<Rightarrow> bool"
  f_round :: "fprec \<Rightarrow> ldouble \<Rightarrow> ldouble"
  of_longlong :: "u64 \<Rightarrow> ldouble"
  to_longlong :: "ldouble \<Rightarrow> u64"

datatype xwarn =
    Undefined_identifier string | Odd_bool_cast u64 | Cast_truncates u64 u64 | Shift_too_big u32
  | Division_by_zero | Constant_overflow | Noderef | Defined_twice | No_function_type
  | Deref_left | Sizeof_left | Not_constant string | Bad_constant_type | Bad_constant
  | Bad_integer_constant | Builtin_warning string

record xconf =
  fp :: fops
  Wundef :: bool
  Wcast_truncate :: bool
  bits_in_char :: int

record xstate =
  syms :: symtab
  conservative :: bool
  xwarns :: "xwarn list"

definition xwarn :: "xwarn \<Rightarrow> xstate \<Rightarrow> xstate" where
  "xwarn w st = st\<lparr>xwarns := xwarns st @ [w]\<rparr>"

text \<open>\<open>1ULL << (bit_size - 1)\<close>; the sizes are 1 to 64.\<close>

definition size_mask :: "int \<Rightarrow> u64" where
  "size_mask n = push_bit (nat (n - 1)) 1"

definition all_mask :: "int \<Rightarrow> u64" where
  "all_mask n = or (size_mask n) (size_mask n - 1)"

section \<open>Casts\<close>

text \<open>\<open>ty\<close> is the type of the expression whose value is \<open>v\<close>.\<close>

definition get_longlong :: "symtab \<Rightarrow> symref \<Rightarrow> u64 \<Rightarrow> u64" where
  "get_longlong tab ty v =
     (let msk = size_mask (bit_size (tab ty));
          no_expand = (has_mod (mods tab ty) MOD_UNSIGNED \<or> and v msk = 0);
          andmask = or msk (msk - 1);
          ormask = (if no_expand then 0 else not andmask)
      in or (and v andmask) ormask)"

text \<open>The part of \<open>cast_value\<close> after the label \<open>Int\<close>.\<close>

definition cast_int :: "xconf \<Rightarrow> symref \<Rightarrow> int \<Rightarrow> u64 \<Rightarrow> xstate \<Rightarrow> u64 \<times> xstate" where
  "cast_int cf newtype old_size v st =
     (let new_size = bit_size (syms st newtype) in
      if is_bool_type (syms st) newtype then
        (if v \<noteq> 0 then 1 else 0,
         if \<not> conservative st \<and> v \<noteq> 0 \<and> v \<noteq> 1 then xwarn (Odd_bool_cast v) st else st)
      else
        (let signmask = size_mask new_size;
             msk = or signmask (signmask - 1);
             oldsignmask = size_mask old_size;
             oldmask = or oldsignmask (oldsignmask - 1);
             dropped = and oldmask (not msk)
         in (and v msk,
             if \<not> Wcast_truncate cf \<or> conservative st then st
             else if and v dropped \<noteq> 0
                  \<and> (and v oldsignmask = 0 \<or> and v signmask = 0 \<or> and v dropped \<noteq> dropped)
             then xwarn (Cast_truncates (and v oldmask) (and v msk)) st
             else st)))"

text \<open>The value and taint of \<open>old\<close> must be those of an integer constant, or it is a float.\<close>

definition cast_value :: "xconf \<Rightarrow> symref \<Rightarrow> enode \<Rightarrow> symref \<Rightarrow> xstate \<Rightarrow> enode \<times> xstate" where
  "cast_value cf newtype old oldtype st =
     (let tab = syms st; old_size = bit_size (tab oldtype); new_size = bit_size (tab newtype) in
      if base_of tab newtype = Some Fp_type \<or> base_of tab oldtype = Some Fp_type then
        (if \<not> is_float_type tab newtype then
           (let (v, st') = cast_int cf newtype old_size (to_longlong (fp cf) (e_fvalue old)) st
            in (EXPR_VALUE v 0, st'))
         else
           (let f = (if \<not> is_float_type tab oldtype
                     then of_longlong (fp cf) (get_longlong tab oldtype (e_value old))
                     else e_fvalue old);
                m = mods tab newtype
            in (EXPR_FVALUE
                 (if \<not> has_mod m MOD_LONGLONG \<and> \<not> has_mod m MOD_LONGLONGLONG then
                    (if has_mod m MOD_LONG then f_round (fp cf) Double f else f_round (fp cf) Float f)
                  else f), st)))
      else if old_size = new_size then (EXPR_VALUE (e_value old) (e_taint old), st)
      else
        (let (v, st') = cast_int cf newtype old_size (get_longlong tab oldtype (e_value old)) st
         in (EXPR_VALUE v (e_taint old), st')))"

section \<open>Integer operators\<close>

abbreviation op_chr :: "char \<Rightarrow> nat" where
  "op_chr c \<equiv> of_char c"

datatype fold = Fold u64 | No_fold | Fold_div | Fold_overflow | Fold_trap

text \<open>
  The switch of \<open>simplify_int_binop\<close>. The signed remainder has no guard: the most negative
  \<open>long long\<close> by -1 traps.
\<close>

definition int_binop :: "nat \<Rightarrow> bool \<Rightarrow> u64 \<Rightarrow> u64 \<Rightarrow> u64 \<Rightarrow> u64 \<Rightarrow> u64 \<Rightarrow> fold" where
  "int_binop op is_signed msk l r sl sr =
     (if op = op_chr (CHR ''+'') then Fold (l + r)
      else if op = op_chr (CHR ''-'') then Fold (l - r)
      else if op = op_chr (CHR ''&'') then Fold (and l r)
      else if op = op_chr (CHR ''|'') then Fold (or l r)
      else if op = op_chr (CHR ''^'') then Fold (xor l r)
      else if op = op_chr (CHR ''*'') then (if is_signed then Fold (sl * sr) else Fold (l * r))
      else if op = op_chr (CHR ''/'') then
        (if r = 0 then Fold_div
         else if is_signed then
           (if l = msk \<and> sr = -1 then Fold_overflow
            else if sl = size_mask 64 \<and> sr = -1 then Fold_trap
            else Fold (word_of_int (sint sl sdiv sint sr)))
         else Fold (l div r))
      else if op = op_chr (CHR ''%'') then
        (if r = 0 then Fold_div
         else if is_signed then
           (if sl = size_mask 64 \<and> sr = -1 then Fold_trap
            else Fold (word_of_int (sint sl smod sint sr)))
         else Fold (l mod r))
      else if op = SPECIAL_LEFTSHIFT then Fold (push_bit (unat r) l)
      else if op = SPECIAL_RIGHTSHIFT then
        (if is_signed then Fold (signed_drop_bit (unat r) sl) else Fold (drop_bit (unat r) l))
      else No_fold)"

text \<open>Sign extension from the operand size, as both simplifiers write it.\<close>

definition extend :: "u64 \<Rightarrow> u64 \<Rightarrow> u64" where
  "extend msk v = (if and v msk \<noteq> 0 then or v (not (msk - 1)) else v)"

text \<open>\<open>check_shift_count\<close> gets the count as an \<open>unsigned int\<close> and returns it as an \<open>int\<close>.\<close>

definition check_shift_count :: "int \<Rightarrow> u64 \<Rightarrow> xstate \<Rightarrow> u64 \<times> xstate" where
  "check_shift_count sz r st =
     (scast (and (ucast r :: u32) (word_of_int (sz - 1))), xwarn (Shift_too_big (ucast r)) st)"

text \<open>
  The result: \<open>None\<close> if the program traps; otherwise whether the expression was folded, the
  expression and the state. The operand on the right is changed when a shift count is too big.
\<close>

definition simplify_int_binop ::
    "expression \<Rightarrow> symref \<Rightarrow> xstate \<Rightarrow> (bool \<times> expression \<times> xstate) option" where
  "simplify_int_binop expr ctype st =
     (case e_node expr of
        Binary bt left right \<Rightarrow>
          (case e_node right of
             EXPR_VALUE r0 rt \<Rightarrow>
               (let tab = syms st; sz = bit_size (tab ctype); op = e_op expr;
                    big = ((op = SPECIAL_LEFTSHIFT \<or> op = SPECIAL_RIGHTSHIFT) \<and> r0 \<ge> word_of_int sz)
                in if big \<and> conservative st then Some (False, expr, st)
                else
                  (let (r, st1) = (if big then check_shift_count sz r0 st else (r0, st));
                       right1 = set_node right (EXPR_VALUE r rt);
                       expr1 = set_node expr (Binary bt left right1)
                   in case e_node left of
                        EXPR_VALUE l lt \<Rightarrow>
                          (let is_signed = (\<not> has_mod (mods tab ctype) MOD_UNSIGNED);
                               msk = size_mask sz;
                               sl = (if is_signed then extend msk l else l);
                               sr = (if is_signed then extend msk r else r)
                           in case int_binop op is_signed msk l r sl sr of
                                Fold v \<Rightarrow>
                                  Some (True, set_node expr (EXPR_VALUE (and v (all_mask sz)) (or lt rt)), st1)
                              | No_fold \<Rightarrow> Some (False, expr1, st1)
                              | Fold_div \<Rightarrow>
                                  Some (False, expr1, if conservative st1 then st1 else xwarn Division_by_zero st1)
                              | Fold_overflow \<Rightarrow>
                                  Some (False, expr1, if conservative st1 then st1 else xwarn Constant_overflow st1)
                              | Fold_trap \<Rightarrow> None)
                      | _ \<Rightarrow> Some (False, expr1, st1)))
           | _ \<Rightarrow> Some (False, expr, st))
      | _ \<Rightarrow> Some (False, expr, st))"

definition bit_value :: "bool \<Rightarrow> u64" where
  "bit_value b = (if b then 1 else 0)"

text \<open>
  The switch of \<open>simplify_cmp_binop\<close>. The parser and the evaluator give \<open>EXPR_COMPARE\<close> one
  of these operators; \<open>None\<close> stands for the undefined value the code leaves for another one.
\<close>

definition cmp_binop :: "nat \<Rightarrow> u64 \<Rightarrow> u64 \<Rightarrow> u64 \<Rightarrow> u64 \<Rightarrow> bool option" where
  "cmp_binop op l r sl sr =
     (if op = op_chr (CHR ''<'') then Some (sint sl < sint sr)
      else if op = op_chr (CHR ''>'') then Some (sint sl > sint sr)
      else if op = SPECIAL_LTE then Some (sint sl \<le> sint sr)
      else if op = SPECIAL_GTE then Some (sint sl \<ge> sint sr)
      else if op = SPECIAL_EQUAL then Some (l = r)
      else if op = SPECIAL_NOTEQUAL then Some (l \<noteq> r)
      else if op = SPECIAL_UNSIGNED_LT then Some (l < r)
      else if op = SPECIAL_UNSIGNED_GT then Some (l > r)
      else if op = SPECIAL_UNSIGNED_LTE then Some (l \<le> r)
      else if op = SPECIAL_UNSIGNED_GTE then Some (l \<ge> r)
      else None)"

definition simplify_cmp_binop ::
    "expression \<Rightarrow> symref \<Rightarrow> xstate \<Rightarrow> (bool \<times> expression) option" where
  "simplify_cmp_binop expr ctype st =
     (case e_node expr of
        Binary bt left right \<Rightarrow>
          (case (e_node left, e_node right) of
             (EXPR_VALUE l lt, EXPR_VALUE r rt) \<Rightarrow>
               (let msk = size_mask (bit_size (syms st ctype)) in
                case cmp_binop (e_op expr) l r (extend msk l) (extend msk r) of
                  Some b \<Rightarrow> Some (True, set_node expr (EXPR_VALUE (bit_value b) (or lt rt)))
                | None \<Rightarrow> None)
           | _ \<Rightarrow> Some (False, expr))
      | _ \<Rightarrow> Some (False, expr))"

section \<open>Floating point operators\<close>

definition float_prec :: "u64 \<Rightarrow> fprec" where
  "float_prec m =
     (if has_mod m MOD_LONGLONG then Long_double else if has_mod m MOD_LONG then Double else Float)"

definition simplify_float_binop :: "xconf \<Rightarrow> expression \<Rightarrow> symref \<Rightarrow> xstate \<Rightarrow> bool \<times> expression \<times> xstate" where
  "simplify_float_binop cf expr ctype st =
     (case e_node expr of
        Binary bt left right \<Rightarrow>
          (case (e_node left, e_node right) of
             (EXPR_FVALUE l, EXPR_FVALUE r) \<Rightarrow>
               (let p = float_prec (mods (syms st) ctype); op = e_op expr;
                    done = (\<lambda>f. (True, set_node expr (EXPR_FVALUE (f (fp cf) p l r)), st))
                in if op = op_chr (CHR ''+'') then done f_add
                else if op = op_chr (CHR ''-'') then done f_sub
                else if op = op_chr (CHR ''*'') then done f_mul
                else if op = op_chr (CHR ''/'') then
                  (if f_zero (fp cf) r
                   then (False, expr, if conservative st then st else xwarn Division_by_zero st)
                   else done f_div)
                else (False, expr, st))
           | _ \<Rightarrow> (False, expr, st))
      | _ \<Rightarrow> (False, expr, st))"

definition float_cmp :: "fops \<Rightarrow> nat \<Rightarrow> ldouble \<Rightarrow> ldouble \<Rightarrow> bool option" where
  "float_cmp f op l r =
     (if op = op_chr (CHR ''<'') then Some (f_lt f l r)
      else if op = op_chr (CHR ''>'') then Some (f_lt f r l)
      else if op = SPECIAL_LTE then Some (f_le f l r)
      else if op = SPECIAL_GTE then Some (f_le f r l)
      else if op = SPECIAL_EQUAL then Some (f_eq f l r)
      else if op = SPECIAL_NOTEQUAL then Some (\<not> f_eq f l r)
      else None)"

definition simplify_float_cmp :: "xconf \<Rightarrow> expression \<Rightarrow> (bool \<times> expression) option" where
  "simplify_float_cmp cf expr =
     (case e_node expr of
        Binary bt left right \<Rightarrow>
          (case (e_node left, e_node right) of
             (EXPR_FVALUE l, EXPR_FVALUE r) \<Rightarrow>
               (case float_cmp (fp cf) (e_op expr) l r of
                  Some b \<Rightarrow> Some (True, set_node expr (EXPR_VALUE (bit_value b) 0))
                | None \<Rightarrow> None)
           | _ \<Rightarrow> Some (False, expr))
      | _ \<Rightarrow> Some (False, expr))"

section \<open>Unary operators\<close>

definition simplify_preop :: "expression \<Rightarrow> symref \<Rightarrow> xstate \<Rightarrow> bool \<times> expression \<times> xstate" where
  "simplify_preop expr ctype st =
     (case e_node expr of
        Unary ut unop k \<Rightarrow>
          (case e_node unop of
             EXPR_VALUE v t \<Rightarrow>
               (let tab = syms st; sz = bit_size (tab ctype); msk = size_mask sz; op = e_op expr;
                    done = (\<lambda>w. (True, set_node expr (EXPR_VALUE (and w (all_mask sz)) t), st))
                in if op = op_chr (CHR ''+'') then done v
                else if op = op_chr (CHR ''-'') then
                  (if v = msk \<and> \<not> has_mod (mods tab ctype) MOD_UNSIGNED
                   then (False, expr, if conservative st then st else xwarn Constant_overflow st)
                   else done (- v))
                else if op = op_chr (CHR ''!'') then done (bit_value (v = 0))
                else if op = op_chr (CHR ''~'') then done (not v)
                else (False, expr, st))
           | _ \<Rightarrow> (False, expr, st))
      | _ \<Rightarrow> (False, expr, st))"

definition simplify_float_preop :: "xconf \<Rightarrow> expression \<Rightarrow> bool \<times> expression" where
  "simplify_float_preop cf expr =
     (case e_node expr of
        Unary ut unop k \<Rightarrow>
          (case e_node unop of
             EXPR_FVALUE v \<Rightarrow>
               (if e_op expr = op_chr (CHR ''+'') then (True, set_node expr (EXPR_FVALUE v))
                else if e_op expr = op_chr (CHR ''-'') then (True, set_node expr (EXPR_FVALUE (f_neg (fp cf) v)))
                else (False, expr))
           | _ \<Rightarrow> (False, expr))
      | _ \<Rightarrow> (False, expr))"

end
