(* ===== verification/Sort_List.thy ===== *)
theory Sort_List
  imports Ptr_List
begin

text \<open>
  The stable sort on pointer lists (\<open>sort.c\<close>): an insertion sort of each block, then bottom-up
  merging of runs of \<open>blocks\<close> blocks, doubling \<open>blocks\<close> after each pass over the ring. The
  merge works in place: it keeps the \<open>nr\<close> of every block and relinks an exhausted block of
  the second run in front of the current block of the first.
\<close>

type_synonym 'a cmp = "'a \<Rightarrow> 'a \<Rightarrow> int"

section \<open>Sorting one block\<close>

text \<open>
  The inner \<open>do\<close> loop of \<open>array_sort\<close>: the hole is at \<open>j\<close>, \<open>p\<close> was taken out of the
  array. The state is the array with the hole still holding an old copy.
\<close>

fun shift_down :: "'a cmp \<Rightarrow> 'a \<Rightarrow> nat \<Rightarrow> 'a list \<Rightarrow> nat \<times> 'a list" where
  "shift_down cmp p 0 a = (0, a)"
| "shift_down cmp p (Suc j) a =
     (let a' = a[Suc j := a ! j] in
      if j = 0 then (0, a')
      else if cmp (a' ! (j - 1)) p > 0 then shift_down cmp p j a' else (j, a'))"

definition sort_step :: "'a cmp \<Rightarrow> nat \<Rightarrow> 'a list \<Rightarrow> 'a list" where
  "sort_step cmp i a =
     (let p = a ! i in
      if cmp (a ! (i - 1)) p > 0 then (let (j, a') = shift_down cmp p i a in a'[j := p]) else a)"

definition array_sort :: "'a cmp \<Rightarrow> 'a list \<Rightarrow> 'a list" where
  "array_sort cmp a = foldl (\<lambda>a i. sort_step cmp i a) a [1 ..< length a]"

section \<open>Merging two runs of blocks\<close>

text \<open>
  \<open>merge_loop done b1 i1 r1 mid b2 i2 r2 buf k\<close> is the \<open>while (1)\<close> loop. \<open>done\<close> are the
  blocks in front of \<open>b1\<close>, \<open>b1 # r1\<close> the rest of the first run, \<open>mid\<close> the blocks between
  the runs (empty blocks of the second run that were skipped), \<open>b2 # r2\<close> the rest of the
  second run and \<open>buf\<close> the merge buffer. \<open>k\<close> counts the blocks relinked in front of the
  block the first run began with, as long as that block is still current: it is the position of
  the old head in the result, which the caller's loop test needs. \<open>track\<close> says whether it still is.
\<close>

fun flush_all :: "'a list \<Rightarrow> 'a ptr_list \<Rightarrow> 'a ptr_list \<times> 'a list" where
  "flush_all buf [] = ([], buf)"
| "flush_all buf (b # bs) =
     (let (bs', buf') = flush_all (drop (length b) buf) bs in (take (length b) buf # bs', buf'))"

text \<open>The blocks skipped by \<open>do b = b->next while (b->nr == 0)\<close>.\<close>

fun skip_empty :: "'a ptr_list \<Rightarrow> 'a ptr_list \<times> 'a ptr_list" where
  "skip_empty [] = ([], [])"
| "skip_empty (b # bs) =
     (if length b = 0 then (let (e, r) = skip_empty bs in (b # e, r)) else ([], b # bs))"

lemma skip_empty_length: "skip_empty bs = (e, r) \<Longrightarrow> length (concat r) = length (concat bs)"
  by (induction bs arbitrary: e r) (auto split: if_splits prod.splits)

definition dump_to :: "'a list \<Rightarrow> 'a block \<Rightarrow> 'a block" where
  "dump_to buf b = buf @ drop (length buf) b"

function merge_loop ::
  "'a cmp \<Rightarrow> 'a ptr_list \<Rightarrow> 'a block \<Rightarrow> nat \<Rightarrow> 'a ptr_list \<Rightarrow> 'a ptr_list \<Rightarrow> 'a block \<Rightarrow> nat
   \<Rightarrow> 'a ptr_list \<Rightarrow> 'a list \<Rightarrow> nat \<Rightarrow> bool \<Rightarrow> 'a ptr_list \<times> nat" where
  "merge_loop cmp done b1 i1 r1 mid b2 i2 r2 buf k track =
     (if \<not> (i1 < length b1 \<and> i2 < length b2) then (done @ b1 # r1 @ mid @ b2 # r2, k)
      else if cmp (b1 ! i1) (b2 ! i2) \<le> 0 then
        (let buf' = buf @ [b1 ! i1] in
         if Suc i1 \<ge> length b1 then
           (let out = take (length b1) buf'; rest = drop (length b1) buf';
                (e, r) = skip_empty r1
            in case r of
                 [] \<Rightarrow> (let (m', rest') = flush_all rest mid
                        in (done @ out # e @ m' @ dump_to rest' b2 # r2, k))
               | b1' # r1' \<Rightarrow>
                   merge_loop cmp (done @ out # e) b1' 0 r1' mid b2 i2 r2 rest k False)
         else merge_loop cmp done b1 (Suc i1) r1 mid b2 i2 r2 buf' k track)
      else
        (let buf' = buf @ [b2 ! i2] in
         if Suc i2 \<ge> length b2 then
           (let out = take (length b2) buf'; rest = drop (length b2) buf';
                k' = (if track then Suc k else k);
                (e, r) = skip_empty r2
            in case r of
                 [] \<Rightarrow> (done @ out # dump_to rest b1 # r1 @ mid @ e, k')
               | b2' # r2' \<Rightarrow>
                   merge_loop cmp (done @ [out]) b1 i1 r1 (mid @ e) b2' 0 r2' rest k' track)
         else merge_loop cmp done b1 i1 r1 mid b2 (Suc i2) r2 buf' k track))"
  by pat_completeness auto
termination
  by (relation "measure (\<lambda>(cmp, done, b1, i1, r1, mid, b2, i2, r2, buf, k, track).
        (length b1 - i1) + length (concat r1) + (length b2 - i2) + length (concat r2))")
     (auto dest!: skip_empty_length [OF sym])

declare merge_loop.simps [simp del]

text \<open>The quick skip over blocks of the first run that are already in place.\<close>

fun quick_skip :: "'a cmp \<Rightarrow> 'a \<Rightarrow> 'a ptr_list \<Rightarrow> 'a ptr_list \<times> 'a ptr_list" where
  "quick_skip cmp x [] = ([], [])"
| "quick_skip cmp x (b # bs) =
     (if length b = 0 \<or> cmp (b ! (length b - 1)) x < 0
      then (let (s, r) = quick_skip cmp x bs in (b # s, r)) else ([], b # bs))"

text \<open>
  Merges the adjacent runs \<open>bs1\<close> (\<open>n\<close> blocks) and \<open>bs2\<close> (\<open>m\<close> blocks); the second
  component is where the first block of \<open>bs1\<close> ended up.
\<close>

definition merge_block_seqs :: "'a cmp \<Rightarrow> 'a ptr_list \<Rightarrow> 'a ptr_list \<Rightarrow> 'a ptr_list \<times> nat" where
  "merge_block_seqs cmp bs1 bs2 =
     (case skip_empty bs2 of
        (mid, []) \<Rightarrow> (bs1 @ bs2, 0)
      | (mid, b2 # r2) \<Rightarrow>
          (case quick_skip cmp (b2 ! 0) bs1 of
             (s, []) \<Rightarrow> (bs1 @ bs2, 0)
           | (s, b1 # r1) \<Rightarrow> merge_loop cmp s b1 0 r1 mid b2 0 r2 [] 0 (s = [])))"

section \<open>What the merge computes\<close>

text \<open>The reference merge, which prefers the first run on ties.\<close>

fun merge_ref :: "'a cmp \<Rightarrow> 'a list \<Rightarrow> 'a list \<Rightarrow> 'a list" where
  "merge_ref cmp [] ys = ys"
| "merge_ref cmp xs [] = xs"
| "merge_ref cmp (x # xs) (y # ys) =
     (if cmp x y \<le> 0 then x # merge_ref cmp xs (y # ys) else y # merge_ref cmp (x # xs) ys)"

lemma merge_ref_Nil [simp]: "merge_ref cmp xs [] = xs"
  by (cases xs) auto

lemma merge_induct:
  fixes P :: "'a list \<Rightarrow> 'b list \<Rightarrow> bool"
  assumes "\<And>ys. P [] ys" "\<And>x xs. P (x # xs) []"
    and "\<And>x xs y ys. P xs (y # ys) \<Longrightarrow> P (x # xs) ys \<Longrightarrow> P (x # xs) (y # ys)"
  shows "P xs ys"
proof (induction xs arbitrary: ys)
  case (Cons x xs)
  show ?case by (induction ys) (use Cons assms in auto)
qed (rule assms(1))

lemma skip_empty_split:
  "skip_empty bs = (e, r) \<Longrightarrow> bs = e @ r \<and> concat e = [] \<and> (r \<noteq> [] \<longrightarrow> hd r \<noteq> [])"
  by (induction bs arbitrary: e r) (fastforce split: if_splits prod.splits)+

lemma flush_all_empty: "concat bs = [] \<Longrightarrow> flush_all buf bs = (bs, buf)"
  by (induction bs) auto

lemma drop_nth_Cons: "i < length b \<Longrightarrow> drop i b = b ! i # drop (Suc i) b"
  by (rule Cons_nth_drop_Suc [symmetric])

lemma dump_spec:
  "length buf = n + i \<Longrightarrow> i \<le> length b \<Longrightarrow>
   take n buf @ dump_to (drop n buf) b = buf @ drop i b
   \<and> length (take n buf) = n \<and> length (dump_to (drop n buf) b) = length b"
  by (simp add: dump_to_def)

lemma mset_map_lengths_eq [blk_simps]:
  "mset (map length (a @ b)) = mset (map length a) + mset (map length b)"
  by simp

text \<open>
  The loop invariant: the buffer holds exactly the entries consumed in the two current blocks,
  and the blocks between the runs are empty. It gives both the merged contents and the block sizes.
\<close>

lemma merge_loop_spec:
  assumes "length buf = i1 + i2" "i1 < length b1" "i2 < length b2" "concat mid = []"
  shows "entries (fst (merge_loop cmp done b1 i1 r1 mid b2 i2 r2 buf k track))
           = entries done @ buf @ merge_ref cmp (drop i1 b1 @ concat r1) (drop i2 b2 @ concat r2)
         \<and> mset (map length (fst (merge_loop cmp done b1 i1 r1 mid b2 i2 r2 buf k track)))
           = mset (map length (done @ b1 # r1 @ mid @ b2 # r2))"
  using assms
proof (induction cmp "done" b1 i1 r1 mid b2 i2 r2 buf k track rule: merge_loop.induct)
  case (1 cmp "done" b1 i1 r1 mid b2 i2 r2 buf k track)
  note unfold = merge_loop.simps [of cmp "done" b1 i1 r1 mid b2 i2 r2 buf k track]
  have d1: "drop i1 b1 = b1 ! i1 # drop (Suc i1) b1" and d2: "drop i2 b2 = b2 ! i2 # drop (Suc i2) b2"
    using "1.prems" by (simp_all add: drop_nth_Cons)
  obtain e1 s1 where sk1: "skip_empty r1 = (e1, s1)" by (cases "skip_empty r1")
  obtain e2 s2 where sk2: "skip_empty r2 = (e2, s2)" by (cases "skip_empty r2")
  note sp1 = skip_empty_split [OF sk1] and sp2 = skip_empty_split [OF sk2]
  have in_range: "\<not> \<not> (i1 < length b1 \<and> i2 < length b2)" using "1.prems" by simp
  show ?case
  proof (cases "cmp (b1 ! i1) (b2 ! i2) \<le> 0")
    case le: True
    show ?thesis
    proof (cases "Suc i1 \<ge> length b1")
      case end1: True
      then have i1: "length b1 = Suc i1" using "1.prems" by simp
      show ?thesis
      proof (cases s1)
        case Nil
        define out where "out = take (Suc i1) (buf @ [b1 ! i1])"
        define dmp where "dmp = dump_to (drop (Suc i1) (buf @ [b1 ! i1])) b2"
        have "fst (merge_loop cmp done b1 i1 r1 mid b2 i2 r2 buf k track)
            = done @ out # e1 @ mid @ dmp # r2"
          using i1 le in_range sk1 Nil "1.prems"
          by (simp add: unfold Let_def flush_all_empty out_def dmp_def)
        moreover have "out @ dmp @ xs = buf @ b1 ! i1 # drop i2 b2 @ xs \<and> length out = Suc i1
            \<and> length dmp = length b2" for xs
          using dump_spec [of "buf @ [b1 ! i1]" "Suc i1" i2 b2] "1.prems"
          by (simp add: out_def dmp_def)
        ultimately show ?thesis using sp1 i1 le Nil "1.prems"
          by (simp add: d1 entries_def del: concat_eq_Nil_conv) (simp add: d2)
      next
        case (Cons c s)
        define out where "out = take (length b1) (buf @ [b1 ! i1])"
        define rest where "rest = drop (length b1) (buf @ [b1 ! i1])"
        have "out @ rest = buf @ [b1 ! i1]" unfolding out_def rest_def by (rule append_take_drop_id)
        then have o: "out @ rest @ xs = buf @ b1 ! i1 # xs \<and> length out = length b1
            \<and> length rest = i2" for xs
          using "1.prems" i1 by (auto simp: out_def rest_def)
        have "merge_loop cmp done b1 i1 r1 mid b2 i2 r2 buf k track
            = merge_loop cmp (done @ out # e1) c 0 s mid b2 i2 r2 rest k False"
          using le end1 in_range sk1 Cons by (simp add: unfold Let_def out_def rest_def)
        then show ?thesis
          using "1.IH"(1) [OF in_range le refl end1 refl refl sk1 [symmetric] refl Cons, folded out_def rest_def]
            o sp1 Cons i1 le "1.prems"
          by (simp add: entries_def d1 del: concat_eq_Nil_conv) (simp add: d2)
      qed
    next
      case False
      with "1.IH"(2) [OF in_range le refl False] le in_range "1.prems" show ?thesis
        by (simp add: unfold d1 d2)
    qed
  next
    case gt: False
    show ?thesis
    proof (cases "Suc i2 \<ge> length b2")
      case end2: True
      then have i2: "length b2 = Suc i2" using "1.prems" by simp
      show ?thesis
      proof (cases s2)
        case Nil
        define out where "out = take (Suc i2) (buf @ [b2 ! i2])"
        define dmp where "dmp = dump_to (drop (Suc i2) (buf @ [b2 ! i2])) b1"
        have "fst (merge_loop cmp done b1 i1 r1 mid b2 i2 r2 buf k track)
            = done @ out # dmp # r1 @ mid @ e2"
          using i2 gt in_range sk2 Nil "1.prems"
          by (simp add: unfold Let_def out_def dmp_def)
        moreover have "out @ dmp @ xs = buf @ b2 ! i2 # drop i1 b1 @ xs \<and> length out = Suc i2
            \<and> length dmp = length b1" for xs
          using dump_spec [of "buf @ [b2 ! i2]" "Suc i2" i1 b1] "1.prems"
          by (simp add: out_def dmp_def)
        ultimately show ?thesis using sp2 i2 gt Nil "1.prems"
          by (simp add: d2 entries_def del: concat_eq_Nil_conv) (simp add: d1)
      next
        case (Cons c s)
        define out where "out = take (length b2) (buf @ [b2 ! i2])"
        define rest where "rest = drop (length b2) (buf @ [b2 ! i2])"
        have "out @ rest = buf @ [b2 ! i2]" unfolding out_def rest_def by (rule append_take_drop_id)
        then have o: "out @ rest @ xs = buf @ b2 ! i2 # xs \<and> length out = length b2
            \<and> length rest = i1" for xs
          using "1.prems" i2 by (auto simp: out_def rest_def)
        have "merge_loop cmp done b1 i1 r1 mid b2 i2 r2 buf k track
            = merge_loop cmp (done @ [out]) b1 i1 r1 (mid @ e2) c 0 s rest
                (if track then Suc k else k) track"
          using gt end2 in_range sk2 Cons by (simp add: unfold Let_def out_def rest_def)
        then show ?thesis
          using "1.IH"(3) [OF in_range gt refl end2 refl refl refl sk2 [symmetric] refl Cons, folded out_def rest_def]
            o sp2 Cons i2 gt "1.prems"
          by (simp add: entries_def d2 del: concat_eq_Nil_conv) (simp add: d1)
      qed
    next
      case False
      with "1.IH"(4) [OF in_range gt refl False] gt in_range "1.prems" show ?thesis
        by (simp add: unfold d1 d2)
    qed
  qed
qed

section \<open>The passes\<close>

text \<open>
  One pass from \<open>block1\<close> up to the head: the first \<open>blocks\<close> blocks are merged with the next
  ones. A remainder of at most \<open>blocks\<close> blocks is left alone (\<open>goto next_pass\<close>).
\<close>

function merge_pass :: "'a cmp \<Rightarrow> nat \<Rightarrow> 'a ptr_list \<Rightarrow> 'a ptr_list" where
  "merge_pass cmp blocks bs =
     (if length bs \<le> blocks \<or> blocks = 0 then bs
      else fst (merge_block_seqs cmp (take blocks bs) (take blocks (drop blocks bs)))
             @ merge_pass cmp blocks (drop blocks (drop blocks bs)))"
  by pat_completeness auto
termination
  by (relation "measure (\<lambda>(cmp, blocks, bs). length bs)") auto

declare merge_pass.simps [simp del]

text \<open>
  The first merge of a pass can move the head. When it also reached the end of the ring, the
  saved \<open>next\<close> is the old head, which is no longer the head, and the pass goes on from there.
\<close>

definition first_pass :: "'a cmp \<Rightarrow> nat \<Rightarrow> 'a ptr_list \<Rightarrow> 'a ptr_list" where
  "first_pass cmp blocks bs =
     (let (m, k) = merge_block_seqs cmp (take blocks bs) (take blocks (drop blocks bs));
          nxt = drop blocks (drop blocks bs)
      in if nxt = [] then (if k = 0 then m else take k m @ merge_pass cmp blocks (drop k m))
         else m @ merge_pass cmp blocks nxt)"

section \<open>Block sizes\<close>

lemma mset_lengths_merge:
  "mset (map length (fst (merge_block_seqs cmp bs1 bs2))) = mset (map length (bs1 @ bs2))"
proof -
  obtain mid m2 where e: "skip_empty bs2 = (mid, m2)" by (cases "skip_empty bs2")
  note e' = skip_empty_split [OF e]
  have q: "bs = s @ r \<and> (r \<noteq> [] \<longrightarrow> hd r \<noteq> [])"
    if "quick_skip cmp x bs = (s, r)" for x bs s r
    using that by (induction bs arbitrary: s r) (fastforce split: if_splits prod.splits)+
  show ?thesis
  proof (cases m2)
    case (Cons b2 r2)
    obtain s r where s: "quick_skip cmp (b2 ! 0) bs1 = (s, r)" by (cases "quick_skip cmp (b2 ! 0) bs1")
    note q' = q [OF s]
    show ?thesis
    proof (cases r)
      case (Cons b1 r1)
      with e e' s q' \<open>m2 = _\<close> merge_loop_spec [of "[]" 0 0 b1 b2 mid cmp s r1 r2 0 "s = []"]
      show ?thesis by (simp add: merge_block_seqs_def)
    qed (use e s \<open>m2 = _\<close> in \<open>simp add: merge_block_seqs_def\<close>)
  qed (use e in \<open>simp add: merge_block_seqs_def\<close>)
qed

lemma mset_lengths_pass: "mset (map length (merge_pass cmp blocks bs)) = mset (map length bs)"
proof (induction cmp blocks bs rule: merge_pass.induct)
  case (1 cmp blocks bs)
  show ?case
  proof (cases "length bs \<le> blocks \<or> blocks = 0")
    case False
    have "mset (map length bs) = mset (map length (take blocks bs @ take blocks (drop blocks bs)))
            + mset (map length (drop blocks (drop blocks bs)))"
      by (metis append_take_drop_id map_append mset_append append_assoc)
    with False "1.IH" [OF False] show ?thesis
      by (simp add: merge_pass.simps [of cmp blocks bs] mset_lengths_merge)
         (simp flip: mset_map add: mset_lengths_merge)
  qed (simp add: merge_pass.simps [of cmp blocks bs])
qed

lemma mset_lengths_first: "mset (map length (first_pass cmp blocks bs)) = mset (map length bs)"
proof -
  let ?a = "take blocks bs" and ?b = "take blocks (drop blocks bs)"
    and ?c = "drop blocks (drop blocks bs)"
  obtain m k where m: "merge_block_seqs cmp ?a ?b = (m, k)" by (cases "merge_block_seqs cmp ?a ?b")
  have bs: "mset (map length bs) = mset (map length (?a @ ?b)) + mset (map length ?c)"
    by (metis append_take_drop_id map_append mset_append append_assoc)
  have mm: "mset (map length m) = mset (map length (?a @ ?b))"
    using mset_lengths_merge [of cmp ?a ?b] m by simp
  have sp: "mset (map length (take k m)) + mset (map length (drop k m)) = mset (map length m)"
    by (metis append_take_drop_id map_append mset_append)
  show ?thesis
    using m bs mm sp
    by (simp add: first_pass_def Let_def mset_lengths_pass [unfolded mset_map]
        del: drop_drop take_drop split: if_splits)
qed

lemma length_first_pass [simp]: "length (first_pass cmp blocks bs) = length bs"
  using mset_lengths_first [of cmp blocks bs] by (metis length_map mset_eq_length)

function sort_passes :: "'a cmp \<Rightarrow> nat \<Rightarrow> 'a ptr_list \<Rightarrow> 'a ptr_list" where
  "sort_passes cmp blocks bs =
     (if length bs \<le> blocks \<or> blocks = 0 then bs
      else sort_passes cmp (2 * blocks) (first_pass cmp blocks bs))"
  by pat_completeness auto

termination
  by (relation "measure (\<lambda>(cmp, blocks, bs). length bs - blocks)") auto

declare sort_passes.simps [simp del]

text \<open>The whole sort: each block by itself, then passes from one block per run.\<close>

definition sort_list :: "'a cmp \<Rightarrow> 'a ptr_list \<Rightarrow> 'a ptr_list" where
  "sort_list cmp l = (if l = [] then [] else sort_passes cmp 1 (map (array_sort cmp) l))"

section \<open>Insertion sort of a block\<close>

text \<open>Insertion from the right end; lists are reversed, so the first element is the last one.\<close>

fun ins_rev :: "'a cmp \<Rightarrow> 'a \<Rightarrow> 'a list \<Rightarrow> 'a list" where
  "ins_rev cmp p [] = [p]"
| "ins_rev cmp p (x # xs) = (if cmp x p > 0 then x # ins_rev cmp p xs else p # x # xs)"

lemma shift_down_spec:
  "j < length a \<Longrightarrow> 0 < j \<Longrightarrow> cmp (a ! (j - 1)) p > 0 \<Longrightarrow> shift_down cmp p j a = (h, a') \<Longrightarrow>
   a'[h := p] = rev (ins_rev cmp p (rev (take j a))) @ drop (Suc j) a \<and> length a' = length a"
proof (induction cmp p j a arbitrary: h a' rule: shift_down.induct)
  case (2 cmp p j a)
  let ?a = "a[Suc j := a ! j]"
  have t: "take (Suc j) a = take j a @ [a ! j]" "take j ?a = take j a"
    using "2.prems" by (simp_all add: take_Suc_conv_app_nth)
  have d: "drop (Suc j) ?a = a ! j # drop (Suc (Suc j)) a"
    using "2.prems" by (simp add: drop_nth_Cons)
  show ?case
  proof (cases "j = 0 \<or> \<not> cmp (a ! (j - 1)) p > 0")
    case True
    with "2.prems" have h: "h = j" "a' = ?a" by (auto simp: Let_def split: if_splits)
    have i: "ins_rev cmp p (rev (take (Suc j) a)) = a ! j # p # rev (take j a)"
      using True "2.prems" t
      by (cases j) (auto simp: take_Suc_conv_app_nth)
    have "a'[h := p] = take j a @ p # drop (Suc j) ?a"
      using "2.prems" by (simp add: h upd_conv_take_nth_drop)
    with i d show ?thesis by (simp add: h)
  next
    case False
    with "2.prems" have "shift_down cmp p j ?a = (h, a')" by (auto simp: Let_def split: if_splits)
    with "2.IH" [OF refl, of h a'] False "2.prems" t d show ?thesis by simp
  qed
qed simp

lemma sort_step_spec:
  assumes "0 < i" "i < length a"
  shows "sort_step cmp i a = rev (ins_rev cmp (a ! i) (rev (take i a))) @ drop (Suc i) a"
proof (cases "cmp (a ! (i - 1)) (a ! i) > 0")
  case True
  obtain h a' where "shift_down cmp (a ! i) i a = (h, a')" by (cases "shift_down cmp (a ! i) i a")
  with shift_down_spec [of i a cmp "a ! i", OF assms(2,1) True this] True show ?thesis
    by (simp add: sort_step_def Let_def)
next
  case False
  have t: "take i a = take (i - 1) a @ [a ! (i - 1)]"
    using assms take_Suc_conv_app_nth [of "i - 1" a] by simp
  have "ins_rev cmp (a ! i) (rev (take i a)) = a ! i # rev (take i a)" using False by (simp add: t)
  with assms False show ?thesis
    by (simp add: sort_step_def Let_def id_take_nth_drop [symmetric])
qed

lemma length_ins_rev [simp]: "length (ins_rev cmp p xs) = Suc (length xs)"
  by (induction xs) auto

lemma array_sort_prefix:
  "Suc n \<le> length a \<Longrightarrow> foldl (\<lambda>a i. sort_step cmp i a) a [1 ..< Suc n]
     = rev (foldl (\<lambda>acc p. ins_rev cmp p acc) [] (take (Suc n) a)) @ drop (Suc n) a"
proof (induction n)
  case 0
  then show ?case by (cases a) auto
next
  case (Suc n)
  let ?r = "foldl (\<lambda>acc p. ins_rev cmp p acc) [] (take (Suc n) a)"
  have len: "length (foldl (\<lambda>acc p. ins_rev cmp p acc) [] xs) = length xs" for xs
    by (induction xs rule: rev_induct) auto
  have "sort_step cmp (Suc n) (rev ?r @ drop (Suc n) a)
      = rev (ins_rev cmp (a ! Suc n) ?r) @ drop (Suc (Suc n)) a"
    using Suc.prems by (subst sort_step_spec) (auto simp: len nth_append)
  with Suc show ?case by (simp add: take_Suc_conv_app_nth [of "Suc n"])
qed

lemma array_sort_foldl: "array_sort cmp a = rev (foldl (\<lambda>acc p. ins_rev cmp p acc) [] a)"
proof (cases a)
  case (Cons x xs)
  then show ?thesis using array_sort_prefix [of "length xs" a cmp] by (simp add: array_sort_def)
qed (simp add: array_sort_def)

section \<open>Correctness for a total preorder\<close>

text \<open>
  The contract of a comparison function, and what a stable sort promises: the result is
  ordered, is a permutation, and keeps the order of entries that compare equal.
\<close>

definition ordered_by :: "'a cmp \<Rightarrow> 'a list \<Rightarrow> bool" where
  "ordered_by cmp xs = sorted_wrt (\<lambda>a b. cmp a b \<le> 0) xs"

definition same_classes :: "'a cmp \<Rightarrow> 'a list \<Rightarrow> 'a list \<Rightarrow> bool" where
  "same_classes cmp xs ys =
     (mset xs = mset ys \<and> (\<forall>x. filter (\<lambda>y. cmp x y = 0) xs = filter (\<lambda>y. cmp x y = 0) ys))"

locale cmp_order =
  fixes cmp :: "'a \<Rightarrow> 'a \<Rightarrow> int"
  assumes cmp_flip: "0 < cmp x y \<longleftrightarrow> cmp y x < 0"
    and cmp_trans: "cmp x y \<le> 0 \<Longrightarrow> cmp y z \<le> 0 \<Longrightarrow> cmp x z \<le> 0"
begin

lemma cmp_refl [simp]: "cmp x x = 0"
  using cmp_flip [of x x] by linarith

lemma cmp_total: "cmp x y \<le> 0 \<or> cmp y x \<le> 0"
  using cmp_flip [of x y] by linarith

lemma eqv_sym: "cmp x y = 0 \<longleftrightarrow> cmp y x = 0"
  using cmp_flip [of x y] cmp_flip [of y x] by linarith

lemma eqv_class: "cmp x y > 0 \<Longrightarrow> cmp z x = 0 \<Longrightarrow> cmp z y \<noteq> 0"
  using cmp_trans [of x z y] eqv_sym [of z x] by force

lemma same_refl: "same_classes cmp xs xs"
  by (simp add: same_classes_def)

lemma same_trans: "same_classes cmp xs ys \<Longrightarrow> same_classes cmp ys zs \<Longrightarrow> same_classes cmp xs zs"
  by (simp add: same_classes_def)

lemma same_append:
  "same_classes cmp xs xs' \<Longrightarrow> same_classes cmp ys ys' \<Longrightarrow> same_classes cmp (xs @ ys) (xs' @ ys')"
  by (simp add: same_classes_def)

lemma same_set: "same_classes cmp xs ys \<Longrightarrow> set xs = set ys"
  by (auto simp: same_classes_def dest: mset_eq_setD)

lemma ins_rev_mset: "mset (ins_rev cmp p xs) = add_mset p (mset xs)"
  by (induction xs) auto

lemma ins_rev_set: "set (ins_rev cmp p xs) = insert p (set xs)"
  by (induction xs) auto

lemma ins_rev_ordered:
  "ordered_by cmp (rev xs) \<Longrightarrow> ordered_by cmp (rev (ins_rev cmp p xs))"
proof (induction xs)
  case (Cons x xs)
  then show ?case
    using cmp_flip [of x p] cmp_trans
    by (auto simp: ordered_by_def sorted_wrt_append ins_rev_set)
qed (simp add: ordered_by_def)

lemma ins_rev_filter:
  "filter (\<lambda>y. cmp z y = 0) (rev (ins_rev cmp p xs)) = filter (\<lambda>y. cmp z y = 0) (rev xs @ [p])"
proof (induction xs)
  case (Cons x xs)
  then show ?case using eqv_class [of x p z] by auto
qed simp

lemma array_sort_ok: "ordered_by cmp (array_sort cmp a) \<and> same_classes cmp a (array_sort cmp a)"
proof (induction a rule: rev_induct)
  case (snoc x a)
  then show ?case
    using ins_rev_ordered [of "foldl (\<lambda>acc p. ins_rev cmp p acc) [] a" x]
    by (simp add: array_sort_foldl same_classes_def ins_rev_mset ins_rev_filter)
qed (simp add: array_sort_foldl ordered_by_def same_classes_def)

lemma merge_ref_mset: "mset (merge_ref cmp xs ys) = mset xs + mset ys"
  by (induction cmp xs ys rule: merge_ref.induct) auto

lemma merge_ref_set: "set (merge_ref cmp xs ys) = set xs \<union> set ys"
  by (induction cmp xs ys rule: merge_ref.induct) auto


lemma merge_ref_ordered:
  "ordered_by cmp xs \<Longrightarrow> ordered_by cmp ys \<Longrightarrow> ordered_by cmp (merge_ref cmp xs ys)"
proof (induction xs ys rule: merge_induct)
  case (3 x xs y ys)
  show ?case
  proof (cases "cmp x y \<le> 0")
    case True
    have "cmp x z \<le> 0" if "z \<in> set xs \<union> set (y # ys)" for z
      using "3.prems" that True cmp_trans [of x y z] by (auto simp: ordered_by_def)
    with True 3 show ?thesis by (auto simp: ordered_by_def merge_ref_set)
  next
    case False
    then have yx: "cmp y x \<le> 0" using cmp_total by blast
    have "cmp y z \<le> 0" if "z \<in> set (x # xs) \<union> set ys" for z
      using "3.prems" that yx cmp_trans [of y x z] by (auto simp: ordered_by_def)
    with False 3 show ?thesis by (auto simp: ordered_by_def merge_ref_set)
  qed
qed (simp_all add: ordered_by_def)

lemma merge_ref_filter:
  "ordered_by cmp xs \<Longrightarrow> ordered_by cmp ys \<Longrightarrow>
   filter (\<lambda>y. cmp z y = 0) (merge_ref cmp xs ys)
     = filter (\<lambda>y. cmp z y = 0) xs @ filter (\<lambda>y. cmp z y = 0) ys"
proof (induction xs ys rule: merge_induct)
  case (3 x xs y ys)
  show ?case
  proof (cases "cmp x y \<le> 0")
    case False
    have none: "cmp z u \<noteq> 0" if "cmp z y = 0" "u \<in> set (x # xs)" for u
    proof
      assume "cmp z u = 0"
      then have "cmp u y \<le> 0" using that(1) eqv_sym [of z u] cmp_trans [of u z y] by simp
      moreover have "cmp x u \<le> 0" using "3.prems"(1) that(2) by (auto simp: ordered_by_def)
      ultimately show False using False cmp_trans by blast
    qed
    have "ordered_by cmp ys" using "3.prems"(2) by (simp add: ordered_by_def)
    with 3 False none show ?thesis by (auto simp: filter_empty_conv)
  qed (use 3 in \<open>simp add: ordered_by_def\<close>)
qed simp_all

lemma merge_ref_same:
  "ordered_by cmp xs \<Longrightarrow> ordered_by cmp ys \<Longrightarrow> same_classes cmp (xs @ ys) (merge_ref cmp xs ys)"
  by (simp add: same_classes_def merge_ref_mset merge_ref_filter)

lemma merge_ref_le:
  "\<forall>x\<in>set s. cmp x y \<le> 0 \<Longrightarrow> merge_ref cmp (s @ xs) (y # ys) = s @ merge_ref cmp xs (y # ys)"
  by (induction s) auto

lemma merge_ref_ordered_id: "ordered_by cmp (xs @ ys) \<Longrightarrow> merge_ref cmp xs ys = xs @ ys"
  by (induction xs ys rule: merge_induct) (auto simp: ordered_by_def)

lemma quick_skip_spec:
  "quick_skip cmp y bs = (s, r) \<Longrightarrow> ordered_by cmp (concat bs) \<Longrightarrow>
   bs = s @ r \<and> (\<forall>x\<in>set (concat s). cmp x y \<le> 0) \<and> (r \<noteq> [] \<longrightarrow> hd r \<noteq> [])"
proof (induction bs arbitrary: s r)
  case (Cons b bs)
  show ?case
  proof (cases "length b = 0 \<or> cmp (b ! (length b - 1)) y < 0")
    case True
    then obtain s' where s': "quick_skip cmp y bs = (s', r)" "s = b # s'"
      using Cons.prems by (auto split: prod.splits)
    have "cmp x y \<le> 0" if "x \<in> set b" for x
    proof (cases b rule: rev_cases)
      case (snoc b' l)
      then have "cmp x l \<le> 0"
        using that Cons.prems(2) by (auto simp: ordered_by_def sorted_wrt_append)
      moreover have "cmp l y \<le> 0" using True snoc by auto
      ultimately show ?thesis by (rule cmp_trans)
    qed (use that in simp)
    moreover have "ordered_by cmp (concat bs)"
      using Cons.prems(2) by (simp add: ordered_by_def sorted_wrt_append)
    ultimately show ?thesis using Cons.IH [OF s'(1)] s'(2) by auto
  next
    case False
    with Cons.prems show ?thesis by auto
  qed
qed simp

lemma merge_block_seqs_entries:
  assumes "ordered_by cmp (concat bs1)"
  shows "entries (fst (merge_block_seqs cmp bs1 bs2)) = merge_ref cmp (concat bs1) (concat bs2)"
proof -
  obtain mid m2 where e: "skip_empty bs2 = (mid, m2)" by (cases "skip_empty bs2")
  note e' = skip_empty_split [OF e]
  show ?thesis
  proof (cases m2)
    case Nil
    with e e' show ?thesis
      by (simp add: merge_block_seqs_def entries_def del: concat_eq_Nil_conv)
  next
    case m2: (Cons b2 r2)
    then obtain y ys where b2: "b2 = y # ys" using e' by (cases b2) auto
    obtain s r where s: "quick_skip cmp y bs1 = (s, r)" by (cases "quick_skip cmp y bs1")
    note q = quick_skip_spec [OF s assms]
    have c2: "concat bs2 = y # ys @ concat r2"
      using e' m2 b2 by (simp del: concat_eq_Nil_conv)
    show ?thesis
    proof (cases r)
      case Nil
      with e s m2 b2 q c2 merge_ref_le [of "concat bs1" y "[]" "ys @ concat r2"] show ?thesis
        by (simp add: merge_block_seqs_def entries_def)
    next
      case (Cons b1 r1)
      with e e' s q m2 b2 c2 merge_loop_spec [of "[]" 0 0 b1 b2 mid cmp s r1 r2 0 "s = []"]
        merge_ref_le [of "concat s" y "b1 @ concat r1" "ys @ concat r2"]
      show ?thesis by (simp add: merge_block_seqs_def entries_def del: concat_eq_Nil_conv)
    qed
  qed
qed

lemma merge_block_seqs_ok:
  assumes "ordered_by cmp (entries bs1)" "ordered_by cmp (entries bs2)"
  shows "ordered_by cmp (entries (fst (merge_block_seqs cmp bs1 bs2)))"
    and "same_classes cmp (entries (bs1 @ bs2)) (entries (fst (merge_block_seqs cmp bs1 bs2)))"
  using assms merge_block_seqs_entries [of bs1 bs2]
  by (simp_all add: merge_ref_ordered merge_ref_same entries_def)

lemma ordered_sub:
  assumes "ordered_by cmp (entries bs)"
  shows "ordered_by cmp (entries (take n bs))" "ordered_by cmp (entries (drop n bs))"
  using assms append_take_drop_id [of n bs, symmetric]
  by (metis ordered_by_def entries_simps(3) sorted_wrt_append)+

lemma entries_take_drop: "entries (take n bs) @ entries (drop n bs) = entries bs"
  by (metis append_take_drop_id entries_simps(3))

lemma merge_pass_ordered:
  "ordered_by cmp (entries bs) \<Longrightarrow> entries (merge_pass cmp n bs) = entries bs"
proof (induction bs rule: length_induct)
  case (1 bs)
  show ?case
  proof (cases "length bs \<le> n \<or> n = 0")
    case False
    let ?a = "take n bs" and ?b = "take n (drop n bs)" and ?c = "drop n (drop n bs)"
    have o: "ordered_by cmp (entries (drop n bs))" "ordered_by cmp (entries ?a)"
      using "1.prems" by (rule ordered_sub)+
    have "entries (take (n + n) bs) = entries ?a @ entries ?b"
      by (simp add: take_add)
    then have ab: "ordered_by cmp (concat ?a @ concat ?b)"
      using ordered_sub(1) [OF "1.prems", of "n + n"] by (simp add: entries_def)
    have "entries (merge_pass cmp n ?c) = entries ?c"
      using "1.IH" [rule_format, of ?c] False ordered_sub(2) [OF o(1), of n] by auto
    moreover have "entries (fst (merge_block_seqs cmp ?a ?b)) = entries ?a @ entries ?b"
      using merge_block_seqs_entries [of ?a ?b] o(2) merge_ref_ordered_id [OF ab]
      by (simp add: entries_def)
    ultimately show ?thesis
      using False by (simp add: merge_pass.simps [of cmp n bs] entries_take_drop del: drop_drop)
  qed (simp add: merge_pass.simps [of cmp n bs])
qed

text \<open>What a pass assumes and doubles: each aligned run of \<open>n\<close> blocks is ordered.\<close>

definition runs_ok :: "nat \<Rightarrow> 'a ptr_list \<Rightarrow> bool" where
  "runs_ok n bs = (\<forall>i. ordered_by cmp (entries (take n (drop (i * n) bs))))"

lemma runs_ok_ordered: "ordered_by cmp (entries bs) \<Longrightarrow> runs_ok n bs"
  by (simp add: runs_ok_def ordered_sub)

lemma runs_ok_drop: "runs_ok n bs \<Longrightarrow> runs_ok n (drop (k * n) bs)"
  unfolding runs_ok_def by (metis add_mult_distrib drop_drop)

lemma runs_ok_hd: "runs_ok n bs \<Longrightarrow> ordered_by cmp (entries (take n bs))"
  unfolding runs_ok_def by (metis drop0 mult_0)

lemma runs_ok_short: "runs_ok n bs \<Longrightarrow> length bs \<le> n \<Longrightarrow> ordered_by cmp (entries bs)"
  using runs_ok_hd [of n bs] by simp

lemma runs_ok_Cons:
  assumes "ordered_by cmp (entries a)" "length a = n \<or> (bs = [] \<and> length a \<le> n)" "runs_ok n bs"
  shows "runs_ok n (a @ bs)"
  unfolding runs_ok_def
proof
  fix i
  show "ordered_by cmp (entries (take n (drop (i * n) (a @ bs))))"
  proof (cases i)
    case 0
    with assms show ?thesis by auto
  next
    case (Suc j)
    with assms show ?thesis
      by (cases "bs = []") (auto simp: runs_ok_def ordered_by_def)
  qed
qed

lemma merge_pass_ok:
  "runs_ok n bs \<Longrightarrow> 0 < n \<Longrightarrow>
   runs_ok (2 * n) (merge_pass cmp n bs) \<and> same_classes cmp (entries bs) (entries (merge_pass cmp n bs))"
proof (induction bs rule: length_induct)
  case (1 bs)
  show ?case
  proof (cases "length bs \<le> n")
    case True
    with "1.prems" show ?thesis
      by (simp add: merge_pass.simps [of cmp n bs] runs_ok_short runs_ok_ordered same_refl)
  next
    case False
    let ?a = "take n bs" and ?b = "take n (drop n bs)" and ?c = "drop n (drop n bs)"
    let ?m = "fst (merge_block_seqs cmp ?a ?b)"
    have "runs_ok n (drop n bs)" "runs_ok n ?c"
      using runs_ok_drop [of n bs 1] runs_ok_drop [of n bs 2] "1.prems" by (simp_all add: mult_2)
    then have ok: "ordered_by cmp (entries ?a)" "ordered_by cmp (entries ?b)" "runs_ok n ?c"
      using "1.prems" runs_ok_hd by blast+
    have ih: "runs_ok (2 * n) (merge_pass cmp n ?c)"
        "same_classes cmp (entries ?c) (entries (merge_pass cmp n ?c))"
      using "1.IH" ok(3) False "1.prems"(2) by auto
    have len: "length ?m = length ?a + length ?b"
      using mset_lengths_merge [of cmp ?a ?b] by (metis length_append length_map mset_eq_length)
    have "length ?m = 2 * n \<or> (merge_pass cmp n ?c = [] \<and> length ?m \<le> 2 * n)"
      using len False merge_pass.simps [of cmp n "[]"] by (cases "length bs - n < n") auto
    with ih merge_block_seqs_ok [OF ok(1,2)]
    have "runs_ok (2 * n) (?m @ merge_pass cmp n ?c)" by (intro runs_ok_Cons) auto
    moreover have "same_classes cmp (entries (?a @ ?b) @ entries ?c) (entries (?m @ merge_pass cmp n ?c))"
      using same_append [OF merge_block_seqs_ok(2) [OF ok(1,2)] ih(2)] by simp
    ultimately show ?thesis
      using False "1.prems"(2) by (simp add: merge_pass.simps [of cmp n bs] entries_take_drop del: drop_drop)
  qed
qed

lemma first_pass_ok:
  assumes "runs_ok n bs" "n < length bs" "0 < n"
  shows "runs_ok (2 * n) (first_pass cmp n bs) \<and> same_classes cmp (entries bs) (entries (first_pass cmp n bs))"
proof -
  let ?a = "take n bs" and ?b = "take n (drop n bs)" and ?c = "drop n (drop n bs)"
  obtain m k where m: "merge_block_seqs cmp ?a ?b = (m, k)" by (cases "merge_block_seqs cmp ?a ?b")
  have split: "merge_pass cmp n bs = m @ merge_pass cmp n ?c"
    using assms m by (simp add: merge_pass.simps [of cmp n bs])
  show ?thesis
  proof (cases "?c = []")
    case False
    then have "first_pass cmp n bs = merge_pass cmp n bs"
      using m split by (simp add: first_pass_def Let_def)
    with merge_pass_ok [OF assms(1,3)] show ?thesis by simp
  next
    case True
    have "runs_ok n (drop n bs)" using runs_ok_drop [of n bs 1] assms by simp
    then have ok: "ordered_by cmp (entries ?a)" "ordered_by cmp (entries ?b)"
      using assms runs_ok_hd by blast+
    have bs: "entries (?a @ ?b) = entries bs"
      using True entries_take_drop [of n "drop n bs"] by (simp add: entries_take_drop)
    have om: "ordered_by cmp (entries m)" "same_classes cmp (entries bs) (entries m)"
      using merge_block_seqs_ok [OF ok] m bs by simp_all
    have "first_pass cmp n bs = (if k = 0 then m else take k m @ merge_pass cmp n (drop k m))"
      using m True by (simp add: first_pass_def Let_def)
    then have "entries (first_pass cmp n bs) = entries m"
      using merge_pass_ordered [OF ordered_sub(2) [OF om(1)], of n k]
      by (simp add: entries_take_drop)
    with om show ?thesis by (simp add: runs_ok_ordered)
  qed
qed

lemma sort_passes_ok:
  "runs_ok n bs \<Longrightarrow> 0 < n \<Longrightarrow>
   ordered_by cmp (entries (sort_passes cmp n bs)) \<and> same_classes cmp (entries bs) (entries (sort_passes cmp n bs))"
proof (induction "length bs - n" arbitrary: n bs rule: less_induct)
  case less
  show ?case
  proof (cases "length bs \<le> n")
    case True
    with less.prems show ?thesis
      by (simp add: sort_passes.simps [of cmp n bs] runs_ok_short same_refl)
  next
    case False
    with first_pass_ok [of n bs] less.prems less.hyps [of "first_pass cmp n bs" "2 * n"] show ?thesis
      by (auto simp: sort_passes.simps [of cmp n bs] intro: same_trans)
  qed
qed

lemma map_array_sort_ok:
  "runs_ok 1 (map (array_sort cmp) l) \<and> same_classes cmp (entries l) (entries (map (array_sort cmp) l))"
proof (induction l)
  case Nil
  then show ?case by (simp add: runs_ok_def ordered_by_def same_refl)
next
  case (Cons b l)
  with runs_ok_Cons [of "[array_sort cmp b]" 1 "map (array_sort cmp) l"]
    array_sort_ok [of b] same_append [of b "array_sort cmp b"] show ?case by simp
qed

lemma sort_list_ok:
  "ordered_by cmp (entries (sort_list cmp l)) \<and> same_classes cmp (entries l) (entries (sort_list cmp l))"
  using map_array_sort_ok [of l] sort_passes_ok [of 1 "map (array_sort cmp) l"]
  by (cases "l = []") (auto simp: sort_list_def ordered_by_def same_refl intro: same_trans)

end

lemma mset_lengths_sort: "mset (map length (sort_list cmp l)) = mset (map length l)"
proof -
  have "mset (map length (sort_passes cmp n bs)) = mset (map length bs)" for n and bs :: "'a ptr_list"
  proof (induction cmp n bs rule: sort_passes.induct)
    case (1 cmp n bs)
    then show ?case
      by (cases "length bs \<le> n \<or> n = 0")
         (simp_all add: sort_passes.simps [of cmp n bs] mset_lengths_first [unfolded mset_map])
  qed
  moreover have "length (array_sort cmp a) = length a" for a :: "'a list"
    by (induction a rule: rev_induct) (simp_all add: array_sort_foldl)
  then have "map length (map (array_sort cmp) l) = map length l" by simp
  then have "mset (map length (map (array_sort cmp) l)) = mset (map length l)" by (rule arg_cong)
  ultimately show ?thesis by (cases "l = []") (simp_all add: sort_list_def del: map_map mset_map)
qed

lemma blocks_ok_lengths: "blocks_ok l = (\<forall>n \<in># mset (map length l). n \<le> LIST_NODE_NR)"
  by (auto simp: blocks_ok_def list_all_iff)

lemma packed_lengths: "packed l = (\<forall>n \<in># mset (map length l). n \<le> LIST_NODE_NR \<and> n \<noteq> 0)"
  by (auto simp: packed_def blocks_ok_def list_all_iff)

section \<open>The promise of the sort\<close>

text \<open>
  C1. The sort is stable and in place: for a comparison that is a total preorder the entries
  come out ordered, as a permutation that keeps the order of entries that compare equal, and the
  ring has the same blocks sizes as before, so a packed list stays packed.
\<close>

theorem sort_list_stable:
  assumes "cmp_order cmp"
  shows "ordered_by cmp (entries (sort_list cmp l))
         \<and> same_classes cmp (entries l) (entries (sort_list cmp l))
         \<and> mset (map length (sort_list cmp l)) = mset (map length l)
         \<and> (packed l \<longrightarrow> packed (sort_list cmp l))"
  using cmp_order.sort_list_ok [OF assms, of l]
  by (simp add: mset_lengths_sort packed_lengths del: mset_map)

lemma sort_list_stable_witness:
  "packed [[3, 1], [2], [1::int]] \<and> packed (sort_list (-) [[3, 1], [2], [1]])
   \<and> ordered_by (-) (entries (sort_list (-) [[3, 1], [2], [1::int]]))"
proof -
  have "cmp_order ((-) :: int \<Rightarrow> int \<Rightarrow> int)" by unfold_locales auto
  from sort_list_stable [OF this, of "[[3, 1], [2], [1]]"] show ?thesis
    by (simp add: LIST_NODE_NR_def)
qed

end
