(* ===== verification/Expand.thy ===== *)
theory Expand
  imports Const_Fold Sort_List "HOL-Library.Monad_Syntax"
begin

text \<open>
  Expansion of expressions and statements (second part of \<open>expand.c\<close>): every function folds
  what it can and returns the cost of what is left. The mutually recursive functions of the code
  are definitions over the two functions they call back, \<open>ee\<close> for \<open>expand_expression\<close> and
  \<open>es\<close> for \<open>expand_statement\<close>; the knot is tied by fuel, because the recursion also goes
  through the initialisers of symbols. \<open>None\<close> is fuel that ran out, or a trap.
\<close>

type_synonym expand_e = "expression \<Rightarrow> xstate \<Rightarrow> (expression \<times> int \<times> xstate) option"
type_synonym expand_s = "statement \<Rightarrow> xstate \<Rightarrow> (statement \<times> int \<times> xstate) option"

abbreviation (input) "SIDE_EFFECTS \<equiv> (10000 :: int)"
abbreviation (input) "UNSAFE \<equiv> (100 :: int)"
abbreviation (input) "SELECT_COST \<equiv> (20 :: int)"
abbreviation (input) "BRANCH_COST \<equiv> (10 :: int)"

text \<open>A NULL expression costs nothing.\<close>

definition expand_opt :: "expand_e \<Rightarrow> expression option \<Rightarrow> xstate \<Rightarrow> (expression option \<times> int \<times> xstate) option" where
  "expand_opt ee e st =
     (case e of None \<Rightarrow> Some (None, 0, st) | Some x \<Rightarrow> do { (x', c, st') \<leftarrow> ee x st; Some (Some x', c, st') })"

definition expand_sopt :: "expand_s \<Rightarrow> statement option \<Rightarrow> xstate \<Rightarrow> (statement option \<times> int \<times> xstate) option" where
  "expand_sopt es s st =
     (case s of None \<Rightarrow> Some (None, 0, st) | Some x \<Rightarrow> do { (x', c, st') \<leftarrow> es x st; Some (Some x', c, st') })"

section \<open>Leaves and operators\<close>

definition symbol_cost :: "xstate \<Rightarrow> symref \<Rightarrow> int" where
  "symbol_cost st sm = (if has_mod (mods (syms st) sm) (or MOD_STATIC MOD_EXTERN) then 2 else 1)"

definition expand_symbol_expression ::
    "xconf \<Rightarrow> expression \<Rightarrow> symref \<Rightarrow> string \<Rightarrow> xstate \<Rightarrow> expression \<times> int \<times> xstate" where
  "expand_symbol_expression cf expr sm name st =
     (if sm = Zero_int then
        (set_node expr (EXPR_VALUE 0 0), 0, if Wundef cf then xwarn (Undefined_identifier name) st else st)
      else (expr, symbol_cost st sm, st))"

definition expand_binop ::
    "xconf \<Rightarrow> expand_e \<Rightarrow> expression \<Rightarrow> symref \<Rightarrow> binary_type \<Rightarrow> expression \<Rightarrow> expression
     \<Rightarrow> xstate \<Rightarrow> (expression \<times> int \<times> xstate) option" where
  "expand_binop cf ee expr ctype bt left right st = do {
     (l, c1, st1) \<leftarrow> ee left st;
     (r, c2, st2) \<leftarrow> ee right st1;
     (b, e, st3) \<leftarrow> simplify_int_binop (set_node expr (Binary bt l r)) ctype st2;
     if b then Some (e, 0, st3)
     else (let (b', e', st4) = simplify_float_binop cf e ctype st3
           in Some (e', if b' then 0 else c1 + c2 + 1, st4)) }"

text \<open>The cases of \<open>expand_logical\<close> after the left side: short circuit, both known, the rest.\<close>

definition expand_logical ::
    "expand_e \<Rightarrow> expression \<Rightarrow> expression \<Rightarrow> expression \<Rightarrow> xstate \<Rightarrow> (expression \<times> int \<times> xstate) option" where
  "expand_logical ee expr left right st = do {
     (l, cost, st1) \<leftarrow> ee left st;
     let stop = (case e_node l of
        EXPR_VALUE v t \<Rightarrow>
          if e_op expr = SPECIAL_LOGICAL_AND then (if v = 0 then Some (0, t) else None)
          else (if v \<noteq> 0 then Some (1, t) else None)
      | _ \<Rightarrow> None);
     case stop of
       Some (v, t) \<Rightarrow> Some (set_node expr (EXPR_VALUE v t), 0, st1)
     | None \<Rightarrow> do {
         (r, rcost, st2) \<leftarrow> ee right st1;
         case (e_node l, e_node r) of
           (EXPR_VALUE lv lt, EXPR_VALUE rv rt) \<Rightarrow>
             Some (set_node expr (EXPR_VALUE (bit_value (rv \<noteq> 0)) (or lt rt)), 0, st2)
         | _ \<Rightarrow>
             (if rcost < BRANCH_COST
              then Some (set_node expr (Binary EXPR_BINOP l r),
                     cost + BRANCH_COST + (rcost - (BRANCH_COST - 1)), st2)
              else Some (set_node expr (Binary EXPR_LOGICAL l r), cost + BRANCH_COST + rcost, st2)) } }"

text \<open>The expression becomes a copy of its right side, but keeps its flags.\<close>

definition expand_comma ::
    "expand_e \<Rightarrow> expression \<Rightarrow> expression \<Rightarrow> expression \<Rightarrow> xstate \<Rightarrow> (expression \<times> int \<times> xstate) option" where
  "expand_comma ee expr left right st = do {
     (l, c1, st1) \<leftarrow> ee left st;
     (r, c2, st2) \<leftarrow> ee right st1;
     let copy = (\<lambda>taint. let e = set_flags r (e_flags expr) in
       (case e_node e of
          EXPR_VALUE v t \<Rightarrow> set_node e (EXPR_VALUE v (or t (or Taint_comma taint)))
        | _ \<Rightarrow> e));
     Some ((case e_node l of
         EXPR_VALUE v t \<Rightarrow> copy t
       | EXPR_FVALUE f \<Rightarrow> copy 0
       | _ \<Rightarrow> set_node expr (Binary EXPR_COMMA l r)), c1 + c2, st2) }"

text \<open>
  \<open>td\<close> says whether \<open>type_difference\<close> (\<open>evaluate.c\<close>) tells two types apart when the
  qualifiers \<open>MOD_IGN\<close> are ignored.
\<close>

definition compare_types :: "(symtab \<Rightarrow> symref \<Rightarrow> symref \<Rightarrow> bool) \<Rightarrow> nat \<Rightarrow> symtab \<Rightarrow> symref \<Rightarrow> symref \<Rightarrow> bool" where
  "compare_types td op tab left right =
     (if op = SPECIAL_EQUAL then \<not> td tab left right
      else if op = SPECIAL_NOTEQUAL then td tab left right
      else if op = op_chr (CHR ''<'') then bit_size (tab left) < bit_size (tab right)
      else if op = op_chr (CHR ''>'') then bit_size (tab left) > bit_size (tab right)
      else if op = SPECIAL_LTE then bit_size (tab left) \<le> bit_size (tab right)
      else if op = SPECIAL_GTE then bit_size (tab left) \<ge> bit_size (tab right)
      else False)"

text \<open>The comparison is done in the type of the left operand.\<close>

definition expand_compare ::
    "xconf \<Rightarrow> (symtab \<Rightarrow> symref \<Rightarrow> symref \<Rightarrow> bool) \<Rightarrow> expand_e \<Rightarrow> expression \<Rightarrow> expression \<Rightarrow> expression
     \<Rightarrow> xstate \<Rightarrow> (expression \<times> int \<times> xstate) option" where
  "expand_compare cf td ee expr left right st = do {
     (l, c1, st1) \<leftarrow> ee left st;
     (r, c2, st2) \<leftarrow> ee right st1;
     let e = set_node expr (Binary EXPR_COMPARE l r);
     case (e_node l, e_node r) of
       (EXPR_TYPE lt, EXPR_TYPE rt) \<Rightarrow>
         Some (set_node expr (EXPR_VALUE (bit_value (compare_types td (e_op expr) (syms st2) lt rt)) 0), 0, st2)
     | _ \<Rightarrow> do {
         (b, e1) \<leftarrow> (case e_ctype l of None \<Rightarrow> Some (False, e) | Some ty \<Rightarrow> simplify_cmp_binop e ty st2);
         if b then Some (e1, 0, st2)
         else do {
           (b', e2) \<leftarrow> simplify_float_cmp cf e1;
           Some (e2, if b' then 0 else c1 + c2 + 1, st2) } } }"

text \<open>
  A known condition selects a side, which replaces the expression; without a middle operand the
  condition itself is the value. Expanding the condition again does nothing more: it is a value.
\<close>

definition expand_conditional ::
    "expand_e \<Rightarrow> expression \<Rightarrow> cond_type \<Rightarrow> expression \<Rightarrow> expression option \<Rightarrow> expression option
     \<Rightarrow> xstate \<Rightarrow> (expression \<times> int \<times> xstate) option" where
  "expand_conditional ee expr ct cond tru fls st = do {
     (c, cond_cost, st1) \<leftarrow> ee cond st;
     case e_node c of
       EXPR_VALUE v t \<Rightarrow> do {
         let side = (case (if v = 0 then fls else tru) of None \<Rightarrow> c | Some x \<Rightarrow> x);
         (s, cost, st2) \<leftarrow> ee side st1;
         let e = set_flags s (e_flags expr);
         Some (case e_node e of EXPR_VALUE w u \<Rightarrow> set_node e (EXPR_VALUE w (or u t)) | _ \<Rightarrow> e, cost, st2) }
     | _ \<Rightarrow> do {
         (a, c1, st2) \<leftarrow> expand_opt ee tru st1;
         (b, c2, st3) \<leftarrow> expand_opt ee fls st2;
         (if c1 + c2 < SELECT_COST
          then Some (set_node expr (Cond EXPR_SELECT c a b),
                 (c1 + c2 - (BRANCH_COST - 1)) + cond_cost + BRANCH_COST, st3)
          else Some (set_node expr (Cond ct c a b), c1 + c2 + cond_cost + BRANCH_COST, st3)) } }"

definition expand_assignment ::
    "expand_e \<Rightarrow> expression \<Rightarrow> expression \<Rightarrow> expression \<Rightarrow> xstate \<Rightarrow> (expression \<times> int \<times> xstate) option" where
  "expand_assignment ee expr left right st = do {
     (l, c1, st1) \<leftarrow> ee left st;
     (r, c2, st2) \<leftarrow> ee right st1;
     Some (set_node expr (Binary EXPR_ASSIGNMENT l r), SIDE_EFFECTS, st2) }"

definition expand_addressof ::
    "expand_e \<Rightarrow> expression \<Rightarrow> unary_type \<Rightarrow> u64 \<Rightarrow> expression \<Rightarrow> xstate \<Rightarrow> (expression \<times> int \<times> xstate) option" where
  "expand_addressof ee expr ut k unop st = do {
     (u, c, st1) \<leftarrow> ee unop st;
     Some (set_node expr (Unary ut u k), c, st1) }"

section \<open>Dereferences\<close>

text \<open>The loop over the initialiser list of \<open>constant_symbol_value\<close>; the comparisons are unsigned.\<close>

fun initializer_at :: "expression list \<Rightarrow> u32 \<Rightarrow> expression option" where
  "initializer_at [] off = None"
| "initializer_at (e # es) off =
     (case e_node e of
        EXPR_POS o' k e' \<Rightarrow>
          if o' < off then initializer_at es off
          else if o' > off then None
          else Some e'
      | _ \<Rightarrow> if off \<noteq> 0 then initializer_at es off else Some e)"

definition constant_symbol_value :: "symtab \<Rightarrow> symref \<Rightarrow> u32 \<Rightarrow> expression option" where
  "constant_symbol_value tab sm off =
     (if has_mod (mods tab sm) (or MOD_ASSIGNED MOD_ADDRESSABLE) then None
      else (case initializer (tab sm) of
              None \<Rightarrow> None
            | Some v \<Rightarrow>
                (case e_node v of EXPR_INITIALIZER l \<Rightarrow> initializer_at (entries l) off | _ \<Rightarrow> Some v)))"

text \<open>What is read: a symbol at an offset, or something else.\<close>

definition deref_target :: "expression \<Rightarrow> (symref \<times> u32) option" where
  "deref_target u =
     (let (base, off) = (case e_node u of
        Binary EXPR_BINOP l r \<Rightarrow>
          (if e_op u = op_chr (CHR ''+'') then
             (case e_node r of EXPR_VALUE v t \<Rightarrow> (l, ucast v) | _ \<Rightarrow> (u, 0))
           else (u, 0))
      | _ \<Rightarrow> (u, 0))
      in case e_node base of EXPR_SYMBOL sm name \<Rightarrow> Some (sm, off) | _ \<Rightarrow> None)"

definition expand_dereference ::
    "expand_e \<Rightarrow> expression \<Rightarrow> symref \<Rightarrow> unary_type \<Rightarrow> u64 \<Rightarrow> expression \<Rightarrow> xstate \<Rightarrow> (expression \<times> int \<times> xstate) option" where
  "expand_dereference ee expr ctype ut k unop st = do {
     (u, c, st1) \<leftarrow> ee unop st;
     let st2 = (if has_mod (mods (syms st1) ctype) MOD_NODEREF then xwarn Noderef st1 else st1);
     let e = set_node expr (Unary ut u k);
     Some (case deref_target u of
         None \<Rightarrow> (e, UNSAFE, st2)
       | Some (sm, off) \<Rightarrow>
           (case map_option e_node (constant_symbol_value (syms st2) sm off) of
              Some (EXPR_VALUE v t) \<Rightarrow> (set_node expr (EXPR_VALUE v 0), 0, st2)
            | Some (EXPR_FVALUE f) \<Rightarrow> (set_node expr (EXPR_FVALUE f), 0, st2)
            | _ \<Rightarrow> (e, symbol_cost st2 sm, st2))) }"

section \<open>Unary operators, casts and calls\<close>

definition expand_postop ::
    "expand_e \<Rightarrow> expression \<Rightarrow> unary_type \<Rightarrow> u64 \<Rightarrow> expression \<Rightarrow> xstate \<Rightarrow> (expression \<times> int \<times> xstate) option" where
  "expand_postop ee expr ut k unop st = do {
     (u, c, st1) \<leftarrow> ee unop st;
     Some (set_node expr (Unary ut u k), SIDE_EFFECTS, st1) }"

definition expand_preop ::
    "xconf \<Rightarrow> expand_e \<Rightarrow> expression \<Rightarrow> symref \<Rightarrow> u64 \<Rightarrow> expression \<Rightarrow> xstate \<Rightarrow> (expression \<times> int \<times> xstate) option" where
  "expand_preop cf ee expr ctype k unop st =
     (if e_op expr = op_chr (CHR ''*'') then expand_dereference ee expr ctype EXPR_PREOP k unop st
      else if e_op expr = op_chr (CHR ''&'') then expand_addressof ee expr EXPR_PREOP k unop st
      else if e_op expr = SPECIAL_INCREMENT \<or> e_op expr = SPECIAL_DECREMENT
      then expand_postop ee expr EXPR_PREOP k unop st
      else do {
        (u, cost, st1) \<leftarrow> ee unop st;
        let (b, e, st2) = simplify_preop (set_node expr (Unary EXPR_PREOP u k)) ctype st1;
        if b then Some (e, 0, st2)
        else (let (b', e') = simplify_float_preop cf e
              in Some (e', if b' then 0 else cost + 1, st2)) })"

text \<open>Lists are expanded in place: the blocks stay, the costs add up.\<close>

fun expand_block :: "expand_e \<Rightarrow> expression list \<Rightarrow> xstate \<Rightarrow> (expression list \<times> int \<times> xstate) option" where
  "expand_block ee [] st = Some ([], 0, st)"
| "expand_block ee (e # es) st = do {
     (e', c, st1) \<leftarrow> ee e st;
     (es', c', st2) \<leftarrow> expand_block ee es st1;
     Some (e' # es', c + c', st2) }"

fun expand_expression_list ::
    "expand_e \<Rightarrow> expression ptr_list \<Rightarrow> xstate \<Rightarrow> (expression ptr_list \<times> int \<times> xstate) option" where
  "expand_expression_list ee [] st = Some ([], 0, st)"
| "expand_expression_list ee (b # bs) st = do {
     (b', c, st1) \<leftarrow> expand_block ee b st;
     (bs', c', st2) \<leftarrow> expand_expression_list ee bs st1;
     Some (b' # bs', c + c', st2) }"

definition expand_arguments ::
    "expand_e \<Rightarrow> expression ptr_list \<Rightarrow> xstate \<Rightarrow> (expression ptr_list \<times> int \<times> xstate) option" where
  "expand_arguments = expand_expression_list"

definition expand_cast ::
    "xconf \<Rightarrow> expand_e \<Rightarrow> expression \<Rightarrow> symref \<Rightarrow> cast_type \<Rightarrow> symref \<Rightarrow> expression \<Rightarrow> xstate
     \<Rightarrow> (expression \<times> int \<times> xstate) option" where
  "expand_cast cf ee expr ctype ct cast_ty target st = do {
     (t, cost, st1) \<leftarrow> ee target st;
     let e = set_node expr (Cast ct cast_ty (Some t));
     let fold = (\<lambda>ty. let (n, st2) = cast_value cf ctype (e_node t) ty st1 in (set_node expr n, 0, st2));
     Some (case (e_node t, e_ctype t) of
         (EXPR_VALUE v u, Some ty) \<Rightarrow> fold ty
       | (EXPR_FVALUE f, Some ty) \<Rightarrow> fold ty
       | _ \<Rightarrow> (e, cost + 1, st1)) }"

definition expand_constant_p :: "expression \<Rightarrow> int \<Rightarrow> expression \<times> int" where
  "expand_constant_p expr cost = (set_node expr (EXPR_VALUE (bit_value (cost = 0)) 0), 0)"

definition expand_safe_p :: "expression \<Rightarrow> int \<Rightarrow> expression \<times> int" where
  "expand_safe_p expr cost = (set_node expr (EXPR_VALUE (bit_value (cost < SIDE_EFFECTS)) 0), 0)"

text \<open>\<open>__builtin_expect\<close> is its first argument.\<close>

definition expand_expect :: "expression \<Rightarrow> expression ptr_list \<Rightarrow> expression \<times> int" where
  "expand_expect expr args = (case entries args of [] \<Rightarrow> (expr, 0) | a # _ \<Rightarrow> (a, 0))"

text \<open>\<open>__builtin_warning\<close> prints its strings up to the first argument that is not true.\<close>

fun builtin_warnings :: "expression list \<Rightarrow> xstate \<Rightarrow> xstate" where
  "builtin_warnings [] st = st"
| "builtin_warnings (a # as) st =
     (case e_node a of
        EXPR_SYMBOL sm name \<Rightarrow>
          (case map_option e_node (initializer (syms st sm)) of
             Some (EXPR_STRING w s) \<Rightarrow> builtin_warnings as (xwarn (Builtin_warning s) st)
           | _ \<Rightarrow> builtin_warnings as st)
      | EXPR_VALUE v t \<Rightarrow> if v = 0 then st else builtin_warnings as st
      | _ \<Rightarrow> st)"

definition expand_warning :: "expression \<Rightarrow> expression ptr_list \<Rightarrow> xstate \<Rightarrow> expression \<times> int \<times> xstate" where
  "expand_warning expr args st =
     (set_node expr (EXPR_VALUE 1 0), 0, builtin_warnings (entries args) st)"

definition expand_symbol_call ::
    "expression \<Rightarrow> expression \<Rightarrow> expression ptr_list \<Rightarrow> symref \<Rightarrow> int \<Rightarrow> xstate \<Rightarrow> expression \<times> int \<times> xstate" where
  "expand_symbol_call expr fn args ctype cost st =
     (case e_node fn of
        Unary EXPR_PREOP u k \<Rightarrow>
          (case op_expand (syms st ctype) of
             Some Expand_constant_p \<Rightarrow> (let (e, c) = expand_constant_p expr cost in (e, c, st))
           | Some Expand_safe_p \<Rightarrow> (let (e, c) = expand_safe_p expr cost in (e, c, st))
           | Some Expand_expect \<Rightarrow> (let (e, c) = expand_expect expr args in (e, c, st))
           | Some Expand_warning \<Rightarrow> expand_warning expr args st
           | None \<Rightarrow> (expr, if has_mod (mods (syms st) ctype) MOD_PURE then 0 else SIDE_EFFECTS, st))
      | _ \<Rightarrow> (expr, SIDE_EFFECTS, st))"

definition expand_call ::
    "expand_e \<Rightarrow> expression \<Rightarrow> expression \<Rightarrow> expression ptr_list \<Rightarrow> xstate \<Rightarrow> (expression \<times> int \<times> xstate) option" where
  "expand_call ee expr fn args st = do {
     (args', cost, st1) \<leftarrow> expand_arguments ee args st;
     let e = set_node expr (EXPR_CALL fn args');
     Some (case e_ctype fn of
         None \<Rightarrow> (e, SIDE_EFFECTS, xwarn No_function_type st1)
       | Some sm \<Rightarrow>
           (if sym_type (syms st1 sm) = SYM_NODE then expand_symbol_call e fn args' sm cost st1
            else (e, SIDE_EFFECTS, st1))) }"

section \<open>Initialisers\<close>

text \<open>
  \<open>expand_pos_expression\<close> on a single position: nested positions add up, and the entries of
  a nested list move under the position; the first entry without a position of its own reuses the
  list's \<open>struct expression\<close>, the others get new ones.
\<close>

definition add_offset :: "u32 \<Rightarrow> expression \<Rightarrow> expression" where
  "add_offset off e =
     (case e_node e of EXPR_POS o' k e' \<Rightarrow> set_node e (EXPR_POS (o' + off) k e') | _ \<Rightarrow> e)"

fun wrap_block :: "expression option \<Rightarrow> u32 \<Rightarrow> expression list \<Rightarrow> expression option \<times> expression list" where
  "wrap_block reuse off [] = (reuse, [])"
| "wrap_block reuse off (e # es) =
     (case e_node e of
        EXPR_POS o' k e' \<Rightarrow>
          (let (r, es') = wrap_block reuse off es in (r, add_offset off e # es'))
      | _ \<Rightarrow>
          (let w = (case reuse of
                      Some n \<Rightarrow> Expr (e_flags n) (e_op n) (e_pos n) (e_ctype e) (EXPR_POS off 1 e)
                    | None \<Rightarrow> Expr 0 0 (e_pos e) (e_ctype e) (EXPR_POS off 1 e));
               (r, es') = wrap_block None off es
           in (r, w # es')))"

fun wrap_entries :: "expression option \<Rightarrow> u32 \<Rightarrow> expression ptr_list \<Rightarrow> expression ptr_list" where
  "wrap_entries reuse off [] = []"
| "wrap_entries reuse off (b # bs) =
     (let (r, b') = wrap_block reuse off b in b' # wrap_entries r off bs)"

definition expand_pos_expression ::
    "expand_e \<Rightarrow> expression \<Rightarrow> u32 \<Rightarrow> u32 \<Rightarrow> expression \<Rightarrow> xstate \<Rightarrow> (expression \<times> int \<times> xstate) option" where
  "expand_pos_expression ee expr off k nested st =
     (let inner = do {
            (n, c, st1) \<leftarrow> ee nested st;
            Some (set_node expr (EXPR_POS off k n), c, st1) }
      in if k = 1 then
           (case e_node nested of
              EXPR_POS o' k' e' \<Rightarrow> ee (add_offset off nested) st
            | EXPR_INITIALIZER l \<Rightarrow> ee (set_node nested (EXPR_INITIALIZER (wrap_entries (Some nested) off l))) st
            | _ \<Rightarrow> inner)
         else inner)"

lemma pos_size: "e_node e = EXPR_POS off k e' \<Longrightarrow> size e' < size e"
  by (cases e) auto

text \<open>The bit at which an entry starts; the byte offsets are multiplied as an \<open>int\<close>.\<close>

function bit_offset_of :: "int \<Rightarrow> symtab \<Rightarrow> expression \<Rightarrow> u64" where
  "bit_offset_of bic tab e =
     (case e_node e of
        EXPR_POS o' k e' \<Rightarrow> scast (o' * word_of_int bic) + bit_offset_of bic tab e'
      | _ \<Rightarrow> (case e_ctype e of Some ty \<Rightarrow> of_nat (bit_offset (tab ty)) | None \<Rightarrow> 0))"
  by pat_completeness auto
termination
  by (relation "measure (\<lambda>(bic, tab, e). size e)") (auto dest: pos_size)

declare bit_offset_of.simps [simp del]

definition compare_expressions :: "int \<Rightarrow> symtab \<Rightarrow> expression \<Rightarrow> expression \<Rightarrow> int" where
  "compare_expressions bic tab a b =
     (let a_pos = bit_offset_of bic tab a; b_pos = bit_offset_of bic tab b
      in if a_pos < b_pos then -1 else if a_pos = b_pos then 0 else 1)"

definition sort_expression_list :: "int \<Rightarrow> symtab \<Rightarrow> expression ptr_list \<Rightarrow> expression ptr_list" where
  "sort_expression_list bic tab l = sort_list (compare_expressions bic tab) l"

text \<open>The walk of \<open>verify_nonoverlapping\<close>: \<open>True\<close> is the warning.\<close>

fun overlap_from :: "int \<Rightarrow> symtab \<Rightarrow> expression option \<Rightarrow> expression list \<Rightarrow> bool" where
  "overlap_from bic tab a [] = False"
| "overlap_from bic tab a (b # bs) =
     (case e_ctype b of
        None \<Rightarrow> overlap_from bic tab a bs
      | Some ty \<Rightarrow>
          if bit_size (tab ty) = 0 then overlap_from bic tab a bs
          else
            (case a of
               Some x \<Rightarrow>
                 if bit_offset_of bic tab x = bit_offset_of bic tab b then True
                 else overlap_from bic tab (Some b) bs
             | None \<Rightarrow> overlap_from bic tab (Some b) bs))"

definition verify_nonoverlapping :: "int \<Rightarrow> expression ptr_list \<Rightarrow> xstate \<Rightarrow> xstate" where
  "verify_nonoverlapping bic l st =
     (if overlap_from bic (syms st) None (entries l) then xwarn Defined_twice st else st)"

section \<open>The main switch\<close>

type_synonym type_diff = "symtab \<Rightarrow> symref \<Rightarrow> symref \<Rightarrow> bool"

definition expand_expression_body ::
    "xconf \<Rightarrow> type_diff \<Rightarrow> expand_e \<Rightarrow> expand_s \<Rightarrow> expand_e" where
  "expand_expression_body cf td ee es expr st =
     (case e_ctype expr of
        None \<Rightarrow> Some (expr, UNSAFE, st)
      | Some ctype \<Rightarrow>
          if ctype = Bad_ctype then Some (expr, UNSAFE, st)
          else
            (case e_node expr of
               EXPR_VALUE v t \<Rightarrow> Some (expr, 0, st)
             | EXPR_FVALUE f \<Rightarrow> Some (expr, 0, st)
             | EXPR_STRING w s \<Rightarrow> Some (expr, 0, st)
             | EXPR_TYPE sm \<Rightarrow> Some (expand_symbol_expression cf expr sm [] st)
             | EXPR_SYMBOL sm name \<Rightarrow> Some (expand_symbol_expression cf expr sm name st)
             | Binary bt l r \<Rightarrow>
                 (case bt of
                    EXPR_BINOP \<Rightarrow> expand_binop cf ee expr ctype EXPR_BINOP l r st
                  | EXPR_LOGICAL \<Rightarrow> expand_logical ee expr l r st
                  | EXPR_COMMA \<Rightarrow> expand_comma ee expr l r st
                  | EXPR_COMPARE \<Rightarrow> expand_compare cf td ee expr l r st
                  | EXPR_ASSIGNMENT \<Rightarrow> expand_assignment ee expr l r st)
             | Unary ut u k \<Rightarrow>
                 (case ut of
                    EXPR_PREOP \<Rightarrow> expand_preop cf ee expr ctype k u st
                  | EXPR_POSTOP \<Rightarrow> expand_postop ee expr EXPR_POSTOP k u st)
             | Cast ct ty target \<Rightarrow>
                 (if ct = EXPR_CAST \<or> ct = EXPR_FORCE_CAST \<or> ct = EXPR_IMPLIED_CAST then
                    (case target of
                       Some x \<Rightarrow> expand_cast cf ee expr ctype ct ty x st
                     | None \<Rightarrow> None)
                  else Some (expr, UNSAFE, xwarn Sizeof_left st))
             | EXPR_CALL fn args \<Rightarrow> expand_call ee expr fn args st
             | EXPR_DEREF d m \<Rightarrow> Some (expr, UNSAFE, xwarn Deref_left st)
             | Cond ct c t f \<Rightarrow> expand_conditional ee expr ct c t f st
             | EXPR_STATEMENT s \<Rightarrow> do {
                 (s', cost, st1) \<leftarrow> es s st;
                 Some (case s_node s' of
                     STMT_EXPRESSION (Some x) cx \<Rightarrow> x
                   | _ \<Rightarrow> set_node expr (EXPR_STATEMENT s'), cost, st1) }
             | EXPR_LABEL sm \<Rightarrow> Some (expr, 0, st)
             | EXPR_INITIALIZER l \<Rightarrow>
                 (let l1 = sort_expression_list (bits_in_char cf) (syms st) l;
                      st1 = verify_nonoverlapping (bits_in_char cf) l1 st
                  in do {
                       (l2, cost, st2) \<leftarrow> expand_expression_list ee l1 st1;
                       Some (set_node expr (EXPR_INITIALIZER l2), cost, st2) })
             | EXPR_IDENTIFIER i f x \<Rightarrow> Some (expr, UNSAFE, st)
             | EXPR_INDEX a b x \<Rightarrow> Some (expr, UNSAFE, st)
             | EXPR_SLICE base a b \<Rightarrow> do {
                 (x, cost, st1) \<leftarrow> ee base st;
                 Some (set_node expr (EXPR_SLICE x a b), cost + 1, st1) }
             | EXPR_POS off k x \<Rightarrow> expand_pos_expression ee expr off k x st
             | EXPR_OFFSETOF ty x i \<Rightarrow> Some (expr, UNSAFE, xwarn Sizeof_left st)))"

section \<open>Statements and symbols\<close>

definition expand_const_expression ::
    "expand_e \<Rightarrow> expression option \<Rightarrow> string \<Rightarrow> xstate \<Rightarrow> (expression option \<times> xstate) option" where
  "expand_const_expression ee e place st =
     (case e of
        None \<Rightarrow> Some (None, st)
      | Some x \<Rightarrow> do {
          (x', c, st1) \<leftarrow> ee x st;
          Some (Some x', case e_node x' of EXPR_VALUE v t \<Rightarrow> st1 | _ \<Rightarrow> xwarn (Not_constant place) st1) })"

definition expand_symbol :: "expand_e \<Rightarrow> expand_s \<Rightarrow> symref option \<Rightarrow> xstate \<Rightarrow> (int \<times> xstate) option" where
  "expand_symbol ee es so st =
     (case so of
        None \<Rightarrow> Some (0, st)
      | Some s \<Rightarrow>
          (case base_of (syms st) s of
             None \<Rightarrow> Some (0, st)
           | Some b \<Rightarrow> do {
               (i, retval, st1) \<leftarrow> expand_opt ee (initializer (syms st s)) st;
               let st2 = st1\<lparr>syms := (syms st1)(s := (syms st1 s)\<lparr>initializer := i\<rparr>)\<rparr>;
               if sym_type (syms st2 b) = SYM_FN then do {
                 (body, c, st3) \<leftarrow> expand_sopt es (s_stmt (syms st2 b)) st2;
                 Some (retval, st3\<lparr>syms := (syms st3)(b := (syms st3 b)\<lparr>s_stmt := body\<rparr>)\<rparr>) }
               else Some (retval, st2) }))"

fun expand_symbols :: "expand_e \<Rightarrow> expand_s \<Rightarrow> symref list \<Rightarrow> xstate \<Rightarrow> xstate option" where
  "expand_symbols ee es [] st = Some st"
| "expand_symbols ee es (s # ss) st = do {
     (c, st1) \<leftarrow> expand_symbol ee es (Some s) st;
     expand_symbols ee es ss st1 }"

fun expand_statements :: "expand_s \<Rightarrow> statement list \<Rightarrow> xstate \<Rightarrow> (statement list \<times> int \<times> xstate) option" where
  "expand_statements es [] st = Some ([], 0, st)"
| "expand_statements es (s # ss) st = do {
     (s', c, st1) \<leftarrow> es s st;
     (ss', c', st2) \<leftarrow> expand_statements es ss st1;
     Some (s' # ss', c + c', st2) }"

text \<open>A compound of one statement and no return symbol becomes that statement.\<close>

definition expand_compound ::
    "expand_e \<Rightarrow> expand_s \<Rightarrow> statement \<Rightarrow> statement list \<Rightarrow> symref option \<Rightarrow> symref option \<Rightarrow> statement option
     \<Rightarrow> xstate \<Rightarrow> (statement \<times> int \<times> xstate) option" where
  "expand_compound ee es stmt stmts ret inl args st = do {
     (c0, st1) \<leftarrow> expand_symbol ee es ret st;
     (args', c1, st2) \<leftarrow> expand_sopt es args st1;
     (stmts', c2, st3) \<leftarrow> expand_statements es stmts st2;
     let all = (case args' of None \<Rightarrow> [] | Some a \<Rightarrow> [a]) @ stmts';
     Some (if length all = 1 \<and> ret = None then last all
           else Stmt (s_pos stmt) (STMT_COMPOUND stmts' ret inl args'), c1 + c2, st3) }"

definition expand_if_statement ::
    "expand_e \<Rightarrow> expand_s \<Rightarrow> statement \<Rightarrow> expression option \<Rightarrow> statement option \<Rightarrow> statement option
     \<Rightarrow> xstate \<Rightarrow> (statement \<times> int \<times> xstate) option" where
  "expand_if_statement ee es stmt cond tru fls st =
     (if (case cond of None \<Rightarrow> True | Some e \<Rightarrow> e_ctype e = None \<or> e_ctype e = Some Bad_ctype)
      then Some (stmt, UNSAFE, st)
      else do {
        (c', k, st1) \<leftarrow> expand_opt ee cond st;
        (t', k1, st2) \<leftarrow> expand_sopt es tru st1;
        (f', k2, st3) \<leftarrow> expand_sopt es fls st2;
        Some (Stmt (s_pos stmt) (STMT_IF c' t' f'), SIDE_EFFECTS, st3) })"

definition expand_statement_body :: "expand_e \<Rightarrow> expand_s \<Rightarrow> expand_s" where
  "expand_statement_body ee es stmt st =
     (let put = (\<lambda>n c s. Some (Stmt (s_pos stmt) n, c, s)) in
      case s_node stmt of
        STMT_DECLARATION ss \<Rightarrow> do { st1 \<leftarrow> expand_symbols ee es ss st; Some (stmt, SIDE_EFFECTS, st1) }
      | STMT_RETURN e t \<Rightarrow> do { (e', c, st1) \<leftarrow> expand_opt ee e st; put (STMT_RETURN e' t) SIDE_EFFECTS st1 }
      | STMT_EXPRESSION e cx \<Rightarrow> do { (e', c, st1) \<leftarrow> expand_opt ee e st; put (STMT_EXPRESSION e' cx) c st1 }
      | STMT_COMPOUND stmts ret inl args \<Rightarrow> expand_compound ee es stmt stmts ret inl args st
      | STMT_IF c t f \<Rightarrow> expand_if_statement ee es stmt c t f st
      | STMT_ITERATOR brk cont ss pre prec body post postc \<Rightarrow> do {
          (prec', k1, st1) \<leftarrow> expand_opt ee prec st;
          (postc', k2, st2) \<leftarrow> expand_opt ee postc st1;
          (pre', k3, st3) \<leftarrow> expand_sopt es pre st2;
          (body', k4, st4) \<leftarrow> expand_sopt es body st3;
          (post', k5, st5) \<leftarrow> expand_sopt es post st4;
          put (STMT_ITERATOR brk cont ss pre' prec' body' post' postc') SIDE_EFFECTS st5 }
      | STMT_SWITCH e s brk cs \<Rightarrow> do {
          (e', k1, st1) \<leftarrow> expand_opt ee e st;
          (s', k2, st2) \<leftarrow> expand_sopt es s st1;
          put (STMT_SWITCH e' s' brk cs) SIDE_EFFECTS st2 }
      | STMT_CASE e to s lab \<Rightarrow> do {
          (e', st1) \<leftarrow> expand_const_expression ee e ''case statement'' st;
          (to', st2) \<leftarrow> expand_const_expression ee to ''case statement'' st1;
          (s', k, st3) \<leftarrow> expand_sopt es s st2;
          put (STMT_CASE e' to' s' lab) SIDE_EFFECTS st3 }
      | STMT_LABEL l s \<Rightarrow> do { (s', k, st1) \<leftarrow> expand_sopt es s st; put (STMT_LABEL l s') SIDE_EFFECTS st1 }
      | STMT_GOTO l e ts \<Rightarrow> do { (e', k, st1) \<leftarrow> expand_opt ee e st; put (STMT_GOTO l e' ts) SIDE_EFFECTS st1 }
      | STMT_NONE \<Rightarrow> Some (stmt, SIDE_EFFECTS, st)
      | STMT_ASM a b c d e \<Rightarrow> Some (stmt, SIDE_EFFECTS, st)
      | STMT_CONTEXT e cx \<Rightarrow> do { (e', k, st1) \<leftarrow> expand_opt ee e st; put (STMT_CONTEXT e' cx) SIDE_EFFECTS st1 }
      | STMT_RANGE e a b \<Rightarrow> do {
          (e', k1, st1) \<leftarrow> expand_opt ee e st;
          (a', k2, st2) \<leftarrow> expand_opt ee a st1;
          (b', k3, st3) \<leftarrow> expand_opt ee b st2;
          put (STMT_RANGE e' a' b') SIDE_EFFECTS st3 })"

text \<open>The knot: \<open>n\<close> bounds the depth of the calls.\<close>

fun expand_fuel :: "xconf \<Rightarrow> type_diff \<Rightarrow> nat \<Rightarrow> expand_e \<times> expand_s" where
  "expand_fuel cf td 0 = (\<lambda>e st. None, \<lambda>s st. None)"
| "expand_fuel cf td (Suc n) =
     (let (ee, es) = expand_fuel cf td n
      in (expand_expression_body cf td ee es, expand_statement_body ee es))"

definition expand_expression :: "xconf \<Rightarrow> type_diff \<Rightarrow> nat \<Rightarrow> expand_e" where
  "expand_expression cf td n = fst (expand_fuel cf td n)"

definition expand_statement :: "xconf \<Rightarrow> type_diff \<Rightarrow> nat \<Rightarrow> expand_s" where
  "expand_statement cf td n = snd (expand_fuel cf td n)"

section \<open>Values of constant expressions\<close>

text \<open>The base type at the end of the chain, to know the sign; \<open>None\<close>: a NULL on the way.\<close>

partial_function (option) chain_base :: "symtab \<Rightarrow> symref \<Rightarrow> symref option" where
  [code]: "chain_base tab ty =
     (if sym_type (tab ty) = SYM_BASETYPE then Some ty
      else (case base_of tab ty of None \<Rightarrow> None | Some b \<Rightarrow> chain_base tab b))"

definition bad_integer_constant_expression :: "expression \<Rightarrow> bool" where
  "bad_integer_constant_expression e =
     (and (e_flags e) Int_const_expr = 0
      \<or> (case e_node e of EXPR_VALUE v t \<Rightarrow> and t Taint_comma \<noteq> 0 | _ \<Rightarrow> False))"

text \<open>
  \<open>__get_expression_value\<close> after its call of \<open>evaluate_expression\<close>: \<open>ctype\<close> is the type
  found, \<open>expr\<close> the evaluated expression. The result is the \<open>long long\<close>, the expression and
  the state; \<open>strict\<close> is 0, 1 or 2 for the three callers.
\<close>

definition get_expression_value_from ::
    "expand_e \<Rightarrow> nat \<Rightarrow> symref option \<Rightarrow> expression option \<Rightarrow> xstate \<Rightarrow> (u64 \<times> expression option \<times> xstate) option" where
  "get_expression_value_from ee strict ctype expr st =
     (case expr of
        None \<Rightarrow> Some (0, None, st)
      | Some e \<Rightarrow>
          (case ctype of
             None \<Rightarrow> Some (0, Some e, xwarn Bad_constant_type st)
           | Some ty \<Rightarrow> do {
               (e', c, st1) \<leftarrow> ee e st;
               case e_node e' of
                 EXPR_VALUE v t \<Rightarrow>
                   (if strict = 1 \<and> bad_integer_constant_expression e'
                    then Some (0, Some e', xwarn Bad_integer_constant st1)
                    else
                      (let msk = size_mask (bit_size (syms st1 ty)) in
                       if and v msk \<noteq> 0 then do {
                         b \<leftarrow> chain_base (syms st1) ty;
                         Some (if has_mod (mods (syms st1) b) MOD_UNSIGNED then v
                               else or v (or msk (not (msk - 1))), Some e', st1) }
                       else Some (v, Some e', st1)))
               | _ \<Rightarrow> Some (0, Some e', if strict \<noteq> 2 then xwarn Bad_constant st1 else st1) }))"

definition is_zero_constant :: "expand_e \<Rightarrow> expression \<Rightarrow> xstate \<Rightarrow> (bool \<times> expression \<times> xstate) option" where
  "is_zero_constant ee expr st = do {
     (e, c, st1) \<leftarrow> ee expr (st\<lparr>conservative := True\<rparr>);
     Some (case e_node e of EXPR_VALUE v t \<Rightarrow> v = 0 | _ \<Rightarrow> False, e, st1\<lparr>conservative := conservative st\<rparr>) }"

end
