(* ===== verification/Linear.thy ===== *)
theory Linear
  imports Ast "HOL-Library.Monad_Syntax"
begin

text \<open>
  The linear code (\<open>linearize_struct.h\<close>, \<open>linearize.h\<close>) and the operations of \<open>linearize.c\<close>
  that build it: instructions, basic blocks, pseudos and the lists of the places that use a pseudo.
  The simplifier changes these structures in place, so they live in a store: an instruction, a
  basic block, a pseudo and an entry of a pseudo list are named by their addresses, 0 is NULL.
  A pointer list is the list of its entries; \<open>Ptr_List\<close> has the blocks behind it.
\<close>

section \<open>Instructions, pseudos, basic blocks\<close>

type_synonym addr = nat

abbreviation (input) NULL :: addr where "NULL \<equiv> 0"

text \<open>The address of \<open>void_pseudo\<close>.\<close>

abbreviation (input) VOID :: addr where "VOID \<equiv> 1"

datatype lin_opcode =
    OP_BADOP | OP_ENTRY
  | OP_RET | OP_BR | OP_SWITCH | OP_INVOKE | OP_COMPUTEDGOTO | OP_UNWIND
  | OP_ADD | OP_SUB | OP_MULU | OP_MULS | OP_DIVU | OP_DIVS | OP_MODU | OP_MODS
  | OP_SHL | OP_LSR | OP_ASR | OP_AND | OP_OR | OP_XOR | OP_AND_BOOL | OP_OR_BOOL
  | OP_SET_EQ | OP_SET_NE | OP_SET_LE | OP_SET_GE | OP_SET_LT | OP_SET_GT
  | OP_SET_B | OP_SET_A | OP_SET_BE | OP_SET_AE
  | OP_NOT | OP_NEG | OP_SEL
  | OP_MALLOC | OP_FREE | OP_ALLOCA | OP_LOAD | OP_STORE | OP_SETVAL | OP_SYMADDR | OP_GET_ELEMENT_PTR
  | OP_PHI | OP_PHISOURCE | OP_CAST | OP_SCAST | OP_FPCAST | OP_PTRCAST | OP_INLINED_CALL | OP_CALL
  | OP_VANEXT | OP_VAARG | OP_SLICE | OP_SNOP | OP_LNOP | OP_NOP | OP_DEATHNOTE | OP_ASM
  | OP_CONTEXT | OP_RANGE | OP_COPY

definition opcodes :: "lin_opcode list" where
  "opcodes =
     [OP_BADOP, OP_ENTRY, OP_RET, OP_BR, OP_SWITCH, OP_INVOKE, OP_COMPUTEDGOTO, OP_UNWIND,
      OP_ADD, OP_SUB, OP_MULU, OP_MULS, OP_DIVU, OP_DIVS, OP_MODU, OP_MODS,
      OP_SHL, OP_LSR, OP_ASR, OP_AND, OP_OR, OP_XOR, OP_AND_BOOL, OP_OR_BOOL,
      OP_SET_EQ, OP_SET_NE, OP_SET_LE, OP_SET_GE, OP_SET_LT, OP_SET_GT,
      OP_SET_B, OP_SET_A, OP_SET_BE, OP_SET_AE, OP_NOT, OP_NEG, OP_SEL,
      OP_MALLOC, OP_FREE, OP_ALLOCA, OP_LOAD, OP_STORE, OP_SETVAL, OP_SYMADDR, OP_GET_ELEMENT_PTR,
      OP_PHI, OP_PHISOURCE, OP_CAST, OP_SCAST, OP_FPCAST, OP_PTRCAST, OP_INLINED_CALL, OP_CALL,
      OP_VANEXT, OP_VAARG, OP_SLICE, OP_SNOP, OP_LNOP, OP_NOP, OP_DEATHNOTE, OP_ASM,
      OP_CONTEXT, OP_RANGE, OP_COPY]"

text \<open>The number of an enumeration constant.\<close>

fun index_of :: "'a \<Rightarrow> 'a list \<Rightarrow> nat" where
  "index_of x [] = 0"
| "index_of x (y # ys) = (if x = y then 0 else Suc (index_of x ys))"

definition opcode_nr :: "lin_opcode \<Rightarrow> nat" where
  "opcode_nr op = index_of op opcodes"

text \<open>The ranges \<open>OP_TERMINATOR ... OP_TERMINATOR_END\<close>, \<open>OP_BINARY ... OP_BINARY_END\<close>, \<open>OP_BINCMP ... OP_BINCMP_END\<close>.\<close>

definition is_terminator :: "lin_opcode \<Rightarrow> bool" where
  "is_terminator op = (op \<in> {OP_RET, OP_BR, OP_SWITCH, OP_INVOKE, OP_COMPUTEDGOTO, OP_UNWIND})"

definition is_binary :: "lin_opcode \<Rightarrow> bool" where
  "is_binary op =
     (op \<in> {OP_ADD, OP_SUB, OP_MULU, OP_MULS, OP_DIVU, OP_DIVS, OP_MODU, OP_MODS, OP_SHL, OP_LSR,
            OP_ASR, OP_AND, OP_OR, OP_XOR, OP_AND_BOOL, OP_OR_BOOL})"

definition is_bincmp :: "lin_opcode \<Rightarrow> bool" where
  "is_bincmp op =
     (op \<in> {OP_SET_EQ, OP_SET_NE, OP_SET_LE, OP_SET_GE, OP_SET_LT, OP_SET_GT, OP_SET_B, OP_SET_A,
            OP_SET_BE, OP_SET_AE})"

datatype pseudo_type = PSEUDO_VOID | PSEUDO_REG | PSEUDO_SYM | PSEUDO_VAL | PSEUDO_ARG | PSEUDO_PHI

text \<open>
  Where a \<open>pseudo_t *\<close> points: the operands of an instruction or an entry of a list of pseudos.
  \<open>src\<close>, \<open>phi_src\<close>, \<open>base\<close>, \<open>symbol\<close> and \<open>func\<close> are other names of \<open>src1\<close>, and \<open>cond\<close>
  of \<open>target\<close>; the code relies on it.
\<close>

datatype place = Target addr | Src1 addr | Src2 addr | Src3 addr | Cell addr

record pseudo_user =
  u_insn :: addr
  userp :: place

text \<open>The members of the union \<open>sym\<close>/\<open>def\<close>/\<open>value\<close> are used according to the type.\<close>

record pseudo =
  p_nr :: int
  p_type :: pseudo_type
  p_users :: "pseudo_user list"
  p_ident :: "string option"
  p_sym :: symref
  p_def :: addr
  p_value :: u64

record multijmp =
  jmp_target :: addr
  jmp_begin :: int
  jmp_end :: int

record insn =
  opcode :: lin_opcode
  i_size :: nat
  i_bb :: addr
  i_type :: "symref option"
  i_target :: addr
  src1 :: addr
  src2 :: addr
  src3 :: addr
  bb_true :: addr
  bb_false :: addr
  multijmps :: "multijmp list"
  arg_list :: "addr list"
  phi_list :: "addr list"
  phi_users :: "addr list"
  i_arguments :: "addr list"
  asm_inputs :: "addr list"
  asm_outputs :: "addr list"
  orig_type :: "symref option"
  i_offset :: u32
  i_val :: addr

record basic_block =
  generation :: nat
  b_ep :: bool
  parents :: "addr list"
  children :: "addr list"
  b_insns :: "addr list"
  b_needs :: "addr list"
  b_defines :: "addr list"

record entrypoint =
  ep_name :: symref
  accesses :: "addr list"
  ep_bbs :: "addr list"
  active :: addr
  ep_entry :: addr

section \<open>The store\<close>

datatype lmsg =
    Shift_by_bigger | Crazy_programmer | Impossible_case | Bad_cse_chain | Cse_not_found
  | Label_bound "string option" | Unable_to_find_read | Unable_to_find_insn
  | Invalid_access bool "string option" int int | Unexpected_use "string option"
  | Call_no_type | Not_an_lvalue | Unexpected_initializer | Unknown_expression | Expected_asm_string

abbreviation (input) REPEAT_CSE :: u32 where "REPEAT_CSE \<equiv> 1"
abbreviation (input) REPEAT_SYMBOL_CLEANUP :: u32 where "REPEAT_SYMBOL_CLEANUP \<equiv> 2"

text \<open>
  \<open>n_insns\<close> and so on are the first addresses not yet allocated. \<open>sym_pseudo\<close> and \<open>bb_target\<close>
  are members of \<open>struct symbol\<close>; \<open>val_hash\<close>, \<open>reg_nr\<close> and \<open>phi_nr\<close> are the static
  variables of \<open>value_pseudo\<close>, \<open>alloc_pseudo\<close> and \<open>alloc_phi\<close>.
\<close>

record lin =
  pseudos :: "addr \<Rightarrow> pseudo"
  n_pseudos :: addr
  insns :: "addr \<Rightarrow> insn"
  n_insns :: addr
  bbs :: "addr \<Rightarrow> basic_block"
  n_bbs :: addr
  cells :: "addr \<Rightarrow> addr"
  n_cells :: addr
  ltypes :: symtab
  sym_pseudo :: "symref \<Rightarrow> addr"
  bb_target :: "symref \<Rightarrow> addr"
  val_hash :: "nat \<Rightarrow> addr list"
  reg_nr :: int
  phi_nr :: int
  repeat_phase :: u32
  bb_generation :: nat
  insn_hash :: "nat \<Rightarrow> addr ptr_list"
  live_list :: "addr list"
  dead_list :: "addr list"
  liveness_changed :: bool
  lmsgs :: "lmsg list"

definition lmsg :: "lmsg \<Rightarrow> lin \<Rightarrow> lin" where
  "lmsg m st = st\<lparr>lmsgs := lmsgs st @ [m]\<rparr>"

definition upd_insn :: "addr \<Rightarrow> (insn \<Rightarrow> insn) \<Rightarrow> lin \<Rightarrow> lin" where
  "upd_insn i f st = st\<lparr>insns := (insns st)(i := f (insns st i))\<rparr>"

definition upd_pseudo :: "addr \<Rightarrow> (pseudo \<Rightarrow> pseudo) \<Rightarrow> lin \<Rightarrow> lin" where
  "upd_pseudo p f st = st\<lparr>pseudos := (pseudos st)(p := f (pseudos st p))\<rparr>"

definition upd_bb :: "addr \<Rightarrow> (basic_block \<Rightarrow> basic_block) \<Rightarrow> lin \<Rightarrow> lin" where
  "upd_bb b f st = st\<lparr>bbs := (bbs st)(b := f (bbs st b))\<rparr>"

definition add_repeat :: "u32 \<Rightarrow> lin \<Rightarrow> lin" where
  "add_repeat r st = st\<lparr>repeat_phase := or (repeat_phase st) r\<rparr>"

text \<open>\<open>insn->bb = b\<close> and the type of a pseudo.\<close>

definition set_insn_bb :: "addr \<Rightarrow> addr \<Rightarrow> lin \<Rightarrow> lin" where
  "set_insn_bb i b = upd_insn i (\<lambda>x. x\<lparr>i_bb := b\<rparr>)"

abbreviation ptype :: "lin \<Rightarrow> addr \<Rightarrow> pseudo_type" where
  "ptype st p \<equiv> p_type (pseudos st p)"

abbreviation pvalue :: "lin \<Rightarrow> addr \<Rightarrow> u64" where
  "pvalue st p \<equiv> p_value (pseudos st p)"

abbreviation users :: "lin \<Rightarrow> addr \<Rightarrow> pseudo_user list" where
  "users st p \<equiv> p_users (pseudos st p)"

text \<open>Following a pointer to an instruction: NULL has none.\<close>

definition insn_at :: "addr \<Rightarrow> lin \<Rightarrow> insn option" where
  "insn_at i st = (if i = NULL then None else Some (insns st i))"

fun read_place :: "place \<Rightarrow> lin \<Rightarrow> addr" where
  "read_place (Target i) st = i_target (insns st i)"
| "read_place (Src1 i) st = src1 (insns st i)"
| "read_place (Src2 i) st = src2 (insns st i)"
| "read_place (Src3 i) st = src3 (insns st i)"
| "read_place (Cell c) st = cells st c"

fun write_place :: "place \<Rightarrow> addr \<Rightarrow> lin \<Rightarrow> lin" where
  "write_place (Target i) p st = upd_insn i (\<lambda>x. x\<lparr>i_target := p\<rparr>) st"
| "write_place (Src1 i) p st = upd_insn i (\<lambda>x. x\<lparr>src1 := p\<rparr>) st"
| "write_place (Src2 i) p st = upd_insn i (\<lambda>x. x\<lparr>src2 := p\<rparr>) st"
| "write_place (Src3 i) p st = upd_insn i (\<lambda>x. x\<lparr>src3 := p\<rparr>) st"
| "write_place (Cell c) p st = st\<lparr>cells := (cells st)(c := p)\<rparr>"

text \<open>
  What \<open>delete_ptr_list_entry\<close> and \<open>replace_ptr_list_entry\<close> do to the entries of a list; \<open>None\<close>:
  the assertion on the count fails.
\<close>

definition delete_entry :: "addr \<Rightarrow> nat \<Rightarrow> addr list \<Rightarrow> addr list option" where
  "delete_entry e n l =
     (if n = 0 then Some (filter (\<lambda>x. x \<noteq> e) l)
      else if n \<le> count_list l e then Some (remove_first_n e n l) else None)"

definition replace_entry :: "addr \<Rightarrow> addr \<Rightarrow> nat \<Rightarrow> addr list \<Rightarrow> addr list option" where
  "replace_entry old new n l =
     (if n = 0 then Some (map (\<lambda>x. if x = old then new else x) l)
      else if n \<le> count_list l old then Some (replace_first_n old new n l) else None)"

section \<open>Allocation and use\<close>

definition blank_insn :: insn where
  "blank_insn = \<lparr>opcode = OP_BADOP, i_size = 0, i_bb = NULL, i_type = None, i_target = NULL,
     src1 = NULL, src2 = NULL, src3 = NULL, bb_true = NULL, bb_false = NULL, multijmps = [],
     arg_list = [], phi_list = [], phi_users = [], i_arguments = [], asm_inputs = [], asm_outputs = [],
     orig_type = None, i_offset = 0, i_val = NULL\<rparr>"

definition blank_pseudo :: pseudo where
  "blank_pseudo = \<lparr>p_nr = 0, p_type = PSEUDO_VOID, p_users = [], p_ident = None, p_sym = Bad_ctype,
     p_def = NULL, p_value = 0\<rparr>"

definition blank_bb :: basic_block where
  "blank_bb = \<lparr>generation = 0, b_ep = True, parents = [], children = [], b_insns = [],
     b_needs = [], b_defines = []\<rparr>"

text \<open>The start: \<open>void_pseudo\<close> is a static variable. The symbols are those of \<open>tab\<close>.\<close>

definition init_lin :: "symtab \<Rightarrow> lin" where
  "init_lin tab =
     \<lparr>pseudos = (\<lambda>_. blank_pseudo), n_pseudos = 2, insns = (\<lambda>_. blank_insn), n_insns = 1,
      bbs = (\<lambda>_. blank_bb), n_bbs = 1, cells = (\<lambda>_. NULL), n_cells = 1, ltypes = tab,
      sym_pseudo = (\<lambda>_. NULL), bb_target = (\<lambda>_. NULL), val_hash = (\<lambda>_. []), reg_nr = 0, phi_nr = 0,
      repeat_phase = 0, bb_generation = 0, insn_hash = (\<lambda>_. []), live_list = [], dead_list = [],
      liveness_changed = False, lmsgs = []\<rparr>"

text \<open>The position of an instruction is not modelled.\<close>

definition alloc_instruction :: "lin_opcode \<Rightarrow> nat \<Rightarrow> lin \<Rightarrow> addr \<times> lin" where
  "alloc_instruction op sz st =
     (n_insns st, st\<lparr>n_insns := Suc (n_insns st),
        insns := (insns st)(n_insns st := blank_insn\<lparr>opcode := op, i_size := sz\<rparr>)\<rparr>)"

definition type_size :: "symref option \<Rightarrow> lin \<Rightarrow> nat" where
  "type_size ty st =
     (case ty of Some t \<Rightarrow> if bit_size (ltypes st t) > 0 then nat (bit_size (ltypes st t)) else 0 | None \<Rightarrow> 0)"

definition alloc_typed_instruction :: "lin_opcode \<Rightarrow> symref option \<Rightarrow> lin \<Rightarrow> addr \<times> lin" where
  "alloc_typed_instruction op ty st =
     (let (i, st1) = alloc_instruction op (type_size ty st) st in (i, upd_insn i (\<lambda>x. x\<lparr>i_type := ty\<rparr>) st1))"

definition alloc_basic_block :: "lin \<Rightarrow> addr \<times> lin" where
  "alloc_basic_block st =
     (n_bbs st, st\<lparr>n_bbs := Suc (n_bbs st), bbs := (bbs st)(n_bbs st := blank_bb)\<rparr>)"

definition alloc_multijmp :: "addr \<Rightarrow> int \<Rightarrow> int \<Rightarrow> multijmp" where
  "alloc_multijmp b x y = \<lparr>jmp_target = b, jmp_begin = x, jmp_end = y\<rparr>"

definition new_pseudo :: "pseudo \<Rightarrow> lin \<Rightarrow> addr \<times> lin" where
  "new_pseudo p st =
     (n_pseudos st, st\<lparr>n_pseudos := Suc (n_pseudos st), pseudos := (pseudos st)(n_pseudos st := p)\<rparr>)"

definition alloc_pseudo :: "addr \<Rightarrow> lin \<Rightarrow> addr \<times> lin" where
  "alloc_pseudo d st =
     new_pseudo (blank_pseudo\<lparr>p_type := PSEUDO_REG, p_nr := reg_nr st + 1, p_def := d\<rparr>)
       (st\<lparr>reg_nr := reg_nr st + 1\<rparr>)"

definition symbol_pseudo :: "entrypoint \<Rightarrow> symref option \<Rightarrow> lin \<Rightarrow> addr \<times> entrypoint \<times> lin" where
  "symbol_pseudo ep so st =
     (case so of
        None \<Rightarrow> (VOID, ep, st)
      | Some s \<Rightarrow>
          if sym_pseudo st s \<noteq> NULL then (sym_pseudo st s, ep, st)
          else
            (let (p, st1) = new_pseudo (blank_pseudo\<lparr>p_nr := -1, p_type := PSEUDO_SYM, p_sym := s,
                              p_ident := ident (ltypes st s)\<rparr>) st
             in (p, ep\<lparr>accesses := accesses ep @ [p]\<rparr>, st1\<lparr>sym_pseudo := (sym_pseudo st1)(s := p)\<rparr>)))"

definition clear_symbol_pseudos :: "entrypoint \<Rightarrow> lin \<Rightarrow> lin" where
  "clear_symbol_pseudos ep st =
     fold (\<lambda>p st. st\<lparr>sym_pseudo := (sym_pseudo st)(p_sym (pseudos st p) := NULL)\<rparr>) (accesses ep) st"

text \<open>Constants are shared: a hash table of 64 lists.\<close>

definition val_bucket :: "u64 \<Rightarrow> nat" where
  "val_bucket v = unat (and v (64 - 1))"

definition value_pseudo :: "u64 \<Rightarrow> lin \<Rightarrow> addr \<times> lin" where
  "value_pseudo v st =
     (let h = val_bucket v in
      case List.find (\<lambda>p. pvalue st p = v) (val_hash st h) of
        Some p \<Rightarrow> (p, st)
      | None \<Rightarrow>
          (let (p, st1) = new_pseudo (blank_pseudo\<lparr>p_type := PSEUDO_VAL, p_value := v\<rparr>) st
           in (p, st1\<lparr>val_hash := (val_hash st1)(h := val_hash st1 h @ [p])\<rparr>)))"

definition argument_pseudo :: "entrypoint \<Rightarrow> int \<Rightarrow> lin \<Rightarrow> addr \<times> lin" where
  "argument_pseudo ep k st =
     (let (p, st1) = new_pseudo (blank_pseudo\<lparr>p_type := PSEUDO_ARG, p_nr := k, p_def := ep_entry ep\<rparr>) st
      in (p, upd_insn (ep_entry ep) (\<lambda>x. x\<lparr>arg_list := arg_list x @ [p]\<rparr>) st1))"

definition has_use_list :: "lin \<Rightarrow> addr \<Rightarrow> bool" where
  "has_use_list st p = (p \<noteq> NULL \<and> ptype st p \<noteq> PSEUDO_VOID \<and> ptype st p \<noteq> PSEUDO_VAL)"

definition use_pseudo :: "addr \<Rightarrow> addr \<Rightarrow> place \<Rightarrow> lin \<Rightarrow> lin" where
  "use_pseudo i p pl st =
     (let st1 = write_place pl p st in
      if has_use_list st1 p
      then upd_pseudo p (\<lambda>x. x\<lparr>p_users := p_users x @ [\<lparr>u_insn = i, userp = pl\<rparr>]\<rparr>) st1 else st1)"

text \<open>\<open>add_pseudo\<close> on a list whose entries are used by address: a new entry.\<close>

definition new_cell :: "addr \<Rightarrow> lin \<Rightarrow> addr \<times> lin" where
  "new_cell p st = (n_cells st, st\<lparr>n_cells := Suc (n_cells st), cells := (cells st)(n_cells st := p)\<rparr>)"

definition add_instruction :: "addr \<Rightarrow> addr \<Rightarrow> lin \<Rightarrow> lin" where
  "add_instruction b i = upd_bb b (\<lambda>x. x\<lparr>b_insns := b_insns x @ [i]\<rparr>)"

definition last_instruction :: "addr \<Rightarrow> lin \<Rightarrow> addr" where
  "last_instruction b st = (if b_insns (bbs st b) = [] then NULL else last (b_insns (bbs st b)))"

definition delete_last_instruction :: "addr \<Rightarrow> lin \<Rightarrow> addr \<times> lin" where
  "delete_last_instruction b st =
     (last_instruction b st, upd_bb b (\<lambda>x. x\<lparr>b_insns := butlast (b_insns x)\<rparr>) st)"

definition alloc_phi :: "addr \<Rightarrow> addr \<Rightarrow> nat \<Rightarrow> lin \<Rightarrow> addr \<times> lin" where
  "alloc_phi b p sz st =
     (let (i, st1) = alloc_instruction OP_PHISOURCE sz st;
          (phi, st2) = new_pseudo (blank_pseudo\<lparr>p_type := PSEUDO_PHI, p_nr := phi_nr st1 + 1, p_def := i\<rparr>)
                         (st1\<lparr>phi_nr := phi_nr st1 + 1\<rparr>);
          st3 = use_pseudo i p (Src1 i) st2;
          st4 = upd_insn i (\<lambda>x. x\<lparr>i_bb := b, i_target := phi\<rparr>) st3
      in (phi, add_instruction b i st4))"

section \<open>Blocks and branches\<close>

definition add_parent :: "addr \<Rightarrow> addr \<Rightarrow> lin \<Rightarrow> lin" where
  "add_parent b p = upd_bb b (\<lambda>x. x\<lparr>parents := parents x @ [p]\<rparr>)"

definition add_child :: "addr \<Rightarrow> addr \<Rightarrow> lin \<Rightarrow> lin" where
  "add_child b c = upd_bb b (\<lambda>x. x\<lparr>children := children x @ [c]\<rparr>)"

definition bb_terminated :: "addr \<Rightarrow> lin \<Rightarrow> bool" where
  "bb_terminated b st =
     (b \<noteq> NULL \<and> last_instruction b st \<noteq> NULL \<and> is_terminator (opcode (insns st (last_instruction b st))))"

definition is_branch_goto :: "addr \<Rightarrow> lin \<Rightarrow> bool" where
  "is_branch_goto br st =
     (br \<noteq> NULL \<and> opcode (insns st br) = OP_BR \<and> (bb_true (insns st br) = NULL \<or> bb_false (insns st br) = NULL))"

definition bind_label :: "symref \<Rightarrow> addr \<Rightarrow> lin \<Rightarrow> lin" where
  "bind_label l b st =
     (let st1 = (if bb_target st l \<noteq> NULL then lmsg (Label_bound (ident (ltypes st l))) st else st)
      in st1\<lparr>bb_target := (bb_target st1)(l := b)\<rparr>)"

definition get_bound_block :: "symref \<Rightarrow> lin \<Rightarrow> addr \<times> lin" where
  "get_bound_block l st =
     (if bb_target st l \<noteq> NULL then (bb_target st l, st)
      else (let (b, st1) = alloc_basic_block st in (b, st1\<lparr>bb_target := (bb_target st1)(l := b)\<rparr>)))"

definition finish_block :: "entrypoint \<Rightarrow> entrypoint" where
  "finish_block ep = (if active ep \<noteq> NULL then ep\<lparr>active := NULL\<rparr> else ep)"

definition add_goto :: "entrypoint \<Rightarrow> addr \<Rightarrow> lin \<Rightarrow> entrypoint \<times> lin" where
  "add_goto ep dst st =
     (let src = active ep in
      if src \<noteq> NULL then
        (let (br, st1) = alloc_instruction OP_BR 0 st;
             st2 = upd_insn br (\<lambda>x. x\<lparr>bb_true := dst\<rparr>) st1;
             st3 = add_child src dst (add_parent dst src st2);
             st4 = set_insn_bb br src st3
         in (ep\<lparr>active := NULL\<rparr>, add_instruction src br st4))
      else (ep, st))"

definition add_one_insn :: "entrypoint \<Rightarrow> addr \<Rightarrow> lin \<Rightarrow> lin" where
  "add_one_insn ep i st =
     (if active ep \<noteq> NULL then add_instruction (active ep) i (set_insn_bb i (active ep) st) else st)"

definition set_activeblock :: "entrypoint \<Rightarrow> addr \<Rightarrow> lin \<Rightarrow> entrypoint \<times> lin" where
  "set_activeblock ep b st =
     (let (ep1, st1) = (if \<not> bb_terminated (active ep) st then add_goto ep b st else (ep, st));
          ep2 = ep1\<lparr>active := b\<rparr>
      in (if b \<noteq> NULL then ep2\<lparr>ep_bbs := ep_bbs ep2 @ [b]\<rparr> else ep2, st1))"

definition bb_empty :: "addr \<Rightarrow> lin \<Rightarrow> bool" where
  "bb_empty b st = (b_insns (bbs st b) = [])"

definition add_label :: "entrypoint \<Rightarrow> symref \<Rightarrow> lin \<Rightarrow> addr \<times> entrypoint \<times> lin" where
  "add_label ep l st =
     (if bb_target st l \<noteq> NULL then
        (let (ep1, st1) = set_activeblock ep (bb_target st l) st in (bb_target st l, ep1, st1))
      else
        (let (b, ep1, st1) =
               (if active ep = NULL \<or> \<not> bb_empty (active ep) st then
                  (let (b, st1) = alloc_basic_block st; (ep1, st2) = set_activeblock ep b st1 in (b, ep1, st2))
                else (active ep, ep, st))
         in (b, ep1, st1\<lparr>bb_target := (bb_target st1)(l := b)\<rparr>)))"

definition add_branch :: "entrypoint \<Rightarrow> addr \<Rightarrow> addr \<Rightarrow> addr \<Rightarrow> lin \<Rightarrow> lin" where
  "add_branch ep c bt bf st =
     (let b = active ep in
      if b \<noteq> NULL then
        (let (br, st1) = alloc_instruction OP_BR 0 st;
             st2 = use_pseudo br c (Target br) st1;
             st3 = upd_insn br (\<lambda>x. x\<lparr>bb_true := bt, bb_false := bf\<rparr>) st2;
             st4 = add_child b bf (add_child b bt (add_parent bf b (add_parent bt b st3)))
         in add_one_insn ep br st4)
      else st)"

end
