(* ===== verification/Uses.thy ===== *)
theory Uses
  imports Linear
begin

text \<open>
  Use lists (\<open>simplify.c\<close> up to \<open>replace_with_pseudo\<close>, and the operations of \<open>flow.c\<close> and
  \<open>linearize.c\<close> that kill or redirect): every pseudo lists the places that hold it, an instruction
  whose result loses its last use dies and gives up its operands.

  \<open>None\<close> is a failed assertion or a crash. One is a mistake of the program itself:
  \<open>remove_usage\<close> takes \<open>p->def\<close> of every pseudo that loses its last use, but for a
  \<open>PSEUDO_SYM\<close> that member of the union is the symbol.
\<close>

section \<open>Killing\<close>

text \<open>The loop of \<open>delete_pseudo_user_list_entry\<close>: what is left of the count, and of the list.\<close>

fun delete_users :: "place \<Rightarrow> int \<Rightarrow> pseudo_user list \<Rightarrow> int \<times> pseudo_user list" where
  "delete_users pl n [] = (n, [])"
| "delete_users pl n (u # us) =
     (if userp u = pl then (if n - 1 = 0 then (0, us) else delete_users pl (n - 1) us)
      else (let (k, r) = delete_users pl n us in (k, u # r)))"

definition delete_pseudo_user_list_entry :: "place \<Rightarrow> int \<Rightarrow> pseudo_user list \<Rightarrow> (int \<times> pseudo_user list) option" where
  "delete_pseudo_user_list_entry pl n l = (let (k, r) = delete_users pl n l in if k \<le> 0 then Some (k, r) else None)"

text \<open>\<open>kill_instruction\<close> and \<open>kill_use\<close> call each other; \<open>kill\<close> is the call of the former.\<close>

type_synonym kill_i = "addr \<Rightarrow> lin \<Rightarrow> lin option"

definition remove_usage_with :: "kill_i \<Rightarrow> addr \<Rightarrow> place \<Rightarrow> lin \<Rightarrow> lin option" where
  "remove_usage_with kill p pl st =
     (if has_use_list st p then do {
        (k, us) \<leftarrow> delete_pseudo_user_list_entry pl 1 (users st p);
        let st1 = upd_pseudo p (\<lambda>x. x\<lparr>p_users := us\<rparr>) st;
        if us \<noteq> [] then Some st1
        else if ptype st p = PSEUDO_SYM then None
        else kill (p_def (pseudos st p)) st1 }
      else Some st)"

definition kill_use_with :: "kill_i \<Rightarrow> place \<Rightarrow> lin \<Rightarrow> lin option" where
  "kill_use_with kill pl st =
     (let p = read_place pl st in remove_usage_with kill p pl (write_place pl VOID st))"

fun kill_uses_with :: "kill_i \<Rightarrow> place list \<Rightarrow> lin \<Rightarrow> lin option" where
  "kill_uses_with kill [] st = Some st"
| "kill_uses_with kill (pl # pls) st =
     (case kill_use_with kill pl st of None \<Rightarrow> None | Some st1 \<Rightarrow> kill_uses_with kill pls st1)"

text \<open>\<open>kill_instruction\<close>, \<open>n\<close> calls deep.\<close>

fun kill_insn :: "nat \<Rightarrow> addr \<Rightarrow> lin \<Rightarrow> lin option" where
  "kill_insn 0 i st = None"
| "kill_insn (Suc n) i st =
     (if i = NULL \<or> i_bb (insns st i) = NULL then Some st
      else
        (let op = opcode (insns st i); st1 = set_insn_bb i NULL st; kills = kill_uses_with (kill_insn n) in
         if is_binary op \<or> is_bincmp op then
           map_option (add_repeat REPEAT_CSE) (kills [Src1 i, Src2 i] st1)
         else if op = OP_NOT \<or> op = OP_NEG then
           map_option (add_repeat REPEAT_CSE) (kills [Src1 i] st1)
         else if op = OP_PHI then Some (add_repeat REPEAT_CSE st1)
         else if op = OP_SYMADDR then Some (add_repeat (or REPEAT_CSE REPEAT_SYMBOL_CLEANUP) st1)
         else if op = OP_RANGE then kills [Src1 i, Src2 i, Src3 i] (add_repeat REPEAT_CSE st1)
         else if op = OP_BR then
           (let st2 = add_repeat REPEAT_CSE st1
            in if i_target (insns st i) \<noteq> NULL then kills [Target i] st2 else Some st2)
         else Some st))"

text \<open>Every call takes an instruction out of its block, so this is deep enough.\<close>

definition kill_instruction :: "addr \<Rightarrow> lin \<Rightarrow> lin option" where
  "kill_instruction i st = kill_insn (Suc (n_insns st)) i st"

definition remove_usage :: "addr \<Rightarrow> place \<Rightarrow> lin \<Rightarrow> lin option" where
  "remove_usage = remove_usage_with kill_instruction"

definition kill_use :: "place \<Rightarrow> lin \<Rightarrow> lin option" where
  "kill_use = kill_use_with kill_instruction"

definition kill_uses :: "place list \<Rightarrow> lin \<Rightarrow> lin option" where
  "kill_uses = kill_uses_with kill_instruction"

section \<open>Replacing\<close>

fun convert_users :: "addr \<Rightarrow> addr \<Rightarrow> pseudo_user list \<Rightarrow> lin \<Rightarrow> lin option" where
  "convert_users t p [] st = Some st"
| "convert_users t p (u # us) st =
     (let v = read_place (userp u) st in
      if v = VOID then convert_users t p us st
      else if v = t then convert_users t p us (write_place (userp u) p st)
      else None)"

definition convert_instruction_target :: "addr \<Rightarrow> addr \<Rightarrow> lin \<Rightarrow> lin option" where
  "convert_instruction_target i p st =
     (let t = i_target (insns st i) in
      if t = p then Some st
      else if t = NULL \<or> p = NULL then None
      else do {
        st1 \<leftarrow> convert_users t p (users st t) st;
        let st2 = upd_pseudo p (\<lambda>x. x\<lparr>p_users := p_users x @ users st t\<rparr>) st1;
        Some (upd_pseudo t (\<lambda>x. x\<lparr>p_users := []\<rparr>) st2) })"

definition convert_load_instruction :: "addr \<Rightarrow> addr \<Rightarrow> lin \<Rightarrow> lin option" where
  "convert_load_instruction i p st =
     map_option (upd_insn i (\<lambda>x. x\<lparr>opcode := OP_LNOP, i_bb := NULL\<rparr>)) (convert_instruction_target i p st)"

definition replace_with_pseudo :: "addr \<Rightarrow> addr \<Rightarrow> lin \<Rightarrow> (u32 \<times> lin) option" where
  "replace_with_pseudo i p st =
     map_option (\<lambda>st1. (REPEAT_CSE, set_insn_bb i NULL st1)) (convert_instruction_target i p st)"

text \<open>The operands of \<open>dead_insn\<close> are those that are not NULL.\<close>

definition dead_insn :: "addr \<Rightarrow> place list \<Rightarrow> lin \<Rightarrow> (u32 \<times> lin) option" where
  "dead_insn i pls st =
     (let t = i_target (insns st i) in
      if t = NULL then None
      else if \<exists>u \<in> set (users st t). read_place (userp u) st \<noteq> VOID then Some (0, st)
      else map_option (\<lambda>st1. (REPEAT_CSE, st1)) (kill_uses pls (set_insn_bb i NULL st)))"

definition switch_pseudo :: "addr \<Rightarrow> place \<Rightarrow> addr \<Rightarrow> place \<Rightarrow> lin \<Rightarrow> lin option" where
  "switch_pseudo i1 pl1 i2 pl2 st =
     (let p1 = read_place pl1 st; p2 = read_place pl2 st;
          st1 = use_pseudo i1 p2 pl1 st; st2 = use_pseudo i2 p1 pl2 st1
      in do { st3 \<leftarrow> remove_usage p1 pl1 st2; remove_usage p2 pl2 st3 })"

section \<open>Blocks that go away\<close>

definition kill_defs :: "addr \<Rightarrow> lin \<Rightarrow> lin option" where
  "kill_defs i st =
     (let t = i_target (insns st i) in
      if \<not> has_use_list st t \<or> ptype st t = PSEUDO_SYM \<or> p_def (pseudos st t) \<noteq> i then Some st
      else convert_instruction_target i VOID st)"

fun kill_block_insns :: "addr list \<Rightarrow> lin \<Rightarrow> lin option" where
  "kill_block_insns [] st = Some st"
| "kill_block_insns (i # is) st = do {
     st1 \<leftarrow> kill_instruction i st;
     st2 \<leftarrow> kill_defs i st1;
     kill_block_insns is (set_insn_bb i NULL st2) }"

definition remove_from_parents :: "addr \<Rightarrow> addr \<Rightarrow> lin \<Rightarrow> lin" where
  "remove_from_parents b c = upd_bb c (\<lambda>x. x\<lparr>parents := filter (\<lambda>y. y \<noteq> b) (parents x)\<rparr>)"

definition remove_from_children :: "addr \<Rightarrow> addr \<Rightarrow> lin \<Rightarrow> lin" where
  "remove_from_children b p = upd_bb p (\<lambda>x. x\<lparr>children := filter (\<lambda>y. y \<noteq> b) (children x)\<rparr>)"

definition kill_bb :: "addr \<Rightarrow> lin \<Rightarrow> lin option" where
  "kill_bb b st = do {
     st1 \<leftarrow> kill_block_insns (b_insns (bbs st b)) st;
     let st2 = upd_bb b (\<lambda>x. x\<lparr>b_insns := []\<rparr>) st1;
     let st3 = fold (remove_from_parents b) (children (bbs st2 b)) st2;
     let st4 = upd_bb b (\<lambda>x. x\<lparr>children := []\<rparr>) st3;
     let st5 = fold (remove_from_children b) (parents (bbs st4 b)) st4;
     Some (upd_bb b (\<lambda>x. x\<lparr>parents := []\<rparr>) st5) }"

definition remove_parent :: "addr \<Rightarrow> addr \<Rightarrow> lin \<Rightarrow> lin option" where
  "remove_parent c p st = do {
     l \<leftarrow> delete_entry p 1 (parents (bbs st c));
     let st1 = upd_bb c (\<lambda>x. x\<lparr>parents := l\<rparr>) st;
     if l = [] then kill_bb c st1 else Some st1 }"

text \<open>
  The children of \<open>b\<close> apart from one occurrence of \<open>target\<close> go; \<open>done\<close> are the entries passed.
  Killing \<open>b\<close> itself leaves the loop on the old list.
\<close>

fun drop_children :: "addr \<Rightarrow> addr \<Rightarrow> addr list \<Rightarrow> addr list \<Rightarrow> lin \<Rightarrow> lin option" where
  "drop_children b target done [] st = Some st"
| "drop_children b target done (c # cs) st =
     (if c = target then drop_children b NULL (done @ [c]) cs st
      else do {
        let st1 = upd_bb b (\<lambda>x. x\<lparr>children := if children x = [] then [] else done @ cs\<rparr>) st;
        st2 \<leftarrow> remove_parent c b st1;
        drop_children b target done cs st2 })"

definition insert_branch :: "addr \<Rightarrow> addr \<Rightarrow> addr \<Rightarrow> lin \<Rightarrow> lin option" where
  "insert_branch b jmp target st =
     (let (old, st1) = delete_last_instruction b st in
      if old \<noteq> jmp then None
      else
        (let (br, st2) = alloc_instruction OP_BR 0 st1;
             st3 = upd_insn br (\<lambda>x. x\<lparr>i_bb := b, bb_true := target\<rparr>) st2;
             st4 = add_instruction b br st3
         in drop_children b target [] (children (bbs st4 b)) st4))"

definition insert_select :: "addr \<Rightarrow> addr \<Rightarrow> addr \<Rightarrow> addr \<Rightarrow> addr \<Rightarrow> lin \<Rightarrow> lin option" where
  "insert_select b br phi if_true if_false st =
     (let (_, st1) = delete_last_instruction b st;
          (sel, st2) = alloc_instruction OP_SEL (i_size (insns st1 phi)) st1;
          st3 = set_insn_bb sel b st2;
          c = i_target (insns st3 br);
          st4 = use_pseudo sel c (Src1 sel) st3;
          t = i_target (insns st4 phi)
      in if c = NULL \<or> t = NULL \<or> p_def (pseudos st4 t) \<noteq> phi then None
         else
           (let st5 = upd_insn sel (\<lambda>x. x\<lparr>i_target := t\<rparr>) st4;
                st6 = upd_pseudo t (\<lambda>x. x\<lparr>p_def := sel\<rparr>) st5;
                st7 = use_pseudo sel if_true (Src2 sel) st6;
                st8 = use_pseudo sel if_false (Src3 sel) st7
            in Some (add_instruction b br (add_instruction b sel st8))))"

end
