(* ===== verification/Simplify.thy ===== *)
theory Simplify
  imports Uses Const_Fold
begin

text \<open>
  Instruction simplification (\<open>simplify.c\<close>). A result is the set of phases to repeat, 0 when
  nothing was changed; \<open>None\<close> is a failed assertion, a crash or an operation C leaves undefined.
\<close>

type_synonym simp_result = "(u32 \<times> lin) option"

abbreviation unchanged :: "lin \<Rightarrow> simp_result" where
  "unchanged st \<equiv> Some (0, st)"

definition sparse_constant :: "addr \<Rightarrow> lin \<Rightarrow> bool" where
  "sparse_constant p st = (ptype st p = PSEUDO_VAL)"

text \<open>\<open>insn->src2 = value_pseudo(v)\<close> and the like: an operand is set without a use.\<close>

definition set_src2 :: "addr \<Rightarrow> addr \<Rightarrow> lin \<Rightarrow> lin" where
  "set_src2 i p = upd_insn i (\<lambda>x. x\<lparr>src2 := p\<rparr>)"

definition set_opcode :: "addr \<Rightarrow> lin_opcode \<Rightarrow> lin \<Rightarrow> lin" where
  "set_opcode i op = upd_insn i (\<lambda>x. x\<lparr>opcode := op\<rparr>)"

definition replace_with_value :: "addr \<Rightarrow> u64 \<Rightarrow> lin \<Rightarrow> simp_result" where
  "replace_with_value i v st = (let (p, st1) = value_pseudo v st in replace_with_pseudo i p st1)"

section \<open>Binary operators\<close>

definition value_size :: "u64 \<Rightarrow> nat" where
  "value_size v =
     (let v1 = signed_drop_bit 8 v; v2 = signed_drop_bit 8 v1; v3 = signed_drop_bit 16 v2
      in if v1 = 0 then 8 else if v2 = 0 then 16 else if v3 = 0 then 32 else 64)"

definition operand_size :: "addr \<Rightarrow> addr \<Rightarrow> lin \<Rightarrow> nat" where
  "operand_size i p st =
     (let sz = i_size (insns st i); d = p_def (pseudos st p); x = insns st d;
          sz1 = (if ptype st p = PSEUDO_REG \<and> d \<noteq> NULL \<and> opcode x = OP_CAST then
                   (case orig_type x of
                      Some t \<Rightarrow> min sz (unat (word_of_int (bit_size (ltypes st t)) :: u32))
                    | None \<Rightarrow> sz)
                 else sz)
      in if ptype st p = PSEUDO_VAL then min sz1 (value_size (pvalue st p)) else sz1)"

definition simplify_asr :: "addr \<Rightarrow> addr \<Rightarrow> u64 \<Rightarrow> lin \<Rightarrow> simp_result" where
  "simplify_asr i p v st =
     (if sint v \<ge> int (operand_size i p st) then replace_with_value i 0 (lmsg Shift_by_bigger st)
      else if v = 0 then replace_with_pseudo i p st
      else unchanged st)"

definition simplify_constant_rightside :: "addr \<Rightarrow> lin \<Rightarrow> simp_result" where
  "simplify_constant_rightside i st =
     (let x = insns st i; op = opcode x; v = pvalue st (src2 x) in
      if op = OP_SUB \<and> v \<noteq> 0 then
        (let (p, st1) = value_pseudo (- v) (set_opcode i OP_ADD st) in Some (REPEAT_CSE, set_src2 i p st1))
      else if op \<in> {OP_SUB, OP_ADD, OP_OR, OP_XOR, OP_OR_BOOL, OP_SHL, OP_LSR} then
        (if v = 0 then replace_with_pseudo i (src1 x) st else unchanged st)
      else if op = OP_ASR then simplify_asr i (src1 x) v st
      else if op \<in> {OP_MULU, OP_MULS, OP_AND_BOOL} \<and> v = 1 then replace_with_pseudo i (src1 x) st
      else if op \<in> {OP_MULU, OP_MULS, OP_AND_BOOL, OP_AND} then
        (if v = 0 then replace_with_pseudo i (src2 x) st else unchanged st)
      else unchanged st)"

definition simplify_constant_leftside :: "addr \<Rightarrow> lin \<Rightarrow> simp_result" where
  "simplify_constant_leftside i st =
     (let x = insns st i; op = opcode x; v = pvalue st (src1 x) in
      if op \<in> {OP_ADD, OP_OR, OP_XOR} then
        (if v = 0 then replace_with_pseudo i (src2 x) st else unchanged st)
      else if op \<in> {OP_SHL, OP_LSR, OP_ASR, OP_AND, OP_MULU, OP_MULS} then
        (if v = 0 then replace_with_pseudo i (src1 x) st else unchanged st)
      else unchanged st)"

text \<open>
  The switch of \<open>simplify_constant_binop\<close>. \<open>Fold_trap\<close>: C does not define the result - the
  quotient or remainder of the least \<open>long long\<close> by -1, a shift count out of range.
\<close>

definition c_bool :: "bool \<Rightarrow> u64" where
  "c_bool b = (if b then 1 else 0)"

definition shift_ok :: "u64 \<Rightarrow> bool" where
  "shift_ok n = (n < 64)"

definition constant_binop :: "lin_opcode \<Rightarrow> u64 \<Rightarrow> u64 \<Rightarrow> u64 \<Rightarrow> u64 \<Rightarrow> fold" where
  "constant_binop op l r ul ur =
     (case op of
        OP_ADD \<Rightarrow> Fold (l + r)
      | OP_SUB \<Rightarrow> Fold (l - r)
      | OP_MULU \<Rightarrow> Fold (ul * ur)
      | OP_MULS \<Rightarrow> Fold (l * r)
      | OP_DIVU \<Rightarrow> if ur = 0 then No_fold else Fold (ul div ur)
      | OP_DIVS \<Rightarrow>
          if r = 0 then No_fold
          else if l = size_mask 64 \<and> r = -1 then Fold_trap
          else Fold (word_of_int (sint l sdiv sint r))
      | OP_MODU \<Rightarrow> if ur = 0 then No_fold else Fold (ul mod ur)
      | OP_MODS \<Rightarrow>
          if r = 0 then No_fold
          else if l = size_mask 64 \<and> r = -1 then Fold_trap
          else Fold (word_of_int (sint l smod sint r))
      | OP_SHL \<Rightarrow> if shift_ok r then Fold (push_bit (unat r) l) else Fold_trap
      | OP_LSR \<Rightarrow> if shift_ok ur then Fold (drop_bit (unat ur) ul) else Fold_trap
      | OP_ASR \<Rightarrow> if shift_ok r then Fold (signed_drop_bit (unat r) l) else Fold_trap
      | OP_AND \<Rightarrow> Fold (and l r)
      | OP_OR \<Rightarrow> Fold (or l r)
      | OP_XOR \<Rightarrow> Fold (xor l r)
      | OP_AND_BOOL \<Rightarrow> Fold (c_bool (l \<noteq> 0 \<and> r \<noteq> 0))
      | OP_OR_BOOL \<Rightarrow> Fold (c_bool (l \<noteq> 0 \<or> r \<noteq> 0))
      | OP_SET_EQ \<Rightarrow> Fold (c_bool (l = r))
      | OP_SET_NE \<Rightarrow> Fold (c_bool (l \<noteq> r))
      | OP_SET_LE \<Rightarrow> Fold (c_bool (sint l \<le> sint r))
      | OP_SET_GE \<Rightarrow> Fold (c_bool (sint l \<ge> sint r))
      | OP_SET_LT \<Rightarrow> Fold (c_bool (sint l < sint r))
      | OP_SET_GT \<Rightarrow> Fold (c_bool (sint l > sint r))
      | OP_SET_B \<Rightarrow> Fold (c_bool (ul < ur))
      | OP_SET_A \<Rightarrow> Fold (c_bool (ul > ur))
      | OP_SET_BE \<Rightarrow> Fold (c_bool (ul \<le> ur))
      | OP_SET_AE \<Rightarrow> Fold (c_bool (ul \<ge> ur))
      | _ \<Rightarrow> No_fold)"

definition sign_bits :: "u64 \<Rightarrow> u64 \<Rightarrow> u64" where
  "sign_bits msk v = (if and v msk \<noteq> 0 then or v (not (or msk (msk - 1))) else v)"

definition simplify_constant_binop :: "addr \<Rightarrow> lin \<Rightarrow> simp_result" where
  "simplify_constant_binop i st =
     (let x = insns st i; n = i_size x in
      if n = 0 \<or> 64 < n then None
      else
        (let msk = size_mask (int n); bits = or msk (msk - 1);
             l = sign_bits msk (pvalue st (src1 x)); r = sign_bits msk (pvalue st (src2 x))
         in case constant_binop (opcode x) l r (and l bits) (and r bits) of
              Fold v \<Rightarrow> replace_with_value i (and v bits) st
            | Fold_trap \<Rightarrow> None
            | _ \<Rightarrow> unchanged st))"

definition simplify_binop :: "addr \<Rightarrow> lin \<Rightarrow> simp_result" where
  "simplify_binop i st = do {
     (r, st1) \<leftarrow> dead_insn i [Src1 i, Src2 i] st;
     let x = insns st1 i;
     if r \<noteq> 0 then Some (REPEAT_CSE, st1)
     else if sparse_constant (src1 x) st1 then
       (if sparse_constant (src2 x) st1 then simplify_constant_binop i st1 else simplify_constant_leftside i st1)
     else if sparse_constant (src2 x) st1 then simplify_constant_rightside i st1
     else unchanged st1 }"

definition canonical_order :: "addr \<Rightarrow> addr \<Rightarrow> lin \<Rightarrow> bool" where
  "canonical_order p1 p2 st =
     (if ptype st p1 = PSEUDO_VAL then ptype st p2 = PSEUDO_VAL
      else if ptype st p1 = PSEUDO_SYM then ptype st p2 = PSEUDO_SYM \<or> ptype st p2 = PSEUDO_VAL
      else True)"

definition simplify_commutative_binop :: "addr \<Rightarrow> lin \<Rightarrow> simp_result" where
  "simplify_commutative_binop i st =
     (if \<not> canonical_order (src1 (insns st i)) (src2 (insns st i)) st
      then map_option (\<lambda>st1. (REPEAT_CSE, st1)) (switch_pseudo i (Src1 i) i (Src2 i) st)
      else unchanged st)"

definition simple_pseudo :: "addr \<Rightarrow> lin \<Rightarrow> bool" where
  "simple_pseudo p st = (ptype st p = PSEUDO_VAL \<or> ptype st p = PSEUDO_SYM)"

definition simplify_associative_binop :: "addr \<Rightarrow> lin \<Rightarrow> simp_result" where
  "simplify_associative_binop i st =
     (let x = insns st i; p = src1 x; d = p_def (pseudos st p) in
      if \<not> simple_pseudo (src2 x) st \<or> ptype st p \<noteq> PSEUDO_REG \<or> d = i then unchanged st
      else do {
        y \<leftarrow> insn_at d st;
        if opcode y \<noteq> opcode x \<or> \<not> simple_pseudo (src2 y) st \<or> length (users st (i_target y)) \<noteq> 1
        then unchanged st
        else map_option (\<lambda>st1. (REPEAT_CSE, st1)) (switch_pseudo d (Src1 d) i (Src2 i) st) })"

section \<open>Unary operators\<close>

definition simplify_constant_unop :: "addr \<Rightarrow> lin \<Rightarrow> simp_result" where
  "simplify_constant_unop i st =
     (let x = insns st i; n = i_size x; v = pvalue st (src1 x) in
      if opcode x \<noteq> OP_NOT \<and> opcode x \<noteq> OP_NEG then unchanged st
      else if n = 0 \<or> 64 < n then None
      else replace_with_value i (and (if opcode x = OP_NOT then not v else - v) (all_mask (int n))) st)"

definition simplify_unop :: "addr \<Rightarrow> lin \<Rightarrow> simp_result" where
  "simplify_unop i st = do {
     (r, st1) \<leftarrow> dead_insn i [Src1 i] st;
     if r \<noteq> 0 then Some (REPEAT_CSE, st1)
     else if sparse_constant (src1 (insns st1 i)) st1 then simplify_constant_unop i st1
     else unchanged st1 }"

section \<open>Memory operations\<close>

text \<open>\<open>insn->offset\<close> is an \<open>unsigned int\<close>: the constant is added modulo 2^32.\<close>

definition fold_offset :: "addr \<Rightarrow> addr \<Rightarrow> addr \<Rightarrow> addr \<Rightarrow> addr \<Rightarrow> lin \<Rightarrow> simp_result" where
  "fold_offset i orig address new off st =
     (if new = orig \<and> new = VOID then unchanged st
      else
        (let (new', st1) = (if new = orig then (VOID, lmsg Crazy_programmer st) else (new, st));
             st2 = upd_insn i (\<lambda>x. x\<lparr>i_offset := i_offset x + ucast (pvalue st off)\<rparr>) st1;
             st3 = use_pseudo i new' (Src1 i) st2
         in map_option (\<lambda>st4. (or REPEAT_CSE REPEAT_SYMBOL_CLEANUP, st4)) (remove_usage address (Src1 i) st3)))"

definition simplify_one_memop :: "addr \<Rightarrow> addr \<Rightarrow> lin \<Rightarrow> simp_result" where
  "simplify_one_memop i orig st =
     (let address = src1 (insns st i) in
      if ptype st address \<noteq> PSEUDO_REG then unchanged st
      else do {
        d \<leftarrow> insn_at (p_def (pseudos st address)) st;
        if opcode d = OP_SYMADDR \<and> src1 d \<noteq> NULL then
          map_option (\<lambda>st1. (or REPEAT_CSE REPEAT_SYMBOL_CLEANUP, use_pseudo i (src1 d) (Src1 i) st1))
            (kill_use (Src1 i) st)
        else if opcode d = OP_ADD then
          (if sparse_constant (src2 d) st then fold_offset i orig address (src1 d) (src2 d) st
           else if sparse_constant (src1 d) st then fold_offset i orig address (src2 d) (src1 d) st
           else unchanged st)
        else unchanged st })"

text \<open>The \<open>do\<close> loop; it has no bound of its own, and not ending is \<open>None\<close>.\<close>

partial_function (option) memop_loop :: "addr \<Rightarrow> addr \<Rightarrow> u32 \<Rightarrow> lin \<Rightarrow> (u32 \<times> lin) option" where
  "memop_loop i orig ret st =
     (case simplify_one_memop i orig st of
        None \<Rightarrow> None
      | Some (one, st1) \<Rightarrow> if one = 0 then Some (ret, st1) else memop_loop i orig (or ret one) st1)"

definition simplify_memop :: "addr \<Rightarrow> lin \<Rightarrow> simp_result" where
  "simplify_memop i st = memop_loop i (src1 (insns st i)) 0 st"

section \<open>Casts\<close>

text \<open>
  \<open>1 << n\<close> on \<open>int\<close>: 31 gives the sign bit, as gcc defines it, a larger or negative count is
  undefined.
\<close>

definition int_bit :: "int \<Rightarrow> u64 option" where
  "int_bit n = (if 0 \<le> n \<and> n < 32 then Some (scast (push_bit (nat n) 1 :: u32)) else None)"

definition get_cast_value :: "u64 \<Rightarrow> int \<Rightarrow> int \<Rightarrow> bool \<Rightarrow> u64 option" where
  "get_cast_value v old_size new_size sign = do {
     v1 \<leftarrow> (if sign \<and> new_size > old_size then do {
              msk \<leftarrow> int_bit (old_size - 1);
              Some (if and v msk \<noteq> 0 then or v (not (or msk (msk - 1))) else v) }
            else Some v);
     msk \<leftarrow> int_bit (new_size - 1);
     Some (and v1 (or msk (msk - 1))) }"

definition masked_by_and :: "nat \<Rightarrow> addr \<Rightarrow> lin \<Rightarrow> bool option" where
  "masked_by_and sz p st =
     (if ptype st p \<noteq> PSEUDO_REG then Some False
      else do {
        d \<leftarrow> insn_at (p_def (pseudos st p)) st;
        if opcode d = OP_AND \<and> i_size d \<ge> sz \<and> ptype st (src2 d) = PSEUDO_VAL then
          (if sz = 0 \<or> 64 < sz then None else Some (drop_bit (sz - 1) (pvalue st (src2 d)) = 0))
        else Some False })"

definition simplify_cast :: "addr \<Rightarrow> lin \<Rightarrow> simp_result" where
  "simplify_cast i st = do {
     (r, st1) \<leftarrow> dead_insn i [Src1 i] st;
     let x = insns st1 i;
     if r \<noteq> 0 then Some (REPEAT_CSE, st1)
     else case orig_type x of
       None \<Rightarrow> unchanged st1
     | Some ot \<Rightarrow>
         if is_ptr_type (ltypes st1) ot then unchanged st1
         else do {
           ty \<leftarrow> i_type x;
           let s = ltypes st1 ot;
           let is_signed = has_mod (modifiers (s_ctype s)) MOD_SIGNED;
           let p = src1 x;
           let sz = i_size x;
           if is_ptr_type (ltypes st1) ty then unchanged st1
           else if sparse_constant p st1 then do {
             v \<leftarrow> get_cast_value (pvalue st1 p) (bit_size s) (int sz) is_signed;
             replace_with_value i v st1 }
           else do {
             masked \<leftarrow> masked_by_and sz p st1;
             if masked \<or> (int sz = bit_size s \<and> opcode x = (if is_signed then OP_SCAST else OP_CAST))
             then replace_with_pseudo i p st1
             else unchanged st1 }} }"

section \<open>Selections and ranges\<close>

text \<open>The member \<open>value\<close> of the union of any pseudo is not 0: a pointer is not NULL.\<close>

definition value_set :: "addr \<Rightarrow> lin \<Rightarrow> bool" where
  "value_set p st =
     (case ptype st p of
        PSEUDO_VAL \<Rightarrow> pvalue st p \<noteq> 0
      | PSEUDO_VOID \<Rightarrow> False
      | PSEUDO_SYM \<Rightarrow> True
      | _ \<Rightarrow> p_def (pseudos st p) \<noteq> NULL)"

definition simplify_select :: "addr \<Rightarrow> lin \<Rightarrow> simp_result" where
  "simplify_select i st = do {
     (r, st1) \<leftarrow> dead_insn i [Src1 i, Src2 i, Src3 i] st;
     let x = insns st1 i;
     let c = src1 x;
     let a = src2 x;
     let b = src3 x;
     if r \<noteq> 0 then Some (REPEAT_CSE, st1)
     else if sparse_constant c st1 \<or> a = b then do {
       st2 \<leftarrow> kill_use (Src1 i) st1;
       st3 \<leftarrow> kill_use (if value_set c st2 then Src3 i else Src2 i) st2;
       replace_with_pseudo i (if value_set c st2 then a else b) st3 }
     else if sparse_constant a st1 \<and> sparse_constant b st1 \<and> or (pvalue st1 a) (pvalue st1 b) = 1 then
       (if pvalue st1 a \<noteq> 0 then Some (REPEAT_CSE, set_src2 i b (set_opcode i OP_SET_NE st1))
        else Some (REPEAT_CSE, set_src2 i a (set_opcode i OP_SET_EQ st1)))
     else unchanged st1 }"

definition is_in_range :: "addr \<Rightarrow> u64 \<Rightarrow> u64 \<Rightarrow> lin \<Rightarrow> bool" where
  "is_in_range p low high st =
     (ptype st p = PSEUDO_VAL \<and> sint (pvalue st p) \<ge> sint low \<and> sint (pvalue st p) \<le> sint high)"

definition simplify_range :: "addr \<Rightarrow> lin \<Rightarrow> simp_result" where
  "simplify_range i st =
     (let x = insns st i in
      if ptype st (src2 x) \<noteq> PSEUDO_VAL \<or> ptype st (src3 x) \<noteq> PSEUDO_VAL then unchanged st
      else if is_in_range (src1 x) (pvalue st (src2 x)) (pvalue st (src3 x)) st
      then map_option (\<lambda>st1. (REPEAT_CSE, st1)) (kill_instruction i st)
      else unchanged st)"

section \<open>Branches\<close>

definition swap_targets :: "addr \<Rightarrow> lin \<Rightarrow> lin" where
  "swap_targets br = upd_insn br (\<lambda>x. x\<lparr>bb_true := bb_false x, bb_false := bb_true x\<rparr>)"

text \<open>\<open>use_pseudo(insn, p, &insn->cond); remove_usage(cond, &insn->cond)\<close>.\<close>

definition change_cond :: "addr \<Rightarrow> addr \<Rightarrow> addr \<Rightarrow> lin \<Rightarrow> simp_result" where
  "change_cond br c p st =
     map_option (\<lambda>st1. (REPEAT_CSE, st1)) (remove_usage c (Target br) (use_pseudo br p (Target br) st))"

definition simplify_cond_branch :: "addr \<Rightarrow> addr \<Rightarrow> insn \<Rightarrow> addr \<Rightarrow> lin \<Rightarrow> simp_result" where
  "simplify_cond_branch br c d p st = do {
     (r, st1) \<leftarrow> change_cond br c p st;
     Some (r, if opcode d = OP_SET_EQ then swap_targets br st1 else st1) }"

definition same_target_branch :: "addr \<Rightarrow> lin \<Rightarrow> simp_result" where
  "same_target_branch i st =
     (let x = insns st i; b = i_bb x; t = bb_false x in do {
        ps \<leftarrow> delete_entry b 1 (parents (bbs st t));
        let st1 = upd_bb t (\<lambda>y. y\<lparr>parents := ps\<rparr>) st;
        cs \<leftarrow> delete_entry t 1 (children (bbs st1 b));
        let st2 = upd_bb b (\<lambda>y. y\<lparr>children := cs\<rparr>) st1;
        let st3 = upd_insn i (\<lambda>x. x\<lparr>bb_false := NULL\<rparr>) st2;
        st4 \<leftarrow> kill_use (Target i) st3;
        Some (REPEAT_CSE, upd_insn i (\<lambda>x. x\<lparr>i_target := NULL\<rparr>) st4) })"

definition always :: "addr \<Rightarrow> addr \<Rightarrow> lin \<Rightarrow> simp_result" where
  "always i target st =
     map_option (\<lambda>st1. (REPEAT_CSE, st1)) (insert_branch (i_bb (insns st i)) i target st)"

definition simplify_branch :: "addr \<Rightarrow> lin \<Rightarrow> simp_result" where
  "simplify_branch i st =
     (let x = insns st i; c = i_target x in
      if c = NULL then unchanged st
      else if sparse_constant c st then always i (if pvalue st c \<noteq> 0 then bb_true x else bb_false x) st
      else if bb_true x = bb_false x then same_target_branch i st
      else if ptype st c \<noteq> PSEUDO_REG then unchanged st
      else do {
        d \<leftarrow> insn_at (p_def (pseudos st c)) st;
        let zero = (\<lambda>p. sparse_constant p st \<and> pvalue st p = 0);
        if opcode d = OP_SET_NE \<or> opcode d = OP_SET_EQ then
          (if zero (src1 d) then simplify_cond_branch i c d (src2 d) st
           else if zero (src2 d) then simplify_cond_branch i c d (src1 d) st
           else unchanged st)
        else if opcode d = OP_SEL then
          (if sparse_constant (src2 d) st \<and> sparse_constant (src3 d) st then
             (let v1 = pvalue st (src2 d); v2 = pvalue st (src3 d) in
              if v1 = 0 \<and> v2 = 0 then always i (bb_false x) st
              else if v1 \<noteq> 0 \<and> v2 \<noteq> 0 then always i (bb_true x) st
              else change_cond i c (src1 d) (if v2 \<noteq> 0 then swap_targets i st else st))
           else unchanged st)
        else if opcode d = OP_CAST \<or> opcode d = OP_SCAST then
          (if int (i_size d) > (case orig_type d of Some t \<Rightarrow> bit_size (ltypes st t) | None \<Rightarrow> 0)
           then change_cond i c (src1 d) st else unchanged st)
        else unchanged st })"

fun find_jmp :: "int \<Rightarrow> multijmp list \<Rightarrow> multijmp option" where
  "find_jmp v [] = None"
| "find_jmp v (j # js) =
     (if jmp_begin j > jmp_end j \<or> (v \<ge> jmp_begin j \<and> v \<le> jmp_end j) then Some j else find_jmp v js)"

definition simplify_switch :: "addr \<Rightarrow> lin \<Rightarrow> simp_result" where
  "simplify_switch i st =
     (let x = insns st i; c = i_target x in
      if \<not> sparse_constant c st then unchanged st
      else case find_jmp (sint (pvalue st c)) (multijmps x) of
             None \<Rightarrow> unchanged (lmsg Impossible_case st)
           | Some j \<Rightarrow> always i (jmp_target j) st)"

section \<open>Phi nodes\<close>

definition phi_parent :: "addr \<Rightarrow> addr \<Rightarrow> lin \<Rightarrow> addr option" where
  "phi_parent source p st =
     (let b = bbs st source;
          up = (if length (children b) \<noteq> 1 \<or> length (parents b) \<noteq> 1 then source else hd (parents b)) in
      if ptype st p = PSEUDO_REG then
        map_option (\<lambda>d. if i_bb d = source then source else up) (insn_at (p_def (pseudos st p)) st)
      else Some up)"

definition clear_phi :: "addr \<Rightarrow> lin \<Rightarrow> lin" where
  "clear_phi i st =
     (let st1 = set_insn_bb i NULL st
      in st1\<lparr>cells := (\<lambda>c. if c \<in> set (phi_list (insns st i)) then VOID else cells st1 c)\<rparr>)"

definition if_convert_phi :: "addr \<Rightarrow> lin \<Rightarrow> simp_result" where
  "if_convert_phi i st =
     (let x = insns st i in
      case (phi_list x, parents (bbs st (i_bb x))) of
        ([c1, c2], [q1, q2]) \<Rightarrow> do {
          d1 \<leftarrow> insn_at (p_def (pseudos st (cells st c1))) st;
          d2 \<leftarrow> insn_at (p_def (pseudos st (cells st c2))) st;
          let p1 = src1 d1;
          let b1 = i_bb d1;
          let p2 = src1 d2;
          let b2 = i_bb d2;
          if (b1 \<noteq> q1 \<or> b2 \<noteq> q2) \<and> (b1 \<noteq> q2 \<or> b2 \<noteq> q1) then unchanged st
          else do {
            s1 \<leftarrow> phi_parent b1 p1 st;
            s2 \<leftarrow> phi_parent b2 p2 st;
            let br = last_instruction s1 st;
            let y = insns st br;
            if s1 \<noteq> s2 \<or> br = NULL \<or> opcode y \<noteq> OP_BR then unchanged st
            else if i_target y = NULL \<or> bb_false y = NULL then None
            else
              (let (t, f) = (if bb_true y = b2 \<or> bb_false y = b1 then (p2, p1) else (p1, p2))
               in map_option (\<lambda>st1. (REPEAT_CSE, clear_phi i st1)) (insert_select s1 br i t f st)) }}
      | _ \<Rightarrow> unchanged st)"

text \<open>The loop over the sources of a phi node: the first that counts, and whether all have its value.\<close>

fun scan_phi :: "lin \<Rightarrow> addr list \<Rightarrow> addr \<Rightarrow> bool \<Rightarrow> (addr \<times> bool) option" where
  "scan_phi st [] d0 same = Some (d0, same)"
| "scan_phi st (p # ps) d0 same =
     (if p = VOID then scan_phi st ps d0 same
      else
        (let d = p_def (pseudos st p) in
         if d = NULL then None
         else if src1 (insns st d) = VOID \<or> i_bb (insns st d) = NULL then scan_phi st ps d0 same
         else if d0 \<noteq> NULL then scan_phi st ps d0 (same \<and> src1 (insns st d0) = src1 (insns st d))
         else scan_phi st ps d same))"

definition clean_up_phi :: "addr \<Rightarrow> lin \<Rightarrow> simp_result" where
  "clean_up_phi i st = do {
     (d0, same) \<leftarrow> scan_phi st (map (cells st) (phi_list (insns st i))) NULL True;
     if same then
       map_option (\<lambda>st1. (REPEAT_CSE, clear_phi i st1))
         (convert_instruction_target i (if d0 \<noteq> NULL then src1 (insns st d0) else VOID) st)
     else if_convert_phi i st }"

section \<open>The dispatch\<close>

text \<open>One simplifier after the other, until one changes something.\<close>

definition or_else :: "simp_result \<Rightarrow> (lin \<Rightarrow> simp_result) \<Rightarrow> simp_result" where
  "or_else r f = (case r of None \<Rightarrow> None | Some (k, st) \<Rightarrow> if k \<noteq> 0 then Some (REPEAT_CSE, st) else f st)"

definition simplify_instruction :: "addr \<Rightarrow> lin \<Rightarrow> simp_result" where
  "simplify_instruction i st =
     (let x = insns st i; op = opcode x in
      if i_bb x = NULL then unchanged st
      else if op \<in> {OP_ADD, OP_MULS, OP_AND, OP_OR, OP_XOR, OP_AND_BOOL, OP_OR_BOOL} then
        or_else (or_else (simplify_binop i st) (simplify_commutative_binop i)) (simplify_associative_binop i)
      else if op \<in> {OP_MULU, OP_SET_EQ, OP_SET_NE} then
        or_else (simplify_binop i st) (simplify_commutative_binop i)
      else if is_binary op \<or> is_bincmp op then simplify_binop i st
      else if op \<in> {OP_NOT, OP_NEG} then simplify_unop i st
      else if op \<in> {OP_LOAD, OP_STORE} then simplify_memop i st
      else if op = OP_SYMADDR then do {
        (r, st1) \<leftarrow> dead_insn i [] st;
        if r \<noteq> 0 then Some (or REPEAT_CSE REPEAT_SYMBOL_CLEANUP, st1)
        else replace_with_pseudo i (src1 (insns st1 i)) st1 }
      else if op \<in> {OP_CAST, OP_SCAST, OP_FPCAST, OP_PTRCAST} then simplify_cast i st
      else if op = OP_PHI then do {
        (r, st1) \<leftarrow> dead_insn i [] st;
        if r \<noteq> 0 then Some (REPEAT_CSE, clear_phi i st1) else clean_up_phi i st1 }
      else if op = OP_PHISOURCE then do {
        (r, st1) \<leftarrow> dead_insn i [Src1 i] st;
        Some (if r \<noteq> 0 then REPEAT_CSE else 0, st1) }
      else if op = OP_SEL then simplify_select i st
      else if op = OP_BR then simplify_branch i st
      else if op = OP_SWITCH then simplify_switch i st
      else if op = OP_RANGE then simplify_range i st
      else unchanged st)"

end
