(* ===== verification/Flow.thy ===== *)
theory Flow
  imports Simplify
begin

text \<open>
  The flow graph (\<open>flow.c\<close> but for the memory accesses): branches that are known are
  rewritten, blocks that cannot be reached are killed, blocks in a row are merged.

  The walks over the graph mark the blocks they have seen with a generation; their recursion gets a
  depth, and as every call marks a block, the number of blocks is deep enough.
\<close>

section \<open>Rewriting branches\<close>

text \<open>Where a \<open>struct basic_block **\<close> points.\<close>

datatype bref = Bb_true addr | Bb_false addr | Jmp addr nat

fun read_bref :: "bref \<Rightarrow> lin \<Rightarrow> addr" where
  "read_bref (Bb_true i) st = bb_true (insns st i)"
| "read_bref (Bb_false i) st = bb_false (insns st i)"
| "read_bref (Jmp i k) st = jmp_target (multijmps (insns st i) ! k)"

fun write_bref :: "bref \<Rightarrow> addr \<Rightarrow> lin \<Rightarrow> lin" where
  "write_bref (Bb_true i) b st = upd_insn i (\<lambda>x. x\<lparr>bb_true := b\<rparr>) st"
| "write_bref (Bb_false i) b st = upd_insn i (\<lambda>x. x\<lparr>bb_false := b\<rparr>) st"
| "write_bref (Jmp i k) b st =
     upd_insn i (\<lambda>x. x\<lparr>multijmps := (multijmps x)[k := (multijmps x ! k)\<lparr>jmp_target := b\<rparr>]\<rparr>) st"

definition rewrite_branch :: "addr \<Rightarrow> bref \<Rightarrow> addr \<Rightarrow> addr \<Rightarrow> lin \<Rightarrow> (bool \<times> lin) option" where
  "rewrite_branch b ptr old new st =
     (if read_bref ptr st \<noteq> old \<or> new = old then Some (False, st)
      else do {
        let st1 = write_bref ptr new (add_repeat REPEAT_CSE st);
        cs \<leftarrow> replace_entry old new 1 (children (bbs st1 b));
        let st2 = upd_bb b (\<lambda>x. x\<lparr>children := cs\<rparr>) st1;
        ps \<leftarrow> delete_entry b 1 (parents (bbs st2 old));
        let st3 = upd_bb old (\<lambda>x. x\<lparr>parents := ps\<rparr>) st2;
        if new = NULL then None else Some (True, add_parent new b st3) })"

text \<open>Both branches of \<open>br\<close>, which ends \<open>b\<close>.\<close>

definition rewrite_both :: "addr \<Rightarrow> addr \<Rightarrow> addr \<Rightarrow> addr \<Rightarrow> lin \<Rightarrow> (bool \<times> lin) option" where
  "rewrite_both b br old new st = do {
     (c1, st1) \<leftarrow> rewrite_branch b (Bb_true br) old new st;
     (c2, st2) \<leftarrow> rewrite_branch b (Bb_false br) old new st1;
     Some (c1 \<or> c2, st2) }"

text \<open>-1: not known.\<close>

definition pseudo_truth_value :: "addr \<Rightarrow> lin \<Rightarrow> int option" where
  "pseudo_truth_value p st =
     (case ptype st p of
        PSEUDO_VAL \<Rightarrow> Some (if pvalue st p \<noteq> 0 then 1 else 0)
      | PSEUDO_REG \<Rightarrow> do {
          d \<leftarrow> insn_at (p_def (pseudos st p)) st;
          Some (if opcode d = OP_SYMADDR \<and> i_target d = p then 1 else -1) }
      | _ \<Rightarrow> Some (-1))"

definition bb_depends_on :: "addr \<Rightarrow> addr \<Rightarrow> lin \<Rightarrow> bool" where
  "bb_depends_on target src st = (\<exists>p \<in> set (b_defines (bbs st src)). p \<in> set (b_needs (bbs st target)))"

text \<open>The loop of \<open>try_to_simplify_bb\<close> over the sources \<open>phis\<close> of the phi node.\<close>

fun bypass_sources :: "addr \<Rightarrow> addr \<Rightarrow> addr list \<Rightarrow> bool \<Rightarrow> lin \<Rightarrow> (bool \<times> lin) option" where
  "bypass_sources b br2 [] changed st = Some (changed, st)"
| "bypass_sources b br2 (c # cs) changed st =
     (let d = p_def (pseudos st (cells st c)); source = i_bb (insns st d); p = src1 (insns st d);
          br = last_instruction source st in
      if d = NULL \<or> p = NULL \<or> source = NULL \<or> br = NULL \<or> opcode (insns st br) \<noteq> OP_BR
      then bypass_sources b br2 cs changed st
      else
        (case pseudo_truth_value p st of
           None \<Rightarrow> None
         | Some t \<Rightarrow>
             (let target = (if t \<noteq> 0 then bb_true (insns st br2) else bb_false (insns st br2)) in
              if t < 0 \<or> bb_depends_on target b st then bypass_sources b br2 cs changed st
              else
                (case rewrite_both source br b target st of
                   None \<Rightarrow> None
                 | Some (ch, st1) \<Rightarrow> bypass_sources b br2 cs (changed \<or> ch) st1))))"

definition try_to_simplify_bb :: "addr \<Rightarrow> addr \<Rightarrow> addr \<Rightarrow> lin \<Rightarrow> (bool \<times> lin) option" where
  "try_to_simplify_bb b first second st = bypass_sources b second (phi_list (insns st first)) False st"

definition bb_has_side_effects :: "addr \<Rightarrow> lin \<Rightarrow> bool" where
  "bb_has_side_effects b st =
     (\<exists>i \<in> set (b_insns (bbs st b)). opcode (insns st i) \<in> {OP_CALL, OP_STORE, OP_CONTEXT, OP_ASM})"

definition simplify_phi_branch :: "addr \<Rightarrow> addr \<Rightarrow> lin \<Rightarrow> (bool \<times> lin) option" where
  "simplify_phi_branch b br st =
     (let c = i_target (insns st br); d = p_def (pseudos st c) in
      if ptype st c \<noteq> PSEUDO_REG then Some (False, st)
      else if d = NULL then None
      else if i_bb (insns st d) \<noteq> b \<or> opcode (insns st d) \<noteq> OP_PHI \<or> bb_has_side_effects b st
      then Some (False, st)
      else try_to_simplify_bb b d br st)"

definition simplify_branch_branch :: "addr \<Rightarrow> addr \<Rightarrow> bref \<Rightarrow> bool \<Rightarrow> lin \<Rightarrow> (bool \<times> lin) option" where
  "simplify_branch_branch b br ptr true_sim st =
     (let target = read_bref ptr st; i = last_instruction target st; x = insns st i in
      if target = b \<or> i = NULL \<or> opcode x \<noteq> OP_BR \<or> i_target x \<noteq> i_target (insns st br) then Some (False, st)
      else
        (let final = (if true_sim then bb_true x else bb_false x) in
         if \<not> bb_has_side_effects target st \<and> \<not> bb_depends_on final target st
         then rewrite_branch b ptr target final st
         else if length (parents (bbs st target)) \<noteq> 1 then Some (False, st)
         else do {
           st1 \<leftarrow> insert_branch target i final st;
           st2 \<leftarrow> kill_instruction i st1;
           Some (True, st2) }))"

text \<open>The operands of \<open>|\<close> are evaluated from left to right.\<close>

definition simplify_one_branch :: "addr \<Rightarrow> addr \<Rightarrow> lin \<Rightarrow> (bool \<times> lin) option" where
  "simplify_one_branch b br st = do {
     (c, st1) \<leftarrow> simplify_phi_branch b br st;
     if c then Some (True, st1)
     else do {
       (c1, st2) \<leftarrow> simplify_branch_branch b br (Bb_true br) True st1;
       (c2, st3) \<leftarrow> simplify_branch_branch b br (Bb_false br) False st2;
       Some (c1 \<or> c2, st3) }}"

fun simplify_branch_nodes :: "addr list \<Rightarrow> bool \<Rightarrow> lin \<Rightarrow> (bool \<times> lin) option" where
  "simplify_branch_nodes [] changed st = Some (changed, st)"
| "simplify_branch_nodes (b # bs) changed st =
     (let br = last_instruction b st in
      if br = NULL \<or> opcode (insns st br) \<noteq> OP_BR \<or> bb_false (insns st br) = NULL
      then simplify_branch_nodes bs changed st
      else
        (case simplify_one_branch b br st of
           None \<Rightarrow> None
         | Some (c, st1) \<Rightarrow> simplify_branch_nodes bs (changed \<or> c) st1))"

definition simplify_flow :: "entrypoint \<Rightarrow> lin \<Rightarrow> (bool \<times> lin) option" where
  "simplify_flow ep st = simplify_branch_nodes (ep_bbs ep) False st"

section \<open>Blocks that cannot be reached\<close>

definition mark :: "nat \<Rightarrow> addr \<Rightarrow> lin \<Rightarrow> lin" where
  "mark g b = upd_bb b (\<lambda>x. x\<lparr>generation := g\<rparr>)"

fun mark_all :: "(addr \<Rightarrow> lin \<Rightarrow> lin option) \<Rightarrow> addr list \<Rightarrow> lin \<Rightarrow> lin option" where
  "mark_all m [] st = Some st"
| "mark_all m (b # bs) st = (case m b st of None \<Rightarrow> None | Some st1 \<Rightarrow> mark_all m bs st1)"

fun mark_bb_reachable :: "nat \<Rightarrow> nat \<Rightarrow> addr \<Rightarrow> lin \<Rightarrow> lin option" where
  "mark_bb_reachable 0 g b st = None"
| "mark_bb_reachable (Suc n) g b st =
     (if generation (bbs st b) = g then Some st
      else mark_all (mark_bb_reachable n g) (children (bbs st b)) (mark g b st))"

text \<open>\<open>++bb_generation\<close>.\<close>

definition next_generation :: "lin \<Rightarrow> nat \<times> lin" where
  "next_generation st = (Suc (bb_generation st), st\<lparr>bb_generation := Suc (bb_generation st)\<rparr>)"

fun kill_unmarked :: "nat \<Rightarrow> addr list \<Rightarrow> addr list \<Rightarrow> lin \<Rightarrow> (addr list \<times> lin) option" where
  "kill_unmarked g done [] st = Some (done, st)"
| "kill_unmarked g done (b # bs) st =
     (if generation (bbs st b) = g then kill_unmarked g (done @ [b]) bs st
      else
        (case kill_bb b st of
           None \<Rightarrow> None
         | Some st1 \<Rightarrow> kill_unmarked g done bs (upd_bb b (\<lambda>x. x\<lparr>b_ep := False\<rparr>) st1)))"

definition kill_unreachable_bbs :: "entrypoint \<Rightarrow> lin \<Rightarrow> (entrypoint \<times> lin) option" where
  "kill_unreachable_bbs ep st =
     (let (g, st1) = next_generation st in do {
        st2 \<leftarrow> mark_bb_reachable (Suc (n_bbs st1)) g (i_bb (insns st1 (ep_entry ep))) st1;
        (bs, st3) \<leftarrow> kill_unmarked g [] (ep_bbs ep) st2;
        Some (ep\<lparr>ep_bbs := bs\<rparr>, st3) })"

section \<open>Merging blocks\<close>

fun rewrite_jumps :: "addr \<Rightarrow> addr \<Rightarrow> addr \<Rightarrow> addr \<Rightarrow> nat list \<Rightarrow> bool \<Rightarrow> lin \<Rightarrow> (bool \<times> lin) option" where
  "rewrite_jumps b i old new [] changed st = Some (changed, st)"
| "rewrite_jumps b i old new (k # ks) changed st =
     (case rewrite_branch b (Jmp i k) old new st of
        None \<Rightarrow> None
      | Some (c, st1) \<Rightarrow> rewrite_jumps b i old new ks (changed \<or> c) st1)"

definition rewrite_parent_branch :: "addr \<Rightarrow> addr \<Rightarrow> addr \<Rightarrow> lin \<Rightarrow> (bool \<times> lin) option" where
  "rewrite_parent_branch b old new st =
     (let i = last_instruction b st; x = insns st i;
          asserted = (\<lambda>r. case r of Some (True, st1) \<Rightarrow> Some (True, st1) | _ \<Rightarrow> None) in
      if i = NULL \<or> old = new then Some (False, st)
      else if opcode x = OP_BR then asserted (rewrite_both b i old new st)
      else if opcode x = OP_SWITCH then asserted (rewrite_jumps b i old new [0 ..< length (multijmps x)] False st)
      else Some (False, st))"

text \<open>The loop over the parents ends when one cannot be rewritten or none is left.\<close>

partial_function (option) rewrite_parents :: "addr \<Rightarrow> addr \<Rightarrow> lin \<Rightarrow> (bool \<times> lin) option" where
  "rewrite_parents b target st =
     (case parents (bbs st b) of
        [] \<Rightarrow> Some (True, st)
      | p # ps \<Rightarrow>
          (case rewrite_parent_branch p b target st of
             None \<Rightarrow> None
           | Some (c, st1) \<Rightarrow> if c then rewrite_parents b target st1 else Some (False, st1)))"

text \<open>The new target, or NULL.\<close>

definition rewrite_branch_bb :: "addr \<Rightarrow> addr \<Rightarrow> lin \<Rightarrow> (addr \<times> lin) option" where
  "rewrite_branch_bb b br st =
     (let x = insns st br; t = bb_true x; f = bb_false x; c = i_target x in
      if t \<noteq> NULL \<and> f \<noteq> NULL \<and> ptype st c \<noteq> PSEUDO_VAL then Some (NULL, st)
      else
        (let target = (if t \<noteq> NULL \<and> f \<noteq> NULL then (if pvalue st c \<noteq> 0 then t else f) else t) in do {
           (ok, st1) \<leftarrow> rewrite_parents b target st;
           Some (if ok then target else NULL, st1) }))"

text \<open>The first instruction of a block that counts; NULL if there is none.\<close>

fun first_real :: "lin \<Rightarrow> addr list \<Rightarrow> addr" where
  "first_real st [] = NULL"
| "first_real st (i # is) =
     (if i_bb (insns st i) = NULL \<or> opcode (insns st i) \<in> {OP_NOP, OP_LNOP, OP_SNOP} then first_real st is else i)"

fun adopt_insns :: "addr \<Rightarrow> addr \<Rightarrow> addr list \<Rightarrow> lin \<Rightarrow> lin option" where
  "adopt_insns b p [] st = Some st"
| "adopt_insns b p (i # is) st =
     (let x = i_bb (insns st i) in
      if x \<noteq> NULL \<and> x \<noteq> b then None
      else adopt_insns b p is (add_instruction p i (if x \<noteq> NULL then set_insn_bb i p st else st)))"

text \<open>\<open>replace_bb_in_list(&child->parents, bb, parent, 0)\<close>.\<close>

definition new_parent :: "addr \<Rightarrow> addr \<Rightarrow> addr \<Rightarrow> lin \<Rightarrow> lin" where
  "new_parent b p c = upd_bb c (\<lambda>x. x\<lparr>parents := map (\<lambda>y. if y = b then p else y) (parents x)\<rparr>)"

definition merge_into_parent :: "addr \<Rightarrow> addr \<Rightarrow> lin \<Rightarrow> lin option" where
  "merge_into_parent b p st =
     (let cs = children (bbs st b);
          st1 = upd_bb p (\<lambda>x. x\<lparr>children := cs\<rparr>) (add_repeat REPEAT_CSE st);
          st2 = upd_bb b (\<lambda>x. x\<lparr>children := [], parents := []\<rparr>) st1;
          st3 = fold (new_parent b p) cs st2;
          (i, st4) = delete_last_instruction p st3
      in do {
        st5 \<leftarrow> kill_instruction i st4;
        st6 \<leftarrow> adopt_insns b p (b_insns (bbs st5 b)) st5;
        Some (upd_bb b (\<lambda>x. x\<lparr>b_insns := []\<rparr>) st6) })"

definition pack_bb :: "addr \<Rightarrow> lin \<Rightarrow> lin option" where
  "pack_bb b st =
     (let i = first_real st (b_insns (bbs st b)) in do {
        (r, st1) \<leftarrow> (if i \<noteq> NULL \<and> opcode (insns st i) = OP_BR then rewrite_branch_bb b i st else Some (NULL, st));
        if r \<noteq> NULL then kill_bb b st1
        else
          (case parents (bbs st1 b) of
             [] \<Rightarrow> Some st1
           | p # ps \<Rightarrow>
               if (\<exists>q \<in> set ps. q \<noteq> p) \<or> p = b \<or> (\<exists>c \<in> set (children (bbs st1 p)). c \<noteq> b) then Some st1
               else merge_into_parent b p st1) })"

fun pack_bbs :: "addr list \<Rightarrow> lin \<Rightarrow> lin option" where
  "pack_bbs [] st = Some st"
| "pack_bbs (b # bs) st = (case pack_bb b st of None \<Rightarrow> None | Some st1 \<Rightarrow> pack_bbs bs st1)"

definition pack_basic_blocks :: "entrypoint \<Rightarrow> lin \<Rightarrow> lin option" where
  "pack_basic_blocks ep st = pack_bbs (ep_bbs ep) st"

section \<open>The checks on the graph\<close>

text \<open>Each returns whether the assertions in it hold.\<close>

definition vrfy_bb_in_list :: "addr \<Rightarrow> addr list \<Rightarrow> bool" where
  "vrfy_bb_in_list b l = (b \<noteq> NULL \<longrightarrow> b \<in> set l)"

definition vrfy_parents :: "addr \<Rightarrow> lin \<Rightarrow> bool" where
  "vrfy_parents b st = (\<forall>p \<in> set (parents (bbs st b)). vrfy_bb_in_list b (children (bbs st p)))"

definition vrfy_children :: "addr \<Rightarrow> lin \<Rightarrow> bool" where
  "vrfy_children b st =
     (let br = last_instruction b st; x = insns st br; cs = children (bbs st b) in
      if br = NULL then cs = []
      else
        (if opcode x = OP_BR then vrfy_bb_in_list (bb_true x) cs \<and> vrfy_bb_in_list (bb_false x) cs
         else if opcode x \<in> {OP_SWITCH, OP_COMPUTEDGOTO}
         then \<forall>j \<in> set (multijmps x). vrfy_bb_in_list (jmp_target j) cs
         else True)
        \<and> (\<forall>c \<in> set cs. vrfy_bb_in_list b (parents (bbs st c))))"

definition vrfy_bb_flow :: "addr \<Rightarrow> lin \<Rightarrow> bool" where
  "vrfy_bb_flow b st = (vrfy_children b st \<and> vrfy_parents b st)"

definition vrfy_flow :: "entrypoint \<Rightarrow> lin \<Rightarrow> bool" where
  "vrfy_flow ep st =
     (let e = i_bb (insns st (ep_entry ep))
      in (\<forall>b \<in> set (ep_bbs ep). vrfy_bb_flow b st) \<and> (e \<noteq> NULL \<longrightarrow> e \<in> set (ep_bbs ep)))"

end
