(* ===== verification/Layout.thy ===== *)
theory Layout
  imports Expand
begin

text \<open>
  Sizes and alignments of types (first half of \<open>symbol.c\<close>, \<open>target.c\<close>): \<open>examine_symbol_type\<close>
  fills them in once per symbol, laying out structures and unions on the way. Sizes in the layout
  are \<open>unsigned long\<close> (64 bits), \<open>bit_size\<close> of a symbol is an \<open>int\<close>.
\<close>

section \<open>Target and state\<close>

record target =
  t_max_alignment :: int
  bits_in_bool :: int
  t_bits_in_char :: int
  bits_in_short :: int
  bits_in_int :: int
  bits_in_long :: int
  bits_in_longlong :: int
  bits_in_longlonglong :: int
  max_int_alignment :: int
  bits_in_float :: int
  bits_in_double :: int
  bits_in_longdouble :: int
  max_fp_alignment :: int
  bits_in_pointer :: int
  pointer_alignment :: int
  bits_in_enum :: int
  enum_alignment :: int

definition default_target :: target where
  "default_target = \<lparr>t_max_alignment = 16, bits_in_bool = 1, t_bits_in_char = 8, bits_in_short = 16,
     bits_in_int = 32, bits_in_long = 32, bits_in_longlong = 64, bits_in_longlonglong = 128,
     max_int_alignment = 4, bits_in_float = 32, bits_in_double = 64, bits_in_longdouble = 80,
     max_fp_alignment = 8, bits_in_pointer = 32, pointer_alignment = 4, bits_in_enum = 32,
     enum_alignment = 4\<rparr>"

datatype lwarn =
    Vla_used | Impossible_width int | Typeof_bitfield | Ctype_on_preprocessor | Ctype_on_uninitialized
  | Unknown_symbol_type sym_type | Emsg string

text \<open>
  \<open>lx\<close> is the state of the front end; \<open>evaluate_expression\<close> (\<open>evaluate.c\<close>) is the
  argument \<open>ev\<close> of the functions that call it: it gives the type and the evaluated expression.
  The marks \<open>examined\<close> and \<open>evaluated\<close> say which symbols \<open>examine_symbol_type\<close> and \<open>evaluate_symbol\<close>
  have been called for. \<open>Emsg\<close> is a message of \<open>evaluate.c\<close>, and \<open>used_syms\<close> its \<open>translation_unit_used_list\<close>.
\<close>

record lstate =
  lx :: xstate
  examined :: "symref \<Rightarrow> bool"
  evaluated :: "symref \<Rightarrow> bool"
  restr :: "symref ptr_list"
  fouled :: "symref ptr_list"
  n_syms :: nat
  used_syms :: "symref ptr_list"
  lwarns :: "lwarn list"

type_synonym evaluate_e = "expression \<Rightarrow> lstate \<Rightarrow> (symref option \<times> expression \<times> lstate) option"
type_synonym examine_t = "symref option \<Rightarrow> lstate \<Rightarrow> (symref option \<times> lstate) option"

abbreviation ltab :: "lstate \<Rightarrow> symtab" where
  "ltab st \<equiv> syms (lx st)"

definition lwarn :: "lwarn \<Rightarrow> lstate \<Rightarrow> lstate" where
  "lwarn w st = st\<lparr>lwarns := lwarns st @ [w]\<rparr>"

definition upd :: "symref \<Rightarrow> (symbol \<Rightarrow> symbol) \<Rightarrow> lstate \<Rightarrow> lstate" where
  "upd s f st = st\<lparr>lx := (lx st)\<lparr>syms := (ltab st)(s := f (ltab st s))\<rparr>\<rparr>"

definition upd_ctype :: "symref \<Rightarrow> (ctype \<Rightarrow> ctype) \<Rightarrow> lstate \<Rightarrow> lstate" where
  "upd_ctype s f = upd s (\<lambda>x. x\<lparr>s_ctype := f (s_ctype x)\<rparr>)"

abbreviation align_of :: "lstate \<Rightarrow> symref \<Rightarrow> u64" where
  "align_of st s \<equiv> alignment (s_ctype (ltab st s))"

text \<open>\<open>x->ctype.alignment = x->ctype.alignment ? : a\<close>.\<close>

definition default_alignment :: "symref \<Rightarrow> u64 \<Rightarrow> lstate \<Rightarrow> lstate" where
  "default_alignment s a st =
     (if align_of st s = 0 then upd_ctype s (\<lambda>c. c\<lparr>alignment := a\<rparr>) st else st)"

text \<open>An \<open>unsigned long\<close> passed or stored as an \<open>int\<close>.\<close>

definition to_int :: "u64 \<Rightarrow> int" where
  "to_int w = sint (ucast w :: 32 word)"

section \<open>Structures and unions\<close>

record layout_info =
  max_align :: u64
  total_bits :: u64
  align_size :: bool

definition is_bitfield_type :: "symtab \<Rightarrow> symref \<Rightarrow> bool" where
  "is_bitfield_type tab s = (get_sym_type tab s = SYM_BITFIELD)"

text \<open>Unnamed bitfields do not affect the alignment.\<close>

definition note_alignment :: "symref \<Rightarrow> lstate \<Rightarrow> layout_info \<Rightarrow> layout_info" where
  "note_alignment s st i =
     (if (ident (ltab st s) \<noteq> None \<or> \<not> is_bitfield_type (ltab st) s) \<and> align_of st s > max_align i
      then i\<lparr>max_align := align_of st s\<rparr> else i)"

definition lay_out_union :: "examine_t \<Rightarrow> symref \<Rightarrow> layout_info \<Rightarrow> lstate \<Rightarrow> (layout_info \<times> lstate) option" where
  "lay_out_union ex s i st = do {
     (r, st1) \<leftarrow> ex (Some s) st;
     let i1 = note_alignment s st1 i;
     let sz = (word_of_int (bit_size (ltab st1 s)) :: u64);
     let i2 = (if sz > total_bits i1 then i1\<lparr>total_bits := sz\<rparr> else i1);
     Some (i2, upd s (\<lambda>x. x\<lparr>s_offset := 0\<rparr>) st1) }"

definition bitfield_unit :: "symtab \<Rightarrow> symref \<Rightarrow> symref" where
  "bitfield_unit tab s =
     (let n = node_base tab s
      in if sym_type (tab n) = SYM_BITFIELD then (case base_of tab n of Some b \<Rightarrow> b | None \<Rightarrow> n) else n)"

definition bitfield_base_size :: "symtab \<Rightarrow> symref \<Rightarrow> int" where
  "bitfield_base_size tab s = bit_size (tab (bitfield_unit tab s))"

text \<open>\<open>bytes_to_bits(alignment) - 1\<close>: the product is an \<open>int\<close>.\<close>

definition align_mask :: "int \<Rightarrow> u64 \<Rightarrow> u64" where
  "align_mask bic a = word_of_int (bytes_to_bits bic (to_int a)) - 1"

definition round_up :: "u64 \<Rightarrow> u64 \<Rightarrow> u64" where
  "round_up x msk = and (x + msk) (not msk)"

text \<open>
  Where a bitfield of \<open>size\<close> bits goes when \<open>bits\<close> are used: the offset of its unit in bits, the
  offset in the unit and the bits used after it. \<open>base\<close> is the size of the declared type. A field
  that does not fit in the rest of the unit starts a new one; a field of width 0 fills the unit up.
\<close>

definition place_bitfield :: "u64 \<Rightarrow> int \<Rightarrow> int \<Rightarrow> u64 \<Rightarrow> u64 \<times> u64 \<times> u64" where
  "place_bitfield msk base width bits =
     (let off = and bits msk;
          room = to_int (word_of_int base - off);
          w = (if width \<noteq> 0 then width else if off \<noteq> 0 then room else 0);
          (bits1, off1) = (if w > room then (round_up bits msk, 0) else (bits, off))
      in (bits1 - off1, off1, bits1 + word_of_int w))"

definition lay_out_struct ::
    "target \<Rightarrow> examine_t \<Rightarrow> symref \<Rightarrow> layout_info \<Rightarrow> lstate \<Rightarrow> (layout_info \<times> lstate) option" where
  "lay_out_struct tg ex s i st = do {
     (r, st1) \<leftarrow> ex (Some s) st;
     let i1 = note_alignment s st1 i;
     let bic = t_bits_in_char tg;
     let size0 = bit_size (ltab st1 s);
     let (i2, base_size) = (if size0 < 0 then (i1\<lparr>align_size := False\<rparr>, 0) else (i1, size0));
     let msk = align_mask bic (align_of st1 s);
     if is_bitfield_type (ltab st1) s then
       (let (unit, off, bits) = place_bitfield msk (bitfield_base_size (ltab st1) s) base_size (total_bits i2);
            st2 = upd s (\<lambda>x. x\<lparr>s_offset := word_of_int (bits_to_bytes bic (to_int unit)),
                               bit_offset := unat off mod 256\<rparr>) st1
        in case base_of (ltab st2) s of
             None \<Rightarrow> None
           | Some b \<Rightarrow> Some (i2\<lparr>total_bits := bits\<rparr>, upd b (\<lambda>x. x\<lparr>bit_offset := unat off mod 256\<rparr>) st2))
     else
       (let bits = round_up (total_bits i2) msk
        in Some (i2\<lparr>total_bits := bits + word_of_int base_size\<rparr>,
                 upd s (\<lambda>x. x\<lparr>s_offset := word_of_int (bits_to_bytes bic (to_int bits))\<rparr>) st1)) }"

fun lay_out_members ::
    "(symref \<Rightarrow> layout_info \<Rightarrow> lstate \<Rightarrow> (layout_info \<times> lstate) option) \<Rightarrow> symref list \<Rightarrow> layout_info \<Rightarrow> lstate
     \<Rightarrow> (layout_info \<times> lstate) option" where
  "lay_out_members lay [] i st = Some (i, st)"
| "lay_out_members lay (m # ms) i st = do { (i1, st1) \<leftarrow> lay m i st; lay_out_members lay ms i1 st1 }"

definition examine_struct_union_type ::
    "target \<Rightarrow> examine_t \<Rightarrow> symref \<Rightarrow> bool \<Rightarrow> lstate \<Rightarrow> lstate option" where
  "examine_struct_union_type tg ex s advance st = do {
     (i, st1) \<leftarrow> lay_out_members (if advance then lay_out_struct tg ex else lay_out_union ex)
       (symbol_list (ltab st s)) \<lparr>max_align = 1, total_bits = 0, align_size = True\<rparr> st;
     let st2 = default_alignment s (max_align i) st1;
     let bits = (if align_size i
                 then round_up (total_bits i) (align_mask (t_bits_in_char tg) (align_of st2 s))
                 else total_bits i);
     Some (upd s (\<lambda>x. x\<lparr>bit_size := to_int bits\<rparr>) st2) }"

section \<open>Derived types\<close>

abbreviation (input) "MOD_STORAGE \<equiv>
  or (or (or MOD_AUTO MOD_REGISTER) (or MOD_STATIC MOD_EXTERN)) (or MOD_INLINE MOD_TOPLEVEL)"
abbreviation (input) "MOD_SIGNEDNESS \<equiv> or (or MOD_SIGNED MOD_UNSIGNED) MOD_EXPLICITLY_SIGNED"
abbreviation (input) "MOD_PTRINHERIT \<equiv>
  or (or (or MOD_VOLATILE MOD_CONST) MOD_NODEREF) (or MOD_STORAGE MOD_NORETURN)"

definition add_modifiers :: "u64 \<Rightarrow> ctype \<Rightarrow> ctype" where
  "add_modifiers m c = c\<lparr>modifiers := or (modifiers c) m\<rparr>"

definition examine_base_type :: "examine_t \<Rightarrow> symref \<Rightarrow> lstate \<Rightarrow> (symref option \<times> lstate) option" where
  "examine_base_type ex s st = do {
     (r, st1) \<leftarrow> ex (base_of (ltab st) s) st;
     case r of
       None \<Rightarrow> Some (None, st1)
     | Some b \<Rightarrow>
         if sym_type (ltab st1 b) = SYM_PTR then Some (Some b, st1)
         else
           (let bc = s_ctype (ltab st1 b);
                st2 = upd_ctype s (\<lambda>c. (add_modifiers (and (modifiers bc) MOD_PTRINHERIT) c)
                  \<lparr>address_space := or (address_space c) (address_space bc),
                   contexts := concat_ptr_list (contexts bc) (contexts c)\<rparr>) st1
            in if sym_type (ltab st2 b) = SYM_NODE
               then Some (base_of (ltab st2) b, upd_ctype s (\<lambda>c. c\<lparr>base_type := base_of (ltab st2) b\<rparr>) st2)
               else Some (Some b, st2)) }"

text \<open>\<open>get_expression_value_silent\<close>; \<open>ee\<close> is \<open>expand_expression\<close>.\<close>

definition get_expression_value_silent ::
    "evaluate_e \<Rightarrow> expand_e \<Rightarrow> expression \<Rightarrow> lstate \<Rightarrow> (u64 \<times> expression \<times> lstate) option" where
  "get_expression_value_silent ev ee e st = do {
     (ty, e1, st1) \<leftarrow> ev e st;
     (v, e2, x) \<leftarrow> get_expression_value_from ee 2 ty (Some e1) (lx st1);
     Some (v, (case e2 of None \<Rightarrow> e1 | Some e' \<Rightarrow> e'), st1\<lparr>lx := x\<rparr>) }"

definition examine_array_type ::
    "bool \<Rightarrow> evaluate_e \<Rightarrow> expand_e \<Rightarrow> examine_t \<Rightarrow> symref \<Rightarrow> lstate \<Rightarrow> lstate option" where
  "examine_array_type Wvla ev ee ex s st = do {
     (b, st1) \<leftarrow> examine_base_type ex s st;
     case b of
       None \<Rightarrow> Some st1
     | Some base \<Rightarrow> do {
         (bits, st2) \<leftarrow> (case array_size (ltab st1 s) of
             None \<Rightarrow> Some (-1, st1)
           | Some e \<Rightarrow> do {
               (v, e', st2) \<leftarrow> get_expression_value_silent ev ee e st1;
               let st3 = upd s (\<lambda>x. x\<lparr>array_size := Some e'\<rparr>) st2;
               Some (case e_node e' of
                   EXPR_VALUE w t \<Rightarrow> (word_of_int (bit_size (ltab st3 base)) * v, st3)
                 | _ \<Rightarrow> (-1, if Wvla then lwarn Vla_used st3 else st3)) });
         let st3 = default_alignment s (align_of st2 base) st2;
         Some (upd s (\<lambda>x. x\<lparr>bit_size := to_int bits\<rparr>) st3) } }"

definition examine_bitfield_type :: "examine_t \<Rightarrow> symref \<Rightarrow> lstate \<Rightarrow> lstate option" where
  "examine_bitfield_type ex s st = do {
     (b, st1) \<leftarrow> examine_base_type ex s st;
     Some (case b of
       None \<Rightarrow> st1
     | Some base \<Rightarrow>
         (let width = bit_size (ltab st1 s);
              st2 = (if (word_of_int width :: u64) > word_of_int (bit_size (ltab st1 base))
                     then lwarn (Impossible_width width) st1 else st1);
              st3 = default_alignment s (align_of st2 base) st2;
              m = mods (ltab st3) base;
              m1 = (if has_mod m MOD_EXPLICITLY_SIGNED then m else or (and m (not MOD_SIGNED)) MOD_UNSIGNED)
          in upd_ctype s (add_modifiers (and m1 MOD_SIGNEDNESS)) st3)) }"

text \<open>\<open>typeof\<close> and the like merge the types together; \<open>None\<close>: the chain of nodes does not end, or ends in a NULL.\<close>

partial_function (option) merge_type :: "symref \<Rightarrow> symref \<Rightarrow> lstate \<Rightarrow> lstate option" where
  "merge_type s base st =
     (let bc = s_ctype (ltab st base);
          st1 = upd_ctype s (\<lambda>c. (add_modifiers (and (modifiers bc) (not MOD_STORAGE)) c)
             \<lparr>address_space := or (address_space c) (address_space bc),
              contexts := concat_ptr_list (contexts bc) (contexts c), base_type := base_type bc\<rparr>) st
      in case base_type bc of
           None \<Rightarrow> None
         | Some b \<Rightarrow> if sym_type (ltab st1 b) = SYM_NODE then merge_type s b st1 else Some st1)"

text \<open>
  The number of elements of an array from its initialiser. A string has its terminating NUL in its
  length.
\<close>

fun count_entries :: "bool \<Rightarrow> expression list \<Rightarrow> nat \<times> u32 \<times> u32 \<Rightarrow> nat \<times> u32 \<times> u32" where
  "count_entries is_char [] (cnt, str_len, k) = (cnt, str_len, k)"
| "count_entries is_char (e # es) (cnt, str_len, k) =
     count_entries is_char es
       (case e_node e of
          EXPR_INDEX a b x \<Rightarrow> (Suc cnt, str_len, if b \<ge> k then b + 1 else k)
        | EXPR_STRING w t \<Rightarrow> (Suc cnt, if is_char then of_nat (length t + 1) else str_len, k + 1)
        | _ \<Rightarrow> (Suc cnt, str_len, k + 1))"

definition count_array_initializer :: "symtab \<Rightarrow> symref \<Rightarrow> expression \<Rightarrow> int" where
  "count_array_initializer tab t e =
     (let is_char = (base_of tab t = Some Int_type \<and> has_mod (mods tab t) MOD_CHAR)
      in sint (case e_node e of
           EXPR_INITIALIZER l \<Rightarrow>
             (let (cnt, str_len, k) = count_entries is_char (entries l) (0, 0, 0)
              in if cnt = 1 \<and> str_len \<noteq> 0 then str_len else k)
         | EXPR_STRING w s \<Rightarrow> if is_char then of_nat (length s + 1) else 0
         | _ \<Rightarrow> 0))"

definition examine_node_type :: "examine_t \<Rightarrow> symref \<Rightarrow> lstate \<Rightarrow> lstate option" where
  "examine_node_type ex s st = do {
     (b, st1) \<leftarrow> examine_base_type ex s st;
     case b of
       None \<Rightarrow> Some st1
     | Some base \<Rightarrow>
         (let st2 = upd_ctype s (add_modifiers (and MOD_SIGNEDNESS (mods (ltab st1) base))) st1;
              st3 = default_alignment s (align_of st2 base) st2;
              bits = bit_size (ltab st1 base)
          in case (if bits < 0 \<and> sym_type (ltab st3 base) = SYM_ARRAY then initializer (ltab st3 s) else None) of
               None \<Rightarrow> Some (upd s (\<lambda>x. x\<lparr>bit_size := bits\<rparr>) st3)
             | Some i \<Rightarrow>
                 (case base_of (ltab st3) base of
                    None \<Rightarrow> None
                  | Some elem \<Rightarrow>
                      (let cnt = count_array_initializer (ltab st3) elem i;
                           n = bit_size (ltab st3 elem)
                       in Some (upd s (\<lambda>x. x\<lparr>bit_size :=
                            if n \<ge> 0 then sint (word_of_int (n * cnt) :: 32 word) else bits\<rparr>) st3)))) }"

definition examine_enum_type :: "target \<Rightarrow> examine_t \<Rightarrow> symref \<Rightarrow> lstate \<Rightarrow> lstate option" where
  "examine_enum_type tg ex s st = do {
     (b, st1) \<leftarrow> examine_base_type ex s st;
     case b of
       None \<Rightarrow> None
     | Some base \<Rightarrow>
         (let st2 = upd_ctype s (add_modifiers (and (mods (ltab st1) base) MOD_SIGNEDNESS)) st1;
              st3 = upd s (\<lambda>x. x\<lparr>bit_size := max (bits_in_enum tg) (bit_size (ltab st2 base))\<rparr>) st2;
              a = (word_of_int (enum_alignment tg) :: u64);
              ba = align_of st3 base
          in Some (upd_ctype s (\<lambda>c. c\<lparr>alignment := if ba > a then ba else a\<rparr>) st3)) }"

definition examine_pointer_type :: "target \<Rightarrow> symref \<Rightarrow> lstate \<Rightarrow> lstate" where
  "examine_pointer_type tg s st =
     (let st1 = (if bit_size (ltab st s) = 0 then upd s (\<lambda>x. x\<lparr>bit_size := bits_in_pointer tg\<rparr>) st else st)
      in default_alignment s (word_of_int (pointer_alignment tg)) st1)"

text \<open>
  One level of \<open>examine_symbol_type\<close>; \<open>ex\<close> are its recursive calls. The symbol is marked before it
  is looked into, so that a type that contains a pointer to itself is examined once.
\<close>

definition examine_body ::
    "target \<Rightarrow> bool \<Rightarrow> evaluate_e \<Rightarrow> expand_e \<Rightarrow> examine_t \<Rightarrow> examine_t" where
  "examine_body tg Wvla ev ee ex so st0 =
     (case so of
        None \<Rightarrow> Some (None, st0)
      | Some s \<Rightarrow>
          if examined st0 s then Some (Some s, st0)
          else
            (let st = st0\<lparr>examined := (examined st0)(s := True)\<rparr>;
                 ret = map_option (\<lambda>st1. (Some s, st1))
             in case sym_type (ltab st s) of
                  SYM_FN \<Rightarrow> ret (examine_node_type ex s st)
                | SYM_NODE \<Rightarrow> ret (examine_node_type ex s st)
                | SYM_ARRAY \<Rightarrow> ret (examine_array_type Wvla ev ee ex s st)
                | SYM_STRUCT \<Rightarrow> ret (examine_struct_union_type tg ex s True st)
                | SYM_UNION \<Rightarrow> ret (examine_struct_union_type tg ex s False st)
                | SYM_PTR \<Rightarrow> Some (Some s, examine_pointer_type tg s st)
                | SYM_ENUM \<Rightarrow> ret (examine_enum_type tg ex s st)
                | SYM_BITFIELD \<Rightarrow> ret (examine_bitfield_type ex s st)
                | SYM_BASETYPE \<Rightarrow> Some (Some s, st)
                | SYM_TYPEOF \<Rightarrow>
                    (case initializer (ltab st s) of
                       None \<Rightarrow> Some (Some s, st)
                     | Some e \<Rightarrow> do {
                         (ty, e', st1) \<leftarrow> ev e st;
                         let st2 = upd s (\<lambda>x. x\<lparr>initializer := Some e'\<rparr>) st1;
                         case ty of
                           None \<Rightarrow> Some (Some s, st2)
                         | Some base \<Rightarrow>
                             (let st3 = (if is_bitfield_type (ltab st2) base then lwarn Typeof_bitfield st2 else st2);
                                  b = (if sym_type (ltab st3 base) = SYM_NODE then base_of (ltab st3) base else Some base);
                                  st4 = upd s (\<lambda>x. x\<lparr>sym_type := SYM_NODE\<rparr>) st3;
                                  st5 = upd_ctype s (\<lambda>c. c\<lparr>modifiers := 0, base_type := b\<rparr>) st4
                              in ret (examine_node_type ex s st5)) })
                | SYM_PREPROCESSOR \<Rightarrow> Some (None, lwarn Ctype_on_preprocessor st)
                | SYM_UNINITIALIZED \<Rightarrow> Some (None, lwarn Ctype_on_uninitialized st)
                | SYM_RESTRICT \<Rightarrow> do { (b, st1) \<leftarrow> examine_base_type ex s st; Some (Some s, st1) }
                | SYM_FOULED \<Rightarrow> do { (b, st1) \<leftarrow> examine_base_type ex s st; Some (Some s, st1) }
                | t \<Rightarrow> Some (Some s, lwarn (Unknown_symbol_type t) st)))"

text \<open>The recursion, \<open>n\<close> calls deep.\<close>

fun examine_symbol_type :: "target \<Rightarrow> bool \<Rightarrow> evaluate_e \<Rightarrow> expand_e \<Rightarrow> nat \<Rightarrow> examine_t" where
  "examine_symbol_type tg Wvla ev ee 0 so st = None"
| "examine_symbol_type tg Wvla ev ee (Suc n) so st =
     examine_body tg Wvla ev ee (examine_symbol_type tg Wvla ev ee n) so st"

definition examine_pointer_target :: "examine_t \<Rightarrow> symref \<Rightarrow> lstate \<Rightarrow> (symref option \<times> lstate) option" where
  "examine_pointer_target = examine_base_type"

definition get_type_name :: "sym_type \<Rightarrow> string" where
  "get_type_name t = (case t of
     SYM_UNINITIALIZED \<Rightarrow> ''uninitialized'' | SYM_PREPROCESSOR \<Rightarrow> ''preprocessor'' | SYM_BASETYPE \<Rightarrow> ''basetype''
   | SYM_NODE \<Rightarrow> ''node'' | SYM_PTR \<Rightarrow> ''pointer'' | SYM_FN \<Rightarrow> ''function'' | SYM_ARRAY \<Rightarrow> ''array''
   | SYM_STRUCT \<Rightarrow> ''struct'' | SYM_UNION \<Rightarrow> ''union'' | SYM_ENUM \<Rightarrow> ''enum'' | SYM_TYPEDEF \<Rightarrow> ''typedef''
   | SYM_TYPEOF \<Rightarrow> ''typeof'' | SYM_MEMBER \<Rightarrow> ''member'' | SYM_BITFIELD \<Rightarrow> ''bitfield'' | SYM_LABEL \<Rightarrow> ''label''
   | SYM_RESTRICT \<Rightarrow> ''restrict'' | SYM_FOULED \<Rightarrow> ''fouled'' | SYM_KEYWORD \<Rightarrow> ''keyword'' | SYM_BAD \<Rightarrow> ''bad'')"

section \<open>Restricted types smaller than an \<open>int\<close>\<close>

text \<open>
  The type a restricted type decays to when it is promoted: a copy of the size of \<open>int\<close>. The two
  lists are kept in step.
\<close>

definition create_fouled :: "target \<Rightarrow> symref \<Rightarrow> lstate \<Rightarrow> lstate" where
  "create_fouled tg ty st =
     (if bit_size (ltab st ty) < bits_in_int tg then
        (let new = Sym (n_syms st);
             st1 = st\<lparr>n_syms := Suc (n_syms st), examined := (examined st)(new := examined st ty),
                      evaluated := (evaluated st)(new := evaluated st ty)\<rparr>;
             st2 = upd new (\<lambda>x. (ltab st1 ty)\<lparr>bit_size := bits_in_int tg, sym_type := SYM_FOULED,
                     s_ctype := (s_ctype (ltab st1 ty))\<lparr>base_type := Some ty\<rparr>\<rparr>) st1
         in st2\<lparr>restr := add_ptr_list (restr st2) ty, fouled := add_ptr_list (fouled st2) new\<rparr>)
      else st)"

text \<open>The type under the nodes; \<open>None\<close>: a NULL on the way, or no end.\<close>

partial_function (option) strip_nodes :: "symtab \<Rightarrow> symref \<Rightarrow> symref option" where
  "strip_nodes tab ty =
     (if sym_type (tab ty) = SYM_NODE then (case base_of tab ty of None \<Rightarrow> None | Some b \<Rightarrow> strip_nodes tab b)
      else Some ty)"

fun find_pair :: "symref \<Rightarrow> symref list \<Rightarrow> symref list \<Rightarrow> symref option" where
  "find_pair ty (t1 # r) (t2 # f) = (if t1 = ty then Some t2 else find_pair ty r f)"
| "find_pair ty (t1 # r) [] = (if t1 = ty then None else find_pair ty r [])"
| "find_pair ty [] f = None"

definition befoul :: "symref \<Rightarrow> lstate \<Rightarrow> symref option option" where
  "befoul ty st = map_option (\<lambda>t. find_pair t (entries (restr st)) (entries (fouled st))) (strip_nodes (ltab st) ty)"

section \<open>The C types\<close>

text \<open>The rows of \<open>ctype_declaration\<close>: symbol, kind, modifiers, size, largest alignment, base type.\<close>

type_synonym ctype_declare = "symref \<times> sym_type \<times> u64 \<times> int option \<times> int option \<times> symref option"

abbreviation (input) "MOD_ESIGNED \<equiv> or MOD_SIGNED MOD_EXPLICITLY_SIGNED"
abbreviation (input) "MOD_LL \<equiv> or MOD_LONG MOD_LONGLONG"
abbreviation (input) "MOD_LLL \<equiv> MOD_LONGLONGLONG"

definition ctype_declaration :: "target \<Rightarrow> ctype_declare list" where
  "ctype_declaration tg =
     (let row = (\<lambda>s m b. (s, SYM_BASETYPE, m, Some b, Some (max_int_alignment tg), Some Int_type));
          nothing = (\<lambda>s m. (s, SYM_BASETYPE, m, None, None, None));
          fprow = (\<lambda>s m b. (s, SYM_BASETYPE, m, Some b, Some (max_fp_alignment tg), Some Fp_type));
          ptr = (\<lambda>s t. (s, SYM_PTR, 0, Some (bits_in_pointer tg), Some (pointer_alignment tg), Some t))
      in [row Bool_ctype MOD_UNSIGNED (bits_in_bool tg), nothing Void_ctype 0, nothing Type_ctype MOD_TYPE,
          nothing Incomplete_ctype 0, nothing Bad_ctype 0,
          row Char_ctype (or MOD_SIGNED MOD_CHAR) (t_bits_in_char tg),
          row Schar_ctype (or MOD_ESIGNED MOD_CHAR) (t_bits_in_char tg),
          row Uchar_ctype (or MOD_UNSIGNED MOD_CHAR) (t_bits_in_char tg),
          row Short_ctype (or MOD_SIGNED MOD_SHORT) (bits_in_short tg),
          row Sshort_ctype (or MOD_ESIGNED MOD_SHORT) (bits_in_short tg),
          row Ushort_ctype (or MOD_UNSIGNED MOD_SHORT) (bits_in_short tg),
          row Int_ctype MOD_SIGNED (bits_in_int tg), row Sint_ctype MOD_ESIGNED (bits_in_int tg),
          row Uint_ctype MOD_UNSIGNED (bits_in_int tg),
          row Long_ctype (or MOD_SIGNED MOD_LONG) (bits_in_long tg),
          row Slong_ctype (or MOD_ESIGNED MOD_LONG) (bits_in_long tg),
          row Ulong_ctype (or MOD_UNSIGNED MOD_LONG) (bits_in_long tg),
          row Llong_ctype (or MOD_SIGNED MOD_LL) (bits_in_longlong tg),
          row Sllong_ctype (or MOD_ESIGNED MOD_LL) (bits_in_longlong tg),
          row Ullong_ctype (or MOD_UNSIGNED MOD_LL) (bits_in_longlong tg),
          row Lllong_ctype (or MOD_SIGNED MOD_LLL) (bits_in_longlonglong tg),
          row Slllong_ctype (or MOD_ESIGNED MOD_LLL) (bits_in_longlonglong tg),
          row Ulllong_ctype (or MOD_UNSIGNED MOD_LLL) (bits_in_longlonglong tg),
          fprow Float_ctype 0 (bits_in_float tg), fprow Double_ctype MOD_LONG (bits_in_double tg),
          fprow Ldouble_ctype (or MOD_LONG MOD_LONGLONG) (bits_in_longdouble tg),
          ptr String_ctype Char_ctype, ptr Ptr_ctype Void_ctype, ptr Null_ctype Void_ctype,
          ptr Label_ctype Void_ctype, ptr Lazy_ptr_ctype Void_ctype])"

text \<open>A type without a size has size -1 and, as \<open>maxalign\<close> is 0, alignment 0.\<close>

definition init_one :: "target \<Rightarrow> ctype_declare \<Rightarrow> symtab \<Rightarrow> symtab" where
  "init_one tg row tab =
     (case row of (s, t, m, bits, maxalign, bt) \<Rightarrow>
        (let b = (case bits of Some k \<Rightarrow> word_of_int k | None \<Rightarrow> (-1 :: u64));
             mx = (case maxalign of Some k \<Rightarrow> word_of_int k | None \<Rightarrow> (0 :: u64));
             bic = t_bits_in_char tg;
             a = (word_of_int (bits_to_bytes bic (to_int (b + word_of_int bic - 1))) :: u64);
             c = (s_ctype (tab s))\<lparr>modifiers := m, alignment := (if a > mx then mx else a), base_type := bt\<rparr>
         in tab(s := (tab s)\<lparr>sym_type := t, bit_size := to_int b, s_ctype := c\<rparr>)))"

definition init_ctype :: "target \<Rightarrow> symtab \<Rightarrow> symtab" where
  "init_ctype tg tab = fold (init_one tg) (ctype_declaration tg) tab"

end
