(* ===== verification/Memops.thy ===== *)
theory Memops
  imports Flow Layout
begin

text \<open>
  Memory accesses (the second third of \<open>flow.c\<close>, and \<open>memops.c\<close>): a load is replaced by the value
  that was stored or loaded before it, or becomes a phi node of the values on the ways to it; a
  store that is overwritten before it can be seen is killed.

  Two pseudos are never taken to be aliases when one of them is a symbol. The walks over the graph
  mark the blocks they have seen; their recursion gets the number of blocks as its depth.
\<close>

section \<open>Which access decides\<close>

text \<open>\<open>bytes_to_bits(insn->offset)\<close>, as an \<open>unsigned int\<close>.\<close>

definition offset_bits :: "insn \<Rightarrow> u32" where
  "offset_bits x = word_of_int (bytes_to_bits (t_bits_in_char default_target) (sint (i_offset x)))"

definition overlapping_memop :: "insn \<Rightarrow> insn \<Rightarrow> bool" where
  "overlapping_memop a b =
     (let a_start = offset_bits a; b_start = offset_bits b;
          a_size = (of_nat (i_size a) :: u32); b_size = (of_nat (i_size b) :: u32)
      in \<not> (a_size + a_start \<le> b_start) \<and> \<not> (b_size + b_start \<le> a_start))"

definition same_memop :: "insn \<Rightarrow> insn \<Rightarrow> bool" where
  "same_memop a b = (i_offset a = i_offset b \<and> i_size a = i_size b)"

text \<open>1: \<open>dom\<close> dominates the access of \<open>i\<close> to \<open>p\<close>; 0: it does not; -1: not known.\<close>

definition dominates :: "addr \<Rightarrow> addr \<Rightarrow> addr \<Rightarrow> bool \<Rightarrow> lin \<Rightarrow> int" where
  "dominates p i dm is_local st =
     (let x = insns st i; d = insns st dm in
      if opcode d \<in> {OP_CALL, OP_ENTRY} then (if is_local then 0 else -1)
      else if opcode d \<noteq> OP_LOAD \<and> opcode d \<noteq> OP_STORE then 0
      else if src1 d \<noteq> p then
        (if is_local then 0 else if ptype st (src1 d) = PSEUDO_SYM then 0 else -1)
      else if \<not> same_memop x d then
        (if opcode d = OP_LOAD then 0 else if \<not> overlapping_memop x d then 0 else -1)
      else 1)"

text \<open>Going back through a block: the first access that decides.\<close>

datatype scan = Not_here | Unknown | Found addr

fun scan_back :: "addr \<Rightarrow> addr \<Rightarrow> bool \<Rightarrow> bool \<Rightarrow> lin \<Rightarrow> addr list \<Rightarrow> scan" where
  "scan_back p i is_local loads st [] = Not_here"
| "scan_back p i is_local loads st (one # rest) =
     (let d = dominates p i one is_local st; is_load = (opcode (insns st one) = OP_LOAD) in
      if one = i then Not_here
      else if d < 0 then (if is_load then scan_back p i is_local loads st rest else Unknown)
      else if d = 0 \<or> (is_load \<and> \<not> loads) then scan_back p i is_local loads st rest
      else Found one)"

definition set_ident :: "addr \<Rightarrow> string option \<Rightarrow> lin \<Rightarrow> lin" where
  "set_ident p n = upd_pseudo p (\<lambda>x. x\<lparr>p_ident := if p_ident x \<noteq> None then p_ident x else n\<rparr>)"

text \<open>A phi source in front of the branch that ends the parent, used by \<open>i\<close>.\<close>

definition add_dominator :: "addr \<Rightarrow> addr \<Rightarrow> addr \<Rightarrow> string option \<Rightarrow> lin \<Rightarrow> addr \<times> lin" where
  "add_dominator i parent one name st =
     (let (br, st1) = delete_last_instruction parent st;
          (phi, st2) = alloc_phi parent (i_target (insns st1 one)) (i_size (insns st1 one)) st1;
          st3 = add_instruction parent br (set_ident phi name st2);
          (c, st4) = new_cell phi st3
      in (c, use_pseudo i phi (Cell c) st4))"

text \<open>
  The recursion of \<open>find_dominating_parents\<close> and \<open>find_dominating_parents_mem\<close>; the former is
  \<open>entry_ends\<close>: a block without parents is the entry, where only a local variable has no value yet.
  The result: whether all ways are covered, and the entries of the list of dominators.
\<close>

type_synonym find_parents = "addr \<Rightarrow> bool \<Rightarrow> addr list \<Rightarrow> lin \<Rightarrow> (bool \<times> addr list \<times> lin) option"

fun each_parent ::
    "find_parents \<Rightarrow> bool \<Rightarrow> addr \<Rightarrow> addr \<Rightarrow> nat \<Rightarrow> bool \<Rightarrow> bool \<Rightarrow> addr list \<Rightarrow> addr list \<Rightarrow> lin
     \<Rightarrow> (bool \<times> addr list \<times> lin) option" where
  "each_parent walk entry_ends p i g is_local loads [] doms st = Some (True, doms, st)"
| "each_parent walk entry_ends p i g is_local loads (b # bs) doms st =
     (let next = each_parent walk entry_ends p i g is_local loads bs in
      case scan_back p i is_local loads st (rev (b_insns (bbs st b))) of
        Unknown \<Rightarrow> Some (False, doms, st)
      | Found one \<Rightarrow>
          (let name = p_ident (pseudos st (if entry_ends then p else i_target (insns st one)));
               (c, st1) = add_dominator i b one name st
           in next (doms @ [c]) st1)
      | Not_here \<Rightarrow>
          if generation (bbs st b) = g then next doms st
          else
            (case walk b loads doms (mark g b st) of
               None \<Rightarrow> None
             | Some (ok, doms1, st1) \<Rightarrow> if ok then next doms1 st1 else Some (False, doms1, st1)))"

fun find_dominating_parents :: "nat \<Rightarrow> bool \<Rightarrow> addr \<Rightarrow> addr \<Rightarrow> nat \<Rightarrow> bool \<Rightarrow> find_parents" where
  "find_dominating_parents 0 entry_ends p i g is_local b loads doms st = None"
| "find_dominating_parents (Suc n) entry_ends p i g is_local b loads doms st =
     (let ps = parents (bbs st b) in
      if entry_ends \<and> ps = [] then Some (is_local, doms, st)
      else each_parent (find_dominating_parents n entry_ends p i g is_local) entry_ends p i g is_local
             (loads \<and> length ps \<le> 1) ps doms st)"

text \<open>Whether all dominators have one value; \<open>new\<close> gets a name on the way.\<close>

fun same_sources :: "addr \<Rightarrow> addr list \<Rightarrow> lin \<Rightarrow> bool \<times> lin" where
  "same_sources new [] st = (True, st)"
| "same_sources new (c # cs) st =
     (let phi = cells st c in
      if new \<noteq> src1 (insns st (p_def (pseudos st phi))) then (False, st)
      else same_sources new cs (set_ident new (p_ident (pseudos st phi)) st))"

definition rewrite_load_instruction :: "addr \<Rightarrow> addr list \<Rightarrow> lin \<Rightarrow> lin option" where
  "rewrite_load_instruction i doms st =
     (let new = src1 (insns st (p_def (pseudos st (cells st (hd doms)))));
          (same, st1) = same_sources new doms st
      in if same then
           convert_load_instruction i new
             (fold (\<lambda>c st. set_insn_bb (p_def (pseudos st (cells st c))) NULL st) doms st1)
         else do {
           st2 \<leftarrow> (if ptype st1 (src1 (insns st1 i)) \<noteq> PSEUDO_SYM then kill_use (Src1 i) st1 else Some st1);
           Some (upd_insn i (\<lambda>x. x\<lparr>opcode := OP_PHI, phi_list := doms\<rparr>) st2) })"

section \<open>Accesses outside of an object\<close>

definition check_access :: "addr \<Rightarrow> lin \<Rightarrow> lin" where
  "check_access i st =
     (let x = insns st i; p = src1 x in
      if i_bb x \<noteq> NULL \<and> ptype st p = PSEUDO_SYM then
        (let bic = t_bits_in_char default_target; off = sint (i_offset x);
             last_bit = bytes_to_bits bic off + int (i_size x); s = ltypes st (p_sym (pseudos st p)) in
         if bit_size s > 0 \<and> (off < 0 \<or> last_bit > bit_size s)
         then lmsg (Invalid_access (off < 0) (ident s) off (bits_to_bytes bic (bit_size s))) st
         else st)
      else st)"

section \<open>The accesses to one symbol\<close>

text \<open>
  Going forward through the block of the load: the last access that decides, and whether something
  unknown came after it. \<open>None\<close>: the load is not in its block.
\<close>

fun scan_forward :: "addr \<Rightarrow> addr \<Rightarrow> bool \<Rightarrow> lin \<Rightarrow> addr list \<Rightarrow> addr \<Rightarrow> bool \<Rightarrow> (addr \<times> bool) option" where
  "scan_forward p i is_local st [] dm part = None"
| "scan_forward p i is_local st (one # rest) dm part =
     (let d = dominates p i one is_local st in
      if one = i then Some (dm, part)
      else if d < 0 then
        (if opcode (insns st one) = OP_LOAD then scan_forward p i is_local st rest dm part
         else scan_forward p i is_local st rest NULL True)
      else if d = 0 then scan_forward p i is_local st rest dm part
      else scan_forward p i is_local st rest one False)"

definition find_dominating_stores :: "addr \<Rightarrow> addr \<Rightarrow> nat \<Rightarrow> bool \<Rightarrow> lin \<Rightarrow> (bool \<times> lin) option" where
  "find_dominating_stores p i g is_local st =
     (let b = i_bb (insns st i) in
      if b = NULL then Some (True, upd_insn i (\<lambda>x. x\<lparr>opcode := OP_LNOP\<rparr>) st)
      else
        (case scan_forward p i is_local st (b_insns (bbs st b)) NULL False of
           None \<Rightarrow> Some (False, lmsg Unable_to_find_read st)
         | Some (dm, part) \<Rightarrow>
             if part then Some (False, st)
             else if dm \<noteq> NULL then
               map_option (\<lambda>st1. (True, st1)) (convert_load_instruction i (i_target (insns st dm)) st)
             else do {
               (ok, doms, st1) \<leftarrow> find_dominating_parents (Suc (n_bbs st)) True p i g is_local b True [] (mark g b st);
               if \<not> ok then Some (False, st1)
               else if doms = [] then
                 (if \<not> is_local then Some (False, st1)
                  else
                    (let (z, st2) = value_pseudo 0 (check_access i st1)
                     in map_option (\<lambda>st3. (True, st3)) (convert_load_instruction i z st2)))
               else map_option (\<lambda>st2. (True, st2)) (rewrite_load_instruction i doms st1) }))"

definition kill_store :: "addr \<Rightarrow> lin \<Rightarrow> lin option" where
  "kill_store i st =
     (if i \<noteq> NULL then kill_use (Target i) (upd_insn i (\<lambda>x. x\<lparr>i_bb := NULL, opcode := OP_SNOP\<rparr>) st) else Some st)"

text \<open>The part of \<open>kill_dead_stores\<close> within a block; whether to go on to the parents.\<close>

fun dead_stores_back :: "addr \<Rightarrow> bool \<Rightarrow> addr list \<Rightarrow> lin \<Rightarrow> (bool \<times> lin) option" where
  "dead_stores_back p is_local [] st = Some (True, st)"
| "dead_stores_back p is_local (i # rest) st =
     (let x = insns st i; next = dead_stores_back p is_local rest in
      if opcode x \<noteq> OP_LOAD \<and> opcode x \<noteq> OP_STORE then
        (if \<not> is_local \<and> opcode x = OP_CALL then Some (False, st) else next st)
      else if src1 x = p then
        (if opcode x = OP_LOAD then Some (False, st)
         else (case kill_store i st of None \<Rightarrow> None | Some st1 \<Rightarrow> next st1))
      else if is_local then next st
      else if ptype st (src1 x) \<noteq> PSEUDO_SYM then Some (False, st)
      else next st)"

text \<open>
  On to the parents, until one of them has another child; \<open>f\<close> goes on. The result says whether the
  loop came to its end.
\<close>

fun only_parents :: "(addr \<Rightarrow> lin \<Rightarrow> lin option) \<Rightarrow> addr \<Rightarrow> addr list \<Rightarrow> lin \<Rightarrow> lin option" where
  "only_parents f b [] st = Some st"
| "only_parents f b (p # ps) st =
     (if \<exists>c \<in> set (children (bbs st p)). c \<noteq> NULL \<and> c \<noteq> b then Some st
      else (case f p st of None \<Rightarrow> None | Some st1 \<Rightarrow> only_parents f b ps st1))"

fun kill_dead_stores :: "nat \<Rightarrow> addr \<Rightarrow> nat \<Rightarrow> bool \<Rightarrow> addr \<Rightarrow> lin \<Rightarrow> lin option" where
  "kill_dead_stores 0 p g is_local b st = None"
| "kill_dead_stores (Suc n) p g is_local b st =
     (if generation (bbs st b) = g then Some st
      else
        (case dead_stores_back p is_local (rev (b_insns (bbs st b))) (mark g b st) of
           None \<Rightarrow> None
         | Some (go_on, st1) \<Rightarrow>
             if go_on then only_parents (kill_dead_stores n p g is_local) b (parents (bbs st1 b)) st1
             else Some st1))"

text \<open>The part of \<open>kill_dominated_stores\<close> within a block: whether to go on, and whether \<open>i\<close> was found.\<close>

fun dominated_back :: "addr \<Rightarrow> addr \<Rightarrow> bool \<Rightarrow> bool \<Rightarrow> addr list \<Rightarrow> lin \<Rightarrow> (bool \<times> bool \<times> lin) option" where
  "dominated_back p i is_local found [] st = Some (True, found, st)"
| "dominated_back p i is_local found (one # rest) st =
     (if \<not> found then dominated_back p i is_local (one = i) rest st
      else
        (let d = dominates p i one is_local st in
         if d = 0 then dominated_back p i is_local found rest st
         else if d < 0 \<or> opcode (insns st one) = OP_LOAD then Some (False, found, st)
         else
           (case kill_store one st of
              None \<Rightarrow> None
            | Some st1 \<Rightarrow> dominated_back p i is_local found rest st1)))"

fun kill_dominated_stores :: "nat \<Rightarrow> addr \<Rightarrow> addr \<Rightarrow> nat \<Rightarrow> bool \<Rightarrow> bool \<Rightarrow> addr \<Rightarrow> lin \<Rightarrow> lin option" where
  "kill_dominated_stores 0 p i g is_local found b st = None"
| "kill_dominated_stores (Suc n) p i g is_local found b st =
     (if b = NULL then kill_store i st
      else if generation (bbs st b) = g then Some st
      else
        (case dominated_back p i is_local found (rev (b_insns (bbs st b))) (mark g b st) of
           None \<Rightarrow> None
         | Some (go_on, found1, st1) \<Rightarrow>
             if \<not> go_on then Some st1
             else if \<not> found1 then Some (lmsg Unable_to_find_insn st1)
             else only_parents (kill_dominated_stores n p i g is_local found1) b (parents (bbs st1 b)) st1))"

abbreviation (input) MOD_NONLOCAL :: u64 where "MOD_NONLOCAL \<equiv> or MOD_EXTERN MOD_TOPLEVEL"

text \<open>
  The uses of a symbol, which are all the \<open>src\<close> of their instructions: the number of stores, one of
  them, the offsets put together, and the state, or \<open>None\<close> when its address is taken.
\<close>

fun scan_uses :: "symref \<Rightarrow> pseudo_user list \<Rightarrow> nat \<Rightarrow> addr \<Rightarrow> u32 \<Rightarrow> lin \<Rightarrow> lin \<times> (nat \<times> addr \<times> u32) option" where
  "scan_uses s [] stores def complex st = (st, Some (stores, def, complex))"
| "scan_uses s (u # us) stores def complex st =
     (let i = u_insn u; x = insns st i; op = opcode x; c = or complex (i_offset x) in
      if op = OP_STORE then scan_uses s us (Suc stores) i c st
      else if op = OP_LOAD then scan_uses s us stores def c st
      else if op = OP_SYMADDR then
        (if i_bb x = NULL then scan_uses s us stores def complex st else (st, None))
      else if op \<in> {OP_NOP, OP_SNOP, OP_LNOP, OP_PHI} then scan_uses s us stores def complex st
      else scan_uses s us stores def c (lmsg (Unexpected_use (ident (ltypes st s))) st))"

text \<open>One store at most: every load becomes the value stored.\<close>

fun convert_loads :: "pseudo_user list \<Rightarrow> addr \<Rightarrow> lin \<Rightarrow> lin option" where
  "convert_loads [] src st = Some st"
| "convert_loads (u # us) src st =
     (let i = u_insn u in
      if opcode (insns st i) = OP_LOAD then
        (case convert_load_instruction i src (check_access i st) of
           None \<Rightarrow> None
         | Some st1 \<Rightarrow> convert_loads us src st1)
      else convert_loads us src st)"

fun resolve_loads :: "addr \<Rightarrow> bool \<Rightarrow> pseudo_user list \<Rightarrow> bool \<Rightarrow> lin \<Rightarrow> (bool \<times> lin) option" where
  "resolve_loads p is_local [] all_done st = Some (all_done, st)"
| "resolve_loads p is_local (u # us) all_done st =
     (let i = u_insn u in
      if opcode (insns st i) = OP_LOAD then
        (let (g, st1) = next_generation st in
         case find_dominating_stores p i g is_local st1 of
           None \<Rightarrow> None
         | Some (ok, st2) \<Rightarrow> resolve_loads p is_local us (all_done \<and> ok) st2)
      else resolve_loads p is_local us all_done st)"

text \<open>\<open>f\<close> for the stores among the uses.\<close>

fun each_store :: "(addr \<Rightarrow> lin \<Rightarrow> lin option) \<Rightarrow> pseudo_user list \<Rightarrow> lin \<Rightarrow> lin option" where
  "each_store f [] st = Some st"
| "each_store f (u # us) st =
     (if opcode (insns st (u_insn u)) = OP_STORE
      then (case f (u_insn u) st of None \<Rightarrow> None | Some st1 \<Rightarrow> each_store f us st1)
      else each_store f us st)"

definition kill_dominated_of :: "addr \<Rightarrow> bool \<Rightarrow> addr \<Rightarrow> lin \<Rightarrow> lin option" where
  "kill_dominated_of p is_local i st =
     (let (g, st1) = next_generation st
      in kill_dominated_stores (Suc (n_bbs st1)) p i g is_local False (i_bb (insns st1 i)) st1)"

fun kill_dead_at_exits :: "addr \<Rightarrow> bool \<Rightarrow> addr list \<Rightarrow> lin \<Rightarrow> lin option" where
  "kill_dead_at_exits p is_local [] st = Some st"
| "kill_dead_at_exits p is_local (b # bs) st =
     (if children (bbs st b) \<noteq> [] then kill_dead_at_exits p is_local bs st
      else
        (let (g, st1) = next_generation st in
         case kill_dead_stores (Suc (n_bbs st1)) p g is_local b st1 of
           None \<Rightarrow> None
         | Some st2 \<Rightarrow> kill_dead_at_exits p is_local bs st2))"

text \<open>From the label \<open>external_visibility\<close> on.\<close>

definition simplify_visible_symbol :: "entrypoint \<Rightarrow> addr \<Rightarrow> u64 \<Rightarrow> lin \<Rightarrow> lin option" where
  "simplify_visible_symbol ep p md st = do {
     let is_local = (md = 0);
     (all_done, st1) \<leftarrow> resolve_loads p is_local (rev (users st p)) True st;
     if all_done \<and> is_local then each_store kill_store (users st1 p) st1
     else do {
       st2 \<leftarrow> each_store (kill_dominated_of p is_local) (users st1 p) st1;
       if and md (or MOD_NONLOCAL MOD_STATIC) = 0 then kill_dead_at_exits p is_local (ep_bbs ep) st2
       else Some st2 }}"

definition simplify_one_symbol :: "entrypoint \<Rightarrow> symref \<Rightarrow> lin \<Rightarrow> lin option" where
  "simplify_one_symbol ep s st =
     (let p = sym_pseudo st s; m = modifiers (s_ctype (ltypes st s));
          md = and m (or (or MOD_NONLOCAL MOD_STATIC) MOD_ADDRESSABLE) in
      if p = NULL \<or> has_mod m MOD_VOLATILE then Some st
      else if md \<noteq> 0 then simplify_visible_symbol ep p md st
      else
        (case scan_uses s (users st p) 0 NULL 0 st of
           (st1, None) \<Rightarrow> simplify_visible_symbol ep p MOD_ADDRESSABLE st1
         | (st1, Some (stores, def, complex)) \<Rightarrow>
             if complex \<noteq> 0 \<or> stores > 1 then simplify_visible_symbol ep p 0 st1
             else do {
               let src = (if def \<noteq> NULL then i_target (insns st1 def) else VOID);
               st2 \<leftarrow> convert_loads (users st1 p) src st1;
               kill_store def st2 }))"

fun simplify_symbols :: "entrypoint \<Rightarrow> addr list \<Rightarrow> lin \<Rightarrow> lin option" where
  "simplify_symbols ep [] st = Some st"
| "simplify_symbols ep (p # ps) st =
     (case simplify_one_symbol ep (p_sym (pseudos st p)) st of
        None \<Rightarrow> None
      | Some st1 \<Rightarrow> simplify_symbols ep ps st1)"

definition simplify_symbol_usage :: "entrypoint \<Rightarrow> lin \<Rightarrow> lin option" where
  "simplify_symbol_usage ep st = simplify_symbols ep (accesses ep) st"

section \<open>All loads and stores\<close>

definition address_taken :: "addr \<Rightarrow> lin \<Rightarrow> bool" where
  "address_taken p st =
     (\<exists>u \<in> set (users st p). let x = insns st (u_insn u) in
        i_bb x \<noteq> NULL \<and> opcode x \<noteq> OP_LOAD \<and> opcode x \<noteq> OP_STORE)"

definition local_pseudo :: "addr \<Rightarrow> lin \<Rightarrow> bool" where
  "local_pseudo p st =
     (ptype st p = PSEUDO_SYM
      \<and> and (modifiers (s_ctype (ltypes st (p_sym (pseudos st p))))) (or MOD_STATIC MOD_NONLOCAL) = 0
      \<and> \<not> address_taken p st)"

text \<open>The instructions before \<open>i\<close> in its block, backwards.\<close>

fun scan_before :: "addr \<Rightarrow> addr \<Rightarrow> bool \<Rightarrow> lin \<Rightarrow> addr list \<Rightarrow> scan" where
  "scan_before p i is_local st [] = Not_here"
| "scan_before p i is_local st (one # rest) =
     (let d = dominates p i one is_local st in
      if i_bb (insns st one) = NULL \<or> d = 0 then scan_before p i is_local st rest
      else if d < 0 then
        (if opcode (insns st one) = OP_LOAD then scan_before p i is_local st rest else Unknown)
      else Found one)"

definition simplify_load :: "addr \<Rightarrow> addr \<Rightarrow> addr list \<Rightarrow> lin \<Rightarrow> lin option" where
  "simplify_load b i before st0 =
     (let p = src1 (insns st0 i); is_local = local_pseudo p st0; st = check_access i st0 in
      case scan_before p i is_local st before of
        Unknown \<Rightarrow> Some st
      | Found dm \<Rightarrow> convert_load_instruction i (i_target (insns st dm)) st
      | Not_here \<Rightarrow>
          (let (g, st1) = next_generation st in do {
             (ok, doms, st2) \<leftarrow> find_dominating_parents (Suc (n_bbs st1)) False p i g is_local b True [] (mark g b st1);
             if \<not> ok then Some st2
             else if doms = [] then
               (if \<not> is_local then Some st2
                else (let (z, st3) = value_pseudo 0 st2 in convert_load_instruction i z st3))
             else rewrite_load_instruction i doms st2 }))"

fun loads_back :: "addr \<Rightarrow> addr list \<Rightarrow> lin \<Rightarrow> lin option" where
  "loads_back b [] st = Some st"
| "loads_back b (i # rest) st =
     (if i_bb (insns st i) = NULL \<or> opcode (insns st i) \<noteq> OP_LOAD then loads_back b rest st
      else (case simplify_load b i rest st of None \<Rightarrow> None | Some st1 \<Rightarrow> loads_back b rest st1))"

definition simplify_loads :: "addr \<Rightarrow> lin \<Rightarrow> lin option" where
  "simplify_loads b st = loads_back b (rev (b_insns (bbs st b))) st"

text \<open>\<open>kill_store_mem\<close> is \<open>kill_store\<close>, written twice.\<close>

fun kill_overwritten :: "addr \<Rightarrow> addr \<Rightarrow> bool \<Rightarrow> addr list \<Rightarrow> lin \<Rightarrow> lin option" where
  "kill_overwritten p i is_local [] st = Some st"
| "kill_overwritten p i is_local (one # rest) st =
     (let d = dominates p i one is_local st in
      if i_bb (insns st one) = NULL \<or> d = 0 then kill_overwritten p i is_local rest st
      else if d < 0 \<or> opcode (insns st one) = OP_LOAD then Some st
      else (case kill_store one st of None \<Rightarrow> None | Some st1 \<Rightarrow> kill_overwritten p i is_local rest st1))"

fun stores_back :: "addr list \<Rightarrow> lin \<Rightarrow> lin option" where
  "stores_back [] st = Some st"
| "stores_back (i # rest) st =
     (if i_bb (insns st i) = NULL \<or> opcode (insns st i) \<noteq> OP_STORE then stores_back rest st
      else
        (let p = src1 (insns st i) in
         case kill_overwritten p i (local_pseudo p st) rest st of
           None \<Rightarrow> None
         | Some st1 \<Rightarrow> stores_back rest st1))"

definition kill_dominated_stores_mem :: "addr \<Rightarrow> lin \<Rightarrow> lin option" where
  "kill_dominated_stores_mem b st = stores_back (rev (b_insns (bbs st b))) st"

fun each_bb :: "(addr \<Rightarrow> lin \<Rightarrow> lin option) \<Rightarrow> addr list \<Rightarrow> lin \<Rightarrow> lin option" where
  "each_bb f [] st = Some st"
| "each_bb f (b # bs) st = (case f b st of None \<Rightarrow> None | Some st1 \<Rightarrow> each_bb f bs st1)"

definition simplify_memops :: "entrypoint \<Rightarrow> lin \<Rightarrow> lin option" where
  "simplify_memops ep st = do {
     st1 \<leftarrow> each_bb simplify_loads (rev (ep_bbs ep)) st;
     each_bb kill_dominated_stores_mem (rev (ep_bbs ep)) st1 }"

end
