(* ===== verification/Cse.thy ===== *)
theory Cse
  imports Memops Sort_List
begin

text \<open>
  Common subexpressions (\<open>cse.c\<close>): the instructions are simplified and put into hash buckets; a
  bucket is sorted, and of two neighbours that compute the same one is replaced by the other if
  its block dominates, or moved to the common parent of their blocks.

  Pointers are compared and hashed as addresses. Those of symbols are an argument \<open>sa\<close>, as the
  static ones are chosen by the linker.
\<close>

section \<open>Comparing instructions\<close>

text \<open>\<open>x != y\<close>, and then \<open>x < y ? -1 : 1\<close>; \<open>c\<close> is what comes after.\<close>

definition then_by :: "nat \<Rightarrow> nat \<Rightarrow> int \<Rightarrow> int" where
  "then_by x y c = (if x \<noteq> y then (if x < y then -1 else 1) else c)"

definition phi_compare :: "lin \<Rightarrow> addr \<Rightarrow> addr \<Rightarrow> int" where
  "phi_compare st phi1 phi2 =
     (let d1 = insns st (p_def (pseudos st phi1)); d2 = insns st (p_def (pseudos st phi2))
      in then_by (src1 d1) (src1 d2) (then_by (i_bb d1) (i_bb d2) 0))"

definition real_phis :: "lin \<Rightarrow> addr list \<Rightarrow> addr list" where
  "real_phis st l = filter (\<lambda>p. p \<noteq> VOID \<and> p_def (pseudos st p) \<noteq> NULL) l"

fun phi_list_cmp :: "lin \<Rightarrow> addr list \<Rightarrow> addr list \<Rightarrow> int" where
  "phi_list_cmp st [] [] = 0"
| "phi_list_cmp st [] (q # qs) = -1"
| "phi_list_cmp st (p # ps) [] = 1"
| "phi_list_cmp st (p # ps) (q # qs) = (let c = phi_compare st p q in if c \<noteq> 0 then c else phi_list_cmp st ps qs)"

definition phi_list_compare :: "lin \<Rightarrow> addr list \<Rightarrow> addr list \<Rightarrow> int" where
  "phi_list_compare st l1 l2 = phi_list_cmp st (real_phis st (map (cells st) l1)) (real_phis st (map (cells st) l2))"

text \<open>The warning about other opcodes is left out: they are not put into a bucket.\<close>

definition insn_compare :: "(symref option \<Rightarrow> nat) \<Rightarrow> lin \<Rightarrow> addr \<Rightarrow> addr \<Rightarrow> int" where
  "insn_compare sa st i1 i2 =
     (let x = insns st i1; y = insns st i2; op = opcode x; sizes = then_by (i_size x) (i_size y) 0 in
      then_by (opcode_nr op) (opcode_nr (opcode y))
        (if op = OP_SEL then
           then_by (src3 x) (src3 y) (then_by (src2 x) (src2 y) (then_by (src1 x) (src1 y) sizes))
         else if is_binary op \<or> is_bincmp op then then_by (src2 x) (src2 y) (then_by (src1 x) (src1 y) sizes)
         else if op \<in> {OP_NOT, OP_NEG, OP_SYMADDR} then then_by (src1 x) (src1 y) sizes
         else if op = OP_SETVAL then then_by (i_val x) (i_val y) sizes
         else if op = OP_PHI then phi_list_compare st (phi_list x) (phi_list y)
         else if op \<in> {OP_CAST, OP_SCAST, OP_PTRCAST} then
           then_by (sa (orig_type x)) (sa (orig_type y)) (then_by (src1 x) (src1 y) sizes)
         else sizes))"

section \<open>Hashing\<close>

abbreviation (input) INSN_HASH_SIZE :: nat where "INSN_HASH_SIZE \<equiv> 256"

definition hashval :: "addr \<Rightarrow> u64" where
  "hashval p = of_nat p"

text \<open>\<open>None\<close>: not hashed.\<close>

definition insn_hash_of :: "(symref option \<Rightarrow> nat) \<Rightarrow> addr \<Rightarrow> lin \<Rightarrow> nat option" where
  "insn_hash_of sa i st =
     (let x = insns st i; op = opcode x;
          h0 = push_bit 3 (of_nat (opcode_nr op)) + of_nat (i_size x div 8);
          h = (if op = OP_SEL then Some (hashval (src3 x) + hashval (src2 x) + hashval (src1 x))
               else if is_binary op \<or> is_bincmp op then Some (hashval (src2 x) + hashval (src1 x))
               else if op \<in> {OP_NOT, OP_NEG, OP_SYMADDR} then Some (hashval (src1 x))
               else if op = OP_SETVAL then Some (hashval (i_val x))
               else if op \<in> {OP_CAST, OP_SCAST, OP_PTRCAST} then Some (hashval (sa (orig_type x)) + hashval (src1 x))
               else if op = OP_PHI then
                 Some (sum_list (map (\<lambda>p. let d = insns st (p_def (pseudos st p)) in hashval (src1 d) + hashval (i_bb d))
                        (real_phis st (map (cells st) (phi_list x)))))
               else None)
      in map_option (\<lambda>k. let h1 = h0 + k; h2 = h1 + drop_bit 16 h1 in unat (and h2 (of_nat INSN_HASH_SIZE - 1))) h)"

definition clean_up_one_instruction :: "(symref option \<Rightarrow> nat) \<Rightarrow> addr \<Rightarrow> addr \<Rightarrow> lin \<Rightarrow> lin option" where
  "clean_up_one_instruction sa b i st =
     (if i_bb (insns st i) = NULL then Some st
      else if i_bb (insns st i) \<noteq> b then None
      else do {
        (r, st1) \<leftarrow> simplify_instruction i st;
        let st2 = add_repeat r st1;
        Some (case insn_hash_of sa i st2 of
                None \<Rightarrow> st2
              | Some h \<Rightarrow> st2\<lparr>insn_hash := (insn_hash st2)(h := add_ptr_list (insn_hash st2 h) i)\<rparr>) })"

text \<open>The list of a block may change on the way: the loop goes by position.\<close>

partial_function (option) clean_up_from :: "(symref option \<Rightarrow> nat) \<Rightarrow> nat \<Rightarrow> addr \<Rightarrow> lin \<Rightarrow> lin option" where
  "clean_up_from sa k b st =
     (if k < length (b_insns (bbs st b)) then
        (case clean_up_one_instruction sa b (b_insns (bbs st b) ! k) st of
           None \<Rightarrow> None
         | Some st1 \<Rightarrow> clean_up_from sa (Suc k) b st1)
      else Some st)"

definition clean_up_insns :: "(symref option \<Rightarrow> nat) \<Rightarrow> entrypoint \<Rightarrow> lin \<Rightarrow> lin option" where
  "clean_up_insns sa ep st = each_bb (clean_up_from sa 0) (ep_bbs ep) st"

section \<open>Dominance\<close>

text \<open>Does \<open>b1\<close> dominate \<open>b2\<close>? \<open>dm\<close> is the recursive call, with \<open>b1\<close> and the generation fixed.\<close>

fun all_parents :: "(addr \<Rightarrow> lin \<Rightarrow> (bool \<times> lin) option) \<Rightarrow> addr \<Rightarrow> nat \<Rightarrow> addr list \<Rightarrow> lin \<Rightarrow> (bool \<times> lin) option" where
  "all_parents dm b1 g [] st = Some (True, st)"
| "all_parents dm b1 g (p # ps) st =
     (if p = b1 \<or> generation (bbs st p) = g then all_parents dm b1 g ps st
      else
        (case dm p (mark g p st) of
           None \<Rightarrow> None
         | Some (r, st1) \<Rightarrow> if r then all_parents dm b1 g ps st1 else Some (False, st1)))"

fun bb_dominates_at :: "nat \<Rightarrow> addr \<Rightarrow> addr \<Rightarrow> nat \<Rightarrow> addr \<Rightarrow> lin \<Rightarrow> (bool \<times> lin) option" where
  "bb_dominates_at 0 entry b1 g b2 st = None"
| "bb_dominates_at (Suc n) entry b1 g b2 st =
     (if b2 = entry then Some (False, st)
      else all_parents (bb_dominates_at n entry b1 g) b1 g (parents (bbs st b2)) st)"

definition bb_dominates :: "entrypoint \<Rightarrow> addr \<Rightarrow> addr \<Rightarrow> nat \<Rightarrow> lin \<Rightarrow> (bool \<times> lin) option" where
  "bb_dominates ep b1 b2 g st = bb_dominates_at (Suc (n_bbs st)) (i_bb (insns st (ep_entry ep))) b1 g b2 st"

section \<open>Combining\<close>

definition trivial_common_parent :: "addr \<Rightarrow> addr \<Rightarrow> lin \<Rightarrow> addr" where
  "trivial_common_parent b1 b2 st =
     (case (parents (bbs st b1), parents (bbs st b2)) of
        ([p], [q]) \<Rightarrow> if p = q then p else NULL
      | _ \<Rightarrow> NULL)"

definition add_instruction_to_end :: "addr \<Rightarrow> addr \<Rightarrow> lin \<Rightarrow> lin" where
  "add_instruction_to_end i b st =
     (let (br, st1) = delete_last_instruction b st
      in add_instruction b br (add_instruction b i (set_insn_bb i b st1)))"

text \<open>Of the two instructions, \<open>i\<close> goes and \<open>def\<close> stays.\<close>

definition cse_one_instruction :: "addr \<Rightarrow> addr \<Rightarrow> lin \<Rightarrow> lin option" where
  "cse_one_instruction i def st = do {
     st1 \<leftarrow> convert_instruction_target i (i_target (insns st def)) st;
     let x = insns st1 i;
     let st2 = (if opcode x = OP_PHI then
                  fold (\<lambda>c st. upd_pseudo (cells st c) (\<lambda>p. p\<lparr>p_users := filter (\<lambda>u. u_insn u \<noteq> i) (p_users p)\<rparr>) st)
                    (phi_list x) st1
                else st1);
     Some (add_repeat REPEAT_CSE (upd_insn i (\<lambda>x. x\<lparr>opcode := OP_NOP, i_bb := NULL\<rparr>) st2)) }"

text \<open>Which of two instructions comes first in a block.\<close>

fun first_of :: "addr \<Rightarrow> addr \<Rightarrow> addr list \<Rightarrow> addr" where
  "first_of i1 i2 [] = NULL"
| "first_of i1 i2 (i # is) = (if i = i1 \<or> i = i2 then i else first_of i1 i2 is)"

definition try_to_cse :: "entrypoint \<Rightarrow> addr \<Rightarrow> addr \<Rightarrow> lin \<Rightarrow> (addr \<times> lin) option" where
  "try_to_cse ep i1 i2 st =
     (let b1 = i_bb (insns st i1); b2 = i_bb (insns st i2);
          keep = (\<lambda>i j st. map_option (\<lambda>st1. (j, st1)) (cse_one_instruction i j st)) in
      if b1 = b2 then
        (let i = first_of i1 i2 (b_insns (bbs st b1)) in
         if i = NULL then Some (i1, lmsg Cse_not_found st)
         else if i = i1 then keep i2 i1 st else keep i1 i2 st)
      else do {
        let (g1, st1) = next_generation st;
        (d1, st2) \<leftarrow> bb_dominates ep b1 b2 g1 st1;
        if d1 then keep i2 i1 st2
        else do {
          let (g2, st3) = next_generation st2;
          (d2, st4) \<leftarrow> bb_dominates ep b2 b1 g2 st3;
          if d2 then keep i1 i2 st4
          else do {
            let common = trivial_common_parent b1 b2 st4;
            if common = NULL then Some (i1, st4)
            else do {
              st5 \<leftarrow> cse_one_instruction i2 i1 st4;
              l \<leftarrow> delete_entry i1 1 (b_insns (bbs st5 b1));
              Some (i1, add_instruction_to_end i1 common (upd_bb b1 (\<lambda>x. x\<lparr>b_insns := l\<rparr>) st5)) }}}})"

text \<open>The neighbours in a sorted bucket; \<open>prev\<close> is NULL at first.\<close>

fun cse_bucket :: "(symref option \<Rightarrow> nat) \<Rightarrow> entrypoint \<Rightarrow> addr \<Rightarrow> addr list \<Rightarrow> lin \<Rightarrow> lin option" where
  "cse_bucket sa ep prev [] st = Some st"
| "cse_bucket sa ep prev (i # is) st =
     (if i_bb (insns st i) = NULL then cse_bucket sa ep prev is st
      else if prev \<noteq> NULL \<and> insn_compare sa st prev i = 0 then
        (case try_to_cse ep prev i st of
           None \<Rightarrow> None
         | Some (j, st1) \<Rightarrow> cse_bucket sa ep j is st1)
      else cse_bucket sa ep i is st)"

definition sort_instruction_list :: "(symref option \<Rightarrow> nat) \<Rightarrow> lin \<Rightarrow> addr ptr_list \<Rightarrow> addr ptr_list" where
  "sort_instruction_list sa st l = sort_list (insn_compare sa st) l"

fun cse_buckets :: "(symref option \<Rightarrow> nat) \<Rightarrow> entrypoint \<Rightarrow> nat list \<Rightarrow> lin \<Rightarrow> lin option" where
  "cse_buckets sa ep [] st = Some st"
| "cse_buckets sa ep (h # hs) st =
     (let l = insn_hash st h in
      case (if ptr_list_size l > 1 then cse_bucket sa ep NULL (entries (sort_instruction_list sa st l)) st
            else Some st) of
        None \<Rightarrow> None
      | Some st1 \<Rightarrow> cse_buckets sa ep hs (st1\<lparr>insn_hash := (insn_hash st1)(h := [])\<rparr>))"

text \<open>The loop after the label \<open>repeat\<close>.\<close>

partial_function (option) cse_loop :: "(symref option \<Rightarrow> nat) \<Rightarrow> entrypoint \<Rightarrow> lin \<Rightarrow> lin option" where
  "cse_loop sa ep st =
     (case clean_up_insns sa ep (st\<lparr>repeat_phase := 0\<rparr>) of
        None \<Rightarrow> None
      | Some st1 \<Rightarrow>
          (case cse_buckets sa ep [0 ..< INSN_HASH_SIZE] st1 of
             None \<Rightarrow> None
           | Some st2 \<Rightarrow>
               (case (if and (repeat_phase st2) REPEAT_SYMBOL_CLEANUP \<noteq> 0 then simplify_memops ep st2 else Some st2) of
                  None \<Rightarrow> None
                | Some st3 \<Rightarrow> if and (repeat_phase st3) REPEAT_CSE \<noteq> 0 then cse_loop sa ep st3 else Some st3)))"

definition cleanup_and_cse :: "(symref option \<Rightarrow> nat) \<Rightarrow> entrypoint \<Rightarrow> lin \<Rightarrow> lin option" where
  "cleanup_and_cse sa ep st = do { st1 \<leftarrow> simplify_memops ep st; cse_loop sa ep st1 }"

end
