(* ===== verification/Liveness.thy ===== *)
theory Liveness
  imports Flow
begin

text \<open>
  Which pseudos a block needs from its parents and which it defines for its children
  (\<open>liveness.c\<close>), and the way back from SSA (\<open>unssa.c\<close>). The traversal of the operands of an
  instruction takes what is to be done for a definition and for a use as functions, as in the code.
\<close>

section \<open>Operands\<close>

type_synonym track = "addr \<Rightarrow> addr \<Rightarrow> addr \<Rightarrow> lin \<Rightarrow> lin option"

text \<open>A phi node defines its target in the blocks its sources come from; the depth is that of nested phi nodes.\<close>

fun phi_sources :: "(addr \<Rightarrow> lin \<Rightarrow> lin option) \<Rightarrow> track \<Rightarrow> addr \<Rightarrow> addr list \<Rightarrow> lin \<Rightarrow> lin option" where
  "phi_sources nested def target [] st = Some st"
| "phi_sources nested def target (c # cs) st =
     (let phi = cells st c; d = p_def (pseudos st phi); x = insns st d; next = phi_sources nested def target cs in
      if phi = VOID \<or> d = NULL \<or> i_bb x = NULL then next st
      else if opcode x = OP_PHI then (case nested d st of None \<Rightarrow> None | Some st1 \<Rightarrow> next st1)
      else (case def (i_bb x) d target st of None \<Rightarrow> None | Some st1 \<Rightarrow> next st1))"

fun phi_defines :: "nat \<Rightarrow> track \<Rightarrow> addr \<Rightarrow> addr \<Rightarrow> lin \<Rightarrow> lin option" where
  "phi_defines 0 def target i st = None"
| "phi_defines (Suc n) def target i st =
     phi_sources (phi_defines n def target) def target (phi_list (insns st i)) st"

fun track_all :: "(addr \<Rightarrow> lin \<Rightarrow> lin option) \<Rightarrow> addr list \<Rightarrow> lin \<Rightarrow> lin option" where
  "track_all f [] st = Some st"
| "track_all f (p # ps) st = (case f p st of None \<Rightarrow> None | Some st1 \<Rightarrow> track_all f ps st1)"

definition asm_liveness :: "addr \<Rightarrow> addr \<Rightarrow> track \<Rightarrow> track \<Rightarrow> lin \<Rightarrow> lin option" where
  "asm_liveness b i def use st = do {
     st1 \<leftarrow> track_all (use b i) (map (cells st) (asm_inputs (insns st i))) st;
     track_all (def b i) (map (cells st1) (asm_outputs (insns st1 i))) st1 }"

text \<open>The operands an instruction uses, then those it defines.\<close>

definition used_operands :: "insn \<Rightarrow> addr list" where
  "used_operands x =
     (let op = opcode x in
      if op \<in> {OP_RET, OP_LOAD, OP_SYMADDR, OP_PHISOURCE, OP_NOT, OP_NEG, OP_CAST, OP_SCAST, OP_FPCAST, OP_PTRCAST,
               OP_CALL, OP_SLICE} then [src1 x]
      else if op \<in> {OP_BR, OP_SWITCH, OP_COMPUTEDGOTO} then [i_target x]
      else if is_binary op \<or> is_bincmp op then [src1 x, src2 x]
      else if op \<in> {OP_SEL, OP_RANGE} then [src1 x, src2 x, src3 x]
      else if op = OP_STORE then [src1 x, i_target x]
      else [])"

definition defined_operands :: "insn \<Rightarrow> addr list" where
  "defined_operands x =
     (let op = opcode x in
      if is_binary op \<or> is_bincmp op
         \<or> op \<in> {OP_NOT, OP_NEG, OP_SEL, OP_LOAD, OP_SETVAL, OP_SYMADDR, OP_CAST, OP_SCAST, OP_FPCAST, OP_PTRCAST,
                 OP_SLICE}
         \<or> (op = OP_CALL \<and> i_target x \<noteq> VOID)
      then [i_target x] else [])"

definition track_instruction_usage :: "addr \<Rightarrow> addr \<Rightarrow> track \<Rightarrow> track \<Rightarrow> lin \<Rightarrow> lin option" where
  "track_instruction_usage b i def use st =
     (let x = insns st i in
      if opcode x = OP_PHI then phi_defines (n_insns st) def (i_target x) i st
      else if opcode x = OP_ASM then asm_liveness b i def use st
      else do {
        st1 \<leftarrow> track_all (use b i) (used_operands x) st;
        st2 \<leftarrow> track_all (def b i) (defined_operands x) st1;
        if opcode x = OP_CALL then track_all (use b i) (map (cells st2) (i_arguments x)) st2 else Some st2 })"

section \<open>Needs and defines\<close>

definition pseudo_in_list :: "addr list \<Rightarrow> addr \<Rightarrow> bool" where
  "pseudo_in_list l p = (p \<in> set l)"

definition trackable_pseudo :: "addr \<Rightarrow> lin \<Rightarrow> bool" where
  "trackable_pseudo p st = (p \<noteq> NULL \<and> (ptype st p = PSEUDO_REG \<or> ptype st p = PSEUDO_ARG))"

definition set_needs :: "addr \<Rightarrow> addr list \<Rightarrow> lin \<Rightarrow> lin" where
  "set_needs b l = upd_bb b (\<lambda>x. x\<lparr>b_needs := l\<rparr>)"

definition set_defines :: "addr \<Rightarrow> addr list \<Rightarrow> lin \<Rightarrow> lin" where
  "set_defines b l = upd_bb b (\<lambda>x. x\<lparr>b_defines := l\<rparr>)"

text \<open>\<open>add_pseudo_exclusive(&bb->needs, p)\<close>.\<close>

definition add_need :: "addr \<Rightarrow> addr \<Rightarrow> lin \<Rightarrow> lin" where
  "add_need b p st =
     (let l = b_needs (bbs st b) in
      if pseudo_in_list l p then st else set_needs b (l @ [p]) (st\<lparr>liveness_changed := True\<rparr>))"

definition insn_uses :: track where
  "insn_uses b i p st =
     (if \<not> trackable_pseudo p st then Some st
      else
        (let d = p_def (pseudos st p); x = insns st d in
         if ptype st p \<noteq> PSEUDO_REG then Some (add_need b p st)
         else if d = NULL then None
         else Some (if i_bb x \<noteq> b \<or> opcode x = OP_PHI then add_need b p st else st)))"

definition insn_defines :: track where
  "insn_defines b i p st =
     (if trackable_pseudo p st then Some (set_defines b (b_defines (bbs st b) @ [p]) st) else None)"

fun need_in_parents :: "addr \<Rightarrow> addr list \<Rightarrow> lin \<Rightarrow> lin" where
  "need_in_parents p [] st = st"
| "need_in_parents p (b # bs) st =
     need_in_parents p bs (if pseudo_in_list (b_defines (bbs st b)) p then st else add_need b p st)"

text \<open>
  The needs of \<open>b\<close> are pushed to its parents. \<open>b\<close> may be its own parent, and what is added to
  the list is visited, too: the loop goes by position.
\<close>

partial_function (option) track_bb_from :: "nat \<Rightarrow> addr \<Rightarrow> lin \<Rightarrow> lin option" where
  "track_bb_from k b st =
     (if k < length (b_needs (bbs st b))
      then track_bb_from (Suc k) b (need_in_parents (b_needs (bbs st b) ! k) (parents (bbs st b)) st)
      else Some st)"

definition track_bb_liveness :: "addr \<Rightarrow> lin \<Rightarrow> lin option" where
  "track_bb_liveness b st = track_bb_from 0 b st"

definition clear_liveness :: "entrypoint \<Rightarrow> lin \<Rightarrow> lin" where
  "clear_liveness ep st = fold (\<lambda>b st. set_defines b [] (set_needs b [] st)) (ep_bbs ep) st"

fun usage_of_insns :: "addr \<Rightarrow> addr list \<Rightarrow> lin \<Rightarrow> lin option" where
  "usage_of_insns b [] st = Some st"
| "usage_of_insns b (i # is) st =
     (if i_bb (insns st i) = NULL then usage_of_insns b is st
      else if i_bb (insns st i) \<noteq> b then None
      else
        (case track_instruction_usage b i insn_defines insn_uses st of
           None \<Rightarrow> None
         | Some st1 \<Rightarrow> usage_of_insns b is st1))"

definition usage_of_bb :: "addr \<Rightarrow> lin \<Rightarrow> lin option" where
  "usage_of_bb b st = usage_of_insns b (b_insns (bbs st b)) st"

text \<open>The \<open>do\<close> loop: passes over the blocks, last first, until nothing is added.\<close>

partial_function (option) liveness_loop :: "addr list \<Rightarrow> lin \<Rightarrow> lin option" where
  "liveness_loop bs st =
     (case track_all track_bb_liveness (rev bs) (st\<lparr>liveness_changed := False\<rparr>) of
        None \<Rightarrow> None
      | Some st1 \<Rightarrow> if liveness_changed st1 then liveness_loop bs st1 else Some st1)"

definition drop_internal :: "addr \<Rightarrow> lin \<Rightarrow> lin" where
  "drop_internal b st =
     set_defines b (filter (\<lambda>p. \<exists>c \<in> set (children (bbs st b)). pseudo_in_list (b_needs (bbs st c)) p)
       (b_defines (bbs st b))) st"

definition track_pseudo_liveness :: "entrypoint \<Rightarrow> lin \<Rightarrow> lin option" where
  "track_pseudo_liveness ep st = do {
     st1 \<leftarrow> track_all usage_of_bb (ep_bbs ep) st;
     st2 \<leftarrow> liveness_loop (ep_bbs ep) st1;
     Some (fold drop_internal (ep_bbs ep) st2) }"

section \<open>The uses of phi sources\<close>

fun add_phi_users :: "addr \<Rightarrow> addr list \<Rightarrow> lin \<Rightarrow> lin option" where
  "add_phi_users i [] st = Some st"
| "add_phi_users i (c # cs) st =
     (let phi = cells st c; d = p_def (pseudos st phi) in
      if phi = VOID \<or> d = NULL then add_phi_users i cs st
      else if opcode (insns st d) \<noteq> OP_PHISOURCE then None
      else add_phi_users i cs (upd_insn d (\<lambda>x. x\<lparr>phi_users := phi_users x @ [i]\<rparr>) st))"

definition track_phi_uses :: "addr \<Rightarrow> lin \<Rightarrow> lin option" where
  "track_phi_uses i st = add_phi_users i (phi_list (insns st i)) st"

fun phi_uses_of :: "addr list \<Rightarrow> lin \<Rightarrow> lin option" where
  "phi_uses_of [] st = Some st"
| "phi_uses_of (i # is) st =
     (if i_bb (insns st i) \<noteq> NULL \<and> opcode (insns st i) = OP_PHI
      then (case track_phi_uses i st of None \<Rightarrow> None | Some st1 \<Rightarrow> phi_uses_of is st1)
      else phi_uses_of is st)"

definition track_bb_phi_uses :: "addr \<Rightarrow> lin \<Rightarrow> lin option" where
  "track_bb_phi_uses b st = phi_uses_of (b_insns (bbs st b)) st"

section \<open>Where pseudos die\<close>

definition death_def :: track where
  "death_def b i p st = Some st"

definition death_use :: track where
  "death_use b i p st =
     (if trackable_pseudo p st \<and> \<not> pseudo_in_list (live_list st) p
      then Some (st\<lparr>dead_list := dead_list st @ [p], live_list := live_list st @ [p]\<rparr>) else Some st)"

text \<open>\<open>INSERT_CURRENT(deathnote, insn)\<close> puts a note in front of the instruction and the notes before it.\<close>

fun add_deathnotes :: "addr \<Rightarrow> addr list \<Rightarrow> addr list \<Rightarrow> lin \<Rightarrow> addr list \<times> lin" where
  "add_deathnotes b [] notes st = (notes, st)"
| "add_deathnotes b (p # ps) notes st =
     (let (d, st1) = alloc_instruction OP_DEATHNOTE 0 st
      in add_deathnotes b ps (d # notes) (upd_insn d (\<lambda>x. x\<lparr>i_bb := b, i_target := p\<rparr>) st1))"

text \<open>Backwards over a block; \<open>after\<close> are the instructions already passed, with their notes.\<close>

fun death_back :: "addr \<Rightarrow> addr list \<Rightarrow> addr list \<Rightarrow> lin \<Rightarrow> lin option" where
  "death_back b [] after st = Some (upd_bb b (\<lambda>x. x\<lparr>b_insns := after\<rparr>) st)"
| "death_back b (i # rest) after st =
     (if i_bb (insns st i) = NULL then death_back b rest (i # after) st
      else
        (case track_instruction_usage b i death_def death_use (st\<lparr>dead_list := []\<rparr>) of
           None \<Rightarrow> None
         | Some st1 \<Rightarrow>
             (let (notes, st2) = add_deathnotes b (dead_list st1) [] st1
              in death_back b rest (notes @ i # after) (st2\<lparr>dead_list := []\<rparr>))))"

fun merge_pseudo_list :: "addr list \<Rightarrow> addr list \<Rightarrow> addr list" where
  "merge_pseudo_list [] dest = dest"
| "merge_pseudo_list (p # ps) dest = merge_pseudo_list ps (if pseudo_in_list dest p then dest else dest @ [p])"

definition track_pseudo_death_bb :: "addr \<Rightarrow> lin \<Rightarrow> lin option" where
  "track_pseudo_death_bb b st =
     (let live = fold (\<lambda>c l. merge_pseudo_list (b_needs (bbs st c)) l) (children (bbs st b)) []
      in map_option (\<lambda>st1. st1\<lparr>live_list := []\<rparr>)
           (death_back b (rev (b_insns (bbs st b))) [] (st\<lparr>live_list := live\<rparr>)))"

definition track_pseudo_death :: "entrypoint \<Rightarrow> lin \<Rightarrow> lin option" where
  "track_pseudo_death ep st = do {
     st1 \<leftarrow> track_all track_bb_phi_uses (ep_bbs ep) st;
     track_all track_pseudo_death_bb (ep_bbs ep) st1 }"

section \<open>Back from SSA\<close>

definition remove_pseudo :: "addr list \<Rightarrow> addr \<Rightarrow> addr list" where
  "remove_pseudo l p = filter (\<lambda>q. q \<noteq> p) l"

definition remove_phisrc_defines :: "addr \<Rightarrow> lin \<Rightarrow> lin" where
  "remove_phisrc_defines i st =
     (let x = insns st i; b = i_bb x
      in fold (\<lambda>phi st. set_defines b (remove_pseudo (b_defines (bbs st b)) (i_target (insns st phi))) st) (phi_users x) st)"

definition replace_phi_node :: "addr \<Rightarrow> lin \<Rightarrow> lin option" where
  "replace_phi_node phi st =
     (let t = i_target (insns st phi); b = i_bb (insns st phi);
          (tmp, st1) = alloc_pseudo NULL st;
          st2 = upd_pseudo tmp (\<lambda>x. x\<lparr>p_type := ptype st t, p_ident := p_ident (pseudos st t)\<rparr>) st1;
          st3 = set_needs b (remove_pseudo (b_needs (bbs st2 b)) t @ [tmp]) st2
      in map_option (\<lambda>st4. use_pseudo phi tmp (Src1 phi) (upd_insn phi (\<lambda>x. x\<lparr>opcode := OP_COPY\<rparr>) st4))
           (track_phi_uses phi st3))"

fun rewrite_phis :: "addr list \<Rightarrow> lin \<Rightarrow> lin option" where
  "rewrite_phis [] st = Some st"
| "rewrite_phis (i # is) st =
     (if i_bb (insns st i) = NULL \<or> opcode (insns st i) \<noteq> OP_PHI then rewrite_phis is st
      else (case replace_phi_node i st of None \<Rightarrow> None | Some st1 \<Rightarrow> rewrite_phis is st1))"

definition rewrite_phi_bb :: "addr \<Rightarrow> lin \<Rightarrow> lin option" where
  "rewrite_phi_bb b st = rewrite_phis (b_insns (bbs st b)) st"

text \<open>
  One copy for each phi node that uses the source \<open>i\<close>: the first overwrites it, the others go in
  front of it. \<open>copies\<close> are those made.
\<close>

fun copy_to_phis :: "addr \<Rightarrow> addr \<Rightarrow> bool \<Rightarrow> addr list \<Rightarrow> addr list \<Rightarrow> lin \<Rightarrow> addr list \<times> lin" where
  "copy_to_phis b i first [] copies st = (copies, st)"
| "copy_to_phis b i first (phi # phis) copies st =
     (let tmp = src1 (insns st phi); src = src1 (insns st i);
          (copies1, st1) =
            (if first then (copies, upd_insn i (\<lambda>x. x\<lparr>opcode := OP_COPY, i_target := tmp, src1 := src\<rparr>) st)
             else
               (let (c, st1) = alloc_instruction OP_COPY (i_size (insns st i)) st
                in (c # copies, upd_insn c (\<lambda>x. x\<lparr>i_bb := b, i_target := tmp, src1 := src\<rparr>) st1)));
          st2 = remove_phisrc_defines i st1
      in copy_to_phis b i False phis copies1 (set_defines b (b_defines (bbs st2 b) @ [tmp]) st2))"

fun phisrc_back :: "addr \<Rightarrow> addr list \<Rightarrow> addr list \<Rightarrow> lin \<Rightarrow> lin" where
  "phisrc_back b [] after st = upd_bb b (\<lambda>x. x\<lparr>b_insns := after\<rparr>) st"
| "phisrc_back b (i # rest) after st =
     (if i_bb (insns st i) = NULL \<or> opcode (insns st i) \<noteq> OP_PHISOURCE then phisrc_back b rest (i # after) st
      else
        (let (copies, st1) = copy_to_phis b i True (phi_users (insns st i)) [] st
         in phisrc_back b rest (copies @ i # after) st1))"

definition rewrite_phisrc_bb :: "addr \<Rightarrow> lin \<Rightarrow> lin" where
  "rewrite_phisrc_bb b st = phisrc_back b (rev (b_insns (bbs st b))) [] st"

definition unssa :: "entrypoint \<Rightarrow> lin \<Rightarrow> lin option" where
  "unssa ep st = map_option (fold rewrite_phisrc_bb (ep_bbs ep)) (track_all rewrite_phi_bb (ep_bbs ep) st)"

end
