(* ===== verification/Linearize.thy ===== *)
theory Linearize
  imports Expand Cse Liveness
begin

text \<open>
  From the expanded tree to linear code (\<open>linearize.c\<close>): expressions, conditions, statements and
  functions are turned into instructions of the active block, and the passes are run over the result.

  What the builder works on is one record: the linear code, the entry point with its active block,
  and members of the tree that this file reads or sets. A NULL pointer that the code would
  follow is \<open>None\<close>.
\<close>

section \<open>The state of the builder\<close>

text \<open>The members of an instruction that no pass looks at.\<close>

record insn_extra =
  x_from :: u32
  x_len :: u32
  x_fntype :: "symref option"
  x_increment :: u32
  x_check :: bool
  x_context :: "expression option"
  x_string :: string

text \<open>
  \<open>g_init\<close> and \<open>g_used\<close> are members of \<open>struct symbol\<close>; \<open>g_vals\<close> are the expressions that
  \<open>OP_SETVAL\<close> points to, each at its address; \<open>g_rules\<close> has the constraint and the name of an
  operand of \<open>asm\<close>, by the place of its pseudo.
\<close>

record gen =
  g_code :: lin
  g_ep :: entrypoint
  g_syms :: "symref list"
  g_init :: "symref \<Rightarrow> bool"
  g_used :: "symref \<Rightarrow> bool"
  g_extra :: "addr \<Rightarrow> insn_extra"
  g_rules :: "addr \<Rightarrow> string \<times> string option"
  g_vals :: "expression list"

abbreviation g_active :: "gen \<Rightarrow> addr" where
  "g_active g \<equiv> active (g_ep g)"

abbreviation g_types :: "gen \<Rightarrow> symtab" where
  "g_types g \<equiv> ltypes (g_code g)"

definition on_code :: "(lin \<Rightarrow> lin) \<Rightarrow> gen \<Rightarrow> gen" where
  "on_code f g = g\<lparr>g_code := f (g_code g)\<rparr>"

definition from_code :: "(lin \<Rightarrow> addr \<times> lin) \<Rightarrow> gen \<Rightarrow> addr \<times> gen" where
  "from_code f g = (let (r, c) = f (g_code g) in (r, g\<lparr>g_code := c\<rparr>))"

definition on_flow :: "(entrypoint \<Rightarrow> lin \<Rightarrow> entrypoint \<times> lin) \<Rightarrow> gen \<Rightarrow> gen" where
  "on_flow f g = (let (e, c) = f (g_ep g) (g_code g) in g\<lparr>g_ep := e, g_code := c\<rparr>)"

definition emit :: "addr \<Rightarrow> gen \<Rightarrow> gen" where
  "emit i g = on_code (add_one_insn (g_ep g) i) g"

definition goto_block :: "addr \<Rightarrow> gen \<Rightarrow> gen" where
  "goto_block b = on_flow (\<lambda>ep. add_goto ep b)"

definition activate :: "addr \<Rightarrow> gen \<Rightarrow> gen" where
  "activate b = on_flow (\<lambda>ep. set_activeblock ep b)"

definition branch_on :: "addr \<Rightarrow> addr \<Rightarrow> addr \<Rightarrow> gen \<Rightarrow> gen" where
  "branch_on c bt bf g = on_code (add_branch (g_ep g) c bt bf) g"

definition gen_symbol :: "symref option \<Rightarrow> gen \<Rightarrow> addr \<times> gen" where
  "gen_symbol s g = (let (p, e, c) = symbol_pseudo (g_ep g) s (g_code g) in (p, g\<lparr>g_ep := e, g_code := c\<rparr>))"

definition new_block :: "gen \<Rightarrow> addr \<times> gen" where
  "new_block = from_code alloc_basic_block"

definition gen_value :: "u64 \<Rightarrow> gen \<Rightarrow> addr \<times> gen" where
  "gen_value v = from_code (value_pseudo v)"

text \<open>A phi source in the active block, which must exist.\<close>

definition phi_here :: "addr \<Rightarrow> nat \<Rightarrow> gen \<Rightarrow> (addr \<times> gen) option" where
  "phi_here p sz g = (if g_active g = NULL then None else Some (from_code (alloc_phi (g_active g) p sz) g))"

text \<open>A new register for the result of an instruction.\<close>

definition result_of :: "addr \<Rightarrow> gen \<Rightarrow> addr \<times> gen" where
  "result_of i g =
     (let (t, g1) = from_code (alloc_pseudo i) g in (t, on_code (upd_insn i (\<lambda>x. x\<lparr>i_target := t\<rparr>)) g1))"

text \<open>\<open>use_pseudo\<close> for the operands, one after the other.\<close>

definition operands :: "addr \<Rightarrow> (addr \<times> place) list \<Rightarrow> gen \<Rightarrow> gen" where
  "operands i ps = on_code (fold (\<lambda>(p, pl). use_pseudo i p pl) ps)"

text \<open>An instruction with a type, a result and operands, put into the active block.\<close>

definition add_typed :: "lin_opcode \<Rightarrow> symref option \<Rightarrow> (addr \<Rightarrow> (addr \<times> place) list) \<Rightarrow> gen \<Rightarrow> addr \<times> gen" where
  "add_typed op ty ps g =
     (let (i, g1) = from_code (alloc_typed_instruction op ty) g; (t, g2) = result_of i g1
      in (t, emit i (operands i (ps i) g2)))"

section \<open>Instructions\<close>

definition add_binary_op :: "symref option \<Rightarrow> lin_opcode \<Rightarrow> addr \<Rightarrow> addr \<Rightarrow> gen \<Rightarrow> addr \<times> gen" where
  "add_binary_op ty op l r = add_typed op ty (\<lambda>i. [(l, Src1 i), (r, Src2 i)])"

definition add_uniop :: "symref option \<Rightarrow> lin_opcode \<Rightarrow> addr \<Rightarrow> gen \<Rightarrow> addr \<times> gen" where
  "add_uniop ty op s = add_typed op ty (\<lambda>i. [(s, Src1 i)])"

text \<open>A constant that is not an integer: the instruction points to its expression.\<close>

definition add_setval :: "symref option \<Rightarrow> expression \<Rightarrow> gen \<Rightarrow> addr \<times> gen" where
  "add_setval ty e g =
     (let (i, g1) = from_code (alloc_typed_instruction OP_SETVAL ty) g; (t, g2) = result_of i g1;
          g3 = g2\<lparr>g_vals := g_vals g2 @ [e]\<rparr>
      in (t, emit i (on_code (upd_insn i (\<lambda>x. x\<lparr>i_val := length (g_vals g3)\<rparr>)) g3)))"

text \<open>\<open>bits_in_pointer\<close> is a variable of the target.\<close>

definition add_symbol_address :: "nat \<Rightarrow> symref \<Rightarrow> gen \<Rightarrow> addr \<times> gen" where
  "add_symbol_address bip s g =
     (let (i, g1) = from_code (alloc_instruction OP_SYMADDR bip) g; (t, g2) = result_of i g1;
          (p, g3) = gen_symbol (Some s) g2
      in (t, emit i (operands i [(p, Src1 i)] g3)))"

section \<open>Accesses\<close>

record access_data =
  result_type :: "symref option"
  source_type :: "symref option"
  a_address :: addr
  a_offset :: u32
  a_bit_size :: u32
  a_bit_offset :: u32

definition no_access :: access_data where
  "no_access = \<lparr>result_type = None, source_type = None, a_address = NULL, a_offset = 0, a_bit_size = 0, a_bit_offset = 0\<rparr>"

text \<open>The type that holds a bit field. A node has a base type.\<close>

definition base_type_lin :: "symtab \<Rightarrow> symref option \<Rightarrow> symref option option" where
  "base_type_lin tab so =
     (case so of
        None \<Rightarrow> Some None
      | Some s \<Rightarrow>
          (case (if sym_type (tab s) = SYM_NODE then base_of tab s else Some s) of
             None \<Rightarrow> None
           | Some b \<Rightarrow> Some (if sym_type (tab b) = SYM_BITFIELD then base_of tab b else Some s)))"

definition add_load :: "access_data \<Rightarrow> gen \<Rightarrow> addr \<times> gen" where
  "add_load ad g =
     (let (i, g1) = from_code (alloc_typed_instruction OP_LOAD (source_type ad)) g; (t, g2) = result_of i g1;
          g3 = on_code (upd_insn i (\<lambda>x. x\<lparr>i_offset := a_offset ad\<rparr>)) g2
      in (t, emit i (operands i [(a_address ad, Src1 i)] g3)))"

definition add_store :: "access_data \<Rightarrow> addr \<Rightarrow> gen \<Rightarrow> gen" where
  "add_store ad v g =
     (if g_active g = NULL then g
      else
        (let (i, g1) = from_code (alloc_typed_instruction OP_STORE (source_type ad)) g;
             g2 = on_code (upd_insn i (\<lambda>x. x\<lparr>i_offset := a_offset ad\<rparr>)) g1
         in emit i (operands i [(v, Target i), (a_address ad, Src1 i)] g2)))"

text \<open>A store to a bit field keeps the other bits. Shifts by 64 and more are undefined.\<close>

definition merge_bits :: "access_data \<Rightarrow> addr \<Rightarrow> gen \<Rightarrow> (addr \<times> gen) option" where
  "merge_bits ad v g =
     (if unat (a_bit_size ad) < 64 \<and> unat (a_bit_offset ad) < 64 then
        (let (orig, g1) = add_load ad g; k = a_bit_offset ad; m = push_bit (unat (a_bit_size ad)) 1 - 1;
             (new, msk, g2) =
               (if k \<noteq> 0 then
                  (let (s, g2) = gen_value (ucast k) g1; (new, g3) = add_binary_op (source_type ad) OP_SHL v s g2
                   in (new, push_bit (unat k) m, g3))
                else (v, m, g1));
             (nm, g4) = gen_value (not msk) g2; (old, g5) = add_binary_op (source_type ad) OP_AND orig nm g4
         in Some (add_binary_op (source_type ad) OP_OR old new g5))
      else None)"

definition linearize_store_gen :: "addr \<Rightarrow> access_data \<Rightarrow> gen \<Rightarrow> (addr \<times> gen) option" where
  "linearize_store_gen v ad g =
     (if type_size (source_type ad) (g_code g) \<noteq> type_size (result_type ad) (g_code g) then do {
        (s, g1) \<leftarrow> merge_bits ad v g;
        Some (v, add_store ad s g1) }
      else Some (v, add_store ad v g))"

definition linearize_load_gen :: "access_data \<Rightarrow> gen \<Rightarrow> addr \<times> gen" where
  "linearize_load_gen ad g =
     (let (t, g1) = add_load ad g in
      if a_bit_offset ad \<noteq> 0 then
        (let (s, g2) = gen_value (ucast (a_bit_offset ad)) g1 in add_binary_op (source_type ad) OP_LSR t s g2)
      else (t, g1))"

section \<open>The recursive calls\<close>

text \<open>
  The functions that call each other are taken as arguments until the end of the theory, where the
  depth of the calls ties the knot.
\<close>

record calls =
  c_expr :: "expression option \<Rightarrow> gen \<Rightarrow> (addr \<times> gen) option"
  c_cond :: "expression option \<Rightarrow> addr \<Rightarrow> addr \<Rightarrow> gen \<Rightarrow> gen option"
  c_init :: "expression \<Rightarrow> access_data \<Rightarrow> gen \<Rightarrow> (addr \<times> access_data \<times> gen) option"
  c_addr :: "expression \<Rightarrow> access_data \<Rightarrow> gen \<Rightarrow> (access_data \<times> gen) option"
  c_sym :: "symref option \<Rightarrow> gen \<Rightarrow> (addr \<times> gen) option"
  c_stmt :: "statement option \<Rightarrow> gen \<Rightarrow> (addr \<times> gen) option"

section \<open>Addresses\<close>

text \<open>\<open>get_expression_value\<close> on a constant, which expands to itself; a warning is not kept.\<close>

definition constant_offset :: "symtab \<Rightarrow> expression \<Rightarrow> u64 option" where
  "constant_offset tab e =
     map_option fst (get_expression_value_from (\<lambda>e st. Some (e, 0, st)) 0 (e_ctype e) (Some e)
       \<lparr>syms = tab, conservative = False, xwarns = []\<rparr>)"

definition is_value :: "expression \<Rightarrow> bool" where
  "is_value e = (case e_node e of EXPR_VALUE v t \<Rightarrow> True | _ \<Rightarrow> False)"

definition linearize_simple_address :: "calls \<Rightarrow> expression \<Rightarrow> access_data \<Rightarrow> gen \<Rightarrow> (access_data \<times> gen) option" where
  "linearize_simple_address r a ad g =
     (let any = do { (p, g1) \<leftarrow> c_expr r (Some a) g; Some (ad\<lparr>a_address := p\<rparr>, g1) } in
      case e_node a of
        EXPR_SYMBOL s nm \<Rightarrow> do {
          (v, g1) \<leftarrow> c_sym r (Some s) g;
          let (p, g2) = gen_symbol (Some s) g1;
          Some (ad\<lparr>a_address := p\<rparr>, g2) }
      | Binary EXPR_BINOP l x \<Rightarrow>
          (if is_value x \<and> e_op a = op_chr (CHR ''+'') then do {
             k \<leftarrow> constant_offset (g_types g) x;
             c_addr r l (ad\<lparr>a_offset := a_offset ad + ucast k\<rparr>) g }
           else any)
      | _ \<Rightarrow> any)"

text \<open>Without a type, or not an lvalue: the inner result is \<open>None\<close>.\<close>

definition linearize_address_gen :: "calls \<Rightarrow> expression \<Rightarrow> gen \<Rightarrow> (access_data option \<times> gen) option" where
  "linearize_address_gen r e g =
     (case e_ctype e of
        None \<Rightarrow> Some (None, g)
      | Some ty \<Rightarrow> do {
          src \<leftarrow> base_type_lin (g_types g) (Some ty);
          let t = g_types g ty;
          let ad = no_access\<lparr>result_type := Some ty, source_type := src, a_bit_size := word_of_int (bit_size t),
                     a_bit_offset := of_nat (bit_offset t)\<rparr>;
          case e_node e of
            Unary EXPR_PREOP u k \<Rightarrow>
              (if e_op e = op_chr (CHR ''*'') then do {
                 (ad1, g1) \<leftarrow> c_addr r u ad g;
                 Some (Some ad1, g1) }
               else Some (None, on_code (lmsg Not_an_lvalue) g))
          | _ \<Rightarrow> Some (None, on_code (lmsg Not_an_lvalue) g) })"

definition linearize_access :: "calls \<Rightarrow> expression \<Rightarrow> gen \<Rightarrow> (addr \<times> gen) option" where
  "linearize_access r e g = do {
     (ado, g1) \<leftarrow> linearize_address_gen r e g;
     Some (case ado of None \<Rightarrow> (VOID, g1) | Some ad \<Rightarrow> linearize_load_gen ad g1) }"

section \<open>Operators\<close>

definition linearize_inc_dec :: "calls \<Rightarrow> expression \<Rightarrow> expression \<Rightarrow> u64 \<Rightarrow> bool \<Rightarrow> gen \<Rightarrow> (addr \<times> gen) option" where
  "linearize_inc_dec r e u k postop g = do {
     (ado, g1) \<leftarrow> linearize_address_gen r u g;
     case ado of
       None \<Rightarrow> Some (VOID, g1)
     | Some ad \<Rightarrow> do {
         let (old, g2) = linearize_load_gen ad g1;
         let (one, g3) = gen_value k g2;
         let (new, g4) = add_binary_op (e_ctype e) (if e_op e = SPECIAL_INCREMENT then OP_ADD else OP_SUB) old one g3;
         (v, g5) \<leftarrow> linearize_store_gen new ad g4;
         Some (if postop then old else new, g5) } }"

definition linearize_slice :: "calls \<Rightarrow> expression \<Rightarrow> expression \<Rightarrow> u32 \<Rightarrow> u32 \<Rightarrow> gen \<Rightarrow> (addr \<times> gen) option" where
  "linearize_slice r e b bitpos nrbits g = do {
     (pre, g1) \<leftarrow> c_expr r (Some b) g;
     let (i, g2) = from_code (alloc_typed_instruction OP_SLICE (e_ctype e)) g1;
     let (t, g3) = result_of i g2;
     let g4 = g3\<lparr>g_extra := (g_extra g3)(i := (g_extra g3 i)\<lparr>x_from := bitpos, x_len := nrbits\<rparr>)\<rparr>;
     Some (t, emit i (operands i [(pre, Src1 i)] g4)) }"

definition linearize_regular_preop :: "calls \<Rightarrow> expression \<Rightarrow> expression \<Rightarrow> gen \<Rightarrow> (addr \<times> gen) option" where
  "linearize_regular_preop r e u g = do {
     (pre, g1) \<leftarrow> c_expr r (Some u) g;
     Some (if e_op e = op_chr (CHR ''+'') then (pre, g1)
           else if e_op e = op_chr (CHR ''!'') then
             (let (z, g2) = gen_value 0 g1 in add_binary_op (e_ctype u) OP_SET_EQ pre z g2)
           else if e_op e = op_chr (CHR ''~'') then add_uniop (e_ctype e) OP_NOT pre g1
           else if e_op e = op_chr (CHR ''-'') then add_uniop (e_ctype e) OP_NEG pre g1
           else (VOID, g1)) }"

definition linearize_preop :: "calls \<Rightarrow> expression \<Rightarrow> expression \<Rightarrow> u64 \<Rightarrow> gen \<Rightarrow> (addr \<times> gen) option" where
  "linearize_preop r e u k g =
     (if e_op e = op_chr (CHR ''*'') then linearize_access r e g
      else if e_op e = SPECIAL_INCREMENT \<or> e_op e = SPECIAL_DECREMENT then linearize_inc_dec r e u k False g
      else linearize_regular_preop r e u g)"

definition linearize_postop :: "calls \<Rightarrow> expression \<Rightarrow> expression \<Rightarrow> u64 \<Rightarrow> gen \<Rightarrow> (addr \<times> gen) option" where
  "linearize_postop r e u k g = linearize_inc_dec r e u k True g"

text \<open>The opcode of a cast, from the type cast from. Base types are there where they are followed.\<close>

definition cast_opcode :: "symtab \<Rightarrow> symref \<Rightarrow> lin_opcode option" where
  "cast_opcode tab s = do {
     let op = (if has_mod (mods tab s) MOD_SIGNED then OP_SCAST else OP_CAST);
     b \<leftarrow> (if sym_type (tab s) = SYM_NODE then base_of tab s else Some s);
     (b1, op1) \<leftarrow> (if sym_type (tab b) = SYM_PTR then
                    map_option (\<lambda>x. (x, if x \<noteq> Void_ctype then OP_PTRCAST else op)) (base_of tab b)
                  else Some (b, op));
     Some (if base_of tab b1 = Some Fp_type then OP_FPCAST else op1) }"

definition cast_pseudo :: "addr \<Rightarrow> symref option \<Rightarrow> symref option \<Rightarrow> gen \<Rightarrow> (addr \<times> gen) option" where
  "cast_pseudo p from to g =
     (if p = VOID then Some (VOID, g)
      else
        (case (from, to) of
           (Some f, Some t) \<Rightarrow>
             (if bit_size (g_types g f) < 0 \<or> bit_size (g_types g t) < 0 then Some (VOID, g)
              else do {
                op \<leftarrow> cast_opcode (g_types g) f;
                let (i, g1) = from_code (alloc_typed_instruction op to) g;
                let (res, g2) = result_of i g1;
                let g3 = on_code (upd_insn i (\<lambda>x. x\<lparr>orig_type := from\<rparr>)) g2;
                Some (res, emit i (operands i [(p, Src1 i)] g3)) })
         | _ \<Rightarrow> Some (VOID, g)))"

definition opcode_sign :: "symtab \<Rightarrow> lin_opcode \<Rightarrow> symref option \<Rightarrow> lin_opcode" where
  "opcode_sign tab op ty =
     (if (case ty of None \<Rightarrow> False | Some t \<Rightarrow> has_mod (mods tab t) MOD_SIGNED) then
        (case op of OP_MULU \<Rightarrow> OP_MULS | OP_DIVU \<Rightarrow> OP_DIVS | OP_MODU \<Rightarrow> OP_MODS | OP_LSR \<Rightarrow> OP_ASR | _ \<Rightarrow> op)
      else op)"

text \<open>The table \<open>op_trans\<close>, from \<open>SPECIAL_BASE\<close> on; \<open>None\<close> is outside the array.\<close>

definition op_trans :: "nat \<Rightarrow> lin_opcode option" where
  "op_trans op =
     (if op = SPECIAL_ADD_ASSIGN then Some OP_ADD else if op = SPECIAL_SUB_ASSIGN then Some OP_SUB
      else if op = SPECIAL_MUL_ASSIGN then Some OP_MULU else if op = SPECIAL_DIV_ASSIGN then Some OP_DIVU
      else if op = SPECIAL_MOD_ASSIGN then Some OP_MODU else if op = SPECIAL_SHL_ASSIGN then Some OP_SHL
      else if op = SPECIAL_SHR_ASSIGN then Some OP_LSR else if op = SPECIAL_AND_ASSIGN then Some OP_AND
      else if op = SPECIAL_OR_ASSIGN then Some OP_OR else if op = SPECIAL_XOR_ASSIGN then Some OP_XOR
      else if SPECIAL_BASE \<le> op \<and> op \<le> SPECIAL_SHR_ASSIGN then Some OP_BADOP else None)"

definition linearize_assignment :: "calls \<Rightarrow> expression \<Rightarrow> expression \<Rightarrow> expression \<Rightarrow> gen \<Rightarrow> (addr \<times> gen) option" where
  "linearize_assignment r e target src g = do {
     (value, g1) \<leftarrow> c_expr r (Some src) g;
     (ado, g2) \<leftarrow> linearize_address_gen r target g1;
     case ado of
       None \<Rightarrow> Some (value, g2)
     | Some ad \<Rightarrow>
         (if e_op e = op_chr (CHR ''='') then linearize_store_gen value ad g2
          else do {
            let (old0, g3) = linearize_load_gen ad g2;
            (old, g4) \<leftarrow> cast_pseudo old0 (e_ctype src) (e_ctype e) g3;
            op \<leftarrow> op_trans (e_op e);
            let (dst, g5) = add_binary_op (e_ctype src) (opcode_sign (g_types g4) op (e_ctype src)) old value g4;
            (v, g6) \<leftarrow> cast_pseudo dst (e_ctype e) (e_ctype src) g5;
            linearize_store_gen v ad g6 }) }"

text \<open>The table of \<open>linearize_binop\<close>, with a zero where no operator is.\<close>

definition binop_opcode :: "nat \<Rightarrow> lin_opcode option" where
  "binop_opcode op =
     (if op = op_chr (CHR ''+'') then Some OP_ADD else if op = op_chr (CHR ''-'') then Some OP_SUB
      else if op = op_chr (CHR ''*'') then Some OP_MULU else if op = op_chr (CHR ''/'') then Some OP_DIVU
      else if op = op_chr (CHR ''%'') then Some OP_MODU else if op = op_chr (CHR ''&'') then Some OP_AND
      else if op = op_chr (CHR ''|'') then Some OP_OR else if op = op_chr (CHR ''^'') then Some OP_XOR
      else if op = SPECIAL_LEFTSHIFT then Some OP_SHL else if op = SPECIAL_RIGHTSHIFT then Some OP_LSR
      else if op = SPECIAL_LOGICAL_AND then Some OP_AND_BOOL else if op = SPECIAL_LOGICAL_OR then Some OP_OR_BOOL
      else if op \<le> SPECIAL_RIGHTSHIFT then Some OP_BADOP else None)"

definition linearize_binop :: "calls \<Rightarrow> expression \<Rightarrow> expression \<Rightarrow> expression \<Rightarrow> gen \<Rightarrow> (addr \<times> gen) option" where
  "linearize_binop r e l x g = do {
     (s1, g1) \<leftarrow> c_expr r (Some l) g;
     (s2, g2) \<leftarrow> c_expr r (Some x) g1;
     op \<leftarrow> binop_opcode (e_op e);
     Some (add_binary_op (e_ctype e) (opcode_sign (g_types g2) op (e_ctype e)) s1 s2 g2) }"

definition cmpop :: "nat \<Rightarrow> lin_opcode option" where
  "cmpop op =
     (if op = op_chr (CHR ''>'') then Some OP_SET_GT else if op = op_chr (CHR ''<'') then Some OP_SET_LT
      else if op = SPECIAL_EQUAL then Some OP_SET_EQ else if op = SPECIAL_NOTEQUAL then Some OP_SET_NE
      else if op = SPECIAL_GTE then Some OP_SET_GE else if op = SPECIAL_LTE then Some OP_SET_LE
      else if op = SPECIAL_UNSIGNED_LT then Some OP_SET_B else if op = SPECIAL_UNSIGNED_GT then Some OP_SET_A
      else if op = SPECIAL_UNSIGNED_LTE then Some OP_SET_BE else if op = SPECIAL_UNSIGNED_GTE then Some OP_SET_AE
      else if op \<le> SPECIAL_UNSIGNED_GTE then Some OP_BADOP else None)"

definition linearize_compare :: "calls \<Rightarrow> expression \<Rightarrow> expression \<Rightarrow> expression \<Rightarrow> gen \<Rightarrow> (addr \<times> gen) option" where
  "linearize_compare r e l x g = do {
     (s1, g1) \<leftarrow> c_expr r (Some l) g;
     (s2, g2) \<leftarrow> c_expr r (Some x) g1;
     op \<leftarrow> cmpop (e_op e);
     Some (add_binary_op (e_ctype l) op s1 s2 g2) }"

definition linearize_cast :: "calls \<Rightarrow> expression \<Rightarrow> expression option \<Rightarrow> gen \<Rightarrow> (addr \<times> gen) option" where
  "linearize_cast r e orig g =
     (case orig of
        None \<Rightarrow> Some (VOID, g)
      | Some x \<Rightarrow> do {
          (s, g1) \<leftarrow> c_expr r (Some x) g;
          cast_pseudo s (e_ctype x) (e_ctype e) g1 })"

section \<open>Calls\<close>

text \<open>A pseudo added to a list of operands, and used there.\<close>

definition use_cell :: "addr \<Rightarrow> addr \<Rightarrow> gen \<Rightarrow> addr \<times> gen" where
  "use_cell i p g = (let (c, g1) = from_code (new_cell p) g in (c, operands i [(p, Cell c)] g1))"

definition add_argument :: "addr \<Rightarrow> addr \<Rightarrow> gen \<Rightarrow> gen" where
  "add_argument i p g =
     (let (c, g1) = use_cell i p g in on_code (upd_insn i (\<lambda>x. x\<lparr>i_arguments := i_arguments x @ [c]\<rparr>)) g1)"

definition add_phi_entry :: "addr \<Rightarrow> addr \<Rightarrow> gen \<Rightarrow> gen" where
  "add_phi_entry i p g =
     (let (c, g1) = use_cell i p g in on_code (upd_insn i (\<lambda>x. x\<lparr>phi_list := phi_list x @ [c]\<rparr>)) g1)"

fun call_arguments :: "calls \<Rightarrow> addr \<Rightarrow> expression list \<Rightarrow> gen \<Rightarrow> gen option" where
  "call_arguments r i [] g = Some g"
| "call_arguments r i (a # as) g = do {
     (p, g1) \<leftarrow> c_expr r (Some a) g;
     call_arguments r i as (add_argument i p g1) }"

text \<open>The changes of context that the type of the function declares.\<close>

definition add_call_context :: "sym_context \<Rightarrow> gen \<Rightarrow> gen" where
  "add_call_context cx g =
     (let check0 = sint (c_in cx) < 0; inn = (if check0 then 0 else c_in cx);
          check = (check0 \<and> \<not> sint (c_out cx) < 0); out = (if sint (c_out cx) < 0 then 0 else c_out cx)
      in if check \<or> out - inn \<noteq> 0 then
           (let (i, g1) = from_code (alloc_instruction OP_CONTEXT 0) g
            in emit i (g1\<lparr>g_extra := (g_extra g1)(i := (g_extra g1 i)\<lparr>x_increment := out - inn, x_check := check,
                 x_context := cx_expr cx\<rparr>)\<rparr>))
         else g)"

text \<open>\<open>*f\<close> of a function is the function.\<close>

definition called_function :: "symtab \<Rightarrow> expression \<Rightarrow> expression option" where
  "called_function tab fn =
     (case e_node fn of
        Unary EXPR_PREOP u k \<Rightarrow>
          (case e_node u of
             EXPR_SYMBOL s nm \<Rightarrow> map_option (\<lambda>b. if sym_type (tab b) = SYM_FN then u else fn) (base_of tab s)
           | _ \<Rightarrow> Some fn)
      | _ \<Rightarrow> Some fn)"

definition linearize_call_expression ::
    "calls \<Rightarrow> expression \<Rightarrow> expression \<Rightarrow> expression list list \<Rightarrow> gen \<Rightarrow> (addr \<times> gen) option" where
  "linearize_call_expression r e fn args g =
     (let (i, g1) = from_code (alloc_typed_instruction OP_CALL (e_ctype e)) g in
      case e_ctype e of
        None \<Rightarrow> Some (VOID, on_code (lmsg Call_no_type) g1)
      | Some ty \<Rightarrow> do {
          g2 \<leftarrow> call_arguments r i (entries args) g1;
          let fntype = (case e_ctype fn of None \<Rightarrow> None
                        | Some t \<Rightarrow> if sym_type (g_types g2 t) = SYM_NODE then base_of (g_types g2) t else Some t);
          let g3 = g2\<lparr>g_extra := (g_extra g2)(i := (g_extra g2 i)\<lparr>x_fntype := fntype\<rparr>)\<rparr>;
          f \<leftarrow> called_function (g_types g3) fn;
          (c, g4) \<leftarrow> (case e_node f of EXPR_SYMBOL s nm \<Rightarrow> Some (gen_symbol (Some s) g3) | _ \<Rightarrow> c_expr r (Some f) g3);
          let g5 = operands i [(c, Src1 i)] g4;
          let (ret, g6) = (if ty \<noteq> Void_ctype then from_code (alloc_pseudo i) g5 else (VOID, g5));
          let g7 = emit i (on_code (upd_insn i (\<lambda>x. x\<lparr>i_target := ret\<rparr>)) g6);
          Some (ret, case e_ctype fn of None \<Rightarrow> g7
                     | Some t \<Rightarrow> fold add_call_context (entries (contexts (s_ctype (g_types g7 t)))) g7) })"

section \<open>Conditions\<close>

definition linearize_select ::
    "calls \<Rightarrow> expression \<Rightarrow> expression \<Rightarrow> expression option \<Rightarrow> expression option \<Rightarrow> gen \<Rightarrow> (addr \<times> gen) option" where
  "linearize_select r e c t f g = do {
     (pt, g1) \<leftarrow> c_expr r t g;
     (pf, g2) \<leftarrow> c_expr r f g1;
     (pc, g3) \<leftarrow> c_expr r (Some c) g2;
     let (i, g4) = from_code (alloc_typed_instruction OP_SEL (e_ctype e)) g3;
     let g5 = operands i [(pc, Src1 i), (if t = None then pc else pt, Src2 i), (pf, Src3 i)] g4;
     let (res, g6) = result_of i g5;
     Some (res, emit i g6) }"

definition add_join_conditional :: "expression \<Rightarrow> addr \<Rightarrow> addr \<Rightarrow> gen \<Rightarrow> addr \<times> gen" where
  "add_join_conditional e phi1 phi2 g =
     (if phi1 = VOID then (phi2, g)
      else if phi2 = VOID then (phi1, g)
      else
        (let (i, g1) = from_code (alloc_typed_instruction OP_PHI (e_ctype e)) g;
             g2 = add_phi_entry i phi2 (add_phi_entry i phi1 g1); (t, g3) = result_of i g2
         in (t, emit i g3)))"

definition linearize_short_conditional ::
    "calls \<Rightarrow> expression \<Rightarrow> expression \<Rightarrow> expression option \<Rightarrow> gen \<Rightarrow> (addr \<times> gen) option" where
  "linearize_short_conditional r e c f g =
     (let (merge, g1) = new_block g; sz = type_size (e_ctype e) (g_code g1) in
      if f = None \<or> g_active g1 = NULL then Some (VOID, g1)
      else do {
        let (bf, g2) = new_block g1;
        (s1, g3) \<leftarrow> c_expr r (Some c) g2;
        (phi1, g4) \<leftarrow> phi_here s1 sz g3;
        let g5 = activate bf (branch_on s1 merge bf g4);
        (s2, g6) \<leftarrow> c_expr r f g5;
        (phi2, g7) \<leftarrow> phi_here s2 sz g6;
        Some (add_join_conditional e phi1 phi2 (activate merge g7)) })"

definition linearize_conditional ::
    "calls \<Rightarrow> expression \<Rightarrow> expression \<Rightarrow> expression option \<Rightarrow> expression option \<Rightarrow> gen \<Rightarrow> (addr \<times> gen) option" where
  "linearize_conditional r e c t f g =
     (let sz = type_size (e_ctype e) (g_code g) in
      if t = None \<or> f = None \<or> g_active g = NULL then Some (VOID, g)
      else do {
        let (bt, g1) = new_block g;
        let (bf, g2) = new_block g1;
        let (merge, g3) = new_block g2;
        g4 \<leftarrow> c_cond r (Some c) bt bf g3;
        (s1, g5) \<leftarrow> c_expr r t (activate bt g4);
        (phi1, g6) \<leftarrow> phi_here s1 sz g5;
        (s2, g7) \<leftarrow> c_expr r f (activate bf (goto_block merge g6));
        (phi2, g8) \<leftarrow> phi_here s2 sz g7;
        Some (add_join_conditional e phi1 phi2 (activate merge g8)) })"

definition linearize_logical ::
    "calls \<Rightarrow> expression \<Rightarrow> expression \<Rightarrow> expression \<Rightarrow> gen \<Rightarrow> (addr \<times> gen) option" where
  "linearize_logical r e l x g =
     (let is_or = (e_op e = SPECIAL_LOGICAL_OR);
          shortcut = Expr 0 0 (e_pos e) (e_ctype e) (EXPR_VALUE (if is_or then 1 else 0) 0)
      in if is_or then linearize_conditional r e l (Some shortcut) (Some x) g
         else linearize_conditional r e l (Some x) (Some shortcut) g)"

definition linearize_logical_branch ::
    "calls \<Rightarrow> expression \<Rightarrow> expression \<Rightarrow> expression \<Rightarrow> addr \<Rightarrow> addr \<Rightarrow> gen \<Rightarrow> gen option" where
  "linearize_logical_branch r e l x bt bf g = do {
     let (next, g1) = new_block g;
     g2 \<leftarrow> (if e_op e = SPECIAL_LOGICAL_OR then c_cond r (Some l) bt next g1 else c_cond r (Some l) next bf g1);
     c_cond r (Some x) bt bf (activate next g2) }"

text \<open>A \<open>long double\<close> is not zero: a bit other than the sign.\<close>

definition fvalue_true :: "ldouble \<Rightarrow> bool" where
  "fvalue_true v = (take_bit 79 v \<noteq> 0)"

text \<open>The member \<open>value\<close> of a string is the pointer to its text.\<close>

definition linearize_cond_branch :: "calls \<Rightarrow> expression option \<Rightarrow> addr \<Rightarrow> addr \<Rightarrow> gen \<Rightarrow> gen option" where
  "linearize_cond_branch r eo bt bf g =
     (case eo of
        None \<Rightarrow> Some g
      | Some e \<Rightarrow>
          (let any = do { (c, g1) \<leftarrow> c_expr r (Some e) g; Some (branch_on c bt bf g1) } in
           if g_active g = NULL then Some g
           else
             (case e_node e of
                EXPR_STRING w s \<Rightarrow> Some (goto_block bt g)
              | EXPR_VALUE v t \<Rightarrow> Some (goto_block (if v \<noteq> 0 then bt else bf) g)
              | EXPR_FVALUE v \<Rightarrow> Some (goto_block (if fvalue_true v then bt else bf) g)
              | Binary EXPR_LOGICAL l x \<Rightarrow> linearize_logical_branch r e l x bt bf g
              | Binary EXPR_COMPARE l x \<Rightarrow> do {
                  (c, g1) \<leftarrow> linearize_compare r e l x g;
                  Some (branch_on c bt bf g1) }
              | Unary EXPR_PREOP u k \<Rightarrow> if e_op e = op_chr (CHR ''!'') then c_cond r (Some u) bf bt g else any
              | _ \<Rightarrow> any)))"

section \<open>Initialisers and expressions\<close>

text \<open>What an access knows of its place is kept from one entry to the next.\<close>

fun init_entries :: "calls \<Rightarrow> expression list \<Rightarrow> access_data \<Rightarrow> gen \<Rightarrow> (access_data \<times> gen) option" where
  "init_entries r [] ad g = Some (ad, g)"
| "init_entries r (e # es) ad g = do {
     (v, ad1, g1) \<leftarrow> c_init r e ad g;
     init_entries r es ad1 g1 }"

definition typed_access :: "symref option \<Rightarrow> access_data \<Rightarrow> gen \<Rightarrow> access_data option" where
  "typed_access ty ad g = do {
     src \<leftarrow> base_type_lin (g_types g) ty;
     Some (ad\<lparr>source_type := src, result_type := ty\<rparr>) }"

definition linearize_position ::
    "calls \<Rightarrow> u32 \<Rightarrow> expression \<Rightarrow> access_data \<Rightarrow> gen \<Rightarrow> (addr \<times> access_data \<times> gen) option" where
  "linearize_position r off e ad g = do {
     ad1 \<leftarrow> typed_access (e_ctype e) (ad\<lparr>a_offset := off\<rparr>) g;
     c_init r e ad1 g }"

definition linearize_initializer ::
    "calls \<Rightarrow> expression \<Rightarrow> access_data \<Rightarrow> gen \<Rightarrow> (addr \<times> access_data \<times> gen) option" where
  "linearize_initializer r e ad g =
     (case e_node e of
        EXPR_INITIALIZER l \<Rightarrow> do { (ad1, g1) \<leftarrow> init_entries r (entries l) ad g; Some (VOID, ad1, g1) }
      | EXPR_POS off k x \<Rightarrow> do { (v, ad1, g1) \<leftarrow> linearize_position r off x ad g; Some (VOID, ad1, g1) }
      | _ \<Rightarrow> do {
          (v, g1) \<leftarrow> c_expr r (Some e) g;
          ad1 \<leftarrow> typed_access (e_ctype e) ad g1;
          (w, g2) \<leftarrow> linearize_store_gen v ad1 g1;
          Some (v, ad1, g2) })"

definition linearize_argument :: "symref \<Rightarrow> int \<Rightarrow> gen \<Rightarrow> (addr \<times> gen) option" where
  "linearize_argument a k g =
     (let (p, g1) = gen_symbol (Some a) g; (v, g2) = from_code (argument_pseudo (g_ep g1) k) g1
      in linearize_store_gen v (no_access\<lparr>source_type := Some a, result_type := Some a, a_address := p\<rparr>) g2)"

definition linearize_expression :: "nat \<Rightarrow> calls \<Rightarrow> expression option \<Rightarrow> gen \<Rightarrow> (addr \<times> gen) option" where
  "linearize_expression bip r eo g =
     (case eo of
        None \<Rightarrow> Some (VOID, g)
      | Some e \<Rightarrow>
          (case e_node e of
             EXPR_SYMBOL s nm \<Rightarrow> do { (v, g1) \<leftarrow> c_sym r (Some s) g; Some (add_symbol_address bip s g1) }
           | EXPR_VALUE v t \<Rightarrow> Some (gen_value v g)
           | EXPR_STRING w s \<Rightarrow> Some (add_setval (e_ctype e) e g)
           | EXPR_FVALUE v \<Rightarrow> Some (add_setval (e_ctype e) e g)
           | EXPR_LABEL s \<Rightarrow> Some (add_setval (e_ctype e) e g)
           | EXPR_STATEMENT s \<Rightarrow> c_stmt r (Some s) g
           | EXPR_CALL fn args \<Rightarrow> linearize_call_expression r e fn args g
           | Binary EXPR_BINOP l x \<Rightarrow> linearize_binop r e l x g
           | Binary EXPR_LOGICAL l x \<Rightarrow> linearize_logical r e l x g
           | Binary EXPR_COMPARE l x \<Rightarrow> linearize_compare r e l x g
           | Binary EXPR_COMMA l x \<Rightarrow> do { (v, g1) \<leftarrow> c_expr r (Some l) g; c_expr r (Some x) g1 }
           | Binary EXPR_ASSIGNMENT l x \<Rightarrow> linearize_assignment r e l x g
           | Cond EXPR_SELECT c t f \<Rightarrow> linearize_select r e c t f g
           | Cond EXPR_CONDITIONAL c t f \<Rightarrow>
               if t = None then linearize_short_conditional r e c f g else linearize_conditional r e c t f g
           | Unary EXPR_PREOP u k \<Rightarrow> linearize_preop r e u k g
           | Unary EXPR_POSTOP u k \<Rightarrow> linearize_postop r e u k g
           | Cast ct s x \<Rightarrow>
               if ct \<in> {EXPR_CAST, EXPR_FORCE_CAST, EXPR_IMPLIED_CAST} then linearize_cast r e x g
               else Some (VOID, on_code (lmsg Unknown_expression) g)
           | EXPR_SLICE b from len \<Rightarrow> linearize_slice r e b from len g
           | EXPR_INITIALIZER l \<Rightarrow> Some (VOID, on_code (lmsg Unexpected_initializer) g)
           | EXPR_POS off k x \<Rightarrow> Some (VOID, on_code (lmsg Unexpected_initializer) g)
           | _ \<Rightarrow> Some (VOID, on_code (lmsg Unknown_expression) g)))"

definition linearize_one_symbol :: "calls \<Rightarrow> symref option \<Rightarrow> gen \<Rightarrow> (addr \<times> gen) option" where
  "linearize_one_symbol r so g =
     (case so of
        None \<Rightarrow> Some (VOID, g)
      | Some s \<Rightarrow>
          (case initializer (g_types g s) of
             None \<Rightarrow> Some (VOID, g)
           | Some e \<Rightarrow>
               if g_init g s \<or> has_mod (mods (g_types g) s) (or MOD_STATIC MOD_TOPLEVEL) then Some (VOID, g)
               else do {
                 let (p, g1) = gen_symbol (Some s) (g\<lparr>g_init := (g_init g)(s := True)\<rparr>);
                 (v, ad, g2) \<leftarrow> c_init r e (no_access\<lparr>a_address := p\<rparr>) g1;
                 Some (v, g2) }))"

section \<open>Statements\<close>

fun each_statement :: "calls \<Rightarrow> statement list \<Rightarrow> addr \<Rightarrow> gen \<Rightarrow> (addr \<times> gen) option" where
  "each_statement r [] p g = Some (p, g)"
| "each_statement r (s # ss) p g = do { (q, g1) \<leftarrow> c_stmt r (Some s) g; each_statement r ss q g1 }"

definition label_here :: "symref \<Rightarrow> gen \<Rightarrow> addr \<times> gen" where
  "label_here l g = (let (b, e, c) = add_label (g_ep g) l (g_code g) in (b, g\<lparr>g_ep := e, g_code := c\<rparr>))"

text \<open>The value of a block with a return label is what its phi node joins.\<close>

definition linearize_compound_statement ::
    "calls \<Rightarrow> statement list \<Rightarrow> symref option \<Rightarrow> gen \<Rightarrow> (addr \<times> gen) option" where
  "linearize_compound_statement r ss ret g = do {
     (p, g1) \<leftarrow> each_statement r ss VOID g;
     case ret of
       None \<Rightarrow> Some (p, g1)
     | Some l \<Rightarrow>
         (let (b, g2) = label_here l g1; c = g_code g2 in
          case b_insns (bbs c b) of
            [] \<Rightarrow> Some (p, g2)
          | i # _ \<Rightarrow>
              (case phi_list (insns c i) of
                 [x] \<Rightarrow>
                   (let phi = cells c x in
                    if ptype c phi = PSEUDO_PHI then Some (src1 (insns c (p_def (pseudos c phi))), g2) else None)
               | _ \<Rightarrow> Some (i_target (insns c i), g2))) }"

fun inlined_arguments :: "calls \<Rightarrow> addr \<Rightarrow> symref list \<Rightarrow> gen \<Rightarrow> gen option" where
  "inlined_arguments r i [] g = Some g"
| "inlined_arguments r i (s # ss) g = do {
     (p, g1) \<leftarrow> c_sym r (Some s) g;
     inlined_arguments r i ss (add_argument i p g1) }"

text \<open>The arguments of an inlined call are a declaration.\<close>

definition linearize_inlined_call ::
    "calls \<Rightarrow> statement list \<Rightarrow> symref option \<Rightarrow> symref \<Rightarrow> statement option \<Rightarrow> gen \<Rightarrow> (addr \<times> gen) option" where
  "linearize_inlined_call r ss ret fn args g =
     (let (i, g1) = from_code (alloc_instruction OP_INLINED_CALL 0) g in do {
        g2 \<leftarrow> (case args of
                None \<Rightarrow> Some g1
              | Some a \<Rightarrow>
                  (case s_node a of
                     STMT_DECLARATION ds \<Rightarrow> inlined_arguments r i ds (g1\<lparr>g_syms := g_syms g1 @ ds\<rparr>)
                   | _ \<Rightarrow> None));
        (p, g3) \<leftarrow> linearize_compound_statement r ss ret g2;
        let g4 = on_code (upd_insn i (\<lambda>x. x\<lparr>i_target := p\<rparr>)) g3;
        let (f, g5) = gen_symbol (Some fn) g4;
        Some (p, emit i (operands i [(f, Src1 i)] g5)) })"

definition linearize_context :: "expression \<Rightarrow> expression option \<Rightarrow> gen \<Rightarrow> addr \<times> gen" where
  "linearize_context e cx g =
     (let (i, g1) = from_code (alloc_instruction OP_CONTEXT 0) g;
          v = (case e_node e of EXPR_VALUE v t \<Rightarrow> ucast v | _ \<Rightarrow> 0)
      in (VOID, emit i (g1\<lparr>g_extra := (g_extra g1)(i := (g_extra g1 i)\<lparr>x_increment := v, x_context := cx\<rparr>)\<rparr>)))"

definition linearize_range ::
    "calls \<Rightarrow> expression option \<Rightarrow> expression option \<Rightarrow> expression option \<Rightarrow> gen \<Rightarrow> (addr \<times> gen) option" where
  "linearize_range r e low high g =
     (let (i, g1) = from_code (alloc_instruction OP_RANGE 0) g in do {
        (p1, g2) \<leftarrow> c_expr r e g1;
        (p2, g3) \<leftarrow> c_expr r low (operands i [(p1, Src1 i)] g2);
        (p3, g4) \<leftarrow> c_expr r high (operands i [(p2, Src2 i)] g3);
        Some (VOID, emit i (operands i [(p3, Src3 i)] g4)) })"

section \<open>Inline assembly\<close>

definition string_of :: "expression option \<Rightarrow> string option" where
  "string_of eo =
     (case eo of None \<Rightarrow> Some [] | Some e \<Rightarrow> (case e_node e of EXPR_STRING w s \<Rightarrow> Some s | _ \<Rightarrow> None))"

definition add_asm_input ::
    "calls \<Rightarrow> addr \<Rightarrow> expression option \<Rightarrow> string \<Rightarrow> string option \<Rightarrow> gen \<Rightarrow> gen option" where
  "add_asm_input r i e constraint nm g = do {
     (p, g1) \<leftarrow> c_expr r e g;
     let (c, g2) = use_cell i p g1;
     let g3 = g2\<lparr>g_rules := (g_rules g2)(c := (constraint, nm))\<rparr>;
     Some (on_code (upd_insn i (\<lambda>x. x\<lparr>asm_inputs := asm_inputs x @ [c]\<rparr>)) g3) }"

definition add_asm_output ::
    "calls \<Rightarrow> addr \<Rightarrow> expression option \<Rightarrow> string \<Rightarrow> string option \<Rightarrow> gen \<Rightarrow> gen option" where
  "add_asm_output r i eo constraint nm g =
     (let (p, g1) = from_code (alloc_pseudo i) g in
      case eo of
        None \<Rightarrow> Some g1
      | Some e \<Rightarrow> do {
          (ado, g2) \<leftarrow> linearize_address_gen r e g1;
          case ado of
            None \<Rightarrow> Some g2
          | Some ad \<Rightarrow> do {
              (v, g3) \<leftarrow> linearize_store_gen p ad g2;
              let (c, g4) = use_cell i p g3;
              let g5 = g4\<lparr>g_rules := (g_rules g4)(c := (constraint, nm))\<rparr>;
              Some (on_code (upd_insn i (\<lambda>x. x\<lparr>asm_outputs := asm_outputs x @ [c]\<rparr>)) g5) } })"

text \<open>
  The lists of operands have, in turn, a name, a constraint and an expression; the loop counts the
  three. \<open>Inl\<close> is a name, \<open>Inr\<close> an expression.
\<close>

fun asm_operands ::
    "(expression option \<Rightarrow> string \<Rightarrow> string option \<Rightarrow> gen \<Rightarrow> gen option) \<Rightarrow> nat \<Rightarrow> string option \<Rightarrow> string
     \<Rightarrow> (string option + expression option) list \<Rightarrow> gen \<Rightarrow> gen option" where
  "asm_operands f k nm constraint [] g = Some g"
| "asm_operands f k nm constraint (x # xs) g =
     (if k = 0 then (case x of Inl n \<Rightarrow> asm_operands f 1 n constraint xs g | Inr e \<Rightarrow> None)
      else
        (case x of
           Inl n \<Rightarrow> None
         | Inr e \<Rightarrow>
             if k = 1 then do { s \<leftarrow> string_of e; asm_operands f 2 nm s xs g }
             else do { g1 \<leftarrow> f e constraint nm g; asm_operands f 0 nm constraint xs g1 }))"

definition linearize_asm_statement ::
    "calls \<Rightarrow> expression option \<Rightarrow> (string option + expression option) list \<Rightarrow> (string option + expression option) list
     \<Rightarrow> gen \<Rightarrow> (addr \<times> gen) option" where
  "linearize_asm_statement r e outs ins g =
     (let (i, g1) = from_code (alloc_instruction OP_ASM 0) g in
      case (case e of None \<Rightarrow> None | Some x \<Rightarrow> string_of (Some x)) of
        None \<Rightarrow> Some (VOID, on_code (lmsg Expected_asm_string) g1)
      | Some s \<Rightarrow> do {
          let g2 = g1\<lparr>g_extra := (g_extra g1)(i := (g_extra g1 i)\<lparr>x_string := s\<rparr>)\<rparr>;
          g3 \<leftarrow> asm_operands (add_asm_input r i) 0 None [] ins g2;
          g4 \<leftarrow> asm_operands (add_asm_output r i) 0 None [] outs (emit i g3);
          Some (VOID, g4) })"

section \<open>Jumps\<close>

text \<open>The order of the cases of a switch; the default has its begin after its end.\<close>

definition multijmp_cmp :: "multijmp \<Rightarrow> multijmp \<Rightarrow> int" where
  "multijmp_cmp a b =
     (if jmp_begin a > jmp_end a then (if jmp_begin b > jmp_end b then 0 else 1)
      else if jmp_begin b > jmp_end b then -1
      else if jmp_begin a = jmp_begin b then
        (if jmp_end a = jmp_end b then 0 else if jmp_end a < jmp_end b then -1 else 1)
      else if jmp_begin a < jmp_begin b then -1 else 1)"

text \<open>The list was built entry by entry.\<close>

definition sort_switch_cases :: "addr \<Rightarrow> lin \<Rightarrow> lin" where
  "sort_switch_cases i =
     upd_insn i (\<lambda>x. x\<lparr>multijmps := entries (sort_list multijmp_cmp (foldl add_ptr_list [] (multijmps x)))\<rparr>)"

text \<open>\<open>add_multijmp\<close> and the edge, from the block \<open>b\<close> in the list of parents and \<open>c\<close> in that of children.\<close>

definition add_jump :: "addr \<Rightarrow> addr \<Rightarrow> addr \<Rightarrow> multijmp \<Rightarrow> gen \<Rightarrow> gen" where
  "add_jump i b c j =
     on_code (add_child c (jmp_target j) \<circ> add_parent (jmp_target j) b
       \<circ> upd_insn i (\<lambda>x. x\<lparr>multijmps := multijmps x @ [j]\<rparr>))"

definition label_block :: "symref \<Rightarrow> gen \<Rightarrow> addr \<times> gen" where
  "label_block l = from_code (get_bound_block l)"

text \<open>The value of a case label as an \<open>int\<close>; other expressions have no such member.\<close>

definition case_value :: "expression \<Rightarrow> int option" where
  "case_value e = (case e_node e of EXPR_VALUE v t \<Rightarrow> Some (sint (ucast v :: u32)) | _ \<Rightarrow> None)"

definition case_range :: "expression \<Rightarrow> expression option \<Rightarrow> (int \<times> int) option" where
  "case_range e to = do {
     x \<leftarrow> case_value e;
     y \<leftarrow> (case to of None \<Rightarrow> Some x | Some t \<Rightarrow> case_value t);
     Some (if x > y then (y, x) else (x, y)) }"

text \<open>The cases of a switch; \<open>d\<close> is the block of the default label, or NULL.\<close>

fun switch_cases :: "addr \<Rightarrow> addr \<Rightarrow> symref list \<Rightarrow> addr \<Rightarrow> gen \<Rightarrow> (addr \<times> gen) option" where
  "switch_cases i b [] d g = Some (d, g)"
| "switch_cases i b (s # ss) d g =
     (let (c, g1) = label_block s g in
      case map_option s_node (s_stmt (g_types g s)) of
        Some (STMT_CASE None to st l) \<Rightarrow> switch_cases i b ss c g1
      | Some (STMT_CASE (Some e) to st l) \<Rightarrow> do {
          (x, y) \<leftarrow> case_range e to;
          switch_cases i b ss d (add_jump i b b (alloc_multijmp c x y) g1) }
      | _ \<Rightarrow> None)"

definition linearize_switch ::
    "calls \<Rightarrow> expression option \<Rightarrow> statement option \<Rightarrow> symref \<Rightarrow> symref \<Rightarrow> gen \<Rightarrow> (addr \<times> gen) option" where
  "linearize_switch r e body brk cs g =
     (let (switch_end, g1) = new_block g in do {
        (p, g2) \<leftarrow> c_expr r e g1;
        let b = g_active g2;
        if b = NULL then Some (VOID, g2)
        else do {
          let (i, g3) = from_code (alloc_instruction OP_SWITCH 0) g2;
          let g4 = emit i (operands i [(p, Target i)] g3);
          let g5 = g4\<lparr>g_ep := finish_block (g_ep g4)\<rparr>;
          (d, g6) \<leftarrow> switch_cases i b (symbol_list (g_types g5 cs)) NULL g5;
          (v, g7) \<leftarrow> c_stmt r body (on_code (bind_label brk switch_end) g6);
          let g8 = activate switch_end g7;
          let g9 = add_jump i b b (alloc_multijmp (if d = NULL then switch_end else d) 1 0) g8;
          Some (VOID, on_code (sort_switch_cases i) g9) } })"

definition linearize_iterator ::
    "calls \<Rightarrow> symref \<Rightarrow> symref \<Rightarrow> symref list \<Rightarrow> statement option \<Rightarrow> expression option \<Rightarrow> statement option
     \<Rightarrow> statement option \<Rightarrow> expression option \<Rightarrow> gen \<Rightarrow> (addr \<times> gen) option" where
  "linearize_iterator r brk cont vars pre prec body post postc g = do {
     (v1, g1) \<leftarrow> c_stmt r pre (g\<lparr>g_syms := g_syms g @ vars\<rparr>);
     let (loop_body, g2) = new_block g1;
     let (loop_continue, g3) = new_block g2;
     let (loop_end, g4) = new_block g3;
     let (loop_top, g5) = (if postc = None then (let (t, h) = new_block g4 in (t, activate t h)) else (loop_body, g4));
     g6 \<leftarrow> (if prec = None then Some g5 else c_cond r prec loop_body loop_end g5);
     let g7 = on_code (bind_label brk loop_end) (on_code (bind_label cont loop_continue) g6);
     (v2, g8) \<leftarrow> c_stmt r body (activate loop_body g7);
     let g9 = activate loop_continue (goto_block loop_continue g8);
     (v3, g10) \<leftarrow> c_stmt r post g9;
     g11 \<leftarrow> (if postc = None then Some (goto_block loop_top g10) else c_cond r postc loop_top loop_end g10);
     Some (VOID, activate loop_end g11) }"

text \<open>
  A return value goes to the phi node at the start of the block of the return label. \<open>None\<close>: the
  type of the missing expression would be read.
\<close>

definition linearize_return :: "calls \<Rightarrow> expression option \<Rightarrow> symref \<Rightarrow> gen \<Rightarrow> (addr \<times> gen) option" where
  "linearize_return r eo l g =
     (let (b, g1) = label_block l g in do {
        (s, g2) \<leftarrow> c_expr r eo g1;
        let a = g_active g2;
        g3 \<leftarrow> (if a \<noteq> NULL \<and> s \<noteq> VOID then do {
                 e \<leftarrow> eo;
                 let (i, g3) =
                   (case b_insns (bbs (g_code g2) b) of
                      i # _ \<Rightarrow> (i, g2)
                    | [] \<Rightarrow>
                        (let (i, h1) = from_code (alloc_typed_instruction OP_PHI (e_ctype e)) g2; (t, h2) = result_of i h1
                         in (i, on_code (add_instruction b i \<circ> set_insn_bb i b) h2)));
                 (phi, g4) \<leftarrow> phi_here s (type_size (e_ctype e) (g_code g3)) g3;
                 let g5 = on_code (upd_pseudo phi (\<lambda>x. x\<lparr>p_ident := Some ''return''\<rparr>)) g4;
                 Some (add_phi_entry i phi g5) }
               else Some g2);
        Some (VOID, goto_block b g3) })"

text \<open>
  The targets of a computed goto. The parent noted is the active block after the expression, the
  block that gets the children the one before it.
\<close>

fun computed_targets :: "addr \<Rightarrow> addr \<Rightarrow> symref list \<Rightarrow> gen \<Rightarrow> gen" where
  "computed_targets i src [] g = g"
| "computed_targets i src (s # ss) g =
     (let (b, g1) = label_block s g
      in computed_targets i src ss (add_jump i (g_active g1) src (alloc_multijmp b 1 0) g1))"

definition linearize_goto ::
    "calls \<Rightarrow> symref option \<Rightarrow> expression option \<Rightarrow> symref list \<Rightarrow> gen \<Rightarrow> (addr \<times> gen) option" where
  "linearize_goto r l eo targets g =
     (let src = g_active g; jump = (\<lambda>s. let (b, g1) = label_block s g in Some (VOID, goto_block b g1)) in
      if src = NULL then Some (VOID, g)
      else
        (case (l, eo) of
           (Some s, _) \<Rightarrow> jump s
         | (None, None) \<Rightarrow> Some (VOID, g)
         | (None, Some e) \<Rightarrow>
             (case e_node e of
                EXPR_LABEL s \<Rightarrow> jump s
              | _ \<Rightarrow> do {
                  (p, g1) \<leftarrow> c_expr r (Some e) g;
                  let (i, g2) = from_code (alloc_instruction OP_COMPUTEDGOTO 0) g1;
                  let g3 = computed_targets i src targets (emit i (operands i [(p, Target i)] g2));
                  Some (VOID, g3\<lparr>g_ep := finish_block (g_ep g3)\<rparr>) })))"

definition linearize_if ::
    "calls \<Rightarrow> expression option \<Rightarrow> statement option \<Rightarrow> statement option \<Rightarrow> gen \<Rightarrow> (addr \<times> gen) option" where
  "linearize_if r c t f g =
     (let (bt, g1) = new_block g; (bf, g2) = new_block g1 in do {
        g3 \<leftarrow> c_cond r c bt bf g2;
        (v, g4) \<leftarrow> c_stmt r t (activate bt g3);
        if f = None then Some (VOID, activate bf g4)
        else do {
          let (endif, g5) = new_block g4;
          (w, g6) \<leftarrow> c_stmt r f (activate bf (goto_block endif g5));
          Some (VOID, activate endif g6) } })"

fun declare_all :: "calls \<Rightarrow> symref list \<Rightarrow> gen \<Rightarrow> gen option" where
  "declare_all r [] g = Some g"
| "declare_all r (s # ss) g = do { (v, g1) \<leftarrow> c_sym r (Some s) g; declare_all r ss g1 }"

definition linearize_declaration :: "calls \<Rightarrow> symref list \<Rightarrow> gen \<Rightarrow> (addr \<times> gen) option" where
  "linearize_declaration r ds g =
     map_option (\<lambda>g1. (VOID, g1)) (declare_all r ds (g\<lparr>g_syms := g_syms g @ ds\<rparr>))"

definition linearize_statement :: "calls \<Rightarrow> statement option \<Rightarrow> gen \<Rightarrow> (addr \<times> gen) option" where
  "linearize_statement r so g =
     (case so of
        None \<Rightarrow> Some (VOID, g)
      | Some s \<Rightarrow>
          (case s_node s of
             STMT_NONE \<Rightarrow> Some (VOID, g)
           | STMT_DECLARATION ds \<Rightarrow> linearize_declaration r ds g
           | STMT_CONTEXT eo cx \<Rightarrow> map_option (\<lambda>e. linearize_context e cx g) eo
           | STMT_RANGE e low high \<Rightarrow> linearize_range r e low high g
           | STMT_EXPRESSION e cx \<Rightarrow> c_expr r e g
           | STMT_ASM e outs ins clobbers labels \<Rightarrow> linearize_asm_statement r e outs ins g
           | STMT_RETURN e lo \<Rightarrow> (case lo of None \<Rightarrow> None | Some l \<Rightarrow> linearize_return r e l g)
           | STMT_CASE e to body l \<Rightarrow> do {
               (v, g1) \<leftarrow> c_stmt r body (snd (label_here l g));
               Some (VOID, g1) }
           | STMT_LABEL l body \<Rightarrow>
               (if g_used g l then do { (v, g1) \<leftarrow> c_stmt r body (snd (label_here l g)); Some (VOID, g1) }
                else Some (VOID, g))
           | STMT_GOTO l e targets \<Rightarrow> linearize_goto r l e targets g
           | STMT_COMPOUND ss ret inl args \<Rightarrow>
               (case inl of Some f \<Rightarrow> linearize_inlined_call r ss ret f args g
                | None \<Rightarrow> linearize_compound_statement r ss ret g)
           | STMT_IF c t f \<Rightarrow> linearize_if r c t f g
           | STMT_SWITCH e body brk cs \<Rightarrow> linearize_switch r e body brk cs g
           | STMT_ITERATOR brk cont vars pre prec body post postc \<Rightarrow>
               linearize_iterator r brk cont vars pre prec body post postc g))"

text \<open>The depth of the calls ties the knot.\<close>

primrec knot :: "nat \<Rightarrow> nat \<Rightarrow> calls" where
  "knot bip 0 =
     \<lparr>c_expr = (\<lambda>e g. None), c_cond = (\<lambda>e bt bf g. None), c_init = (\<lambda>e ad g. None), c_addr = (\<lambda>e ad g. None),
      c_sym = (\<lambda>s g. None), c_stmt = (\<lambda>s g. None)\<rparr>"
| "knot bip (Suc n) =
     (let r = knot bip n
      in \<lparr>c_expr = linearize_expression bip r, c_cond = linearize_cond_branch r, c_init = linearize_initializer r,
           c_addr = linearize_simple_address r, c_sym = linearize_one_symbol r, c_stmt = linearize_statement r\<rparr>)"

section \<open>Functions\<close>

fun all_arguments :: "symref list \<Rightarrow> int \<Rightarrow> gen \<Rightarrow> gen option" where
  "all_arguments [] k g = Some g"
| "all_arguments (a # as) k g = do { (v, g1) \<leftarrow> linearize_argument a (k + 1) g; all_arguments as (k + 1) g1 }"

text \<open>The code of a function before the passes: \<open>ty\<close> is its type, \<open>n\<close> the depth.\<close>

definition linearize_body :: "nat \<Rightarrow> nat \<Rightarrow> symref \<Rightarrow> symref \<Rightarrow> gen \<Rightarrow> gen option" where
  "linearize_body bip n s ty g =
     (let (b, g1) = new_block g;
          g2 = activate b (g1\<lparr>g_ep := \<lparr>ep_name = s, accesses = [], ep_bbs = [], active = NULL, ep_entry = NULL\<rparr>, g_syms := []\<rparr>);
          (i, g3) = from_code (alloc_instruction OP_ENTRY 0) g2;
          g4 = emit i g3;
          t = g_types g4 ty;
          g5 = g4\<lparr>g_ep := (g_ep g4)\<lparr>ep_entry := i\<rparr>, g_syms := arguments t\<rparr>
      in do {
        g6 \<leftarrow> all_arguments (arguments t) 0 g5;
        (res, g7) \<leftarrow> c_stmt (knot bip n) (s_stmt t) g6;
        if g_active g7 \<noteq> NULL \<and> \<not> bb_terminated (g_active g7) (g_code g7) then do {
          let ret = base_type (s_ctype t);
          let (i, g8) = from_code (alloc_typed_instruction OP_RET ret) g7;
          let g9 = (if type_size ret (g_code g8) > 0 then operands i [(res, Src1 i)] g8 else g8);
          Some (emit i g9) }
        else Some g7 })"

text \<open>\<open>sa\<close> are the addresses of the symbols, for the common subexpressions.\<close>

partial_function (option) clean_loop :: "(symref option \<Rightarrow> nat) \<Rightarrow> entrypoint \<Rightarrow> lin \<Rightarrow> lin option" where
  "clean_loop sa ep st =
     (case cleanup_and_cse sa ep st of
        None \<Rightarrow> None
      | Some st1 \<Rightarrow>
          (case pack_basic_blocks ep st1 of
             None \<Rightarrow> None
           | Some st2 \<Rightarrow> if and (repeat_phase st2) REPEAT_CSE \<noteq> 0 then clean_loop sa ep st2 else Some st2))"

definition checked :: "entrypoint \<Rightarrow> lin \<Rightarrow> lin option" where
  "checked ep st = (if vrfy_flow ep st then Some st else None)"

text \<open>From the label \<open>repeat\<close> on; a failed check is a failed assertion.\<close>

partial_function (option) repeat_passes ::
    "(symref option \<Rightarrow> nat) \<Rightarrow> entrypoint \<Rightarrow> lin \<Rightarrow> (entrypoint \<times> lin) option" where
  "repeat_passes sa ep st =
     (case (do {
        st1 \<leftarrow> clean_loop sa ep st;
        (ep1, st2) \<leftarrow> kill_unreachable_bbs ep st1;
        st3 \<leftarrow> checked ep1 st2;
        st4 \<leftarrow> track_pseudo_liveness ep1 (clear_symbol_pseudos ep1 st3);
        (again, st5) \<leftarrow> simplify_flow ep1 st4;
        Some (again, ep1, st5) }) of
        None \<Rightarrow> None
      | Some (again, ep1, st5) \<Rightarrow> if again then repeat_passes sa ep1 (clear_liveness ep1 st5) else Some (ep1, st5))"

definition linearize_fn ::
    "(symref option \<Rightarrow> nat) \<Rightarrow> nat \<Rightarrow> bool \<Rightarrow> nat \<Rightarrow> symref \<Rightarrow> symref \<Rightarrow> gen \<Rightarrow> (entrypoint option \<times> gen) option" where
  "linearize_fn sa bip dbg_dead n s ty g =
     (if s_stmt (g_types g ty) = None then Some (None, g)
      else do {
        g1 \<leftarrow> linearize_body bip n s ty g;
        (ep1, st1) \<leftarrow> kill_unreachable_bbs (g_ep g1) (g_code g1);
        st2 \<leftarrow> simplify_symbol_usage ep1 st1;
        (ep2, st3) \<leftarrow> repeat_passes sa ep1 st2;
        st4 \<leftarrow> (if dbg_dead then track_pseudo_death ep2 st3 else Some st3);
        Some (Some ep2, g1\<lparr>g_ep := ep2, g_code := st4\<rparr>) })"

definition linearize_symbol ::
    "(symref option \<Rightarrow> nat) \<Rightarrow> nat \<Rightarrow> bool \<Rightarrow> nat \<Rightarrow> symref option \<Rightarrow> gen \<Rightarrow> (entrypoint option \<times> gen) option" where
  "linearize_symbol sa bip dbg_dead n so g =
     (case so of
        None \<Rightarrow> Some (None, g)
      | Some s \<Rightarrow>
          (case base_of (g_types g) s of
             None \<Rightarrow> Some (None, g)
           | Some ty \<Rightarrow> if sym_type (g_types g ty) = SYM_FN then linearize_fn sa bip dbg_dead n s ty g else Some (None, g)))"

end
