(* ===== verification/Skeleton.thy ===== *)
theory Skeleton
  imports Linearize
begin

text \<open>
  The graph that the builder makes of a function passes the checks of \<open>vrfy_flow\<close>. The proof
  looks at a skeleton of the state: the edges, the instructions of the blocks and their targets.
  Most operations leave it as it is.
\<close>

section \<open>The skeleton\<close>

record skel =
  k_ni :: nat
  k_nb :: nat
  k_par :: "addr \<Rightarrow> addr list"
  k_chi :: "addr \<Rightarrow> addr list"
  k_ins :: "addr \<Rightarrow> addr list"
  k_bb :: "addr \<Rightarrow> addr"
  k_op :: "addr \<Rightarrow> lin_opcode"
  k_tgt :: "addr \<Rightarrow> addr set"
  k_lab :: "symref \<Rightarrow> addr"
  k_act :: addr
  k_bbs :: "addr list"
  k_ent :: addr

definition targets :: "insn \<Rightarrow> addr set" where
  "targets x =
     (if opcode x = OP_BR then {bb_true x, bb_false x} - {NULL}
      else if opcode x \<in> {OP_SWITCH, OP_COMPUTEDGOTO} then jmp_target ` set (multijmps x) - {NULL} else {})"

definition lskel :: "entrypoint \<Rightarrow> lin \<Rightarrow> skel" where
  "lskel ep c =
     \<lparr>k_ni = n_insns c, k_nb = n_bbs c, k_par = (\<lambda>b. parents (bbs c b)), k_chi = (\<lambda>b. children (bbs c b)),
      k_ins = (\<lambda>b. b_insns (bbs c b)), k_bb = (\<lambda>i. i_bb (insns c i)), k_op = (\<lambda>i. opcode (insns c i)),
      k_tgt = (\<lambda>i. targets (insns c i)), k_lab = bb_target c, k_act = active ep, k_bbs = ep_bbs ep,
      k_ent = ep_entry ep\<rparr>"

definition skel :: "gen \<Rightarrow> skel" where
  "skel g = lskel (g_ep g) (g_code g)"

named_theorems quiet

text \<open>What an update of an instruction must keep.\<close>

definition quiet_update :: "(insn \<Rightarrow> insn) \<Rightarrow> bool" where
  "quiet_update f \<longleftrightarrow> (\<forall>x. opcode (f x) = opcode x \<and> i_bb (f x) = i_bb x \<and> targets (f x) = targets x)"

lemma lskel_upd_insn [quiet]: "quiet_update f \<Longrightarrow> lskel ep (upd_insn i f c) = lskel ep c"
  by (auto simp: lskel_def upd_insn_def quiet_update_def fun_eq_iff)

lemma lskel_upd_pseudo [quiet]: "lskel ep (upd_pseudo p f c) = lskel ep c"
  by (simp add: lskel_def upd_pseudo_def)

lemma quiet_updates [quiet]:
  "quiet_update (\<lambda>x. x\<lparr>i_target := t\<rparr>)" "quiet_update (\<lambda>x. x\<lparr>src1 := t\<rparr>)" "quiet_update (\<lambda>x. x\<lparr>src2 := t\<rparr>)"
  "quiet_update (\<lambda>x. x\<lparr>src3 := t\<rparr>)" "quiet_update (\<lambda>x. x\<lparr>i_type := ty\<rparr>)" "quiet_update (\<lambda>x. x\<lparr>i_val := v\<rparr>)"
  "quiet_update (\<lambda>x. x\<lparr>i_offset := w\<rparr>)" "quiet_update (\<lambda>x. x\<lparr>orig_type := ty\<rparr>)"
  "quiet_update (\<lambda>x. x\<lparr>i_arguments := i_arguments x @ [c]\<rparr>)" "quiet_update (\<lambda>x. x\<lparr>phi_list := phi_list x @ [c]\<rparr>)"
  "quiet_update (\<lambda>x. x\<lparr>asm_inputs := asm_inputs x @ [c]\<rparr>)" "quiet_update (\<lambda>x. x\<lparr>asm_outputs := asm_outputs x @ [c]\<rparr>)"
  "quiet_update (\<lambda>x. x\<lparr>arg_list := arg_list x @ [c]\<rparr>)"
  by (simp_all add: quiet_update_def targets_def)

lemma lskel_write_place [quiet]: "lskel ep (write_place pl p c) = lskel ep c"
proof (cases pl)
  case (Cell x5)
  then show ?thesis by (simp add: lskel_def)
qed (simp_all add: quiet)

lemma lskel_use_pseudo [quiet]: "lskel ep (use_pseudo i p pl c) = lskel ep c"
  by (simp add: use_pseudo_def quiet Let_def)

lemma lskel_fields [quiet]:
  "lskel ep (c\<lparr>n_cells := a, cells := b\<rparr>) = lskel ep c" "lskel ep (c\<lparr>n_pseudos := a, pseudos := d\<rparr>) = lskel ep c"
  "lskel ep (c\<lparr>reg_nr := r\<rparr>) = lskel ep c" "lskel ep (c\<lparr>val_hash := h\<rparr>) = lskel ep c"
  "lskel ep (c\<lparr>sym_pseudo := s\<rparr>) = lskel ep c" "lskel ep (lmsg m c) = lskel ep c"
  "lskel (ep\<lparr>accesses := l\<rparr>) c = lskel ep c"
  by (simp_all add: lskel_def lmsg_def)

lemma lskel_new [quiet]:
  "lskel ep (snd (new_pseudo q c)) = lskel ep c" "lskel ep (snd (alloc_pseudo i c)) = lskel ep c"
  "lskel ep (snd (value_pseudo v c)) = lskel ep c" "lskel ep (snd (new_cell p c)) = lskel ep c"
  "lskel ep (snd (argument_pseudo e k c)) = lskel ep c"
  "lskel (fst (snd (symbol_pseudo ep s c))) (snd (snd (symbol_pseudo ep s c))) = lskel ep c"
  by (auto simp: new_pseudo_def alloc_pseudo_def value_pseudo_def new_cell_def argument_pseudo_def symbol_pseudo_def
    Let_def quiet split: option.split)

lemma skel_on_code: "(\<And>ep c. lskel ep (f c) = lskel ep c) \<Longrightarrow> skel (on_code f g) = skel g"
  by (simp add: skel_def on_code_def)

lemma skel_from_code: "(\<And>ep c. lskel ep (snd (f c)) = lskel ep c) \<Longrightarrow> skel (snd (from_code f g)) = skel g"
  by (simp add: skel_def from_code_def case_prod_unfold Let_def)

lemma skel_fold: "(\<And>x ep c. lskel ep (f x c) = lskel ep c) \<Longrightarrow> lskel ep (fold f xs c) = lskel ep c"
  by (induction xs arbitrary: c) simp_all

lemma skel_quiet [quiet]:
  "quiet_update f \<Longrightarrow> skel (on_code (upd_insn i f) g) = skel g"
  "skel (on_code (upd_pseudo p h) g) = skel g"
  "skel (on_code (lmsg m) g) = skel g"
  "skel (operands i ps g) = skel g"
  "skel (snd (gen_value v g)) = skel g"
  "skel (snd (from_code (alloc_pseudo i) g)) = skel g"
  "skel (snd (from_code (new_cell p) g)) = skel g"
  "skel (snd (from_code (argument_pseudo e k) g)) = skel g"
  "skel (snd (gen_symbol s g)) = skel g"
  "skel (g\<lparr>g_extra := x\<rparr>) = skel g" "skel (g\<lparr>g_vals := vs\<rparr>) = skel g" "skel (g\<lparr>g_rules := rs\<rparr>) = skel g"
  "skel (g\<lparr>g_syms := ss\<rparr>) = skel g" "skel (g\<lparr>g_init := is\<rparr>) = skel g"
         apply (rule skel_on_code, simp add: quiet)
        apply (rule skel_on_code, simp add: quiet)
       apply (rule skel_on_code, simp add: quiet)
      apply (simp only: operands_def, rule skel_on_code, rule skel_fold, simp add: quiet case_prod_unfold)
     apply (simp only: gen_value_def, rule skel_from_code, simp add: quiet)
    apply (rule skel_from_code, simp add: quiet)
   apply (rule skel_from_code, simp add: quiet)
  apply (rule skel_from_code, simp add: quiet)
  apply (simp add: gen_symbol_def skel_def case_prod_unfold Let_def quiet)
  apply (simp_all add: skel_def)
  done

lemma skel_result [quiet]:
  "skel (snd (result_of i g)) = skel g" "skel (snd (use_cell i p g)) = skel g"
  "skel (add_argument i p g) = skel g" "skel (add_phi_entry i p g) = skel g"
  by (simp_all add: result_of_def use_cell_def add_argument_def add_phi_entry_def case_prod_unfold Let_def quiet)

section \<open>What the other operations do to the skeleton\<close>

definition s_alloc :: "lin_opcode \<Rightarrow> skel \<Rightarrow> skel" where
  "s_alloc op s = s\<lparr>k_ni := Suc (k_ni s), k_bb := (k_bb s)(k_ni s := NULL), k_op := (k_op s)(k_ni s := op),
     k_tgt := (k_tgt s)(k_ni s := {})\<rparr>"

definition s_block :: "skel \<Rightarrow> skel" where
  "s_block s = s\<lparr>k_nb := Suc (k_nb s), k_par := (k_par s)(k_nb s := []), k_chi := (k_chi s)(k_nb s := []),
     k_ins := (k_ins s)(k_nb s := [])\<rparr>"

definition s_put :: "addr \<Rightarrow> addr \<Rightarrow> skel \<Rightarrow> skel" where
  "s_put b i s = s\<lparr>k_ins := (k_ins s)(b := k_ins s b @ [i]), k_bb := (k_bb s)(i := b)\<rparr>"

definition s_edge :: "addr \<Rightarrow> addr \<Rightarrow> skel \<Rightarrow> skel" where
  "s_edge b c s = s\<lparr>k_par := (k_par s)(c := k_par s c @ [b]), k_chi := (k_chi s)(b := k_chi s b @ [c])\<rparr>"

definition s_targets :: "addr \<Rightarrow> addr set \<Rightarrow> skel \<Rightarrow> skel" where
  "s_targets i ts s = s\<lparr>k_tgt := (k_tgt s)(i := ts - {NULL})\<rparr>"

lemma targets_other: "op \<noteq> OP_BR \<Longrightarrow> op \<noteq> OP_SWITCH \<Longrightarrow> op \<noteq> OP_COMPUTEDGOTO \<Longrightarrow> opcode x = op \<Longrightarrow> targets x = {}"
  by (simp add: targets_def)

lemma lskel_alloc [quiet]:
  "lskel ep (snd (alloc_instruction op sz c)) = s_alloc op (lskel ep c)"
  "lskel ep (snd (alloc_typed_instruction op ty c)) = s_alloc op (lskel ep c)"
  "lskel ep (snd (alloc_basic_block c)) = s_block (lskel ep c)"
  "fst (alloc_instruction op sz c) = n_insns c" "fst (alloc_typed_instruction op ty c) = n_insns c"
  "fst (alloc_basic_block c) = n_bbs c"
proof -
  show a: "lskel ep (snd (alloc_instruction op sz c)) = s_alloc op (lskel ep c)" for sz
    by (auto simp: alloc_instruction_def lskel_def s_alloc_def fun_eq_iff blank_insn_def targets_def)
  show "lskel ep (snd (alloc_typed_instruction op ty c)) = s_alloc op (lskel ep c)"
    by (simp add: alloc_typed_instruction_def case_prod_unfold Let_def a quiet)
  show "lskel ep (snd (alloc_basic_block c)) = s_block (lskel ep c)"
    by (auto simp: alloc_basic_block_def lskel_def s_block_def fun_eq_iff blank_bb_def)
  show "fst (alloc_instruction op sz c) = n_insns c" "fst (alloc_typed_instruction op ty c) = n_insns c"
    "fst (alloc_basic_block c) = n_bbs c"
    by (simp_all add: alloc_instruction_def alloc_typed_instruction_def alloc_basic_block_def case_prod_unfold Let_def)
qed

lemma lskel_put [quiet]: "lskel ep (add_instruction b i (set_insn_bb i b c)) = s_put b i (lskel ep c)"
  by (auto simp: add_instruction_def set_insn_bb_def upd_insn_def upd_bb_def lskel_def s_put_def fun_eq_iff targets_def)

lemma lskel_edge [quiet]: "lskel ep (add_child b d (add_parent d b c)) = s_edge b d (lskel ep c)"
  by (auto simp: add_child_def add_parent_def upd_bb_def lskel_def s_edge_def fun_eq_iff)

lemma lskel_branch_targets [quiet]:
  "k_op (lskel ep c) i = OP_BR \<Longrightarrow>
     lskel ep (upd_insn i (\<lambda>x. x\<lparr>bb_true := d\<rparr>) c) = s_targets i {d, bb_false (insns c i)} (lskel ep c)"
  "k_op (lskel ep c) i = OP_BR \<Longrightarrow>
     lskel ep (upd_insn i (\<lambda>x. x\<lparr>bb_true := d, bb_false := e\<rparr>) c) = s_targets i {d, e} (lskel ep c)"
  by (auto simp: upd_insn_def lskel_def s_targets_def fun_eq_iff targets_def)

lemma lskel_jump [quiet]:
  "k_op (lskel ep c) i \<in> {OP_SWITCH, OP_COMPUTEDGOTO} \<Longrightarrow>
     lskel ep (upd_insn i (\<lambda>x. x\<lparr>multijmps := multijmps x @ [j]\<rparr>) c) =
       s_targets i (insert (jmp_target j) (k_tgt (lskel ep c) i)) (lskel ep c)"
  by (auto simp: upd_insn_def lskel_def s_targets_def fun_eq_iff targets_def)

lemma lskel_phi [quiet]:
  "lskel ep (snd (alloc_phi b p sz c)) = s_put b (n_insns c) (s_alloc OP_PHISOURCE (lskel ep c))"
proof -
  have q: "quiet_update (\<lambda>x. x\<lparr>i_target := t\<rparr>)" for t by (rule quiet)
  have u: "upd_insn i (\<lambda>x. x\<lparr>i_bb := b, i_target := t\<rparr>) d = set_insn_bb i b (upd_insn i (\<lambda>x. x\<lparr>i_target := t\<rparr>) d)" for i t d
    by (cases "insns d i") (simp add: upd_insn_def set_insn_bb_def)
  show ?thesis
    by (simp add: alloc_phi_def case_prod_unfold Let_def u lskel_put lskel_upd_insn [OF q] lskel_use_pseudo lskel_new)
       (simp add: lskel_def alloc_instruction_def s_alloc_def s_put_def blank_insn_def fun_eq_iff targets_def)
qed

lemma skel_alloc [quiet]:
  "skel (snd (from_code (alloc_instruction op sz) g)) = s_alloc op (skel g)"
  "skel (snd (from_code (alloc_typed_instruction op ty) g)) = s_alloc op (skel g)"
  "fst (from_code (alloc_instruction op sz) g) = k_ni (skel g)"
  "fst (from_code (alloc_typed_instruction op ty) g) = k_ni (skel g)"
  "skel (snd (new_block g)) = s_block (skel g)" "fst (new_block g) = k_nb (skel g)"
proof -
  have f: "skel (snd (from_code f g)) = lskel (g_ep g) (snd (f (g_code g)))" "fst (from_code f g) = fst (f (g_code g))" for f
    by (simp_all add: skel_def from_code_def case_prod_unfold Let_def)
  show "skel (snd (from_code (alloc_instruction op sz) g)) = s_alloc op (skel g)"
    "skel (snd (from_code (alloc_typed_instruction op ty) g)) = s_alloc op (skel g)"
    "fst (from_code (alloc_instruction op sz) g) = k_ni (skel g)"
    "fst (from_code (alloc_typed_instruction op ty) g) = k_ni (skel g)"
    "skel (snd (new_block g)) = s_block (skel g)" "fst (new_block g) = k_nb (skel g)"
    by (simp_all add: f new_block_def quiet) (simp_all add: skel_def lskel_def)
qed

lemma k_fields: "k_act (skel g) = g_active g" "k_ni (skel g) = n_insns (g_code g)" "k_nb (skel g) = n_bbs (g_code g)"
  by (simp_all add: skel_def lskel_def)

lemma lskel_active: "lskel (ep\<lparr>active := b\<rparr>) c = (lskel ep c)\<lparr>k_act := b\<rparr>"
  by (simp add: lskel_def)

lemma skel_emit [quiet]: "skel (emit i g) = (if k_act (skel g) = NULL then skel g else s_put (k_act (skel g)) i (skel g))"
  by (simp add: emit_def on_code_def skel_def add_one_insn_def quiet) (simp add: lskel_def)

definition s_goto :: "addr \<Rightarrow> skel \<Rightarrow> skel" where
  "s_goto d s =
     (if k_act s = NULL then s
      else (s_put (k_act s) (k_ni s) (s_edge (k_act s) d (s_targets (k_ni s) {d} (s_alloc OP_BR s))))\<lparr>k_act := NULL\<rparr>)"

definition s_branch :: "addr \<Rightarrow> addr \<Rightarrow> skel \<Rightarrow> skel" where
  "s_branch d e s =
     (if k_act s = NULL then s
      else s_put (k_act s) (k_ni s) (s_edge (k_act s) e (s_edge (k_act s) d (s_targets (k_ni s) {d, e} (s_alloc OP_BR s)))))"

definition s_active :: "addr \<Rightarrow> skel \<Rightarrow> skel" where
  "s_active b s = s\<lparr>k_act := b, k_bbs := (if b \<noteq> NULL then k_bbs s @ [b] else k_bbs s)\<rparr>"

lemma s_put_act: "s_put b i (s\<lparr>k_act := a\<rparr>) = (s_put b i s)\<lparr>k_act := a\<rparr>"
  by (simp add: s_put_def)

lemma s_edge_act: "s_edge b i (s\<lparr>k_act := a\<rparr>) = (s_edge b i s)\<lparr>k_act := a\<rparr>"
  by (simp add: s_edge_def)

lemma lskel_goto: "lskel (fst (add_goto ep d c)) (snd (add_goto ep d c)) = s_goto d (lskel ep c)"
proof (cases "active ep = NULL")
  case True
  then show ?thesis by (simp add: add_goto_def s_goto_def lskel_def)
next
  case False
  let ?c1 = "snd (alloc_instruction OP_BR 0 c)" and ?n = "n_insns c"
  have o: "k_op (lskel ep ?c1) ?n = OP_BR" "bb_false (insns ?c1 ?n) = NULL"
    by (simp_all add: lskel_def alloc_instruction_def blank_insn_def)
  have n: "k_act (lskel ep c) = active ep" "k_ni (lskel ep c) = n_insns c" by (simp_all add: lskel_def)
  have "snd (add_goto ep d c) = add_instruction (active ep) ?n (set_insn_bb ?n (active ep)
      (add_child (active ep) d (add_parent d (active ep) (upd_insn ?n (\<lambda>x. x\<lparr>bb_true := d\<rparr>) ?c1))))"
    "fst (add_goto ep d c) = ep\<lparr>active := NULL\<rparr>"
    using False by (simp_all add: add_goto_def case_prod_unfold Let_def quiet)
  then have "lskel (fst (add_goto ep d c)) (snd (add_goto ep d c)) =
      (s_put (active ep) ?n (s_edge (active ep) d (s_targets ?n {d, NULL} (s_alloc OP_BR (lskel ep c)))))\<lparr>k_act := NULL\<rparr>"
    by (simp add: lskel_active lskel_put lskel_edge lskel_branch_targets(1) [OF o(1)] o(2) lskel_alloc(1) s_put_act s_edge_act)
  moreover have "s_targets ?n {d, NULL} s = s_targets ?n {d} s" for s by (simp add: s_targets_def insert_Diff_if)
  ultimately show ?thesis using False by (simp add: s_goto_def n)
qed

lemma skel_goto [quiet]: "skel (goto_block d g) = s_goto d (skel g)"
  by (simp add: goto_block_def on_flow_def skel_def case_prod_unfold Let_def lskel_goto)

lemma skel_branch [quiet]: "skel (branch_on p d e g) = s_branch d e (skel g)"
proof (cases "g_active g = NULL")
  case True
  then show ?thesis by (simp add: branch_on_def on_code_def add_branch_def s_branch_def k_fields)
next
  case False
  let ?ep = "g_ep g" and ?c = "g_code g"
  let ?n = "n_insns ?c" and ?b = "active ?ep"
  let ?c2 = "use_pseudo ?n p (Target ?n) (snd (alloc_instruction OP_BR 0 ?c))"
  have s: "lskel ?ep ?c2 = s_alloc OP_BR (lskel ?ep ?c)" by (simp add: quiet)
  have o: "k_op (lskel ?ep ?c2) ?n = OP_BR" by (simp add: s) (simp add: s_alloc_def lskel_def)
  have com: "add_child b y (add_child b x (add_parent y b (add_parent x b c))) =
      add_child b y (add_parent y b (add_child b x (add_parent x b c)))" for b x y c
    by (auto simp: add_child_def add_parent_def upd_bb_def fun_eq_iff)
  have "g_code (branch_on p d e g) = add_instruction ?b ?n (set_insn_bb ?n ?b (add_child ?b e (add_parent e ?b
      (add_child ?b d (add_parent d ?b (upd_insn ?n (\<lambda>x. x\<lparr>bb_true := d, bb_false := e\<rparr>) ?c2))))))"
    "g_ep (branch_on p d e g) = ?ep"
    using False by (simp_all add: branch_on_def on_code_def add_branch_def add_one_insn_def case_prod_unfold Let_def quiet com)
  then show ?thesis
    using False by (simp add: skel_def lskel_put lskel_edge lskel_branch_targets(2) [OF o] s s_branch_def)
      (simp add: lskel_def)
qed

lemma skel_activate:
  "skel (activate b g) = s_active b (if bb_terminated (g_active g) (g_code g) then skel g else s_goto b (skel g))"
proof -
  have "lskel (ep\<lparr>active := b, ep_bbs := l\<rparr>) c = (lskel ep c)\<lparr>k_act := b, k_bbs := l\<rparr>" for ep l c
    by (simp add: lskel_def)
  moreover have "k_bbs (lskel ep c) = ep_bbs ep" for ep c by (simp add: lskel_def)
  moreover have "k_bbs (s_goto b s) = k_bbs s" for s
    by (simp add: s_goto_def s_put_def s_edge_def s_targets_def s_alloc_def)
  moreover have "ep_bbs (fst (add_goto ep b c)) = ep_bbs ep" for ep c
    by (simp add: add_goto_def case_prod_unfold Let_def)
  ultimately show ?thesis
    by (simp add: activate_def on_flow_def skel_def set_activeblock_def case_prod_unfold Let_def s_active_def lskel_active
      lskel_goto [symmetric])
qed

lemma skel_finish [quiet]: "skel (g\<lparr>g_ep := finish_block (g_ep g)\<rparr>) = (skel g)\<lparr>k_act := NULL\<rparr>"
  by (simp add: skel_def finish_block_def lskel_def)

lemma skel_phi_here:
  "phi_here p sz g = Some (q, g') \<Longrightarrow>
     k_act (skel g) \<noteq> NULL \<and> skel g' = s_put (k_act (skel g)) (k_ni (skel g)) (s_alloc OP_PHISOURCE (skel g))"
  by (auto simp: phi_here_def from_code_def case_prod_unfold Let_def skel_def lskel_phi split: if_splits)
     (simp_all add: lskel_def)

lemma skel_bind [quiet]: "skel (on_code (bind_label l b) g) = (skel g)\<lparr>k_lab := (k_lab (skel g))(l := b)\<rparr>"
  by (simp add: on_code_def skel_def bind_label_def Let_def) (simp add: lskel_def lmsg_def)

lemma skel_label_block:
  "fst (label_block l g) = (if k_lab (skel g) l \<noteq> NULL then k_lab (skel g) l else k_nb (skel g))"
  "skel (snd (label_block l g)) =
     (if k_lab (skel g) l \<noteq> NULL then skel g
      else (s_block (skel g))\<lparr>k_lab := (k_lab (skel g))(l := k_nb (skel g))\<rparr>)"
proof -
  have b: "lskel ep (snd (alloc_basic_block c)\<lparr>bb_target := f\<rparr>) = (s_block (lskel ep c))\<lparr>k_lab := f\<rparr>" for ep c f
    by (simp add: lskel_alloc(3) [symmetric]) (simp add: lskel_def)
  have l: "bb_target (snd (alloc_basic_block c)) = bb_target c" for c by (simp add: alloc_basic_block_def)
  show "fst (label_block l g) = (if k_lab (skel g) l \<noteq> NULL then k_lab (skel g) l else k_nb (skel g))"
    "skel (snd (label_block l g)) =
     (if k_lab (skel g) l \<noteq> NULL then skel g
      else (s_block (skel g))\<lparr>k_lab := (k_lab (skel g))(l := k_nb (skel g))\<rparr>)"
    by (simp_all add: label_block_def from_code_def get_bound_block_def case_prod_unfold Let_def skel_def b l quiet)
      (simp_all add: lskel_def)
qed

lemma skel_add_jump:
  assumes "k_op (skel g) i \<in> {OP_SWITCH, OP_COMPUTEDGOTO}"
  shows "skel (add_jump i b b j g) = s_edge b (jmp_target j) (s_targets i (insert (jmp_target j) (k_tgt (skel g) i)) (skel g))"
  using assms by (simp add: add_jump_def on_code_def skel_def lskel_edge lskel_jump)

section \<open>Graphs that are in order\<close>

definition plain :: "lin_opcode \<Rightarrow> bool" where
  "plain op \<longleftrightarrow> op \<notin> {OP_BR, OP_SWITCH, OP_COMPUTEDGOTO}"

text \<open>
  The edges are noted at both ends; the instructions of a block are those that name it; they jump to
  children; a block with children has instructions; blocks not allocated have no edges.
\<close>

definition w_edges :: "skel \<Rightarrow> bool" where
  "w_edges s \<longleftrightarrow> (\<forall>b c. count_list (k_chi s b) c = count_list (k_par s c) b)"

definition w_insns :: "skel \<Rightarrow> bool" where
  "w_insns s \<longleftrightarrow> (\<forall>b i. i \<in> set (k_ins s b) \<longleftrightarrow> 0 < i \<and> i < k_ni s \<and> 0 < b \<and> k_bb s i = b)"

definition w_targets :: "skel \<Rightarrow> bool" where
  "w_targets s \<longleftrightarrow>
     (\<forall>i. 0 < i \<longrightarrow> i < k_ni s \<longrightarrow> 0 < k_bb s i \<longrightarrow> k_tgt s i \<subseteq> set (k_chi s (k_bb s i)))
     \<and> (\<forall>i. 0 < i \<longrightarrow> i < k_ni s \<longrightarrow> plain (k_op s i) \<longrightarrow> k_tgt s i = {})"

definition w_blocks :: "skel \<Rightarrow> bool" where
  "w_blocks s \<longleftrightarrow>
     (\<forall>b. k_chi s b \<noteq> [] \<longrightarrow> k_ins s b \<noteq> []) \<and> (\<forall>b \<ge> k_nb s. k_chi s b = [] \<and> k_par s b = [])"

definition w_bounds :: "skel \<Rightarrow> bool" where
  "w_bounds s \<longleftrightarrow>
     0 < k_ni s \<and> 0 < k_nb s \<and> k_act s < k_nb s \<and> (\<forall>l. k_lab s l < k_nb s)
     \<and> (\<forall>i. 0 < i \<longrightarrow> i < k_ni s \<longrightarrow> k_bb s i < k_nb s)"

definition wf_skel :: "skel \<Rightarrow> bool" where
  "wf_skel s \<longleftrightarrow> w_edges s \<and> w_insns s \<and> w_targets s \<and> w_blocks s \<and> w_bounds s"

lemma w_edgesD: "w_edges s \<Longrightarrow> count_list (k_chi s b) c = count_list (k_par s c) b"
  by (simp add: w_edges_def)

lemma w_insnsD: "w_insns s \<Longrightarrow> i \<in> set (k_ins s b) \<longleftrightarrow> 0 < i \<and> i < k_ni s \<and> 0 < b \<and> k_bb s i = b"
  by (simp add: w_insns_def)

lemma w_targetsD:
  "w_targets s \<Longrightarrow> 0 < i \<Longrightarrow> i < k_ni s \<Longrightarrow> 0 < k_bb s i \<Longrightarrow> k_tgt s i \<subseteq> set (k_chi s (k_bb s i))"
  "w_targets s \<Longrightarrow> 0 < i \<Longrightarrow> i < k_ni s \<Longrightarrow> plain (k_op s i) \<Longrightarrow> k_tgt s i = {}"
  unfolding w_targets_def by blast+

lemma w_blocksD:
  "w_blocks s \<Longrightarrow> k_chi s b \<noteq> [] \<Longrightarrow> k_ins s b \<noteq> []"
  "w_blocks s \<Longrightarrow> k_nb s \<le> b \<Longrightarrow> k_chi s b = []" "w_blocks s \<Longrightarrow> k_nb s \<le> b \<Longrightarrow> k_par s b = []"
  unfolding w_blocks_def by blast+

lemma w_boundsD:
  "w_bounds s \<Longrightarrow> 0 < k_ni s" "w_bounds s \<Longrightarrow> 0 < k_nb s" "w_bounds s \<Longrightarrow> k_act s < k_nb s"
  "w_bounds s \<Longrightarrow> k_lab s l < k_nb s" "w_bounds s \<Longrightarrow> 0 < i \<Longrightarrow> i < k_ni s \<Longrightarrow> k_bb s i < k_nb s"
  unfolding w_bounds_def by blast+

lemma wf_skelD:
  assumes "wf_skel s"
  shows "w_edges s" "w_insns s" "w_targets s" "w_blocks s" "w_bounds s"
  using assms unfolding wf_skel_def by simp_all

text \<open>What stays: allocated instructions keep their block and opcode, blocks stay in the list.\<close>

definition ext :: "skel \<Rightarrow> skel \<Rightarrow> bool" where
  "ext s s' \<longleftrightarrow>
     k_ni s \<le> k_ni s' \<and> k_nb s \<le> k_nb s' \<and> (\<forall>i < k_ni s. k_bb s' i = k_bb s i \<and> k_op s' i = k_op s i)
     \<and> set (k_bbs s) \<subseteq> set (k_bbs s') \<and> k_ent s' = k_ent s"

text \<open>A computed goto is left out of what is shown: its edges may not match.\<close>

definition cgoto :: "skel \<Rightarrow> bool" where
  "cgoto s \<longleftrightarrow> (\<exists>i < k_ni s. k_op s i = OP_COMPUTEDGOTO)"

definition fine :: "skel \<Rightarrow> bool" where
  "fine s \<longleftrightarrow> cgoto s \<or> wf_skel s"

definition goes :: "skel \<Rightarrow> skel \<Rightarrow> bool" where
  "goes s s' \<longleftrightarrow> fine s' \<and> ext s s'"

definition block_ok :: "addr \<Rightarrow> skel \<Rightarrow> bool" where
  "block_ok b s \<longleftrightarrow> cgoto s \<or> (0 < b \<and> b < k_nb s)"

text \<open>An instruction that is in no block yet.\<close>

definition pending :: "addr \<Rightarrow> lin_opcode \<Rightarrow> skel \<Rightarrow> bool" where
  "pending i op s \<longleftrightarrow> cgoto s \<or> (0 < i \<and> i < k_ni s \<and> k_bb s i = NULL \<and> k_op s i = op)"

lemma ext_refl: "ext s s"
  by (simp add: ext_def)

lemma ext_trans: "ext s t \<Longrightarrow> ext t u \<Longrightarrow> ext s u"
  unfolding ext_def by (metis dual_order.trans order_less_le_trans)

lemma ext_cgoto: "ext s t \<Longrightarrow> cgoto s \<Longrightarrow> cgoto t"
  unfolding ext_def cgoto_def by (metis order_less_le_trans)

lemma goes_refl: "fine s \<Longrightarrow> goes s s"
  by (simp add: goes_def ext_refl)

lemma goes_trans [trans]: "goes s t \<Longrightarrow> goes t u \<Longrightarrow> goes s u"
  unfolding goes_def by (blast intro: ext_trans)

lemma goes_fine: "goes s t \<Longrightarrow> fine t"
  by (simp add: goes_def)

lemma block_ok_goes: "block_ok b s \<Longrightarrow> goes s t \<Longrightarrow> block_ok b t"
  unfolding block_ok_def goes_def using ext_cgoto by (metis ext_def order_less_le_trans)

lemma pending_goes: "pending i op s \<Longrightarrow> goes s t \<Longrightarrow> pending i op t"
  unfolding pending_def goes_def using ext_cgoto by (metis ext_def order_less_le_trans)

lemma s_alloc_simps [simp]:
  "k_ni (s_alloc op s) = Suc (k_ni s)" "k_nb (s_alloc op s) = k_nb s" "k_par (s_alloc op s) = k_par s"
  "k_chi (s_alloc op s) = k_chi s" "k_ins (s_alloc op s) = k_ins s" "k_bb (s_alloc op s) = (k_bb s)(k_ni s := NULL)"
  "k_op (s_alloc op s) = (k_op s)(k_ni s := op)" "k_tgt (s_alloc op s) = (k_tgt s)(k_ni s := {})"
  "k_lab (s_alloc op s) = k_lab s" "k_act (s_alloc op s) = k_act s" "k_bbs (s_alloc op s) = k_bbs s"
  "k_ent (s_alloc op s) = k_ent s"
  by (simp_all add: s_alloc_def)

lemma s_put_simps [simp]:
  "k_ni (s_put b i s) = k_ni s" "k_nb (s_put b i s) = k_nb s" "k_par (s_put b i s) = k_par s"
  "k_chi (s_put b i s) = k_chi s" "k_ins (s_put b i s) = (k_ins s)(b := k_ins s b @ [i])" "k_bb (s_put b i s) = (k_bb s)(i := b)"
  "k_op (s_put b i s) = k_op s" "k_tgt (s_put b i s) = k_tgt s" "k_lab (s_put b i s) = k_lab s"
  "k_act (s_put b i s) = k_act s" "k_bbs (s_put b i s) = k_bbs s" "k_ent (s_put b i s) = k_ent s"
  by (simp_all add: s_put_def)

lemma s_edge_simps [simp]:
  "k_ni (s_edge b c s) = k_ni s" "k_nb (s_edge b c s) = k_nb s" "k_par (s_edge b c s) = (k_par s)(c := k_par s c @ [b])"
  "k_chi (s_edge b c s) = (k_chi s)(b := k_chi s b @ [c])" "k_ins (s_edge b c s) = k_ins s" "k_bb (s_edge b c s) = k_bb s"
  "k_op (s_edge b c s) = k_op s" "k_tgt (s_edge b c s) = k_tgt s" "k_lab (s_edge b c s) = k_lab s"
  "k_act (s_edge b c s) = k_act s" "k_bbs (s_edge b c s) = k_bbs s" "k_ent (s_edge b c s) = k_ent s"
  by (simp_all add: s_edge_def)

lemma s_targets_simps [simp]:
  "k_ni (s_targets i ts s) = k_ni s" "k_nb (s_targets i ts s) = k_nb s" "k_par (s_targets i ts s) = k_par s"
  "k_chi (s_targets i ts s) = k_chi s" "k_ins (s_targets i ts s) = k_ins s" "k_bb (s_targets i ts s) = k_bb s"
  "k_op (s_targets i ts s) = k_op s" "k_tgt (s_targets i ts s) = (k_tgt s)(i := ts - {NULL})" "k_lab (s_targets i ts s) = k_lab s"
  "k_act (s_targets i ts s) = k_act s" "k_bbs (s_targets i ts s) = k_bbs s" "k_ent (s_targets i ts s) = k_ent s"
  by (simp_all add: s_targets_def)

lemma s_block_simps [simp]:
  "k_ni (s_block s) = k_ni s" "k_nb (s_block s) = Suc (k_nb s)" "k_par (s_block s) = (k_par s)(k_nb s := [])"
  "k_chi (s_block s) = (k_chi s)(k_nb s := [])" "k_ins (s_block s) = (k_ins s)(k_nb s := [])" "k_bb (s_block s) = k_bb s"
  "k_op (s_block s) = k_op s" "k_tgt (s_block s) = k_tgt s" "k_lab (s_block s) = k_lab s"
  "k_act (s_block s) = k_act s" "k_bbs (s_block s) = k_bbs s" "k_ent (s_block s) = k_ent s"
  by (simp_all add: s_block_def)

text \<open>To show \<open>goes\<close> for one operation, the case without computed goto is enough.\<close>

lemma goesI:
  assumes "fine s" "ext s t" "\<not> cgoto s \<Longrightarrow> wf_skel s \<Longrightarrow> wf_skel t"
  shows "goes s t"
  using assms ext_cgoto unfolding goes_def fine_def by blast

lemma alloc_wf:
  assumes w: "wf_skel s"
  shows "wf_skel (s_alloc op s)"
  unfolding wf_skel_def
proof (intro conjI)
  note d = wf_skelD [OF w]
  show "w_edges (s_alloc op s)" using d(1) by (simp add: w_edges_def)
  show "w_insns (s_alloc op s)" using w_insnsD [OF d(2)] by (auto simp: w_insns_def less_Suc_eq)
  show "w_targets (s_alloc op s)" using w_targetsD [OF d(3)] by (simp add: w_targets_def less_Suc_eq)
  show "w_blocks (s_alloc op s)" using d(4) by (simp add: w_blocks_def)
  show "w_bounds (s_alloc op s)" using w_boundsD [OF d(5)] by (simp add: w_bounds_def less_Suc_eq)
qed

lemma alloc_goes:
  assumes "fine s"
  shows "goes s (s_alloc op s)" "pending (k_ni s) op (s_alloc op s)"
proof -
  have e: "ext s (s_alloc op s)" by (simp add: ext_def)
  show "goes s (s_alloc op s)" by (rule goesI [OF assms e alloc_wf])
  show "pending (k_ni s) op (s_alloc op s)"
  proof (cases "cgoto s")
    case True
    then show ?thesis using ext_cgoto [OF e] by (simp add: pending_def)
  next
    case False
    then have "0 < k_ni s" using assms w_boundsD(1) [OF wf_skelD(5)] by (simp add: fine_def)
    then show ?thesis by (simp add: pending_def)
  qed
qed

text \<open>An instruction whose targets are children is put into a block.\<close>

lemma put_wf:
  assumes w: "wf_skel s" and i: "0 < i" "i < k_ni s" "k_bb s i = NULL" and b: "0 < b" "b < k_nb s"
    and t: "k_tgt s i \<subseteq> set (k_chi s b)"
  shows "wf_skel (s_put b i s)"
  unfolding wf_skel_def
proof (intro conjI)
  note d = wf_skelD [OF w]
  show "w_edges (s_put b i s)" using d(1) by (simp add: w_edges_def)
  show "w_insns (s_put b i s)" using w_insnsD [OF d(2)] i b by (auto simp: w_insns_def)
  show "w_targets (s_put b i s)" using w_targetsD [OF d(3)] t by (simp add: w_targets_def)
  show "w_blocks (s_put b i s)" using d(4) by (simp add: w_blocks_def)
  show "w_bounds (s_put b i s)" using w_boundsD [OF d(5)] b by (simp add: w_bounds_def)
qed

text \<open>A block gets an edge if it has an instruction.\<close>

lemma edge_wf:
  assumes w: "wf_skel s" and b: "b < k_nb s" "k_ins s b \<noteq> []" and c: "c < k_nb s"
  shows "wf_skel (s_edge b c s)"
  unfolding wf_skel_def
proof (intro conjI)
  note d = wf_skelD [OF w]
  show "w_edges (s_edge b c s)" using w_edgesD [OF d(1)] by (simp add: w_edges_def)
  show "w_insns (s_edge b c s)" using d(2) by (simp add: w_insns_def)
  show "w_targets (s_edge b c s)"
  proof -
    have "k_tgt s i \<subseteq> set (k_chi (s_edge b c s) (k_bb s i))" if "0 < i" "i < k_ni s" "0 < k_bb s i" for i
      using w_targetsD(1) [OF d(3) that] by auto
    then show ?thesis using w_targetsD(2) [OF d(3)] by (simp add: w_targets_def)
  qed
  show "w_blocks (s_edge b c s)" using w_blocksD [OF d(4)] b c by (simp add: w_blocks_def)
  show "w_bounds (s_edge b c s)" using d(5) by (simp add: w_bounds_def)
qed

lemma targets_wf:
  assumes w: "wf_skel s" and t: "0 < k_bb s i \<Longrightarrow> ts - {NULL} \<subseteq> set (k_chi s (k_bb s i))" and "\<not> plain (k_op s i)"
  shows "wf_skel (s_targets i ts s)"
  unfolding wf_skel_def
proof (intro conjI)
  note d = wf_skelD [OF w]
  show "w_edges (s_targets i ts s)" using d(1) by (simp add: w_edges_def)
  show "w_insns (s_targets i ts s)" using d(2) by (simp add: w_insns_def)
  show "w_targets (s_targets i ts s)" using w_targetsD [OF d(3)] t assms(3) by (simp add: w_targets_def)
  show "w_blocks (s_targets i ts s)" using d(4) by (simp add: w_blocks_def)
  show "w_bounds (s_targets i ts s)" using d(5) by (simp add: w_bounds_def)
qed

lemma block_wf:
  assumes w: "wf_skel s"
  shows "wf_skel (s_block s)"
  unfolding wf_skel_def
proof (intro conjI)
  note d = wf_skelD [OF w]
  let ?n = "k_nb s"
  have c: "k_chi s ?n = []" "k_par s ?n = []" using w_blocksD(2,3) [OF d(4)] by simp_all
  have no: "count_list (k_par s b) ?n = 0" "count_list (k_chi s b) ?n = 0" for b
    using w_edgesD [OF d(1), of ?n b] w_edgesD [OF d(1), of b ?n] c by simp_all
  show "w_edges (s_block s)" using w_edgesD [OF d(1)] no by (simp add: w_edges_def)
  have "k_ins s ?n = []"
  proof (rule ccontr)
    assume "k_ins s ?n \<noteq> []"
    then obtain i where "i \<in> set (k_ins s ?n)" by (cases "k_ins s ?n") auto
    then show False using w_insnsD [OF d(2)] w_boundsD(5) [OF d(5), of i] by simp
  qed
  then have "(k_ins s)(?n := []) = k_ins s" by (simp add: fun_eq_iff)
  then show "w_insns (s_block s)" using d(2) by (simp add: w_insns_def)
  have "(k_chi s)(?n := []) = k_chi s" using c by (simp add: fun_eq_iff)
  then show "w_targets (s_block s)" using d(3) by (simp add: w_targets_def)
  show "w_blocks (s_block s)" using w_blocksD [OF d(4)] by (simp add: w_blocks_def)
  show "w_bounds (s_block s)" using w_boundsD [OF d(5)] by (simp add: w_bounds_def less_Suc_eq)
qed

lemma active_wf: "wf_skel s \<Longrightarrow> b < k_nb s \<Longrightarrow> wf_skel (s\<lparr>k_act := b, k_bbs := l\<rparr>)"
  by (simp add: wf_skel_def w_edges_def w_insns_def w_targets_def w_blocks_def w_bounds_def)

lemma label_wf: "wf_skel s \<Longrightarrow> b < k_nb s \<Longrightarrow> wf_skel (s\<lparr>k_lab := (k_lab s)(l := b)\<rparr>)"
  by (simp add: wf_skel_def w_edges_def w_insns_def w_targets_def w_blocks_def w_bounds_def)

section \<open>The operations keep the graph in order\<close>

text \<open>An instruction that does not jump is allocated and put into the active block.\<close>

definition s_insn :: "lin_opcode \<Rightarrow> skel \<Rightarrow> skel" where
  "s_insn op s =
     (if k_act s = NULL then s_alloc op s else s_put (k_act s) (k_ni s) (s_alloc op s))"

lemma put_pending:
  assumes "goes s0 s" "pending i op s" "plain op" "k_ni s0 \<le> i" "block_ok b s"
  shows "goes s0 (s_put b i s)"
proof -
  have e: "ext s0 (s_put b i s)" using assms(1,4) by (auto simp: goes_def ext_def)
  have c: "cgoto (s_put b i s) = cgoto s" by (simp add: cgoto_def)
  show ?thesis
  proof (cases "cgoto s")
    case True
    then show ?thesis using e c by (simp add: goes_def fine_def)
  next
    case False
    then have w: "wf_skel s" and i: "0 < i" "i < k_ni s" "k_bb s i = NULL" "k_op s i = op" and b: "0 < b" "b < k_nb s"
      using assms by (auto simp: goes_def fine_def pending_def block_ok_def)
    then have "k_tgt s i \<subseteq> set (k_chi s b)" using w_targetsD(2) [OF wf_skelD(3) [OF w]] assms(3) by simp
    from put_wf [OF w i(1-3) b this] show ?thesis using e by (simp add: goes_def fine_def)
  qed
qed

lemma active_block: "fine s \<Longrightarrow> k_act s \<noteq> NULL \<Longrightarrow> block_ok (k_act s) s"
  using w_boundsD(3) [OF wf_skelD(5)] unfolding fine_def block_ok_def by blast

lemma insn_goes:
  assumes "fine s"
  shows "goes s (s_insn op s)"
proof (rule goesI [OF assms])
  show "ext s (s_insn op s)" by (auto simp: ext_def s_insn_def)
  show "wf_skel (s_insn op s)" if "\<not> cgoto s" and w: "wf_skel s"
  proof (cases "k_act s = NULL")
    case False
    note d = w_boundsD [OF wf_skelD(5) [OF w]]
    have "wf_skel (s_put (k_act s) (k_ni s) (s_alloc op s))"
      using d(1,3) False by (intro put_wf alloc_wf [OF w]) simp_all
    then show ?thesis using False by (simp add: s_insn_def)
  qed (simp add: s_insn_def alloc_wf [OF w])
qed

lemma put_edges_wf:
  assumes w: "wf_skel s" and a: "k_act s = b" "0 < b" and ds: "\<forall>d \<in> set ds. d < k_nb s"
  shows "wf_skel (s_targets (k_ni s) (set ds) (fold (s_edge b) ds (s_put b (k_ni s) (s_alloc OP_BR s))))"
proof -
  let ?n = "k_ni s" and ?s1 = "s_put b (k_ni s) (s_alloc OP_BR s)"
  have b: "b < k_nb s" and n: "0 < ?n" using a(1) w_boundsD(1,3) [OF wf_skelD(5) [OF w]] by auto
  have w1: "wf_skel ?s1" using n b a by (intro put_wf alloc_wf [OF w]) simp_all
  have f: "wf_skel (fold (s_edge b) ds t) \<and> k_bb (fold (s_edge b) ds t) = k_bb t \<and> k_op (fold (s_edge b) ds t) = k_op t
      \<and> set ds \<subseteq> set (k_chi (fold (s_edge b) ds t) b) \<and> set (k_chi t b) \<subseteq> set (k_chi (fold (s_edge b) ds t) b)"
    if "wf_skel t" "b < k_nb t" "k_ins t b \<noteq> []" "\<forall>d \<in> set ds. d < k_nb t" for t
    using that
  proof (induction ds arbitrary: t)
    case (Cons d ds)
    have "wf_skel (s_edge b d t)" using Cons.prems by (intro edge_wf) simp_all
    from Cons.IH [OF this] Cons.prems show ?case by auto
  qed simp
  have "b < k_nb ?s1" "k_ins ?s1 b \<noteq> []" "\<forall>d \<in> set ds. d < k_nb ?s1" using b ds by simp_all
  note g = f [OF w1 this]
  show ?thesis by (rule targets_wf) (use g in \<open>auto simp: plain_def\<close>)
qed

lemma goto_eq:
  "k_act s \<noteq> NULL \<Longrightarrow>
     s_goto d s = (s_targets (k_ni s) (set [d]) (fold (s_edge (k_act s)) [d] (s_put (k_act s) (k_ni s) (s_alloc OP_BR s))))\<lparr>k_act := NULL\<rparr>"
  "k_act s \<noteq> NULL \<Longrightarrow>
     s_branch d e s = s_targets (k_ni s) (set [d, e]) (fold (s_edge (k_act s)) [d, e] (s_put (k_act s) (k_ni s) (s_alloc OP_BR s)))"
  by (simp_all add: s_goto_def s_branch_def s_put_def s_edge_def s_targets_def s_alloc_def)

lemma ext_goto: "ext s (s_goto d s)" "ext s (s_branch d e s)"
  by (auto simp: ext_def s_goto_def s_branch_def)

lemma act_wf: "wf_skel s \<Longrightarrow> b < k_nb s \<Longrightarrow> wf_skel (s\<lparr>k_act := b\<rparr>)"
  using active_wf [of s b "k_bbs s"] by simp

lemma goto_goes:
  assumes "fine s" "block_ok d s"
  shows "goes s (s_goto d s)"
proof (rule goesI [OF assms(1) ext_goto(1)])
  assume c: "\<not> cgoto s" and w: "wf_skel s"
  show "wf_skel (s_goto d s)"
  proof (cases "k_act s = NULL")
    case False
    have "\<forall>x \<in> set [d]. x < k_nb s" using assms(2) c by (simp add: block_ok_def)
    from put_edges_wf [OF w refl _ this] False show ?thesis
      unfolding goto_eq(1) [OF False] using w_boundsD(2) [OF wf_skelD(5) [OF w]] by (intro act_wf) simp_all
  qed (simp add: s_goto_def w)
qed

lemma branch_goes:
  assumes "fine s" "block_ok d s" "block_ok e s"
  shows "goes s (s_branch d e s)"
proof (rule goesI [OF assms(1) ext_goto(2)])
  assume c: "\<not> cgoto s" and w: "wf_skel s"
  show "wf_skel (s_branch d e s)"
  proof (cases "k_act s = NULL")
    case False
    have "\<forall>x \<in> set [d, e]. x < k_nb s" using assms(2,3) c by (simp add: block_ok_def)
    from put_edges_wf [OF w refl _ this] False show ?thesis unfolding goto_eq(2) [OF False] by simp
  qed (simp add: s_branch_def w)
qed

lemma set_active_goes:
  assumes "fine s" "block_ok b s \<or> b = NULL" "set (k_bbs s) \<subseteq> set l"
  shows "goes s (s\<lparr>k_act := b, k_bbs := l\<rparr>)"
proof (rule goesI [OF assms(1)])
  show "ext s (s\<lparr>k_act := b, k_bbs := l\<rparr>)" using assms(3) by (simp add: ext_def)
  assume "\<not> cgoto s" "wf_skel s"
  then show "wf_skel (s\<lparr>k_act := b, k_bbs := l\<rparr>)"
    using assms(2) w_boundsD(2) [OF wf_skelD(5)] by (intro active_wf) (auto simp: block_ok_def)
qed

lemma activate_goes:
  assumes "fine (skel g)" "block_ok b (skel g)"
  shows "goes (skel g) (skel (activate b g))"
proof -
  let ?s = "if bb_terminated (g_active g) (g_code g) then skel g else s_goto b (skel g)"
  have g: "goes (skel g) ?s" using goto_goes [OF assms] goes_refl [OF assms(1)] by simp
  have "goes ?s (?s\<lparr>k_act := b, k_bbs := (if b \<noteq> NULL then k_bbs ?s @ [b] else k_bbs ?s)\<rparr>)"
    using block_ok_goes [OF assms(2) g] goes_fine [OF g] by (intro set_active_goes) auto
  with g show ?thesis unfolding skel_activate s_active_def by (rule goes_trans)
qed

lemma goto_block_goes: "fine (skel g) \<Longrightarrow> block_ok b (skel g) \<Longrightarrow> goes (skel g) (skel (goto_block b g))"
  unfolding skel_goto by (rule goto_goes)

lemma branch_on_goes:
  "fine (skel g) \<Longrightarrow> block_ok d (skel g) \<Longrightarrow> block_ok e (skel g) \<Longrightarrow> goes (skel g) (skel (branch_on p d e g))"
  unfolding skel_branch by (rule branch_goes)

lemma new_block_goes:
  assumes "fine (skel g)"
  shows "goes (skel g) (skel (snd (new_block g)))" "block_ok (fst (new_block g)) (skel (snd (new_block g)))"
proof -
  have e: "ext (skel g) (s_block (skel g))" by (simp add: ext_def)
  show "goes (skel g) (skel (snd (new_block g)))" unfolding skel_alloc by (rule goesI [OF assms e block_wf])
  show "block_ok (fst (new_block g)) (skel (snd (new_block g)))"
    using assms ext_cgoto [OF e] w_boundsD(2) [OF wf_skelD(5)] unfolding skel_alloc block_ok_def fine_def
    by (cases "cgoto (skel g)") simp_all
qed

lemma phi_here_goes:
  assumes "fine (skel g)" "phi_here p sz g = Some (q, g')"
  shows "goes (skel g) (skel g')"
proof -
  have "skel g' = s_insn OP_PHISOURCE (skel g)" using skel_phi_here [OF assms(2)] by (simp add: s_insn_def)
  then show ?thesis using insn_goes [OF assms(1)] by simp
qed

lemma bind_goes:
  assumes "fine s" "block_ok b s"
  shows "goes s (s\<lparr>k_lab := (k_lab s)(l := b)\<rparr>)"
proof (rule goesI [OF assms(1)])
  show "ext s (s\<lparr>k_lab := (k_lab s)(l := b)\<rparr>)" by (simp add: ext_def)
  show "wf_skel (s\<lparr>k_lab := (k_lab s)(l := b)\<rparr>)" if "\<not> cgoto s" "wf_skel s"
    using label_wf [OF that(2)] assms(2) that(1) by (simp add: block_ok_def)
qed

lemma label_block_goes:
  assumes "fine (skel g)"
  shows "goes (skel g) (skel (snd (label_block l g)))" "block_ok (fst (label_block l g)) (skel (snd (label_block l g)))"
proof -
  note n = new_block_goes [OF assms, unfolded skel_alloc]
  have l: "block_ok (k_lab (skel g) l) (skel g)" if "k_lab (skel g) l \<noteq> NULL"
    using that assms w_boundsD(4) [OF wf_skelD(5)] unfolding fine_def block_ok_def by blast
  have b: "goes (s_block (skel g)) ((s_block (skel g))\<lparr>k_lab := (k_lab (s_block (skel g)))(l := k_nb (skel g))\<rparr>)"
    by (rule bind_goes [OF goes_fine [OF n(1)] n(2)])
  show "goes (skel g) (skel (snd (label_block l g)))"
    using goes_refl [OF assms] goes_trans [OF n(1) b] by (simp add: skel_label_block)
  show "block_ok (fst (label_block l g)) (skel (snd (label_block l g)))"
    using l block_ok_goes [OF n(2) b] by (simp add: skel_label_block)
qed

lemma finish_goes: "fine (skel g) \<Longrightarrow> goes (skel g) (skel (g\<lparr>g_ep := finish_block (g_ep g)\<rparr>))"
  using set_active_goes [of "skel g" NULL "k_bbs (skel g)"] by (simp add: skel_finish)

lemma add_jump_goes:
  assumes "fine (skel g)" "block_ok (jmp_target j) (skel g)" "k_op (skel g) i = OP_SWITCH"
    and "\<not> cgoto (skel g) \<Longrightarrow> 0 < i \<and> i < k_ni (skel g) \<and> 0 < b \<and> k_bb (skel g) i = b"
  shows "goes (skel g) (skel (add_jump i b b j g))"
proof (rule goesI [OF assms(1)])
  let ?s = "skel g" and ?d = "jmp_target j"
  have eq: "skel (add_jump i b b j g) = s_targets i (insert ?d (k_tgt ?s i)) (s_edge b ?d ?s)"
    using assms(3) by (simp add: skel_add_jump s_targets_def s_edge_def)
  show "ext ?s (skel (add_jump i b b j g))" by (simp add: eq ext_def)
  assume c: "\<not> cgoto ?s" and w: "wf_skel ?s"
  note i = assms(4) [OF c] and d = wf_skelD [OF w]
  have ins: "i \<in> set (k_ins ?s b)" using i w_insnsD [OF d(2)] by simp
  then have ne: "k_ins ?s b \<noteq> []" by auto
  have w1: "wf_skel (s_edge b ?d ?s)"
    using assms(2) c i w_boundsD(5) [OF d(5), of i] ne by (intro edge_wf [OF w]) (auto simp: block_ok_def)
  have t: "insert ?d (k_tgt ?s i) - {NULL} \<subseteq> set (k_chi (s_edge b ?d ?s) (k_bb (s_edge b ?d ?s) i))"
    using w_targetsD(1) [OF d(3), of i] i by auto
  have "\<not> plain (k_op (s_edge b ?d ?s) i)" using assms(3) by (simp add: plain_def)
  from targets_wf [OF w1 t this] show "wf_skel (skel (add_jump i b b j g))" unfolding eq .
qed

end
