(* ===== verification/Const_Fold_Props.thy ===== *)
theory Const_Fold_Props
  imports Const_Fold
begin

text \<open>
  Constant folding computes what C says: the values are the canonical bit patterns of a type of
  \<open>n\<close> bits, read as a signed or unsigned integer, and each operator is the mathematical one
  followed by reduction to \<open>n\<close> bits.
\<close>

section \<open>Masks and sign extension\<close>

lemma size_mask_eq: "size_mask n = 2 ^ nat (n - 1)"
  by (simp add: size_mask_def push_bit_eq_mult)

lemma all_mask_eq: "1 \<le> n \<Longrightarrow> all_mask n = mask (nat n)"
proof -
  assume "1 \<le> n"
  then have n: "nat n = Suc (nat (n - 1))" by simp
  show ?thesis unfolding all_mask_def size_mask_eq n
    by (subst mask_Suc_exp) (simp add: mask_eq_exp_minus_1)
qed

lemma and_all_mask: "1 \<le> n \<Longrightarrow> and v (all_mask n) = take_bit (nat n) v"
  by (simp add: all_mask_eq take_bit_eq_mask)

text \<open>The integer that a bit pattern of \<open>n\<close> bits stands for.\<close>

definition ival :: "bool \<Rightarrow> int \<Rightarrow> u64 \<Rightarrow> int" where
  "ival is_signed n v =
     (if is_signed then signed_take_bit (nat (n - 1)) (uint v) else take_bit (nat n) (uint v))"

definition canonical :: "int \<Rightarrow> u64 \<Rightarrow> bool" where
  "canonical n v \<longleftrightarrow> take_bit (nat n) v = v"

definition of_ival :: "int \<Rightarrow> int \<Rightarrow> u64" where
  "of_ival n z = word_of_int (take_bit (nat n) z)"

lemma extend_eq:
  assumes "1 \<le> n" "n \<le> 64" "canonical n v"
  shows "extend (size_mask n) v = signed_take_bit (nat (n - 1)) v"
proof (rule bit_word_eqI)
  fix i
  assume i: "i < LENGTH(64)"
  let ?k = "nat (n - 1)"
  have n: "nat n = Suc ?k" using assms(1) by simp
  have hi: "\<not> bit v j" if "j > ?k" for j
  proof -
    have "bit v j = bit (take_bit (nat n) v) j" using assms(3) by (simp add: canonical_def)
    with that show ?thesis by (simp add: bit_take_bit_iff n)
  qed
  have top: "and v (size_mask n) \<noteq> 0 \<longleftrightarrow> bit v ?k"
    by (simp add: size_mask_eq and_exp_eq_0_iff_not_bit)
  have nm: "bit (not (size_mask n - 1)) i \<longleftrightarrow> ?k \<le> i"
    using i by (simp add: size_mask_eq mask_eq_exp_minus_1 [symmetric] bit_simps not_less)
  show "bit (extend (size_mask n) v) i = bit (signed_take_bit ?k v) i"
    using top nm hi [of i] i assms(2)
    by (cases "i \<le> ?k") (auto simp: extend_def bit_simps min_def not_le le_less)
qed

lemma signed_take_bit_word:
  "k < 64 \<Longrightarrow> sint (signed_take_bit k (v :: u64)) = signed_take_bit k (uint v)"
proof (rule bit_eqI)
  fix i
  assume k: "k < 64"
  show "bit (sint (signed_take_bit k v)) i = bit (signed_take_bit k (uint v)) i"
    using k by (auto simp: bit_simps min_def)
qed

lemma sint_extend:
  "1 \<le> n \<Longrightarrow> n \<le> 64 \<Longrightarrow> canonical n v \<Longrightarrow> sint (extend (size_mask n) v) = ival True n v"
  by (simp add: extend_eq signed_take_bit_word ival_def)

lemma take_ival: "1 \<le> n \<Longrightarrow> take_bit (nat n) (ival s n v) = take_bit (nat n) (uint v)"
proof -
  assume "1 \<le> n"
  then have n: "nat n = Suc (nat (n - 1))" by simp
  show ?thesis unfolding ival_def n by (simp add: take_bit_signed_take_bit)
qed

lemma take_extend:
  assumes "1 \<le> n" "n \<le> 64" "canonical n v"
  shows "take_bit (nat n) (uint (extend (size_mask n) v)) = take_bit (nat n) (uint v)"
proof -
  have "take_bit (nat n) (extend (size_mask n) v) = take_bit (nat n) v"
    unfolding extend_eq [OF assms] using assms(1)
    by (simp add: take_bit_signed_take_bit)
  then have "uint (take_bit (nat n) (extend (size_mask n) v)) = uint (take_bit (nat n) v)" by simp
  then show ?thesis by (simp add: unsigned_take_bit_eq)
qed

text \<open>Reducing a word to \<open>n\<close> bits is reducing the integer.\<close>

lemma and_all_mask_of_int:
  assumes "1 \<le> n" "n \<le> 64" "take_bit (nat n) (uint w) = take_bit (nat n) z"
  shows "and w (all_mask n) = of_ival n z"
proof -
  have "uint (take_bit (nat n) w) = take_bit (nat n) z"
    using assms(3) by (simp add: unsigned_take_bit_eq)
  then have "take_bit (nat n) w = word_of_int (take_bit (nat n) z)" by (metis word_of_int_uint)
  then show ?thesis using assms(1) by (simp add: and_all_mask of_ival_def)
qed

lemma canonical_of_ival: "1 \<le> n \<Longrightarrow> n \<le> 64 \<Longrightarrow> canonical n (of_ival n z)"
  by (simp add: canonical_def of_ival_def take_bit_of_int)

lemma ival_of_ival:
  "1 \<le> n \<Longrightarrow> n \<le> 64 \<Longrightarrow> ival False n (of_ival n z) = take_bit (nat n) z"
proof -
  assume "1 \<le> n" "n \<le> 64"
  then have "nat n \<le> 64" by simp
  then show ?thesis
    by (simp add: ival_def of_ival_def unsigned_of_int take_bit_take_bit min_def)
qed

section \<open>Binary operators\<close>

text \<open>
  The operators on integers; \<open>c\<close> is the shift count. \<open>sdiv\<close> and \<open>smod\<close> truncate towards
  zero. No value: division by zero, and the one quotient that does not fit the type.
\<close>

definition int_spec :: "nat \<Rightarrow> bool \<Rightarrow> int \<Rightarrow> int \<Rightarrow> int \<Rightarrow> nat \<Rightarrow> int option" where
  "int_spec op is_signed n a b c =
     (if op = op_chr (CHR ''+'') then Some (a + b)
      else if op = op_chr (CHR ''-'') then Some (a - b)
      else if op = op_chr (CHR ''&'') then Some (and a b)
      else if op = op_chr (CHR ''|'') then Some (or a b)
      else if op = op_chr (CHR ''^'') then Some (xor a b)
      else if op = op_chr (CHR ''*'') then Some (a * b)
      else if op = op_chr (CHR ''/'') then
        (if b = 0 \<or> is_signed \<and> a = - (2 ^ nat (n - 1)) \<and> b = -1 then None else Some (a sdiv b))
      else if op = op_chr (CHR ''%'') then
        (if b = 0 \<or> is_signed \<and> a = - (2 ^ nat (n - 1)) \<and> b = -1 \<and> n = 64 then None else Some (a smod b))
      else if op = SPECIAL_LEFTSHIFT then Some (push_bit c a)
      else if op = SPECIAL_RIGHTSHIFT then Some (drop_bit c a)
      else None)"

lemma take_bit_congs:
  fixes a b :: int
  assumes "take_bit m a = take_bit m a'" "take_bit m b = take_bit m b'"
  shows "take_bit m (a + b) = take_bit m (a' + b')" "take_bit m (a - b) = take_bit m (a' - b')"
    "take_bit m (a * b) = take_bit m (a' * b')" "take_bit m (and a b) = take_bit m (and a' b')"
    "take_bit m (or a b) = take_bit m (or a' b')" "take_bit m (xor a b) = take_bit m (xor a' b')"
    "take_bit m (push_bit c a) = take_bit m (push_bit c a')"
proof -
  show "take_bit m (a + b) = take_bit m (a' + b')" using assms by (metis take_bit_add)
  show "take_bit m (a - b) = take_bit m (a' - b')" using assms by (metis take_bit_diff)
  show "take_bit m (a * b) = take_bit m (a' * b')" using assms by (metis take_bit_mult)
  have "take_bit m (2 ^ c * a) = take_bit m (2 ^ c * a')" using assms by (metis take_bit_mult)
  then show "take_bit m (push_bit c a) = take_bit m (push_bit c a')" by (simp add: push_bit_eq_mult mult.commute)
qed (use assms in simp_all)

lemma take_uint:
  assumes "m \<le> 64"
  shows "take_bit m (uint (a + b :: u64)) = take_bit m (uint a + uint b)"
    "take_bit m (uint (a - b :: u64)) = take_bit m (uint a - uint b)"
    "take_bit m (uint (a * b :: u64)) = take_bit m (uint a * uint b)"
    "take_bit m (uint (word_of_int z :: u64)) = take_bit m z"
    "take_bit m (uint (push_bit c a)) = take_bit m (push_bit c (uint a))"
proof -
  have m: "x mod 18446744073709551616 = take_bit 64 x" for x :: int by (simp add: take_bit_eq_mod)
  show "take_bit m (uint (a + b :: u64)) = take_bit m (uint a + uint b)"
    "take_bit m (uint (a - b :: u64)) = take_bit m (uint a - uint b)"
    "take_bit m (uint (a * b :: u64)) = take_bit m (uint a * uint b)"
    using assms by (simp_all add: uint_word_ariths m)
  show "take_bit m (uint (word_of_int z :: u64)) = take_bit m z"
    "take_bit m (uint (push_bit c a)) = take_bit m (push_bit c (uint a))"
    using assms by (simp_all add: unsigned_of_int unsigned_push_bit_eq)
qed

text \<open>The operands of the switch, as the function prepares them.\<close>

lemma extended_operands:
  assumes "1 \<le> n" "n \<le> 64" "canonical n v"
    and w_def: "w = (if s then extend (size_mask n) v else v)"
  shows "take_bit (nat n) (uint w) = take_bit (nat n) (ival s n v)"
    and "s \<Longrightarrow> sint w = ival True n v" and "\<not> s \<Longrightarrow> uint w = ival False n v"
proof -
  show "take_bit (nat n) (uint w) = take_bit (nat n) (ival s n v)"
    using assms by (simp add: take_extend take_ival)
  show "s \<Longrightarrow> sint w = ival True n v" using assms by (simp add: sint_extend)
  have "uint (take_bit (nat n) v) = uint v" using assms(3) by (simp add: canonical_def)
  then show "\<not> s \<Longrightarrow> uint w = ival False n v"
    by (simp add: w_def ival_def unsigned_take_bit_eq)
qed

lemma ival_eq_iff:
  assumes "1 \<le> n" "canonical n v" "canonical n w"
  shows "ival s n v = ival s n w \<longleftrightarrow> v = w"
proof
  assume "ival s n v = ival s n w"
  then have "take_bit (nat n) (uint v) = take_bit (nat n) (uint w)"
    using take_ival [OF assms(1), of s] by metis
  then have "uint (take_bit (nat n) v) = uint (take_bit (nat n) w)" by (simp add: unsigned_take_bit_eq)
  then have "take_bit (nat n) v = take_bit (nat n) w" by (rule unsigned_word_eqI)
  then show "v = w" using assms(2,3) by (simp add: canonical_def)
qed simp

lemma ival_0: "ival s n 0 = 0"
  by (simp add: ival_def)

lemma canonical_0: "canonical n 0"
  by (simp add: canonical_def)

lemma canonical_size_mask: "1 \<le> n \<Longrightarrow> canonical n (size_mask n)"
  by (auto simp: canonical_def size_mask_eq bit_simps intro!: bit_word_eqI)

lemma ival_size_mask: "1 \<le> n \<Longrightarrow> n \<le> 64 \<Longrightarrow> ival True n (size_mask n) = - (2 ^ nat (n - 1))"
proof -
  assume n: "1 \<le> n" "n \<le> 64"
  then have "nat (n - 1) < 64" by simp
  then have "uint (size_mask n) = 2 ^ nat (n - 1)"
    by (auto simp: size_mask_eq bit_simps intro!: bit_eqI)
  then show ?thesis by (simp add: ival_def signed_take_bit_eq_take_bit_minus bit_simps)
qed

lemma sint_minus_1: "sint (w :: u64) = -1 \<longleftrightarrow> w = -1"
proof -
  have "sint (-1 :: u64) = -1" by simp
  then show ?thesis by (metis signed_word_eqI)
qed

lemma ival_lower: "1 \<le> n \<Longrightarrow> - (2 ^ nat (n - 1)) \<le> ival True n v"
  by (simp add: ival_def signed_take_bit_int_greater_eq_minus_exp)

lemma trap_iff:
  assumes "1 \<le> n" "n \<le> 64" "canonical n l"
  shows "extend (size_mask n) l = size_mask 64 \<longleftrightarrow> n = 64 \<and> ival True n l = - (2 ^ nat (n - 1))"
proof -
  have s: "sint (size_mask 64) = - (2 ^ 63)"
  proof -
    have "size_mask 64 = (0x8000000000000000 :: u64)" by (simp add: size_mask_eq)
    then show ?thesis by simp
  qed
  have "extend (size_mask n) l = size_mask 64 \<longleftrightarrow> sint (extend (size_mask n) l) = sint (size_mask 64)"
    using signed_word_eqI by metis
  also have "\<dots> \<longleftrightarrow> ival True n l = - (2 ^ 63)" using assms s by (simp add: sint_extend)
  also have "\<dots> \<longleftrightarrow> n = 64 \<and> ival True n l = - (2 ^ nat (n - 1))"
  proof (cases "n = 64")
    case False
    then have "nat (n - 1) < 63" using assms by simp
    then have "(2 :: int) ^ nat (n - 1) < 2 ^ 63" by (rule power_strict_increasing) simp
    then have "- (2 ^ 63) < ival True n l" using ival_lower [OF assms(1), of l] by linarith
    with False show ?thesis by simp
  qed simp
  finally show ?thesis .
qed

text \<open>One lemma for each group of operators.\<close>

lemma fold_ring:
  assumes n: "1 \<le> n" "n \<le> 64" and l: "canonical n l" and r: "canonical n r"
    and sl: "sl = (if s then extend (size_mask n) l else l)"
    and sr: "sr = (if s then extend (size_mask n) r else r)"
  shows "and (l + r) (all_mask n) = of_ival n (ival s n l + ival s n r)"
    "and (l - r) (all_mask n) = of_ival n (ival s n l - ival s n r)"
    "and (sl * sr) (all_mask n) = of_ival n (ival s n l * ival s n r)"
    "and (push_bit c l) (all_mask n) = of_ival n (push_bit c (ival s n l))"
    "and (and l r) (all_mask n) = of_ival n (and (ival s n l) (ival s n r))"
    "and (or l r) (all_mask n) = of_ival n (or (ival s n l) (ival s n r))"
    "and (xor l r) (all_mask n) = of_ival n (xor (ival s n l) (ival s n r))"
proof -
  have n64: "nat n \<le> 64" using n(2) by simp
  note e = extended_operands(1) [OF n l sl] extended_operands(1) [OF n r sr]
  have a: "take_bit (nat n) (uint l) = take_bit (nat n) (ival s n l)"
    "take_bit (nat n) (uint r) = take_bit (nat n) (ival s n r)"
    using n(1) by (simp_all add: take_ival)
  note c = take_bit_congs [OF a] and ce = take_bit_congs [OF e]
  note red = and_all_mask_of_int [OF n]
  show "and (l + r) (all_mask n) = of_ival n (ival s n l + ival s n r)"
    by (rule red) (simp only: take_uint [OF n64] c)
  show "and (l - r) (all_mask n) = of_ival n (ival s n l - ival s n r)"
    by (rule red) (simp only: take_uint [OF n64] c)
  show "and (sl * sr) (all_mask n) = of_ival n (ival s n l * ival s n r)"
    by (rule red) (simp only: take_uint [OF n64] ce)
  show "and (push_bit c l) (all_mask n) = of_ival n (push_bit c (ival s n l))"
    by (rule red) (simp only: take_uint [OF n64] c)
  show "and (and l r) (all_mask n) = of_ival n (and (ival s n l) (ival s n r))"
    by (rule red) (simp only: unsigned_and_eq c)
  show "and (or l r) (all_mask n) = of_ival n (or (ival s n l) (ival s n r))"
    by (rule red) (simp only: unsigned_or_eq c)
  show "and (xor l r) (all_mask n) = of_ival n (xor (ival s n l) (ival s n r))"
    by (rule red) (simp only: unsigned_xor_eq c)
qed

lemma sdiv_nonneg: "0 \<le> a \<Longrightarrow> 0 \<le> b \<Longrightarrow> a sdiv b = a div b" for a b :: int
  by (simp add: signed_divide_int_def sgn_if)

lemma smod_nonneg: "0 \<le> a \<Longrightarrow> 0 \<le> b \<Longrightarrow> a smod b = a mod b" for a b :: int
  by (simp add: signed_modulo_int_def sgn_if)

lemma fold_div:
  assumes n: "1 \<le> n" "n \<le> 64" and l: "canonical n l" and r: "canonical n r"
    and sl: "sl = (if s then extend (size_mask n) l else l)"
    and sr: "sr = (if s then extend (size_mask n) r else r)"
  shows "and (if s then word_of_int (sint sl sdiv sint sr) else l div r) (all_mask n)
      = of_ival n (ival s n l sdiv ival s n r)"
    "and (if s then word_of_int (sint sl smod sint sr) else l mod r) (all_mask n)
      = of_ival n (ival s n l smod ival s n r)"
    "and (if s then signed_drop_bit c sl else drop_bit c l) (all_mask n)
      = of_ival n (drop_bit c (ival s n l))"
proof -
  have n64: "nat n \<le> 64" using n(2) by simp
  note red = and_all_mask_of_int [OF n]
  note x = extended_operands(2,3) [OF n l sl] extended_operands(2,3) [OF n r sr]
  have u: "uint l = ival False n l" "uint r = ival False n r" if "\<not> s"
    using x(2,4) that sl sr by simp_all
  have p: "0 \<le> ival False n v" for v by (simp add: ival_def)
  have d: "uint (l div r) = uint l div uint r" "uint (l mod r) = uint l mod uint r"
    by (simp_all add: uint_div uint_mod)
  show "and (if s then word_of_int (sint sl sdiv sint sr) else l div r) (all_mask n)
      = of_ival n (ival s n l sdiv ival s n r)"
    using x u d p by (cases s) (auto intro!: red simp: take_uint [OF n64] sdiv_nonneg)
  show "and (if s then word_of_int (sint sl smod sint sr) else l mod r) (all_mask n)
      = of_ival n (ival s n l smod ival s n r)"
    using x u d p by (cases s) (auto intro!: red simp: take_uint [OF n64] smod_nonneg)
  show "and (if s then signed_drop_bit c sl else drop_bit c l) (all_mask n)
      = of_ival n (drop_bit c (ival s n l))"
  proof (cases s)
    case True
    have "uint (signed_drop_bit c sl) = take_bit 64 (sint (signed_drop_bit c sl))"
      by (simp add: uint_sint)
    also have "\<dots> = take_bit 64 (drop_bit c (ival True n l))"
      using x(1) [OF True] by (simp add: sint_signed_drop_bit_eq)
    finally have "take_bit (nat n) (uint (signed_drop_bit c sl)) = take_bit (nat n) (drop_bit c (ival True n l))"
      using n64 by simp
    with red True show ?thesis by simp
  next
    case False
    have "take_bit 64 (uint l) = uint l"
      using uint_lt2p [of l] by (simp add: take_bit_int_eq_self_iff)
    with False u [symmetric] show ?thesis by (auto intro!: red simp: unsigned_drop_bit_eq)
  qed
qed

lemma int_binop_spec:
  assumes n: "1 \<le> n" "n \<le> 64" and l: "canonical n l" and r: "canonical n r"
    and sl: "sl = (if s then extend (size_mask n) l else l)"
    and sr: "sr = (if s then extend (size_mask n) r else r)"
  shows "case int_spec op s n (ival s n l) (ival s n r) (unat r) of
      Some z \<Rightarrow> \<exists>v. int_binop op s (size_mask n) l r sl sr = Fold v \<and> and v (all_mask n) = of_ival n z
    | None \<Rightarrow> int_binop op s (size_mask n) l r sl sr =
        (if op \<noteq> op_chr (CHR ''/'') \<and> op \<noteq> op_chr (CHR ''%'') then No_fold
         else if r = 0 then Fold_div else if op = op_chr (CHR ''/'') then Fold_overflow else Fold_trap)"
proof -
  note ring = fold_ring [OF assms] and divs = fold_div [OF assms]
  have r0: "ival s n r = 0 \<longleftrightarrow> r = 0"
    using ival_eq_iff [OF n(1) r canonical_0, of s] by (simp add: ival_0)
  have l0: "ival s n l = - (2 ^ nat (n - 1)) \<longleftrightarrow> l = size_mask n" if s
    using ival_eq_iff [OF n(1) l canonical_size_mask [OF n(1)], of s] ival_size_mask [OF n] that by simp
  have r1: "ival s n r = -1 \<longleftrightarrow> sr = -1" if s
    using extended_operands(2) [OF n r sr] that sint_minus_1 [of sr] by simp
  have t: "sl = size_mask 64 \<longleftrightarrow> n = 64 \<and> l = size_mask n" if s
    using trap_iff [OF n l] l0 sl that by simp
  consider "op = op_chr (CHR ''+'')" | "op = op_chr (CHR ''-'')" | "op = op_chr (CHR ''&'')"
    | "op = op_chr (CHR ''|'')" | "op = op_chr (CHR ''^'')" | "op = op_chr (CHR ''*'')"
    | (d) "op = op_chr (CHR ''/'')" | (m) "op = op_chr (CHR ''%'')" | "op = SPECIAL_LEFTSHIFT"
    | "op = SPECIAL_RIGHTSHIFT"
    | (none) "op \<noteq> op_chr (CHR ''+'')" "op \<noteq> op_chr (CHR ''-'')" "op \<noteq> op_chr (CHR ''&'')"
        "op \<noteq> op_chr (CHR ''|'')" "op \<noteq> op_chr (CHR ''^'')" "op \<noteq> op_chr (CHR ''*'')"
        "op \<noteq> op_chr (CHR ''/'')" "op \<noteq> op_chr (CHR ''%'')" "op \<noteq> SPECIAL_LEFTSHIFT"
        "op \<noteq> SPECIAL_RIGHTSHIFT"
    by blast
  then show ?thesis
  proof cases
    case d
    show ?thesis
    proof (cases s)
      case True
      with d r0 l0 r1 t divs(1) n show ?thesis by (auto simp: int_binop_def int_spec_def)
    next
      case False
      with d r0 divs(1) show ?thesis by (auto simp: int_binop_def int_spec_def)
    qed
  next
    case m
    show ?thesis
    proof (cases s)
      case True
      with m r0 l0 r1 t divs(2) n show ?thesis by (auto simp: int_binop_def int_spec_def)
    next
      case False
      with m r0 divs(2) show ?thesis by (auto simp: int_binop_def int_spec_def)
    qed
  next
    case none
    then show ?thesis by (simp add: int_binop_def int_spec_def)
  qed (use ring divs(3) sl sr in \<open>simp_all add: int_binop_def int_spec_def split: if_splits\<close>)
qed

lemma set_node_id: "e_node e = x \<Longrightarrow> set_node e x = e"
  by (cases e) (simp add: set_node_def)

lemma simplify_int_binop_fold:
  assumes "e_node expr = Binary bt left right" "e_node left = EXPR_VALUE l lt" "e_node right = EXPR_VALUE r rt"
    and "n = bit_size (syms st ctype)" "1 \<le> n" "n \<le> 64" "canonical n l" "canonical n r"
    and "s = (\<not> has_mod (mods (syms st) ctype) MOD_UNSIGNED)"
    and "e_op expr = SPECIAL_LEFTSHIFT \<or> e_op expr = SPECIAL_RIGHTSHIFT \<Longrightarrow> r < word_of_int n"
  shows "simplify_int_binop expr ctype st =
    (case int_spec (e_op expr) s n (ival s n l) (ival s n r) (unat r) of
       Some z \<Rightarrow> Some (True, set_node expr (EXPR_VALUE (of_ival n z) (or lt rt)), st)
     | None \<Rightarrow>
         if e_op expr = op_chr (CHR ''%'') \<and> r \<noteq> 0 then None
         else Some (False, expr,
           if (e_op expr = op_chr (CHR ''/'') \<or> e_op expr = op_chr (CHR ''%'')) \<and> \<not> conservative st
           then xwarn (if r = 0 then Division_by_zero else Constant_overflow) st else st))"
proof -
  define op where "op = e_op expr"
  let ?sl = "if s then extend (size_mask n) l else l" and ?sr = "if s then extend (size_mask n) r else r"
  have big: "\<not> ((op = SPECIAL_LEFTSHIFT \<or> op = SPECIAL_RIGHTSHIFT) \<and> r \<ge> word_of_int n)"
    using assms(10) by (auto simp: op_def not_le)
  have id: "set_node expr (Binary bt left (set_node right (EXPR_VALUE r rt))) = expr"
    using assms(1,3) by (simp add: set_node_id)
  have run: "simplify_int_binop expr ctype st =
     (case int_binop op s (size_mask n) l r ?sl ?sr of
        Fold v \<Rightarrow> Some (True, set_node expr (EXPR_VALUE (and v (all_mask n)) (or lt rt)), st)
      | No_fold \<Rightarrow> Some (False, expr, st)
      | Fold_div \<Rightarrow> Some (False, expr, if conservative st then st else xwarn Division_by_zero st)
      | Fold_overflow \<Rightarrow> Some (False, expr, if conservative st then st else xwarn Constant_overflow st)
      | Fold_trap \<Rightarrow> None)"
    unfolding simplify_int_binop_def Let_def assms(1-3) enode.case assms(4) [symmetric] op_def [symmetric]
      assms(9) [symmetric]
    using big id by (simp only: simp_thms if_False prod.case)
  note spec = int_binop_spec [OF assms(5-8) refl refl, where s = s and op = op]
  show ?thesis
  proof (cases "int_spec op s n (ival s n l) (ival s n r) (unat r)")
    case (Some z)
    with spec obtain v where "int_binop op s (size_mask n) l r ?sl ?sr = Fold v"
      "and v (all_mask n) = of_ival n z" by auto
    then show ?thesis unfolding run op_def [symmetric] Some by simp
  next
    case None
    consider "op \<noteq> op_chr (CHR ''/'') \<and> op \<noteq> op_chr (CHR ''%'')"
      | "op = op_chr (CHR ''/'') \<or> op = op_chr (CHR ''%'')" "r = 0"
      | "op = op_chr (CHR ''/'')" "r \<noteq> 0" | "op = op_chr (CHR ''%'')" "r \<noteq> 0" by blast
    then show ?thesis
    proof cases
      case 2
      with spec None have b: "int_binop op s (size_mask n) l r ?sl ?sr = Fold_div" by auto
      show ?thesis unfolding run op_def [symmetric] None b using 2 by simp
    qed (use spec None in \<open>simp_all add: run op_def [symmetric]\<close>)
  qed
qed

text \<open>A table with one \<open>int\<close> type, for the instances below.\<close>

definition no_pos :: position where
  "no_pos = \<lparr>p_stream = 0, p_newline = False, p_whitespace = False, p_pos = 0, p_line = 0\<rparr>"

definition basetype :: "int \<Rightarrow> u64 \<Rightarrow> symref \<Rightarrow> symbol" where
  "basetype sz m b =
     \<lparr>sym_type = SYM_BASETYPE, ident = None, s_offset = 0, bit_size = sz, bit_offset = 0,
      s_ctype = \<lparr>modifiers = m, alignment = 0, contexts = [], address_space = 0, base_type = Some b\<rparr>,
      array_size = None, arguments = [], variadic = False, symbol_list = [], s_stmt = None,
      initializer = None, op_expand = None\<rparr>"

definition example_syms :: symtab where
  "example_syms = (\<lambda>s. case s of
     Int_ctype \<Rightarrow> basetype 32 MOD_SIGNED Int_type | Uint_ctype \<Rightarrow> basetype 32 MOD_UNSIGNED Int_type
   | Char_ctype \<Rightarrow> basetype 8 MOD_SIGNED Int_type | Bool_ctype \<Rightarrow> basetype 1 MOD_UNSIGNED Int_type
   | Llong_ctype \<Rightarrow> basetype 64 MOD_SIGNED Int_type | _ \<Rightarrow> basetype 32 0 Int_type)"

definition example_state :: xstate where
  "example_state = \<lparr>syms = example_syms, conservative = False, xwarns = []\<rparr>"

definition int_const :: "u64 \<Rightarrow> expression" where
  "int_const v = Expr 0 0 no_pos (Some Int_ctype) (EXPR_VALUE v 0)"

definition int_op :: "char \<Rightarrow> expression \<Rightarrow> expression \<Rightarrow> expression" where
  "int_op c a b = Expr 0 (op_chr c) no_pos (Some Int_ctype) (Binary EXPR_BINOP a b)"

text \<open>
  C16. Folding an integer operation is correct: for a type of 1 to 64 bits and operands in its
  range, the value is the mathematical result reduced to the type, signed or unsigned; nothing is
  folded, with a message unless the caller is conservative, exactly for a division by zero and for
  the quotient that overflows. The one remainder that has the same operands as that quotient
  traps in the program itself when the type has 64 bits.
\<close>

theorem simplify_int_binop_correct:
  assumes "e_node expr = Binary bt left right" "e_node left = EXPR_VALUE l lt" "e_node right = EXPR_VALUE r rt"
    and "n = bit_size (syms st ctype)" "1 \<le> n" "n \<le> 64" "canonical n l" "canonical n r"
    and "s = (\<not> has_mod (mods (syms st) ctype) MOD_UNSIGNED)"
    and "e_op expr = SPECIAL_LEFTSHIFT \<or> e_op expr = SPECIAL_RIGHTSHIFT \<Longrightarrow> r < word_of_int n"
  shows "simplify_int_binop expr ctype st =
    (case int_spec (e_op expr) s n (ival s n l) (ival s n r) (unat r) of
       Some z \<Rightarrow> Some (True, set_node expr (EXPR_VALUE (of_ival n z) (or lt rt)), st)
     | None \<Rightarrow>
         if e_op expr = op_chr (CHR ''%'') \<and> r \<noteq> 0 then None
         else Some (False, expr,
           if (e_op expr = op_chr (CHR ''/'') \<or> e_op expr = op_chr (CHR ''%'')) \<and> \<not> conservative st
           then xwarn (if r = 0 then Division_by_zero else Constant_overflow) st else st))"
  by (rule simplify_int_binop_fold [OF assms])

theorem simplify_int_binop_correct_witness:
  "simplify_int_binop (int_op (CHR ''/'') (int_const 0xFFFFFFF9) (int_const 2)) Int_ctype example_state
   = Some (True, set_node (int_op (CHR ''/'') (int_const 0xFFFFFFF9) (int_const 2)) (EXPR_VALUE 0xFFFFFFFD 0),
       example_state)"
proof -
  let ?e = "int_op (CHR ''/'') (int_const 0xFFFFFFF9) (int_const 2)"
  have "simplify_int_binop ?e Int_ctype example_state =
    (case int_spec (e_op ?e) True 32 (ival True 32 0xFFFFFFF9) (ival True 32 2) (unat (2 :: u64)) of
       Some z \<Rightarrow> Some (True, set_node ?e (EXPR_VALUE (of_ival 32 z) (or 0 0)), example_state)
     | None \<Rightarrow>
         if e_op ?e = op_chr (CHR ''%'') \<and> (2 :: u64) \<noteq> 0 then None
         else Some (False, ?e,
           if (e_op ?e = op_chr (CHR ''/'') \<or> e_op ?e = op_chr (CHR ''%'')) \<and> \<not> conservative example_state
           then xwarn (if (2 :: u64) = 0 then Division_by_zero else Constant_overflow) example_state
           else example_state))"
    by (rule simplify_int_binop_correct [where left = "int_const 0xFFFFFFF9" and right = "int_const 2"])
       (simp_all add: int_op_def int_const_def example_state_def example_syms_def basetype_def
          canonical_def has_mod_def)
  moreover have "ival True 32 0xFFFFFFF9 = -7" "ival True 32 2 = 2" by (simp_all add: ival_def)
  ultimately show ?thesis
    by (simp add: int_op_def int_const_def int_spec_def of_ival_def set_node_def)
qed

section \<open>Comparisons\<close>

definition cmp_spec :: "nat \<Rightarrow> int \<Rightarrow> int \<Rightarrow> int \<Rightarrow> int \<Rightarrow> bool option" where
  "cmp_spec op a b ua ub =
     (if op = op_chr (CHR ''<'') then Some (a < b)
      else if op = op_chr (CHR ''>'') then Some (b < a)
      else if op = SPECIAL_LTE then Some (a \<le> b)
      else if op = SPECIAL_GTE then Some (b \<le> a)
      else if op = SPECIAL_EQUAL then Some (a = b)
      else if op = SPECIAL_NOTEQUAL then Some (a \<noteq> b)
      else if op = SPECIAL_UNSIGNED_LT then Some (ua < ub)
      else if op = SPECIAL_UNSIGNED_GT then Some (ub < ua)
      else if op = SPECIAL_UNSIGNED_LTE then Some (ua \<le> ub)
      else if op = SPECIAL_UNSIGNED_GTE then Some (ub \<le> ua)
      else None)"

lemma cmp_binop_spec:
  assumes "1 \<le> n" "n \<le> 64" "canonical n l" "canonical n r"
  shows "cmp_binop op l r (extend (size_mask n) l) (extend (size_mask n) r) =
    cmp_spec op (ival True n l) (ival True n r) (ival False n l) (ival False n r)"
proof -
  have u: "ival False n v = uint v" if "canonical n v" for v
    using extended_operands(3) [OF assms(1,2) that, of v False] by simp
  have e: "ival True n l = ival True n r \<longleftrightarrow> l = r"
    by (rule ival_eq_iff [OF assms(1,3,4)])
  show ?thesis
    unfolding cmp_binop_def cmp_spec_def
    using assms e by (simp only: sint_extend u word_less_def word_le_def)
qed

lemma simplify_cmp_binop_fold:
  assumes "e_node expr = Binary bt left right" "e_node left = EXPR_VALUE l lt" "e_node right = EXPR_VALUE r rt"
    and "n = bit_size (syms st ctype)" "1 \<le> n" "n \<le> 64" "canonical n l" "canonical n r"
    and "cmp_spec (e_op expr) (ival True n l) (ival True n r) (ival False n l) (ival False n r) = Some b"
  shows "simplify_cmp_binop expr ctype st
    = Some (True, set_node expr (EXPR_VALUE (if b then 1 else 0) (or lt rt)))"
  using cmp_binop_spec [OF assms(5-8), of "e_op expr"] assms(1-4,9)
  by (simp add: simplify_cmp_binop_def bit_value_def)

text \<open>
  C17. Folding a comparison of integers compares the values: the plain operators as signed
  integers of the operand size, the \<open>SPECIAL_UNSIGNED\<close> ones as unsigned integers.
\<close>

theorem simplify_cmp_binop_correct:
  assumes "e_node expr = Binary bt left right" "e_node left = EXPR_VALUE l lt" "e_node right = EXPR_VALUE r rt"
    and "n = bit_size (syms st ctype)" "1 \<le> n" "n \<le> 64" "canonical n l" "canonical n r"
    and "cmp_spec (e_op expr) (ival True n l) (ival True n r) (ival False n l) (ival False n r) = Some b"
  shows "simplify_cmp_binop expr ctype st
    = Some (True, set_node expr (EXPR_VALUE (if b then 1 else 0) (or lt rt)))"
  by (rule simplify_cmp_binop_fold [OF assms])

theorem simplify_cmp_binop_correct_witness:
  "simplify_cmp_binop (int_op (CHR ''<'') (int_const 0xFFFFFFFF) (int_const 1)) Int_ctype example_state
    = Some (True, set_node (int_op (CHR ''<'') (int_const 0xFFFFFFFF) (int_const 1))
        (EXPR_VALUE (if True then 1 else 0) (or 0 0)))"
  by (rule simplify_cmp_binop_correct [where n = 32 and left = "int_const 0xFFFFFFFF" and right = "int_const 1"
        and l = "0xFFFFFFFF" and r = "1"])
     (simp_all add: int_op_def int_const_def example_state_def example_syms_def basetype_def
        canonical_def cmp_spec_def ival_def)

section \<open>Casts\<close>

lemma get_longlong_eq:
  assumes "n = bit_size (tab ty)" "1 \<le> n" "n \<le> 64" "canonical n v"
    and "s = (\<not> has_mod (mods tab ty) MOD_UNSIGNED)"
  shows "get_longlong tab ty v = word_of_int (ival s n v)"
proof -
  have a: "and v (all_mask n) = v" using assms(2,4) by (simp add: and_all_mask canonical_def)
  have o: "or v (not (all_mask n)) = or v (not (size_mask n - 1))" if "and v (size_mask n) \<noteq> 0"
  proof (rule bit_word_eqI)
    fix i
    assume i: "i < LENGTH(64)"
    have b: "bit v (nat (n - 1))" using that by (simp add: size_mask_eq and_exp_eq_0_iff_not_bit)
    have n': "nat n = Suc (nat (n - 1))" using assms(2) by simp
    show "bit (or v (not (all_mask n))) i = bit (or v (not (size_mask n - 1))) i"
      using i b unfolding all_mask_eq [OF assms(2)] size_mask_eq mask_eq_exp_minus_1 [symmetric] n'
      by (auto simp: bit_simps less_Suc_eq)
  qed
  have g: "get_longlong tab ty v = (if s then extend (size_mask n) v else v)"
    using a o by (auto simp: get_longlong_def extend_def assms(1) [symmetric] assms(5) Let_def
        all_mask_def [symmetric])
  have ws: "word_of_int (sint w) = w" "word_of_int (uint w) = w" for w :: u64 by simp_all
  show ?thesis
    using g extended_operands(2,3) [OF assms(2-4) refl, of s] ws
    by (cases s) (metis, metis)
qed

lemma of_ival_0_iff:
  assumes "1 \<le> n" "n \<le> 64" "canonical n v"
  shows "(word_of_int (ival s n v) :: u64) = 0 \<longleftrightarrow> v = 0"
proof
  assume "(word_of_int (ival s n v) :: u64) = 0"
  then have "uint (word_of_int (ival s n v) :: u64) = 0" by simp
  then have "take_bit 64 (ival s n v) = 0" by (simp add: unsigned_of_int)
  then have "take_bit (nat n) (take_bit 64 (ival s n v)) = 0" by simp
  moreover have "nat n \<le> 64" using assms(2) by simp
  ultimately have "take_bit (nat n) (uint v) = 0"
    using assms(1) by (simp add: take_bit_take_bit min_def take_ival)
  then have "uint (take_bit (nat n) v) = 0" by (simp add: unsigned_take_bit_eq)
  then have "take_bit (nat n) v = 0" by (simp only: uint_0_iff)
  then show "v = 0" using assms(3) by (simp add: canonical_def)
qed (simp add: ival_0)

lemma cast_value_fold:
  assumes "old_n = bit_size (syms st oldtype)" "1 \<le> old_n" "old_n \<le> 64" "canonical old_n v"
    and "new_n = bit_size (syms st newtype)" "1 \<le> new_n" "new_n \<le> 64"
    and "base_of (syms st) newtype \<noteq> Some Fp_type" "base_of (syms st) oldtype \<noteq> Some Fp_type"
    and "is_bool_type (syms st) newtype \<Longrightarrow> new_n = 1"
    and "s = (\<not> has_mod (mods (syms st) oldtype) MOD_UNSIGNED)"
  shows "fst (cast_value cf newtype (EXPR_VALUE v t) oldtype st) =
    EXPR_VALUE (if is_bool_type (syms st) newtype then (if v = 0 then 0 else 1)
                else of_ival new_n (ival s old_n v)) t"
proof -
  note ll = get_longlong_eq [where tab = "syms st" and ty = oldtype, OF assms(1-4,11)]
  note z = of_ival_0_iff [OF assms(2-4), of s]
  show ?thesis
  proof (cases "old_n = new_n")
    case True
    have "of_ival new_n (ival s old_n v) = v"
      using True assms(2,4) take_ival [of old_n s v]
      by (simp add: of_ival_def canonical_def flip: unsigned_take_bit_eq)
    moreover have "v = 0 \<or> v = 1" if "old_n = 1"
    proof -
      have "v = take_bit 1 v" using assms(4) that by (simp add: canonical_def)
      also have "\<dots> = (if odd v then 1 else 0)"
        by (simp add: take_bit_Suc odd_iff_mod_2_eq_one even_iff_mod_2_eq_zero)
      finally show ?thesis by (cases "odd v") simp_all
    qed
    ultimately show ?thesis using True assms(1,5,8,9,10) by (auto simp: cast_value_def Let_def)
  next
    case False
    have c: "and (word_of_int (ival s old_n v)) (all_mask new_n) = of_ival new_n (ival s old_n v)"
      by (rule and_all_mask_of_int [OF assms(6,7)]) (use assms(7) in \<open>simp add: unsigned_of_int take_bit_take_bit min_def nat_le_iff\<close>)
    show ?thesis
      using False assms(1,5,8,9) c
      by (simp add: cast_value_def cast_int_def Let_def all_mask_def [symmetric] ll z [unfolded assms(1)]
          del: word_of_int_eq_0_iff)
  qed
qed

text \<open>
  C18. A cast between integer types of 1 to 64 bits keeps the value modulo the new size, reading
  the old one with the sign of its type; to \<open>_Bool\<close> it gives 1 for every other value than 0.
\<close>

theorem cast_value_correct:
  assumes "old_n = bit_size (syms st oldtype)" "1 \<le> old_n" "old_n \<le> 64" "canonical old_n v"
    and "new_n = bit_size (syms st newtype)" "1 \<le> new_n" "new_n \<le> 64"
    and "base_of (syms st) newtype \<noteq> Some Fp_type" "base_of (syms st) oldtype \<noteq> Some Fp_type"
    and "is_bool_type (syms st) newtype \<Longrightarrow> new_n = 1"
    and "s = (\<not> has_mod (mods (syms st) oldtype) MOD_UNSIGNED)"
  shows "fst (cast_value cf newtype (EXPR_VALUE v t) oldtype st) =
    EXPR_VALUE (if is_bool_type (syms st) newtype then (if v = 0 then 0 else 1)
                else of_ival new_n (ival s old_n v)) t"
  by (rule cast_value_fold [OF assms])

theorem cast_value_correct_witness:
  "\<forall>cf. fst (cast_value cf Llong_ctype (EXPR_VALUE 0xFF 0) Char_ctype example_state) =
    EXPR_VALUE (if is_bool_type example_syms Llong_ctype then (if (0xFF :: u64) = 0 then 0 else 1)
      else of_ival 64 (ival True 8 0xFF)) 0
   \<and> of_ival 64 (ival True 8 0xFF) = -1"
proof -
  have "fst (cast_value cf Llong_ctype (EXPR_VALUE 0xFF 0) Char_ctype example_state) =
    EXPR_VALUE (if is_bool_type (syms example_state) Llong_ctype then (if (0xFF :: u64) = 0 then 0 else 1)
      else of_ival 64 (ival True 8 0xFF)) 0" for cf
    by (rule cast_value_correct)
       (simp_all add: example_state_def example_syms_def basetype_def canonical_def has_mod_def
          is_bool_type_def node_base_def)
  moreover have "of_ival 64 (ival True 8 0xFF) = -1" by (simp add: ival_def of_ival_def mask_eq_exp_minus_1)
  ultimately show ?thesis by (simp add: example_state_def)
qed

end
