(* ===== verification/Linearize_Props.thy ===== *)
theory Linearize_Props
  imports Skeleton Const_Fold_Props
begin

text \<open>
  Every function of \<open>linearize.c\<close> that builds code keeps the graph in order, so the graph of a
  function without computed goto passes \<open>vrfy_flow\<close>.
\<close>

section \<open>Operations without recursive calls\<close>

named_theorems one_insn

lemma skel_add [one_insn]:
  "skel (snd (add_typed op ty ps g)) = s_insn op (skel g)"
  "skel (snd (add_binary_op ty op l r g)) = s_insn op (skel g)"
  "skel (snd (add_uniop ty op l g)) = s_insn op (skel g)"
  "skel (snd (add_setval ty e g)) = s_insn OP_SETVAL (skel g)"
  "skel (snd (add_symbol_address bip s g)) = s_insn OP_SYMADDR (skel g)"
  "skel (snd (add_load ad g)) = s_insn OP_LOAD (skel g)"
proof -
  show t: "skel (snd (add_typed op ty ps g)) = s_insn op (skel g)" for ps
    by (simp add: add_typed_def case_prod_unfold Let_def quiet s_insn_def)
  show "skel (snd (add_binary_op ty op l r g)) = s_insn op (skel g)" "skel (snd (add_uniop ty op l g)) = s_insn op (skel g)"
    by (simp_all add: add_binary_op_def add_uniop_def t)
  show "skel (snd (add_setval ty e g)) = s_insn OP_SETVAL (skel g)"
    "skel (snd (add_symbol_address bip s g)) = s_insn OP_SYMADDR (skel g)"
    "skel (snd (add_load ad g)) = s_insn OP_LOAD (skel g)"
    by (simp_all add: add_setval_def add_symbol_address_def add_load_def case_prod_unfold Let_def quiet s_insn_def)
qed

lemma skel_store [one_insn]:
  "skel (add_store ad v g) = (if k_act (skel g) = NULL then skel g else s_insn OP_STORE (skel g))"
  by (simp add: add_store_def k_fields [symmetric] case_prod_unfold Let_def quiet s_insn_def)

text \<open>From here on, facts have the form: what went from \<open>s\<close> to \<open>g\<close> goes on.\<close>

lemma insn_acc: "goes s t \<Longrightarrow> goes s (s_insn op t)"
  by (blast intro: goes_trans insn_goes goes_fine)


named_theorems acc



lemma update_acc [acc]: "goes s (skel g) \<Longrightarrow> quiet_update f \<Longrightarrow> goes s (skel (on_code (upd_insn i f) g))"
  by (simp add: quiet)






lemma join_acc [acc]:
  assumes "goes s (skel g)"
  shows "goes s (skel (snd (add_join_conditional e p q g)))"
proof -
  have "skel (snd (add_join_conditional e p q g)) = (if p = VOID \<or> q = VOID then skel g else s_insn OP_PHI (skel g))"
    unfolding add_join_conditional_def case_prod_unfold Let_def by (simp add: quiet s_insn_def)
  then show ?thesis using assms insn_acc [OF assms] by simp
qed

text \<open>An instruction allocated earlier is put into the active block.\<close>

lemma pending_acc: "pending i op t \<Longrightarrow> goes t u \<Longrightarrow> pending i op u"
  by (rule pending_goes)




section \<open>The recursive calls\<close>











section \<open>Expressions\<close>

lemma unary_type_other [simp]: "u \<noteq> EXPR_PREOP \<longleftrightarrow> u = EXPR_POSTOP"
  by (cases u) simp_all

















section \<open>Conditions\<close>








section \<open>Initialisers and expressions\<close>







section \<open>Statements\<close>










section \<open>Inline assembly\<close>






section \<open>Jumps\<close>







text \<open>The cases of a switch are in an order, and sorting them keeps the targets.\<close>

interpretation multijmp_order: cmp_order multijmp_cmp
  by unfold_locales (auto simp: multijmp_cmp_def split: if_split_asm)

lemma entries_foldl: "entries (foldl add_ptr_list l xs) = entries l @ xs"
  by (induction xs arbitrary: l) simp_all














section \<open>Functions\<close>

lemma knot_calls [simp]:
  "c_expr (knot bip (Suc n)) = linearize_expression bip (knot bip n)"
  "c_cond (knot bip (Suc n)) = linearize_cond_branch (knot bip n)"
  "c_init (knot bip (Suc n)) = linearize_initializer (knot bip n)"
  "c_addr (knot bip (Suc n)) = linearize_simple_address (knot bip n)"
  "c_sym (knot bip (Suc n)) = linearize_one_symbol (knot bip n)"
  "c_stmt (knot bip (Suc n)) = linearize_statement (knot bip n)"
  by (simp_all add: Let_def)

declare knot.simps [simp del]


















text \<open>
  C35. The cases of a switch are sorted and keep their number: a permutation of what was added, in
  the order of the begin and then of the end, and the default, whose begin is after its end, comes
  last.
\<close>

theorem sort_switch_cases_order:
  "let ks = multijmps (insns (sort_switch_cases i c) i) in
     mset ks = mset (multijmps (insns c i))
     \<and> ks = filter (\<lambda>j. jmp_begin j \<le> jmp_end j) ks @ filter (\<lambda>j. jmp_end j < jmp_begin j) ks
     \<and> sorted_wrt (\<lambda>j k. jmp_begin j < jmp_begin k \<or> jmp_begin j = jmp_begin k \<and> jmp_end j \<le> jmp_end k)
         (filter (\<lambda>j. jmp_begin j \<le> jmp_end j) ks)"
proof -
  let ?js = "multijmps (insns c i)" and ?ks = "entries (sort_list multijmp_cmp (foldl add_ptr_list [] (multijmps (insns c i))))"
  have s: "sorted_wrt (\<lambda>a b. multijmp_cmp a b \<le> 0) ?ks" and m: "mset ?ks = mset ?js"
    using multijmp_order.sort_list_ok [of "foldl add_ptr_list [] ?js"] by (simp_all add: ordered_by_def same_classes_def entries_foldl)
  have split: "xs = filter (\<lambda>j. jmp_begin j \<le> jmp_end j) xs @ filter (\<lambda>j. jmp_end j < jmp_begin j) xs"
    if "sorted_wrt (\<lambda>a b. multijmp_cmp a b \<le> 0) xs" for xs
    using that
  proof (induction xs)
    case (Cons x xs)
    show ?case
    proof (cases "jmp_begin x \<le> jmp_end x")
      case False
      then have "\<forall>y \<in> set xs. jmp_end y < jmp_begin y" using Cons.prems by (auto simp: multijmp_cmp_def split: if_split_asm)
      then have "filter (\<lambda>j. jmp_begin j \<le> jmp_end j) xs = []" "filter (\<lambda>j. jmp_end j < jmp_begin j) xs = xs"
        by (auto simp: filter_empty_conv)
      then show ?thesis using False by simp
    qed (use Cons in simp)
  qed simp
  have "sorted_wrt (\<lambda>a b. multijmp_cmp a b \<le> 0) (filter (\<lambda>j. jmp_begin j \<le> jmp_end j) ?ks)"
    by (rule sorted_wrt_filter [OF s])
  then have "sorted_wrt (\<lambda>j k. jmp_begin j < jmp_begin k \<or> jmp_begin j = jmp_begin k \<and> jmp_end j \<le> jmp_end k)
      (filter (\<lambda>j. jmp_begin j \<le> jmp_end j) ?ks)"
    by (rule sorted_wrt_mono_rel [rotated]) (auto simp: multijmp_cmp_def split: if_split_asm)
  then show ?thesis using m split [OF s] by (simp add: sort_switch_cases_def upd_insn_def Let_def)
qed

text \<open>
  A computed goto whose expression ends the active block, as \<open>c ? p : q\<close> does, notes the block before
  the expression as the one with the children: the edges do not match.
\<close>

lemma computed_goto_edges:
  assumes "g_active g \<noteq> src" "k_lab (skel g) s = b" "b \<noteq> NULL" "b \<notin> set (children (bbs (g_code g) (g_active g)))"
  shows "\<not> vrfy_parents b (g_code (computed_targets i src [s] g))"
proof -
  have l: "label_block s g = (b, g)"
    using assms(2,3) by (simp add: label_block_def from_code_def get_bound_block_def skel_def lskel_def)
  show ?thesis
    using assms(1,3,4)
    by (auto simp: l add_jump_def on_code_def vrfy_parents_def vrfy_bb_in_list_def add_child_def add_parent_def upd_bb_def
      upd_insn_def alloc_multijmp_def)
qed

end
