(* ===== verification/Tokenize_Props.thy ===== *)
theory Tokenize_Props
  imports Tokenize
begin

text \<open>
  Properties of the tokenizer: punctuators and numbers are the longest ones the text allows,
  identifiers are interned, and the tokens do not depend on how the file is read in.
\<close>

section \<open>The text ahead\<close>

text \<open>The text still to be read when \<open>n\<close> has been read already.\<close>

definition ahead :: "char option \<Rightarrow> lexer \<Rightarrow> string" where
  "ahead n st = (case n of None \<Rightarrow> [] | Some c \<Rightarrow> c # logical (remaining st))"

lemma ahead_simps [simp]:
  "ahead None st = []" "ahead (Some c) st = c # logical (remaining st)"
  by (simp_all add: ahead_def)

lemma nextchar_ahead: "nextchar st = (n, st') \<Longrightarrow> logical (remaining st) = ahead n st'"
  using nextchar_logical [of st] by (auto split: option.splits)

section \<open>Punctuators\<close>

definition show_special :: "nat \<Rightarrow> string" where
  "show_special val = (if val \<ge> SPECIAL_BASE then combinations ! (val - SPECIAL_BASE) else [char_of val])"

text \<open>The strings that are tokens: those before the empty one.\<close>

definition punctuators :: "string list" where
  "punctuators = takeWhile (\<lambda>p. p \<noteq> []) combinations"

text \<open>The slots of the entries are distinct: the hash is perfect.\<close>

definition entry_slot :: "char \<times> char \<times> nat \<Rightarrow> nat" where
  "entry_slot = (\<lambda>(a, b, v). special_hash (of_char a) (of_char b))"

lemma entry_slots:
  "map entry_slot special_entries
     = [0, 1, 5, 7, 8, 10, 12, 14, 15, 16, 17, 19, 21, 23, 24, 26, 27, 28, 29, 30, 31]"
  by (simp add: entry_slot_def special_entries_def special_hash_def)

lemma find_key:
  "distinct (map f xs) \<Longrightarrow> e \<in> set xs \<Longrightarrow> find (\<lambda>x. f x = f e) xs = Some e"
  by (induction xs) (auto simp: image_iff)

lemma special_slot_entry:
  assumes "(a, b, v) \<in> set special_entries"
  shows "special_slot (special_hash (of_char a) (of_char b)) = (a, b, v)"
proof -
  have d: "distinct (map entry_slot (rev special_entries))"
    by (simp add: rev_map [symmetric] entry_slots)
  have "find (\<lambda>e. entry_slot e = entry_slot (a, b, v)) (rev special_entries) = Some (a, b, v)"
    using find_key [OF d] assms by simp
  then show ?thesis unfolding special_slot_def entry_slot_def by (simp add: case_prod_unfold)
qed

lemma special_slot_cases:
  assumes "special_slot i = (a, b, v)"
  shows "(a, b, v) \<in> set special_entries \<or> a = CHR 0x00 \<and> b = CHR 0x00"
proof (cases "find (\<lambda>(a, b, v). special_hash (of_char a) (of_char b) = i) (rev special_entries)")
  case None
  with assms show ?thesis unfolding special_slot_def by auto
next
  case (Some e)
  with assms have "e = (a, b, v)" by (simp add: special_slot_def)
  with Some show ?thesis by (metis find_Some_iff nth_mem set_rev)
qed

text \<open>The facts about the finite tables, by evaluation.\<close>

lemma entries_ok:
  "list_all (\<lambda>(c, d, u). ValidSecond (Some d) \<and> show_special u = [c, d] \<and> u < 277 \<and> 256 \<le> u
     \<and> (u \<ge> 274 \<longrightarrow> show_special (u + 3) = [c, d, ''==.'' ! (u - 274)])
     \<and> list_all (\<lambda>p. p ! 0 = c \<and> p ! 1 = d \<longrightarrow>
          length p = 2 \<or> (u \<ge> 274 \<and> length p = 3 \<and> p ! 2 = ''==.'' ! (u - 274))) punctuators)
   special_entries"
  by code_simp

lemma punctuators_ok:
  "list_all (\<lambda>p. (length p = 2 \<or> length p = 3)
      \<and> list_ex (\<lambda>(a, b, v). a = p ! 0 \<and> b = p ! 1) special_entries) punctuators"
  by code_simp

lemma punctuators_eval:
  "punctuators = take 24 combinations" "distinct punctuators" "length punctuators = 24"
  by (simp_all add: punctuators_def combinations_def)

lemma entryD:
  assumes "(c, d, u) \<in> set special_entries"
  shows "ValidSecond (Some d)" "show_special u = [c, d]" "u < 277" "256 \<le> u"
    "u \<ge> 274 \<Longrightarrow> show_special (u + 3) = [c, d, ''==.'' ! (u - 274)]"
    "p \<in> set punctuators \<Longrightarrow> p ! 0 = c \<Longrightarrow> p ! 1 = d \<Longrightarrow>
       length p = 2 \<or> (u \<ge> 274 \<and> length p = 3 \<and> p ! 2 = ''==.'' ! (u - 274))"
  using entries_ok assms unfolding list_all_iff by fastforce+

lemma punctuatorD:
  assumes "p \<in> set punctuators"
  shows "length p = 2 \<or> length p = 3" "\<exists>v. (p ! 0, p ! 1, v) \<in> set special_entries"
  using punctuators_ok assms unfolding list_all_iff list_ex_iff by fastforce+

lemma special_value_hit:
  "(c, d, v) \<in> set special_entries \<Longrightarrow>
   special_value c (Some d) st =
     (let (n, st1) = nextchar st in
      if v \<ge> SPECIAL_LEFTSHIFT \<and> n = Some (''==.'' ! (v - SPECIAL_LEFTSHIFT))
      then (let (n2, st2) = nextchar st1 in (v + 3, n2, st2)) else (v, n, st1))"
  by (simp add: special_value_def entryD(1) special_slot_entry)

lemma special_value_miss:
  assumes "\<nexists>v. (c, d, v) \<in> set special_entries"
  shows "special_value c (Some d) st = (of_char c, Some d, st)"
proof (cases "ValidSecond (Some d)")
  case True
  then have d0: "d \<noteq> CHR 0x00" by (auto simp: ValidSecond_def)
  obtain a b v where s: "special_slot (special_hash (of_char c) (of_char d)) = (a, b, v)"
    by (cases "special_slot (special_hash (of_char c) (of_char d))") auto
  have "\<not> (a = c \<and> b = d)" using assms special_slot_cases [OF s] d0 by blast
  with s True show ?thesis by (auto simp: special_value_def)
qed (simp add: special_value_def)

lemma special_value_munch:
  assumes "special_value c nxt st = (v, n, st')"
  shows "\<exists>rest. c # ahead nxt st = show_special v @ rest \<and> ahead n st' = rest
           \<and> (\<forall>p \<in> set punctuators. take (length p) (c # ahead nxt st) = p \<longrightarrow>
                length p \<le> length (show_special v))"
proof (cases "\<exists>d u. nxt = Some d \<and> (c, d, u) \<in> set special_entries")
  case False
  then have v: "v = of_char c" "n = nxt" "st' = st"
    using assms special_value_miss by (cases nxt; auto simp: special_value_def)+
  have "take (length p) (c # ahead nxt st) \<noteq> p" if p: "p \<in> set punctuators" for p
  proof
    assume t: "take (length p) (c # ahead nxt st) = p"
    from punctuatorD(1) [OF p] obtain a b q where q: "p = a # b # q" by (cases p; cases "tl p") auto
    with t obtain d where "nxt = Some d" "a = c" "b = d" by (cases nxt) auto
    with punctuatorD(2) [OF p] q False show False by auto
  qed
  moreover have "show_special (of_char c) = [c]"
  proof -
    have "\<not> (256 :: nat) \<le> of_char c" using of_char_less [of c] by linarith
    then show ?thesis by (simp only: show_special_def if_False char_of_char)
  qed
  ultimately show ?thesis using v by auto
next
  case True
  then obtain d u where nxt: "nxt = Some d" and e: "(c, d, u) \<in> set special_entries" by blast
  obtain n1 st1 where n1: "nextchar st = (n1, st1)" by (cases "nextchar st")
  obtain n2 st2 where n2: "nextchar st1 = (n2, st2)" by (cases "nextchar st1")
  note run = assms [unfolded nxt special_value_hit [OF e] n1 Let_def prod.case n2]
  note a1 = nextchar_ahead [OF n1] and a2 = nextchar_ahead [OF n2]
  show ?thesis
  proof (cases "u \<ge> SPECIAL_LEFTSHIFT \<and> n1 = Some (''==.'' ! (u - SPECIAL_LEFTSHIFT))")
    case three: True
    with run have v: "v = u + 3" "n = n2" "st' = st2" by (simp_all split: if_splits)
    have "length p \<le> Suc (Suc (Suc 0))" if "p \<in> set punctuators" for p
      using punctuatorD(1) [OF that] by auto
    with v entryD(5) [OF e] nxt three a1 a2 show ?thesis by auto
  next
    case two: False
    with run have v: "v = u" "n = n1" "st' = st1" by (auto split: if_splits)
    have "length p \<le> 2" if p: "p \<in> set punctuators" "take (length p) (c # ahead nxt st) = p" for p
    proof (rule ccontr)
      assume "\<not> length p \<le> 2"
      then obtain q0 q1 q2 q where q: "p = q0 # q1 # q2 # q"
        by (cases p; cases "tl p"; cases "tl (tl p)") auto
      with p(2) nxt have "q0 = c" "q1 = d" by auto
      with q entryD(6) [OF e p(1)] have "u \<ge> 274" "''==.'' ! (u - 274) = q2" by auto
      moreover have "n1 = Some q2" using p(2) nxt q a1 by (cases n1) auto
      ultimately show False using two by simp
    qed
    with v entryD(2) [OF e] nxt a1 show ?thesis by (simp add: numeral_2_eq_2)
  qed
qed

text \<open>
  C8. Maximal munch for punctuators: with \<open>c\<close> read and the text \<open>d # rest\<close> ahead, the
  token's spelling is a prefix of the text, no longer punctuator is, and the stream is left right
  behind it. In particular the perfect hash of the table never confuses two punctuators.
\<close>

theorem special_value_longest:
  assumes "special_value c nxt st = (v, n, st')"
  shows "\<exists>rest. c # ahead nxt st = show_special v @ rest \<and> ahead n st' = rest
           \<and> (\<forall>p \<in> set punctuators. take (length p) (c # ahead nxt st) = p \<longrightarrow>
                length p \<le> length (show_special v))"
  by (rule special_value_munch [OF assms])

lemma special_value_code:
  assumes "special_value c nxt st = (v, n, st')"
  shows "v < 256 \<or> v - 256 < length punctuators"
proof (cases "\<exists>d u. nxt = Some d \<and> (c, d, u) \<in> set special_entries")
  case True
  then obtain d u where nxt: "nxt = Some d" and e: "(c, d, u) \<in> set special_entries" by blast
  have "v = u \<or> v = u + 3"
    using assms by (auto simp: nxt special_value_hit [OF e] split: prod.splits if_splits)
  with entryD(3,4) [OF e] show ?thesis
    by (auto simp: punctuators_eval(3))
next
  case False
  with assms special_value_miss show ?thesis
    by (cases nxt) (auto simp: special_value_def of_char_less)
qed

text \<open>
  Spelling and reading a punctuator are inverse: from the spelling of a multi-character
  punctuator the tokenizer reads its code back, when nothing follows that would make it longer.
\<close>

theorem special_roundtrip:
  assumes "v - SPECIAL_BASE < length punctuators" "v \<ge> SPECIAL_BASE"
    "show_special v = c # d # ds" "logical (remaining st) = ds"
  shows "fst (special_value c (Some d) st) = v"
proof -
  obtain w n st' where w: "special_value c (Some d) st = (w, n, st')"
    by (cases "special_value c (Some d) st") auto
  have a: "c # ahead (Some d) st = show_special v"
    using assms(3,4) by simp
  from special_value_munch [OF w, unfolded a] obtain rest where
    r: "show_special v = show_special w @ rest"
    and l: "\<forall>p \<in> set punctuators. take (length p) (show_special v) = p \<longrightarrow> length p \<le> length (show_special w)"
    by metis
  have nth: "show_special x = punctuators ! (x - 256)" if "256 \<le> x" "x - 256 < length punctuators" for x
    using that by (simp add: show_special_def punctuators_eval)
  have pv: "show_special v \<in> set punctuators"
    using assms(1,2) nth by simp
  have "rest = []" using l [rule_format, OF pv] r by simp
  then have eq: "show_special v = show_special w" using r by simp
  have "256 \<le> w"
    using eq punctuatorD(1) [OF pv] by (auto simp: show_special_def split: if_splits)
  with special_value_code [OF w] have "w - 256 < length punctuators" by auto
  with eq nth assms(1,2) \<open>256 \<le> w\<close> have "v - 256 = w - 256"
    by (metis punctuators_eval(2) nth_eq_iff_index_eq)
  with assms(2) \<open>256 \<le> w\<close> w show ?thesis by simp
qed

section \<open>Numbers\<close>

lemma more_nextchar_loop:
  "stream_t.more (snd (nextchar_slow_loop st off cr bs sp)) = stream_t.more st"
proof (induction st off cr bs sp rule: nextchar_slow_loop.induct)
  case (1 st off cr bs sp)
  have f: "fetch st off = Some (x, st1, off1) \<Longrightarrow> stream_t.more st1 = stream_t.more st" for x st1 off1
    by (auto simp: fetch_def split: if_splits list.splits)
  note unfold = nextchar_slow_loop.simps [of st off cr bs sp]
  have m: "stream_t.more (count_char c s) = stream_t.more s" for c and s :: "'a stream_t_scheme"
    by (simp add: count_char_def)
  show ?case
  proof (cases "fetch st off")
    case None
    then show ?thesis by (simp add: unfold slow_eof_def warn_def)
  next
    case (Some x)
    then obtain c0 st1 off1 where x: "fetch st off = Some (c0, st1, off1)" by (cases x) auto
    show ?thesis
    proof (cases "\<not> cr \<and> c0 = CR")
      case True
      then have "nextchar_slow_loop st off cr bs sp = nextchar_slow_loop st1 off1 True bs sp"
        unfolding unfold using x by simp
      with "1.IH"(1) [OF x refl refl True] f [OF x] show ?thesis by simp
    next
      case False
      note IH = "1.IH"(2,3) [OF x refl refl False refl refl]
      define off2 where "off2 = (if cr \<and> c0 \<noteq> NL then off1 - 1 else off1)"
      define c where "c = (if cr then NL else c0)"
      have run: "nextchar_slow_loop st off cr bs sp =
          (if \<not> bs then
             (if c = BSL then nextchar_slow_loop (st1\<lparr>pos := Suc (pos st1)\<rparr>) off2 cr True sp
              else (Some c, (count_char c st1)\<lparr>offset := off2\<rparr>))
           else
             (if c = NL then nextchar_slow_loop (st1\<lparr>line := Suc (line st1), pos := 0\<rparr>) off2 False False True
              else (Some BSL, st1\<lparr>offset := off2 - 1\<rparr>)))"
        using x False by (auto simp: unfold c_def off2_def Let_def)
      show ?thesis
        using IH [folded c_def off2_def] f [OF x] by (simp add: run m)
    qed
  qed
qed

lemma more_nextchar: "nextchar st = (n, st') \<Longrightarrow> stream_t.more st' = stream_t.more st"
  using more_nextchar_loop [of st "offset st" False False False]
  by (auto simp: nextchar_def nextchar_slow_def split: if_splits)

lemma more_lexer:
  fixes st st' :: lexer
  assumes "stream_t.more st' = stream_t.more st"
  shows "cur st' = cur st" "tokens st' = tokens st" "space st' = space st" "nr st' = nr st"
  using assms by (cases st; cases st'; simp)+

lemmas nextchar_lexer = more_lexer [OF more_nextchar]

text \<open>A preprocessing number, on the text itself.\<close>

definition num_char :: "char \<Rightarrow> bool" where
  "num_char c = (Dot (Some c) \<or> Digit (Some c) \<or> Letter (Some c))"

fun pp_munch :: "string \<Rightarrow> string" where
  "pp_munch [] = []"
| "pp_munch [c] = (if num_char c then [c] else [])"
| "pp_munch (c # d # cs) =
     (if \<not> num_char c then []
      else if Exp (Some c) \<and> (d = CHR ''-'' \<or> d = CHR ''+'') then c # d # pp_munch cs
      else c # pp_munch (d # cs))"

lemma pp_munch_stop: "\<not> num_char c \<Longrightarrow> pp_munch (c # s) = []"
  by (cases s) auto

lemma number_loop_step:
  assumes "num_char c" "nextchar st = (n1, st1)" "nextchar st1 = (n2, st2)"
  shows "n1 = Some s \<Longrightarrow> Exp (Some c) \<Longrightarrow> s = CHR ''-'' \<or> s = CHR ''+'' \<Longrightarrow>
      number_loop buf (Some c) st = number_loop (num_push (num_push buf c) s) n2 st2"
    "\<nexists>s. n1 = Some s \<and> Exp (Some c) \<and> (s = CHR ''-'' \<or> s = CHR ''+'') \<Longrightarrow>
      number_loop buf (Some c) st = number_loop (num_push buf c) n1 st1"
  using assms
  by (auto simp: number_loop.simps [of buf "Some c" st] num_char_def Let_def split: option.splits)

lemma number_loop_munch:
  "number_loop buf nxt st = (b, n, st') \<Longrightarrow>
     b = foldl num_push buf (pp_munch (ahead nxt st))
     \<and> ahead nxt st = pp_munch (ahead nxt st) @ ahead n st'
     \<and> stream_t.more st' = stream_t.more st"
proof (induction "left_chars nxt st" arbitrary: buf nxt st rule: less_induct)
  case less
  show ?case
  proof (cases nxt)
    case None
    with less.prems show ?thesis by (simp add: number_loop.simps)
  next
    case (Some c)
    obtain n1 st1 where n1: "nextchar st = (n1, st1)" by (cases "nextchar st")
    obtain n2 st2 where n2: "nextchar st1 = (n2, st2)" by (cases "nextchar st1")
    note a1 = nextchar_ahead [OF n1] and a2 = nextchar_ahead [OF n2]
    note m1 = more_nextchar [OF n1] and m2 = more_nextchar [OF n2]
    have l1: "left_chars n1 st1 < left_chars nxt st" using left_chars_less [OF n1, of c] Some by simp
    show ?thesis
    proof (cases "num_char c")
      case False
      with less.prems Some show ?thesis
        by (auto simp: number_loop.simps num_char_def pp_munch_stop)
    next
      case True
      show ?thesis
      proof (cases "\<exists>s. n1 = Some s \<and> Exp nxt \<and> (s = CHR ''-'' \<or> s = CHR ''+'')")
        case True
        then obtain s where s: "n1 = Some s" "Exp (Some c)" "s = CHR ''-'' \<or> s = CHR ''+''"
          using Some by blast
        have l2: "left_chars n2 st2 < left_chars nxt st"
          using left_chars_less2 [OF n1 [unfolded s] n2, of c] Some by simp
        have run: "number_loop (num_push (num_push buf c) s) n2 st2 = (b, n, st')"
          using less.prems Some number_loop_step(1) [OF \<open>num_char c\<close> n1 n2 s] by simp
        have "ahead nxt st = c # s # ahead n2 st2" using Some s a1 a2 by simp
        moreover have "pp_munch (c # s # ahead n2 st2) = c # s # pp_munch (ahead n2 st2)"
          using \<open>num_char c\<close> s by simp
        ultimately show ?thesis using less.hyps [OF l2 run] m1 m2 by simp
      next
        case no: False
        have run: "number_loop (num_push buf c) n1 st1 = (b, n, st')"
          using less.prems Some number_loop_step(2) [OF \<open>num_char c\<close> n1 n2] no by simp
        have "ahead nxt st = c # ahead n1 st1" using Some a1 by simp
        moreover have "pp_munch (c # ahead n1 st1) = c # pp_munch (ahead n1 st1)"
          using \<open>num_char c\<close> no Some by (cases n1) auto
        ultimately show ?thesis using less.hyps [OF l1 run] m1 by simp
      qed
    qed
  qed
qed

lemma foldl_num_push: "length buf \<le> 4095 \<Longrightarrow> foldl num_push buf s = take 4095 (buf @ s)"
  by (induction s arbitrary: buf) (auto simp: num_push_def take_Cons')

text \<open>
  C9. The number token read is the longest preprocessing number of the text (a sign belongs to it
  only after an exponent letter), the stream is left right behind it, and a number of 4095
  characters or more becomes \<open>1\<close> with a warning.
\<close>

theorem get_one_number_munch:
  assumes "get_one_number c nxt st = (n, st')" "cur st = Some t" "m = pp_munch (ahead nxt st)"
  shows "ahead nxt st = m @ ahead n st' \<and> cur st' = None
         \<and> tokens st' = tokens st @ [t\<lparr>tok_type := TOKEN_NUMBER,
               tok_val := VNumber (if length (c # m) < 4095 then c # m else ''1''), tok_space := space st\<rparr>]
         \<and> (length (c # m) \<ge> 4095 \<longrightarrow> NumberTooLong \<in> set (warnings st'))"
proof -
  obtain b st1 where r: "number_loop [c] nxt st = (b, n, st1)"
    using assms(1) by (cases "number_loop [c] nxt st") (auto simp: get_one_number_def Let_def split: if_splits)
  note l = number_loop_munch [OF r]
  have b: "b = take 4095 (c # m)" using l foldl_num_push [of "[c]"] assms(3) by simp
  note le = more_lexer [OF l [THEN conjunct2, THEN conjunct2]]
  have w: "warnings (add_token ty v s) = warnings s" for ty v s
    by (simp add: add_token_def split: option.splits)
  have a: "ahead n (add_token ty v s) = ahead n s" "ahead n (warn x s) = ahead n s" for ty v s x
    by (cases n; simp add: logical_rest_ext)+
  have x: "tokens (warn x s) = tokens s" "cur (warn x s) = cur s" "space (warn x s) = space s"
    for x and s :: lexer by (simp_all add: warn_def)
  show ?thesis
  proof (cases "length (c # m) < 4095")
    case True
    with b have "b = c # m" "length b \<noteq> 4095" by auto
    with True assms(1) r have "st' = add_token TOKEN_NUMBER (VNumber (c # m)) st1"
      by (simp add: get_one_number_def)
    moreover from this have "ahead n st' = ahead n st1" by (simp only: a)
    ultimately show ?thesis using True l le assms(2,3) by (auto simp: add_token_def)
  next
    case False
    with b have "length b = 4095" by simp
    with assms(1) r have "st' = add_token TOKEN_NUMBER (VNumber ''1'') (warn NumberTooLong st1)"
      by (simp add: get_one_number_def)
    moreover from this have "ahead n st' = ahead n st1" by (simp only: a)
    ultimately show ?thesis using False l le assms(2,3) by (auto simp: add_token_def warn_def)
  qed
qed

section \<open>Identifiers\<close>

text \<open>The contract of a table that gives every name one reference.\<close>

locale interner =
  fixes intern :: "'n \<Rightarrow> 't \<Rightarrow> 'r \<times> 't"
    and name_of :: "'t \<Rightarrow> 'r \<Rightarrow> 'n"
    and inv :: "'t \<Rightarrow> bool"
    and known :: "'t \<Rightarrow> 'r \<Rightarrow> bool"
    and fit :: "'n \<Rightarrow> bool"
  assumes intern_inv: "inv t \<Longrightarrow> fit n \<Longrightarrow> inv (snd (intern n t))"
    and intern_known: "inv t \<Longrightarrow> fit n \<Longrightarrow> known (snd (intern n t)) (fst (intern n t))"
    and intern_name: "inv t \<Longrightarrow> fit n \<Longrightarrow> name_of (snd (intern n t)) (fst (intern n t)) = n"
    and intern_keeps: "inv t \<Longrightarrow> fit n \<Longrightarrow> known t r \<Longrightarrow>
      known (snd (intern n t)) r \<and> name_of (snd (intern n t)) r = name_of t r"
    and name_inj: "inv t \<Longrightarrow> known t r \<Longrightarrow> known t r' \<Longrightarrow> name_of t r = name_of t r' \<Longrightarrow> r = r'"
begin

fun intern_all :: "'n list \<Rightarrow> 't \<Rightarrow> 'r list \<times> 't" where
  "intern_all [] t = ([], t)"
| "intern_all (n # ns) t =
     (let (r, t1) = intern n t; (rs, t2) = intern_all ns t1 in (r # rs, t2))"

lemma intern_all_ok:
  "inv t \<Longrightarrow> \<forall>n \<in> set ns. fit n \<Longrightarrow> intern_all ns t = (rs, t') \<Longrightarrow>
     inv t' \<and> map (name_of t') rs = ns \<and> list_all (known t') rs
     \<and> (\<forall>r. known t r \<longrightarrow> known t' r \<and> name_of t' r = name_of t r)"
proof (induction ns arbitrary: t rs t')
  case (Cons n ns)
  obtain r t1 where i: "intern n t = (r, t1)" by (cases "intern n t")
  obtain qs t2 where a: "intern_all ns t1 = (qs, t2)" by (cases "intern_all ns t1")
  have fit: "fit n" "\<forall>n \<in> set ns. fit n" using Cons.prems(2) by auto
  note law = intern_inv [OF Cons.prems(1) fit(1)] intern_known [OF Cons.prems(1) fit(1)]
    intern_name [OF Cons.prems(1) fit(1)] intern_keeps [OF Cons.prems(1) fit(1)]
  from law i have "inv t1" "known t1 r" "name_of t1 r = n" by simp_all
  with Cons.IH [OF \<open>inv t1\<close> fit(2) a] law(4) i a Cons.prems(3) show ?case by auto
qed simp

lemma same_ref:
  assumes "inv t" "\<forall>n \<in> set ns. fit n" "intern_all ns t = (rs, t')" "i < length ns" "j < length ns"
  shows "rs ! i = rs ! j \<longleftrightarrow> ns ! i = ns ! j"
proof -
  note ok = intern_all_ok [OF assms(1-3)]
  then have len: "length rs = length ns" by (metis length_map)
  have nth: "name_of t' (rs ! k) = ns ! k" "known t' (rs ! k)" if "k < length ns" for k
    using ok that len by (metis nth_map, simp add: list_all_length)
  show ?thesis using name_inj [of t' "rs ! i" "rs ! j"] ok nth assms(4,5) by metis
qed

end

text \<open>
  The names a table may hold, and the tables that are well formed: each name is in the chain of
  its hash, once.
\<close>

definition fit_name :: "string \<Rightarrow> bool" where
  "fit_name n \<longleftrightarrow> 1 \<le> length n \<and> length n \<le> 256"

definition ident_inv :: "ident_table \<Rightarrow> bool" where
  "ident_inv t \<longleftrightarrow> (\<forall>h. distinct (chain t h) \<and> (\<forall>n \<in> set (chain t h). fit_name n \<and> hash_name n = h))"

definition ident_known :: "ident_table \<Rightarrow> ident_ref \<Rightarrow> bool" where
  "ident_known t r \<longleftrightarrow> snd r < length (chain t (fst r))"

text \<open>The comparison of the walk is equality on such names.\<close>

lemma fit_name_eq:
  "fit_name x \<Longrightarrow> fit_name n \<Longrightarrow>
   length x mod 256 = length n mod 256 \<and> take (length n) x = n \<longleftrightarrow> x = n"
  by (cases "length x = 256"; cases "length n = 256") (auto simp: fit_name_def)

lemma find_ident_Some:
  "find_ident n xs i = Some j \<Longrightarrow> \<forall>x \<in> set xs. fit_name x \<Longrightarrow> fit_name n \<Longrightarrow>
     i \<le> j \<and> j - i < length xs \<and> xs ! (j - i) = n"
proof (induction n xs i rule: find_ident.induct)
  case (2 n x xs i)
  then show ?case
    by (cases "x = n") (auto simp: fit_name_eq nth_Cons' Suc_diff_le [symmetric] diff_Suc split: nat.splits)
qed simp

lemma find_ident_None:
  "find_ident n xs i = None \<longleftrightarrow> n \<notin> set xs" if "\<forall>x \<in> set xs. fit_name x" "fit_name n"
  using that
  by (induction n xs i rule: find_ident.induct) (auto simp: fit_name_eq)

interpretation ident_tab: interner built_in_ident ident_name ident_inv ident_known fit_name
proof (unfold_locales, goal_cases)
  case (1 t n)
  then have f: "\<forall>x \<in> set (chain t (hash_name n)). fit_name x" by (auto simp: ident_inv_def)
  show ?case
  proof (cases "find_ident n (chain t (hash_name n)) 0")
    case None
    with find_ident_None [OF f] 1 have "n \<notin> set (chain t (hash_name n))" by simp
    with None 1 show ?thesis
      by (auto simp: built_in_ident_def create_hashed_ident_def ident_inv_def)
  qed (use 1 in \<open>simp add: built_in_ident_def create_hashed_ident_def ident_inv_def\<close>)
next
  case (2 t n)
  then have f: "\<forall>x \<in> set (chain t (hash_name n)). fit_name x" by (auto simp: ident_inv_def)
  have s: "j < length (chain t (hash_name n))" if "find_ident n (chain t (hash_name n)) 0 = Some j" for j
    using find_ident_Some [OF that f] 2 by simp
  show ?case using s
    by (auto simp: built_in_ident_def create_hashed_ident_def ident_known_def split: option.splits)
next
  case (3 t n)
  then have f: "\<forall>x \<in> set (chain t (hash_name n)). fit_name x" by (auto simp: ident_inv_def)
  have s: "chain t (hash_name n) ! j = n" if "find_ident n (chain t (hash_name n)) 0 = Some j" for j
    using find_ident_Some [OF that f] 3 by simp
  show ?case using s
    by (auto simp: built_in_ident_def create_hashed_ident_def ident_name_def split: option.splits)
next
  case (4 t n r)
  then show ?case
    by (auto simp: built_in_ident_def create_hashed_ident_def ident_known_def ident_name_def nth_append
        split: option.splits)
next
  case (5 t r r')
  then have "fst r = fst r'"
    by (metis ident_inv_def ident_known_def ident_name_def nth_mem)
  with 5 show ?case
    by (auto simp: ident_inv_def ident_known_def ident_name_def nth_eq_iff_index_eq prod_eq_iff)
qed

text \<open>
  C10. Identifiers are interned: after any sequence of identifiers was looked up, starting from a
  well-formed table, two of them have the same reference exactly when they are the same name.
\<close>

theorem idents_interned:
  assumes "ident_inv t" "\<forall>n \<in> set ns. fit_name n"
    "ident_tab.intern_all ns t = (rs, t')" "i < length ns" "j < length ns"
  shows "rs ! i = rs ! j \<longleftrightarrow> ns ! i = ns ! j"
  by (rule ident_tab.same_ref [OF assms])

theorem idents_interned_witness:
  "let t = \<lparr>chain = (\<lambda>_. []), ident_hit = 0, ident_miss = 0, idents = 0\<rparr>;
       rs = fst (ident_tab.intern_all [''int'', ''x'', ''int''] t)
   in (rs ! 0 = rs ! 2 \<longleftrightarrow> ''int'' = ''int'') \<and> (rs ! 0 = rs ! 1 \<longleftrightarrow> ''int'' = ''x'')"
proof -
  let ?t = "\<lparr>chain = (\<lambda>_. []), ident_hit = 0, ident_miss = 0, idents = 0\<rparr>"
  let ?ns = "[''int'', ''x'', ''int'']"
  have i: "ident_inv ?t" by (simp add: ident_inv_def)
  have f: "\<forall>n \<in> set ?ns. fit_name n" by (simp add: fit_name_def)
  obtain rs t' where r: "ident_tab.intern_all ?ns ?t = (rs, t')"
    by (cases "ident_tab.intern_all ?ns ?t")
  from idents_interned [OF i f r, of 0 2] idents_interned [OF i f r, of 0 1] r show ?thesis
    by simp
qed

text \<open>The identifier read from the text, cut at 256 characters, and its hash.\<close>

definition ident_char :: "char \<Rightarrow> bool" where
  "ident_char c = (Letter (Some c) \<or> Digit (Some c))"

lemma ident_loop_munch:
  "ident_loop buf h st = (b, h', n, st') \<Longrightarrow> length buf \<le> 256 \<Longrightarrow>
     (let w = take (256 - length buf) (takeWhile ident_char (logical (remaining st)))
      in b = buf @ w \<and> h' = foldl ident_hash_add h w
         \<and> logical (remaining st) = w @ ahead n st')
     \<and> stream_t.more st' = stream_t.more st"
proof (induction "length (logical (remaining st))" arbitrary: buf h st rule: less_induct)
  case less
  obtain c st1 where c: "nextchar st = (c, st1)" by (cases "nextchar st")
  note a = nextchar_ahead [OF c] and m = more_nextchar [OF c]
  note run = less.prems(1) [unfolded ident_loop.simps [of buf h st] c]
  show ?case
  proof (cases c)
    case None
    with run a m show ?thesis by simp
  next
    case (Some d)
    note l = nextchar_less [OF c [unfolded Some]]
    show ?thesis
    proof (cases "ident_char d \<and> length buf < 256")
      case False
      with run Some have "(b, h', n, st') = (buf, h, Some d, st1)"
        by (auto simp: ident_char_def split: if_splits)
      with False a m Some less.prems(2) show ?thesis by auto
    next
      case True
      with run Some have r: "ident_loop (buf @ [d]) (ident_hash_add h d) st1 = (b, h', n, st')"
        by (auto simp: ident_char_def split: if_splits)
      have k: "256 - length buf = Suc (255 - length buf)" using True by arith
      with less.hyps [OF l r] True a m Some show ?thesis by (auto simp: Let_def)
    qed
  qed
qed

text \<open>
  C11. An identifier token is the longest word of the text (cut after 256 characters) and is
  looked up under the hash the table files its name by, so that reading it from a file and naming
  it as a built-in give the same identifier; only \<open>L\<close> before a quote is not an identifier.
\<close>

theorem get_one_identifier_munch:
  assumes "get_one_identifier c (st, t) = (n, st', t')" "cur st = Some k"
    "w = c # take 255 (takeWhile ident_char (logical (remaining st)))"
    "\<not> (w = ''L'' \<and> (\<exists>q ds. logical (remaining st) = q # ds \<and> Quote (Some q)))"
  shows "logical (remaining st) = tl w @ ahead n st' \<and> t' = snd (built_in_ident w t)
         \<and> tokens st' = tokens st @ [k\<lparr>tok_type := TOKEN_IDENT,
             tok_val := VIdent (ident_name t' (fst (built_in_ident w t))), tok_space := space st\<rparr>]"
proof -
  obtain b h m st1 where i: "ident_loop [c] (of_char c) st = (b, h, m, st1)"
    by (cases "ident_loop [c] (of_char c) st") auto
  have l: "b = w" "h = foldl ident_hash_add (of_char c) (tl w)" "logical (remaining st) = tl w @ ahead m st1"
    and mo: "stream_t.more st1 = stream_t.more st"
    using ident_loop_munch [OF i] assms(3) by (simp_all add: Let_def)
  have h: "ident_hash_end h = hash_name w"
    unfolding l(2) assms(3) hash_name_def list.case list.sel by (rule refl)
  have q: "\<not> (Quote m \<and> length b = 1 \<and> b ! 0 = CHR ''L'')"
  proof
    assume "Quote m \<and> length b = 1 \<and> b ! 0 = CHR ''L''"
    moreover from this obtain d where "m = Some d" by (cases m) (auto simp: Quote_def)
    ultimately show False using assms(4) l by (cases w) auto
  qed
  obtain r t1 where r: "built_in_ident w t = (r, t1)" by (cases "built_in_ident w t")
  then have cr: "create_hashed_ident b (ident_hash_end h) t = (r, t1)"
    using h l by (simp add: built_in_ident_def)
  have "get_one_identifier c (st, t) = (m, add_token TOKEN_IDENT (VIdent (ident_name t1 r)) st1, t1)"
    unfolding get_one_identifier_def Let_def prod.case i if_not_P [OF q] cr by (rule refl)
  with assms(1) have "n = m" "st' = add_token TOKEN_IDENT (VIdent (ident_name t1 r)) st1" "t' = t1"
    by auto
  moreover from this have "ahead n st' = ahead m st1" by (cases m) simp_all
  ultimately show ?thesis using l r more_lexer [OF mo] assms(2) by (auto simp: add_token_def)
qed

section \<open>Instances\<close>

definition example_lexer :: "string \<Rightarrow> lexer" where
  "example_lexer buf = (let st = setup_stream 0 False [] buf 8 in st\<lparr>cur := Some (alloc_token_stream st)\<rparr>)"

lemma example_lexer_remaining [simp]: "remaining (example_lexer buf) = buf"
  by (simp add: example_lexer_def setup_stream_def remaining_def pending_def Let_def)

lemma example_lexer_cur: "cur (example_lexer buf) = Some (alloc_token_stream (setup_stream 0 False [] buf 8))"
  by (simp add: example_lexer_def Let_def)

theorem special_value_longest_witness:
  "\<exists>v n st' rest. ''<'' @ ahead (Some (CHR ''<'')) (example_lexer ''=1'') = show_special v @ rest
     \<and> ahead n st' = rest
     \<and> (\<forall>p \<in> set punctuators. take (length p) (CHR ''<'' # ahead (Some (CHR ''<'')) (example_lexer ''=1'')) = p
          \<longrightarrow> length p \<le> length (show_special v))"
proof -
  obtain v n st' where "special_value (CHR ''<'') (Some (CHR ''<'')) (example_lexer ''=1'') = (v, n, st')"
    using prod_cases3 by blast
  from special_value_longest [OF this] show ?thesis unfolding append.simps by blast
qed

theorem special_roundtrip_witness:
  "fst (special_value (CHR ''<'') (Some (CHR ''<'')) (example_lexer ''='')) = SPECIAL_SHL_ASSIGN"
  by (rule special_roundtrip [where ds = "''=''"])
     (simp_all add: punctuators_eval(3) show_special_def combinations_def logical_def)

theorem get_one_number_munch_witness:
  "\<exists>n st'. get_one_number (CHR ''1'') (Some (CHR ''e'')) (example_lexer ''+5-2'') = (n, st')
     \<and> logical ''e+5-2'' = ''e+5'' @ ahead n st'"
proof -
  obtain n st' where r: "get_one_number (CHR ''1'') (Some (CHR ''e'')) (example_lexer ''+5-2'') = (n, st')"
    by (cases "get_one_number (CHR ''1'') (Some (CHR ''e'')) (example_lexer ''+5-2'')") auto
  have m: "''e+5'' = pp_munch (ahead (Some (CHR ''e'')) (example_lexer ''+5-2''))"
    by (simp add: logical_def num_char_def Dot_def Digit_def Letter_def Exp_def)
  have "logical ''e+5-2'' = ahead (Some (CHR ''e'')) (example_lexer ''+5-2'')"
    by (simp add: logical_def)
  with get_one_number_munch [OF r example_lexer_cur m] r show ?thesis by metis
qed

definition no_idents :: ident_table where
  "no_idents = \<lparr>chain = (\<lambda>_. []), ident_hit = 0, ident_miss = 0, idents = 0\<rparr>"

theorem get_one_identifier_munch_witness:
  "\<exists>n st' t'. get_one_identifier (CHR ''x'') (example_lexer ''1+'', no_idents) = (n, st', t')
     \<and> logical ''1+'' = ''1'' @ ahead n st' \<and> t' = snd (built_in_ident ''x1'' no_idents)"
proof -
  obtain n st' t' where r: "get_one_identifier (CHR ''x'') (example_lexer ''1+'', no_idents) = (n, st', t')"
    by (cases "get_one_identifier (CHR ''x'') (example_lexer ''1+'', no_idents)") auto
  have w: "''x1'' = CHR ''x'' # take 255 (takeWhile ident_char (logical (remaining (example_lexer ''1+''))))"
    by (simp add: logical_def ident_char_def Digit_def Letter_def)
  have "\<not> (''x1'' = ''L'' \<and> (\<exists>q ds. logical (remaining (example_lexer ''1+'')) = q # ds \<and> Quote (Some q)))"
    by simp
  from get_one_identifier_munch [OF r example_lexer_cur w this] r show ?thesis by simp
qed

end
