(* ===== verification/Char_Const.thy ===== *)
theory Char_Const
  imports Tokenize
begin

text \<open>
  Character and string constants: the growing \<open>CString\<close> buffers, the decoding of escapes
  and the value of character and string tokens (\<open>char.c\<close>, \<open>hexval\<close> of \<open>lib.c\<close>), and
  their printing (\<open>charstr\<close> to \<open>quote_token\<close> of \<open>tokenize.c\<close>).
\<close>

section \<open>Growing buffers\<close>

text \<open>
  \<open>None\<close> is a byte of the allocation that was not written yet; the length of \<open>cs_data\<close>
  is \<open>size_allocated\<close>.
\<close>

record CString =
  cs_size :: nat
  cs_data :: "char option list"

function grow_size :: "nat \<Rightarrow> nat \<Rightarrow> nat" where
  "grow_size sz new_size = (if 0 < sz \<and> sz < new_size then grow_size (sz * 2) new_size else sz)"
  by pat_completeness auto
termination by (relation "measure (\<lambda>(s, n). n - s)") auto

declare grow_size.simps [simp del]

definition cstr_realloc :: "CString \<Rightarrow> nat \<Rightarrow> CString" where
  "cstr_realloc cstr new_size =
     (let sz = length (cs_data cstr);
          size1 = grow_size (if sz = 0 then 8 else sz) new_size
      in cstr\<lparr>cs_data := take size1 (cs_data cstr) @ replicate (size1 - sz) None\<rparr>)"

definition cstr_ccat :: "CString \<Rightarrow> char \<Rightarrow> CString" where
  "cstr_ccat cstr ch =
     (let sz = cs_size cstr + 2;
          cstr1 = (if sz > length (cs_data cstr) then cstr_realloc cstr sz else cstr)
      in cstr1\<lparr>cs_data := (cs_data cstr1)[sz - 2 := Some ch, sz - 1 := Some (CHR 0x00)],
               cs_size := Suc (cs_size cstr1)\<rparr>)"

text \<open>\<open>str\<close> is the text before the NUL.\<close>

fun cstr_cat :: "CString \<Rightarrow> string \<Rightarrow> CString" where
  "cstr_cat cstr [] = cstr"
| "cstr_cat cstr (c # str) = cstr_cat (cstr_ccat cstr c) str"

definition cstr_cstring :: "CString \<Rightarrow> CString" where
  "cstr_cstring cstr =
     (if cs_size cstr = 0 \<or> cs_data cstr ! (cs_size cstr - 1) \<noteq> Some (CHR 0x00)
      then cstr_ccat cstr (CHR 0x00) else cstr)"

definition cstr_new :: CString where
  "cstr_new = \<lparr>cs_size = 0, cs_data = []\<rparr>"

definition cstr_free :: "CString \<Rightarrow> CString" where
  "cstr_free cstr = cstr_new"

text \<open>A buffer holds a text: its bytes, then a NUL, inside the allocation.\<close>

definition holds :: "CString \<Rightarrow> string \<Rightarrow> bool" where
  "holds cstr s \<longleftrightarrow> cs_size cstr = length s \<and>
     (s = [] \<or> (length s < length (cs_data cstr)
        \<and> take (Suc (length s)) (cs_data cstr) = map Some (s @ [CHR 0x00])))"

lemma grow_size_ge: "0 < sz \<Longrightarrow> new_size \<le> grow_size sz new_size \<and> sz \<le> grow_size sz new_size"
proof (induction sz new_size rule: grow_size.induct)
  case (1 sz new_size)
  then show ?case by (subst (1 2) grow_size.simps) auto
qed

lemma cstr_realloc_props:
  "cs_size (cstr_realloc cstr n) = cs_size cstr"
  "n \<le> length (cs_data (cstr_realloc cstr n))"
  "take (length (cs_data cstr)) (cs_data (cstr_realloc cstr n)) = cs_data cstr"
  using grow_size_ge [of "if length (cs_data cstr) = 0 then 8 else length (cs_data cstr)" n]
  by (auto simp: cstr_realloc_def Let_def split: if_splits)

lemma take_prefix: "take n xs = ys \<Longrightarrow> m \<le> n \<Longrightarrow> take m xs = take m ys"
  by (metis take_take min.absorb1)

lemma holds_ccat: "holds cstr s \<Longrightarrow> holds (cstr_ccat cstr c) (s @ [c])"
proof -
  assume h: "holds cstr s"
  define c1 where "c1 = (if cs_size cstr + 2 > length (cs_data cstr)
    then cstr_realloc cstr (cs_size cstr + 2) else cstr)"
  have sz: "cs_size c1 = length s" using h by (simp add: c1_def cstr_realloc_props holds_def)
  have len: "length s + 2 \<le> length (cs_data c1)"
    using h cstr_realloc_props(2) [of "cs_size cstr + 2" cstr] by (auto simp: c1_def holds_def)
  have s1: "take (length s) (cs_data c1) = map Some s"
  proof (cases "s = []")
    case False
    with h have a: "length s < length (cs_data cstr)"
      "take (Suc (length s)) (cs_data cstr) = map Some (s @ [CHR 0x00])" by (simp_all add: holds_def)
    have "take (length s) (cs_data c1) = take (length s) (cs_data cstr)"
      using a(1) take_prefix [OF cstr_realloc_props(3) [of cstr "cs_size cstr + 2"], of "length s"]
      by (simp add: c1_def)
    also have "\<dots> = map Some s" using take_prefix [OF a(2), of "length s"] by simp
    finally show ?thesis .
  qed simp
  have d: "cs_data (cstr_ccat cstr c) = (cs_data c1)[length s := Some c, Suc (length s) := Some (CHR 0x00)]"
    and z: "cs_size (cstr_ccat cstr c) = Suc (length s)"
    using h sz by (simp_all add: cstr_ccat_def c1_def holds_def Let_def split: if_splits)
  have "take (Suc (Suc (length s))) (cs_data (cstr_ccat cstr c)) = map Some ((s @ [c]) @ [CHR 0x00])"
    using len s1 by (simp add: d take_Suc_conv_app_nth)
  with d z len show ?thesis by (simp add: holds_def)
qed

lemma holds_cat: "holds cstr s \<Longrightarrow> holds (cstr_cat cstr t) (s @ t)"
  by (induction t arbitrary: cstr s) (use holds_ccat in fastforce)+

text \<open>
  C13. A buffer that holds a text holds, after any string was appended, the text followed by the
  string and a terminating NUL, all inside the memory allocated.
\<close>

theorem cstr_cat_holds:
  "holds (cstr_cat (cstr_cat cstr_new s) t) (s @ t)"
  using holds_cat [of cstr_new "[]" s] holds_cat [of "cstr_cat cstr_new s" s t]
  by (simp add: holds_def cstr_new_def)

section \<open>Escapes\<close>

text \<open>Bytes are read as \<open>char\<close>, which is signed, and converted to \<open>unsigned\<close>.\<close>

definition sx :: "char \<Rightarrow> u32" where
  "sx c = scast (of_char c :: u8)"

definition hexval :: "u32 \<Rightarrow> u32" where
  "hexval c =
     (if 48 \<le> c \<and> c \<le> 57 then c - 48
      else if 97 \<le> c \<and> c \<le> 102 then c - 97 + 10
      else if 65 \<le> c \<and> c \<le> 70 then c - 65 + 10
      else 256)"

datatype char_warn = HexRange | OctalRange | MultiChar | ConcatTooLong nat

text \<open>
  The pointers are positions in the bytes of the string. Each loop returns the position, the
  value and the messages; \<open>None\<close> is a read outside of the bytes.
\<close>

function hex_loop :: "string \<Rightarrow> nat \<Rightarrow> nat \<Rightarrow> u32 \<Rightarrow> u32 \<Rightarrow> char_warn list
    \<Rightarrow> (nat \<times> u32 \<times> char_warn list) option" where
  "hex_loop mem p en msk c ws =
     (if \<not> p < en then Some (p, c, ws)
      else if \<not> p < length mem then None
      else
        (let d = hexval (sx (mem ! p)) in
         if d > 16 then Some (Suc p, c, ws)
         else if and c msk \<noteq> 0 then hex_loop mem (Suc p) en 0 (push_bit 4 c + d) (ws @ [HexRange])
         else hex_loop mem (Suc p) en msk (push_bit 4 c + d) ws))"
  by pat_completeness auto
termination by (relation "measure (\<lambda>(mem, p, en, msk, c, ws). en - p)") auto

function oct_loop :: "string \<Rightarrow> nat \<Rightarrow> nat \<Rightarrow> u32 \<Rightarrow> (nat \<times> u32) option" where
  "oct_loop mem p en c =
     (if \<not> p < en then Some (p, c)
      else if \<not> p < length mem then None
      else
        (let d = sx (mem ! p) - 48 in
         if d < 8 then oct_loop mem (Suc p) en (push_bit 3 c + d) else Some (Suc p, c)))"
  by pat_completeness auto
termination by (relation "measure (\<lambda>(mem, p, en, c). en - p)") auto

declare hex_loop.simps [simp del] oct_loop.simps [simp del]

definition escape_bits :: "nat \<Rightarrow> u32 \<Rightarrow> u32" where
  "escape_bits bits c = and c (not (push_bit 1 (push_bit (bits - 1) (not 0))))"

definition simple_escape :: "char \<Rightarrow> u32" where
  "simple_escape c =
     (if c = CHR ''a'' then 7 else if c = CHR ''b'' then 8 else if c = CHR ''t'' then 9
      else if c = CHR ''n'' then 10 else if c = CHR ''v'' then 11 else if c = CHR ''f'' then 12
      else if c = CHR ''r'' then 13 else if c = CHR ''e'' then 27 else sx c)"

definition octal_char :: "char \<Rightarrow> bool" where
  "octal_char c = (c \<in> set ''01234567'')"

definition parse_escape :: "string \<Rightarrow> nat \<Rightarrow> nat \<Rightarrow> nat \<Rightarrow> (nat \<times> u32 \<times> char_warn list) option" where
  "parse_escape mem p en bits =
     (if \<not> p < length mem then None
      else if mem ! p \<noteq> BSL then Some (Suc p, sx (mem ! p), [])
      else if \<not> Suc p < length mem then None
      else
        (let c = mem ! Suc p; p2 = Suc (Suc p) in
         if c = CHR ''x'' then
           (case hex_loop mem p2 en (- push_bit (bits - 4) 1) 0 [] of
              None \<Rightarrow> None | Some (q, v, ws) \<Rightarrow> Some (q, escape_bits bits v, ws))
         else if octal_char c then
           (case oct_loop mem p2 (if p2 + 2 < en then p2 + 2 else en) (sx c - 48) of
              None \<Rightarrow> None
            | Some (q, v) \<Rightarrow>
                Some (q, escape_bits bits v, if and v 256 \<noteq> 0 \<and> bits < 9 then [OctalRange] else []))
         else Some (p2, escape_bits bits (simple_escape c), [])))"




section \<open>Constants\<close>

text \<open>The bytes of a token's text and the number of them before \<open>end\<close>.\<close>

fun char_bytes :: "token_type \<Rightarrow> tok_val \<Rightarrow> string \<times> nat" where
  "char_bytes ty (VString s) = (s @ [CHR 0x00], Suc (length s))"
| "char_bytes ty (VEmbedded s) =
     (s, if tt_code ty < tt_code TOKEN_WIDE_CHAR then tt_code ty - tt_code TOKEN_CHAR
         else tt_code ty - tt_code TOKEN_WIDE_CHAR)"
| "char_bytes ty v = ([], 0)"

definition get_char_constant :: "nat \<Rightarrow> token \<Rightarrow> (u64 \<times> char_warn list) option" where
  "get_char_constant bits_in_char tok =
     (let (mem, en) = char_bytes (tok_type tok) (tok_val tok);
          bits = (if tt_code (tok_type tok) < tt_code TOKEN_WIDE_CHAR then bits_in_char else 32)
      in case parse_escape mem 0 en bits of
           None \<Rightarrow> None
         | Some (p, v, ws) \<Rightarrow> Some (ucast v, if p \<noteq> en then ws @ [MultiChar] else ws))"









section \<open>Printing\<close>








definition show_char :: "string \<Rightarrow> char option \<Rightarrow> char \<Rightarrow> string" where
  "show_char s prefix delim = (case prefix of None \<Rightarrow> [] | Some c \<Rightarrow> [c]) @ [delim] @ s @ [delim]"

definition quote_char :: "string \<Rightarrow> char option \<Rightarrow> char \<Rightarrow> string" where
  "quote_char s prefix delim =
     (let d = (if delim = CHR 0x22 then [BSL, delim] else [delim]) in
      (case prefix of None \<Rightarrow> [] | Some c \<Rightarrow> [c]) @ d
        @ concat (map (\<lambda>c. if c = CHR 0x22 \<or> c = BSL then [BSL, c] else [c]) s) @ d)"

section \<open>Decoding\<close>
























end
