(* ===== verification/Expand_Props.thy ===== *)
theory Expand_Props
  imports Expand Const_Fold_Props
begin

text \<open>
  Expansion keeps its promises: initialisers are ordered and overlaps are found, constant
  expressions are folded to the value C gives them, and the bound on the recursion does not change
  results.
\<close>

section \<open>Initialiser lists\<close>

lemma compare_expressions_le:
  "compare_expressions bic tab a b \<le> 0 \<longleftrightarrow> bit_offset_of bic tab a \<le> bit_offset_of bic tab b"
  by (auto simp: compare_expressions_def Let_def)

interpretation expr_order: cmp_order "compare_expressions bic tab" for bic tab
  by unfold_locales (auto simp: compare_expressions_def Let_def split: if_splits)

lemma sort_expression_list_ok:
  "sorted_wrt (\<lambda>a b. bit_offset_of bic tab a \<le> bit_offset_of bic tab b) (entries (sort_expression_list bic tab l))"
  "mset (entries (sort_expression_list bic tab l)) = mset (entries l)"
  "filter (\<lambda>e. bit_offset_of bic tab e = k) (entries (sort_expression_list bic tab l))
     = filter (\<lambda>e. bit_offset_of bic tab e = k) (entries l)"
proof -
  note ok = expr_order.sort_list_ok [of bic tab l]
  show "sorted_wrt (\<lambda>a b. bit_offset_of bic tab a \<le> bit_offset_of bic tab b)
      (entries (sort_expression_list bic tab l))"
    using ok by (simp add: ordered_by_def compare_expressions_le sort_expression_list_def)
  show "mset (entries (sort_expression_list bic tab l)) = mset (entries l)"
    using ok by (simp add: same_classes_def sort_expression_list_def)
  have c0: "compare_expressions bic tab a b = 0 \<longleftrightarrow> bit_offset_of bic tab a = bit_offset_of bic tab b" for a b
    by (auto simp: compare_expressions_def Let_def)
  have s: "filter (\<lambda>y. bit_offset_of bic tab x = bit_offset_of bic tab y) (entries l)
      = filter (\<lambda>y. bit_offset_of bic tab x = bit_offset_of bic tab y) (entries (sort_expression_list bic tab l))" for x
    using ok by (simp add: same_classes_def c0 sort_expression_list_def)
  show "filter (\<lambda>e. bit_offset_of bic tab e = k) (entries (sort_expression_list bic tab l))
     = filter (\<lambda>e. bit_offset_of bic tab e = k) (entries l)"
  proof (cases "\<exists>x. bit_offset_of bic tab x = k")
    case True
    then obtain x where k: "k = bit_offset_of bic tab x" by blast
    show ?thesis unfolding k using s [of x] by (simp add: eq_commute)
  qed auto
qed

text \<open>
  C20. The entries of an initialiser are put in the order of their bit positions; entries at the
  same position keep their order, none is lost or added, and a packed list stays packed.
\<close>

theorem sort_expression_list_sorted:
  "sorted (map (bit_offset_of bic tab) (entries (sort_expression_list bic tab l)))
   \<and> mset (entries (sort_expression_list bic tab l)) = mset (entries l)
   \<and> (\<forall>k. filter (\<lambda>e. bit_offset_of bic tab e = k) (entries (sort_expression_list bic tab l))
            = filter (\<lambda>e. bit_offset_of bic tab e = k) (entries l))
   \<and> mset (map length (sort_expression_list bic tab l)) = mset (map length l)"
  using sort_expression_list_ok [of bic tab] mset_lengths_sort [of "compare_expressions bic tab" l]
  by (simp add: sorted_map sort_expression_list_def)

definition sized :: "symtab \<Rightarrow> expression \<Rightarrow> bool" where
  "sized tab e = (case e_ctype e of None \<Rightarrow> False | Some ty \<Rightarrow> bit_size (tab ty) \<noteq> 0)"

lemma overlap_from_sorted:
  assumes "sorted_wrt (\<lambda>a b. bit_offset_of bic tab a \<le> bit_offset_of bic tab b)
      ((case a of None \<Rightarrow> [] | Some x \<Rightarrow> [x]) @ es)"
  shows "overlap_from bic tab a es \<longleftrightarrow>
    \<not> distinct (map (bit_offset_of bic tab) ((case a of None \<Rightarrow> [] | Some x \<Rightarrow> [x]) @ filter (sized tab) es))"
  using assms
proof (induction es arbitrary: a)
  case Nil
  then show ?case by (simp split: option.splits)
next
  case (Cons b bs)
  have skip: "overlap_from bic tab a (b # bs) = overlap_from bic tab a bs" if "\<not> sized tab b"
    using that by (auto simp: sized_def split: option.splits)
  show ?case
  proof (cases "sized tab b")
    case False
    moreover have "overlap_from bic tab a bs \<longleftrightarrow> \<not> distinct (map (bit_offset_of bic tab)
        ((case a of None \<Rightarrow> [] | Some x \<Rightarrow> [x]) @ filter (sized tab) bs))"
      by (rule Cons.IH) (use Cons.prems in \<open>auto split: option.splits\<close>)
    ultimately show ?thesis using skip by simp
  next
    case True
    have ih: "overlap_from bic tab (Some b) bs \<longleftrightarrow>
        \<not> distinct (map (bit_offset_of bic tab) (b # filter (sized tab) bs))"
      using Cons.IH [of "Some b"] Cons.prems by (auto split: option.splits)
    show ?thesis
    proof (cases a)
      case None
      have "overlap_from bic tab None (b # bs) = overlap_from bic tab (Some b) bs"
        using True by (auto simp: sized_def split: option.splits)
      with None True ih show ?thesis by simp
    next
      case (Some x)
      have le: "bit_offset_of bic tab x \<le> bit_offset_of bic tab b"
        "\<forall>y \<in> set bs. bit_offset_of bic tab b \<le> bit_offset_of bic tab y"
        using Cons.prems Some by auto
      have step: "overlap_from bic tab a (b # bs) \<longleftrightarrow>
          bit_offset_of bic tab x = bit_offset_of bic tab b \<or> overlap_from bic tab (Some b) bs"
        using True Some by (auto simp: sized_def split: option.splits)
      show ?thesis unfolding step ih using le Some True by fastforce
    qed
  qed
qed

text \<open>
  C21. The check for overlapping initialisers, run on the sorted list, is exact: it warns exactly
  when two entries of a type that has bits start at the same bit.
\<close>

theorem verify_nonoverlapping_exact:
  "verify_nonoverlapping bic (sort_expression_list bic (syms st) l) st =
     (if distinct (map (bit_offset_of bic (syms st)) (filter (sized (syms st)) (entries l))) then st
      else xwarn Defined_twice st)"
proof -
  let ?s = "entries (sort_expression_list bic (syms st) l)"
  have "mset (map (bit_offset_of bic (syms st)) (filter (sized (syms st)) ?s))
      = mset (map (bit_offset_of bic (syms st)) (filter (sized (syms st)) (entries l)))"
    using sort_expression_list_ok(2) [of bic "syms st" l] by simp
  then have "distinct (map (bit_offset_of bic (syms st)) (filter (sized (syms st)) ?s))
      \<longleftrightarrow> distinct (map (bit_offset_of bic (syms st)) (filter (sized (syms st)) (entries l)))"
    by (metis mset_eq_imp_distinct_iff)
  moreover have "overlap_from bic (syms st) None ?s \<longleftrightarrow>
      \<not> distinct (map (bit_offset_of bic (syms st)) (filter (sized (syms st)) ?s))"
    using overlap_from_sorted [of bic "syms st" None ?s] sort_expression_list_ok(1) by simp
  ultimately show ?thesis by (simp add: verify_nonoverlapping_def)
qed

section \<open>Constant expressions\<close>

text \<open>
  What a constant expression is worth, as rules over its tree: the operators are those on
  integers, and the logical and conditional operators only look at the side they need. The values
  are canonical for the types they are used at.
\<close>

definition size_ok :: "symtab \<Rightarrow> symref \<Rightarrow> int \<Rightarrow> bool" where
  "size_ok tab ty n \<longleftrightarrow> ty \<noteq> Bad_ctype \<and> n = bit_size (tab ty) \<and> 1 \<le> n \<and> n \<le> 64"

definition signed_type :: "symtab \<Rightarrow> symref \<Rightarrow> bool" where
  "signed_type tab ty = (\<not> has_mod (mods tab ty) MOD_UNSIGNED)"

definition preop_spec :: "nat \<Rightarrow> bool \<Rightarrow> int \<Rightarrow> u64 \<Rightarrow> int option" where
  "preop_spec op s n v =
     (if op = op_chr (CHR ''+'') then Some (ival s n v)
      else if op = op_chr (CHR ''-'') then
        (if s \<and> ival s n v = - (2 ^ nat (n - 1)) then None else Some (- ival s n v))
      else if op = op_chr (CHR ''~'') then Some (not (ival s n v))
      else None)"

inductive const_eval :: "symtab \<Rightarrow> expression \<Rightarrow> u64 \<Rightarrow> bool" for tab where
  Value: "e_node e = EXPR_VALUE v t \<Longrightarrow> e_ctype e = Some ty \<Longrightarrow> ty \<noteq> Bad_ctype \<Longrightarrow> const_eval tab e v"
| Binop: "e_node e = Binary EXPR_BINOP l r \<Longrightarrow> e_ctype e = Some ty \<Longrightarrow> size_ok tab ty n \<Longrightarrow>
    const_eval tab l a \<Longrightarrow> const_eval tab r b \<Longrightarrow> canonical n a \<Longrightarrow> canonical n b \<Longrightarrow>
    (e_op e = SPECIAL_LEFTSHIFT \<or> e_op e = SPECIAL_RIGHTSHIFT \<Longrightarrow> b < word_of_int n) \<Longrightarrow>
    int_spec (e_op e) (signed_type tab ty) n (ival (signed_type tab ty) n a) (ival (signed_type tab ty) n b)
      (unat b) = Some z \<Longrightarrow>
    const_eval tab e (of_ival n z)"
| Compare: "e_node e = Binary EXPR_COMPARE l r \<Longrightarrow> e_ctype e = Some ety \<Longrightarrow> ety \<noteq> Bad_ctype \<Longrightarrow>
    e_ctype l = Some ty \<Longrightarrow> size_ok tab ty n \<Longrightarrow>
    const_eval tab l a \<Longrightarrow> const_eval tab r b \<Longrightarrow> canonical n a \<Longrightarrow> canonical n b \<Longrightarrow>
    cmp_spec (e_op e) (ival True n a) (ival True n b) (ival False n a) (ival False n b) = Some c \<Longrightarrow>
    const_eval tab e (if c then 1 else 0)"
| Logical_stop: "e_node e = Binary EXPR_LOGICAL l r \<Longrightarrow> e_ctype e = Some ty \<Longrightarrow> ty \<noteq> Bad_ctype \<Longrightarrow>
    const_eval tab l a \<Longrightarrow> (e_op e = SPECIAL_LOGICAL_AND \<longleftrightarrow> a = 0) \<Longrightarrow>
    const_eval tab e (if a = 0 then 0 else 1)"
| Logical_go: "e_node e = Binary EXPR_LOGICAL l r \<Longrightarrow> e_ctype e = Some ty \<Longrightarrow> ty \<noteq> Bad_ctype \<Longrightarrow>
    const_eval tab l a \<Longrightarrow> (e_op e = SPECIAL_LOGICAL_AND \<longleftrightarrow> a \<noteq> 0) \<Longrightarrow> const_eval tab r b \<Longrightarrow>
    const_eval tab e (if b = 0 then 0 else 1)"
| Comma: "e_node e = Binary EXPR_COMMA l r \<Longrightarrow> e_ctype e = Some ty \<Longrightarrow> ty \<noteq> Bad_ctype \<Longrightarrow>
    e_ctype r = Some ty \<Longrightarrow> const_eval tab l a \<Longrightarrow> const_eval tab r b \<Longrightarrow> const_eval tab e b"
| Conditional: "e_node e = Cond ct c (Some x) (Some y) \<Longrightarrow> e_ctype e = Some ty \<Longrightarrow> ty \<noteq> Bad_ctype \<Longrightarrow>
    const_eval tab c k \<Longrightarrow> side = (if k = 0 then y else x) \<Longrightarrow> e_ctype side = Some ty \<Longrightarrow>
    const_eval tab side v \<Longrightarrow> const_eval tab e v"
| Preop: "e_node e = Unary EXPR_PREOP u ov \<Longrightarrow> e_ctype e = Some ty \<Longrightarrow> size_ok tab ty n \<Longrightarrow>
    const_eval tab u a \<Longrightarrow> canonical n a \<Longrightarrow> preop_spec (e_op e) (signed_type tab ty) n a = Some z \<Longrightarrow>
    const_eval tab e (of_ival n z)"
| Not: "e_node e = Unary EXPR_PREOP u ov \<Longrightarrow> e_ctype e = Some ty \<Longrightarrow> size_ok tab ty n \<Longrightarrow>
    const_eval tab u a \<Longrightarrow> e_op e = op_chr (CHR ''!'') \<Longrightarrow> const_eval tab e (if a = 0 then 1 else 0)"
| Cast: "e_node e = Cast ct cty (Some u) \<Longrightarrow> ct \<in> {EXPR_CAST, EXPR_FORCE_CAST, EXPR_IMPLIED_CAST} \<Longrightarrow>
    e_ctype e = Some ty \<Longrightarrow> size_ok tab ty n \<Longrightarrow> const_eval tab u a \<Longrightarrow> e_ctype u = Some old \<Longrightarrow>
    size_ok tab old m \<Longrightarrow> canonical m a \<Longrightarrow> base_of tab ty \<noteq> Some Fp_type \<Longrightarrow> base_of tab old \<noteq> Some Fp_type \<Longrightarrow>
    (is_bool_type tab ty \<Longrightarrow> n = 1) \<Longrightarrow>
    const_eval tab e (if is_bool_type tab ty then (if a = 0 then 0 else 1)
                      else of_ival n (ival (signed_type tab old) m a))"

lemma and_all_mask_bit: "1 \<le> n \<Longrightarrow> and (bit_value b) (all_mask n) = bit_value b"
proof -
  assume "1 \<le> n"
  then obtain k where "nat n = Suc k" by (cases "nat n") auto
  with \<open>1 \<le> n\<close> show ?thesis by (simp add: and_all_mask bit_value_def take_bit_Suc)
qed

lemma simplify_preop_correct:
  assumes "e_node expr = Unary ut u k" "e_node u = EXPR_VALUE v t" "size_ok (syms st) ty n"
    and "s = signed_type (syms st) ty"
  shows "canonical n v \<Longrightarrow> preop_spec (e_op expr) s n v = Some z \<Longrightarrow>
      simplify_preop expr ty st = (True, set_node expr (EXPR_VALUE (of_ival n z) t), st)"
    and "e_op expr = op_chr (CHR ''!'') \<Longrightarrow>
      simplify_preop expr ty st = (True, set_node expr (EXPR_VALUE (if v = 0 then 1 else 0) t), st)"
proof -
  have n: "n = bit_size (syms st ty)" "1 \<le> n" "n \<le> 64" using assms(3) by (simp_all add: size_ok_def)
  have n64: "nat n \<le> 64" using n by simp
  have tv: "take_bit (nat n) (ival s n v) = take_bit (nat n) (uint v)" using n(2) by (rule take_ival)
  have plus: "and v (all_mask n) = of_ival n (ival s n v)"
    by (rule and_all_mask_of_int [OF n(2,3)]) (simp add: tv)
  have minus: "and (- v) (all_mask n) = of_ival n (- ival s n v)"
  proof (rule and_all_mask_of_int [OF n(2,3)])
    have "take_bit (nat n) (uint (- v)) = take_bit (nat n) (- uint v)"
      using take_uint(2) [OF n64, of 0 v] by simp
    also have "\<dots> = take_bit (nat n) (- ival s n v)"
      using tv by (metis take_bit_minus)
    finally show "take_bit (nat n) (uint (- v)) = take_bit (nat n) (- ival s n v)" .
  qed
  have compl: "and (not v) (all_mask n) = of_ival n (not (ival s n v))"
  proof (rule and_all_mask_of_int [OF n(2,3)])
    have "take_bit (nat n) (uint (not v)) = take_bit (nat n) (not (uint v))"
      using n64 by (simp add: unsigned_not_eq take_bit_take_bit min_def)
    also have "\<dots> = take_bit (nat n) (not (ival s n v))"
      using tv by (metis take_bit_not_take_bit)
    finally show "take_bit (nat n) (uint (not v)) = take_bit (nat n) (not (ival s n v))" .
  qed
  {
    assume c: "canonical n v" and p: "preop_spec (e_op expr) s n v = Some z"
    have "v = size_mask n \<longleftrightarrow> ival s n v = - (2 ^ nat (n - 1))" if s
      using ival_eq_iff [OF n(2) c canonical_size_mask [OF n(2)], of s] ival_size_mask [OF n(2,3)] that by simp
    with p show "simplify_preop expr ty st = (True, set_node expr (EXPR_VALUE (of_ival n z) t), st)"
      using assms(1,2,4) n(1) plus minus compl
      by (auto simp: simplify_preop_def preop_spec_def signed_type_def Let_def split: if_splits)
  }
  show "e_op expr = op_chr (CHR ''!'') \<Longrightarrow>
      simplify_preop expr ty st = (True, set_node expr (EXPR_VALUE (if v = 0 then 1 else 0) t), st)"
    using assms(1,2) n and_all_mask_bit [of n "v = 0"]
    by (simp add: simplify_preop_def Let_def bit_value_def)
qed

lemma expand_Suc:
  "expand_expression cf td (Suc n) e st =
     expand_expression_body cf td (expand_expression cf td n) (expand_statement cf td n) e st"
  "expand_statement cf td (Suc n) s st =
     expand_statement_body (expand_expression cf td n) (expand_statement cf td n) s st"
  by (simp_all add: expand_expression_def expand_statement_def case_prod_unfold Let_def)

text \<open>The expression is folded to a value, at no cost, and nothing else changes.\<close>

definition folds_to :: "expand_e \<Rightarrow> symtab \<Rightarrow> expression \<Rightarrow> u64 \<Rightarrow> bool" where
  "folds_to ee tab e v \<longleftrightarrow> (\<forall>st. syms st = tab \<longrightarrow>
     (\<exists>e' t st'. ee e st = Some (e', 0, st') \<and> e_node e' = EXPR_VALUE v t \<and> e_ctype e' = e_ctype e
        \<and> syms st' = tab))"

lemma folds_toE:
  assumes "folds_to ee tab e v" "syms st = tab"
  obtains e' t st' where "ee e st = Some (e', 0, st')" "e_node e' = EXPR_VALUE v t"
    "e_ctype e' = e_ctype e" "syms st' = tab"
  using assms unfolding folds_to_def by blast

lemma cast_value_value: "fst (cast_value cf nt (EXPR_VALUE v t) ot st) = x \<Longrightarrow>
  \<exists>st'. cast_value cf nt (EXPR_VALUE v t) ot st = (x, st') \<and> syms st' = syms st"
proof -
  assume f: "fst (cast_value cf nt (EXPR_VALUE v t) ot st) = x"
  have i: "syms (snd (cast_int cf nt k w st)) = syms st" for k w
    by (simp add: cast_int_def xwarn_def Let_def)
  have "syms (snd (cast_value cf nt (EXPR_VALUE v t) ot st)) = syms st"
    using i by (simp add: cast_value_def case_prod_unfold Let_def)
  with f show ?thesis by (metis prod.collapse)
qed

lemma folds_two:
  assumes "folds_to ee tab l a" "folds_to ee tab r b" "syms st = tab"
  obtains l' lt st1 r' rt st2 where "ee l st = Some (l', 0, st1)" "e_node l' = EXPR_VALUE a lt"
    "e_ctype l' = e_ctype l" "ee r st1 = Some (r', 0, st2)" "e_node r' = EXPR_VALUE b rt"
    "e_ctype r' = e_ctype r" "syms st1 = tab" "syms st2 = tab"
  using folds_toE [OF assms(1,3)] folds_toE [OF assms(2)] by metis

text \<open>One step of the knot for each rule.\<close>

lemma fold_binop:
  assumes "e_node e = Binary EXPR_BINOP l r" "e_ctype e = Some ty" "size_ok tab ty n"
    and "canonical n a" "canonical n b"
    and "e_op e = SPECIAL_LEFTSHIFT \<or> e_op e = SPECIAL_RIGHTSHIFT \<Longrightarrow> b < word_of_int n"
    and "int_spec (e_op e) (signed_type tab ty) n (ival (signed_type tab ty) n a) (ival (signed_type tab ty) n b)
      (unat b) = Some z"
    and f: "folds_to (expand_expression cf td m) tab l a" "folds_to (expand_expression cf td m) tab r b"
  shows "folds_to (expand_expression cf td (Suc m)) tab e (of_ival n z)"
  unfolding folds_to_def
proof (intro allI impI)
  fix st :: xstate
  assume "syms st = tab"
  from folds_two [OF f this] obtain l' lt st1 r' rt st2 where
    l': "expand_expression cf td m l st = Some (l', 0, st1)" "e_node l' = EXPR_VALUE a lt" and
    r': "expand_expression cf td m r st1 = Some (r', 0, st2)" "e_node r' = EXPR_VALUE b rt" "syms st2 = tab"
    by metis
  let ?e = "set_node e (Binary EXPR_BINOP l' r')"
  have sz: "n = bit_size (syms st2 ty)" "1 \<le> n" "n \<le> 64" "ty \<noteq> Bad_ctype"
    using assms(3) r'(3) by (simp_all add: size_ok_def)
  have "simplify_int_binop ?e ty st2 =
      Some (True, set_node ?e (EXPR_VALUE (of_ival n z) (or lt rt)), st2)"
    using simplify_int_binop_fold [where expr = ?e and bt = EXPR_BINOP and left = l' and right = r'
        and st = st2, OF _ l'(2) r'(2) sz(1-3) assms(4,5) refl] assms(6,7) r'(3)
    by (simp add: signed_type_def)
  then show "\<exists>e' t st'. expand_expression cf td (Suc m) e st = Some (e', 0, st')
      \<and> e_node e' = EXPR_VALUE (of_ival n z) t \<and> e_ctype e' = e_ctype e \<and> syms st' = tab"
    using assms(1,2) sz(4) l' r' by (simp add: expand_Suc expand_expression_body_def expand_binop_def)
qed

lemma fold_compare:
  assumes "e_node e = Binary EXPR_COMPARE l r" "e_ctype e = Some ety" "ety \<noteq> Bad_ctype"
    and "e_ctype l = Some ty" "size_ok tab ty n" "canonical n a" "canonical n b"
    and "cmp_spec (e_op e) (ival True n a) (ival True n b) (ival False n a) (ival False n b) = Some c"
    and f: "folds_to (expand_expression cf td m) tab l a" "folds_to (expand_expression cf td m) tab r b"
  shows "folds_to (expand_expression cf td (Suc m)) tab e (if c then 1 else 0)"
  unfolding folds_to_def
proof (intro allI impI)
  fix st :: xstate
  assume "syms st = tab"
  from folds_two [OF f this] obtain l' lt st1 r' rt st2 where
    l': "expand_expression cf td m l st = Some (l', 0, st1)" "e_node l' = EXPR_VALUE a lt"
      "e_ctype l' = e_ctype l" and
    r': "expand_expression cf td m r st1 = Some (r', 0, st2)" "e_node r' = EXPR_VALUE b rt" "syms st2 = tab"
    by metis
  let ?e = "set_node e (Binary EXPR_COMPARE l' r')"
  have "simplify_cmp_binop ?e ty st2 = Some (True, set_node ?e (EXPR_VALUE (if c then 1 else 0) (or lt rt)))"
    by (rule simplify_cmp_binop_fold [where left = l' and right = r' and bt = EXPR_COMPARE
          and l = a and r = b and n = n])
       (use l' r' assms(5-8) in \<open>simp_all add: size_ok_def\<close>)
  then show "\<exists>e' t st'. expand_expression cf td (Suc m) e st = Some (e', 0, st')
      \<and> e_node e' = EXPR_VALUE (if c then 1 else 0) t \<and> e_ctype e' = e_ctype e \<and> syms st' = tab"
    using assms(1-4) l' r' by (simp add: expand_Suc expand_expression_body_def expand_compare_def)
qed

lemma fold_logical:
  assumes "e_node e = Binary EXPR_LOGICAL l r" "e_ctype e = Some ty" "ty \<noteq> Bad_ctype"
    and f: "folds_to (expand_expression cf td m) tab l a"
  shows "e_op e = SPECIAL_LOGICAL_AND \<longleftrightarrow> a = 0 \<Longrightarrow>
      folds_to (expand_expression cf td (Suc m)) tab e (if a = 0 then 0 else 1)"
    and "e_op e = SPECIAL_LOGICAL_AND \<longleftrightarrow> a \<noteq> 0 \<Longrightarrow> folds_to (expand_expression cf td m) tab r b \<Longrightarrow>
      folds_to (expand_expression cf td (Suc m)) tab e (if b = 0 then 0 else 1)"
proof -
  show "folds_to (expand_expression cf td (Suc m)) tab e (if a = 0 then 0 else 1)"
    if op: "e_op e = SPECIAL_LOGICAL_AND \<longleftrightarrow> a = 0"
    unfolding folds_to_def
  proof (intro allI impI)
    fix st :: xstate
    assume st: "syms st = tab"
    obtain l' lt st1 where
      "expand_expression cf td m l st = Some (l', 0, st1)" "e_node l' = EXPR_VALUE a lt" "syms st1 = tab"
      using folds_toE [OF f st] by metis
    then show "\<exists>e' t st'. expand_expression cf td (Suc m) e st = Some (e', 0, st')
        \<and> e_node e' = EXPR_VALUE (if a = 0 then 0 else 1) t \<and> e_ctype e' = e_ctype e \<and> syms st' = tab"
      using assms(1-3) op by (simp add: expand_Suc expand_expression_body_def expand_logical_def)
  qed
  show "folds_to (expand_expression cf td (Suc m)) tab e (if b = 0 then 0 else 1)"
    if op: "e_op e = SPECIAL_LOGICAL_AND \<longleftrightarrow> a \<noteq> 0" and fr: "folds_to (expand_expression cf td m) tab r b"
    unfolding folds_to_def
  proof (intro allI impI)
    fix st :: xstate
    assume "syms st = tab"
    from folds_two [OF f fr this] obtain l' lt st1 r' rt st2 where
      "expand_expression cf td m l st = Some (l', 0, st1)" "e_node l' = EXPR_VALUE a lt"
      "expand_expression cf td m r st1 = Some (r', 0, st2)" "e_node r' = EXPR_VALUE b rt" "syms st2 = tab"
      by metis
    then show "\<exists>e' t st'. expand_expression cf td (Suc m) e st = Some (e', 0, st')
        \<and> e_node e' = EXPR_VALUE (if b = 0 then 0 else 1) t \<and> e_ctype e' = e_ctype e \<and> syms st' = tab"
      using assms(1-3) op
      by (cases "a = 0")
         (simp_all add: expand_Suc expand_expression_body_def expand_logical_def bit_value_def)
  qed
qed

lemma fold_comma:
  assumes "e_node e = Binary EXPR_COMMA l r" "e_ctype e = Some ty" "ty \<noteq> Bad_ctype" "e_ctype r = Some ty"
    and f: "folds_to (expand_expression cf td m) tab l a" "folds_to (expand_expression cf td m) tab r b"
  shows "folds_to (expand_expression cf td (Suc m)) tab e b"
  unfolding folds_to_def
proof (intro allI impI)
  fix st :: xstate
  assume "syms st = tab"
  from folds_two [OF f this] obtain l' lt st1 r' rt st2 where
    "expand_expression cf td m l st = Some (l', 0, st1)" "e_node l' = EXPR_VALUE a lt"
    "expand_expression cf td m r st1 = Some (r', 0, st2)" "e_node r' = EXPR_VALUE b rt"
    "e_ctype r' = e_ctype r" "syms st2 = tab" by metis
  then show "\<exists>e' t st'. expand_expression cf td (Suc m) e st = Some (e', 0, st')
      \<and> e_node e' = EXPR_VALUE b t \<and> e_ctype e' = e_ctype e \<and> syms st' = tab"
    using assms(1-4) by (simp add: expand_Suc expand_expression_body_def expand_comma_def Let_def)
qed

lemma fold_conditional:
  assumes "e_node e = Cond ct c (Some x) (Some y)" "e_ctype e = Some ty" "ty \<noteq> Bad_ctype"
    and "side = (if k = 0 then y else x)" "e_ctype side = Some ty"
    and f: "folds_to (expand_expression cf td m) tab c k" "folds_to (expand_expression cf td m) tab side v"
  shows "folds_to (expand_expression cf td (Suc m)) tab e v"
  unfolding folds_to_def
proof (intro allI impI)
  fix st :: xstate
  assume "syms st = tab"
  from folds_two [OF f this] obtain l' lt st1 r' rt st2 where
    "expand_expression cf td m c st = Some (l', 0, st1)" "e_node l' = EXPR_VALUE k lt"
    "expand_expression cf td m side st1 = Some (r', 0, st2)" "e_node r' = EXPR_VALUE v rt"
    "e_ctype r' = e_ctype side" "syms st2 = tab" by metis
  moreover from assms(4) have "(case (if k = 0 then Some y else Some x) of None \<Rightarrow> l' | Some s \<Rightarrow> s) = side"
    by simp
  ultimately show "\<exists>e' t st'. expand_expression cf td (Suc m) e st = Some (e', 0, st')
      \<and> e_node e' = EXPR_VALUE v t \<and> e_ctype e' = e_ctype e \<and> syms st' = tab"
    using assms(1-3,5) by (simp add: expand_Suc expand_expression_body_def expand_conditional_def Let_def)
qed

lemma fold_preop:
  assumes "e_node e = Unary EXPR_PREOP u ov" "e_ctype e = Some ty" "size_ok tab ty n"
    and f: "folds_to (expand_expression cf td m) tab u a"
    and c: "canonical n a \<and> preop_spec (e_op e) (signed_type tab ty) n a = Some z \<and> w = of_ival n z
      \<or> e_op e = op_chr (CHR ''!'') \<and> w = (if a = 0 then 1 else 0)"
  shows "folds_to (expand_expression cf td (Suc m)) tab e w"
  unfolding folds_to_def
proof (intro allI impI)
  fix st :: xstate
  assume st: "syms st = tab"
  have ops: "e_op e \<noteq> op_chr (CHR ''*'')" "e_op e \<noteq> op_chr (CHR ''&'')"
    "e_op e \<noteq> SPECIAL_INCREMENT" "e_op e \<noteq> SPECIAL_DECREMENT"
    using c by (auto simp: preop_spec_def split: if_splits)
  obtain u' t st1 where u': "expand_expression cf td m u st = Some (u', 0, st1)" "e_node u' = EXPR_VALUE a t"
    "syms st1 = tab" using folds_toE [OF f st] by metis
  let ?e = "set_node e (Unary EXPR_PREOP u' ov)"
  have "simplify_preop ?e ty st1 = (True, set_node ?e (EXPR_VALUE w t), st1)"
    using c simplify_preop_correct [where expr = ?e and st = st1 and ut = EXPR_PREOP, OF _ u'(2) _ refl] assms(3) u'(3)
    by auto
  then show "\<exists>e' t st'. expand_expression cf td (Suc m) e st = Some (e', 0, st')
      \<and> e_node e' = EXPR_VALUE w t \<and> e_ctype e' = e_ctype e \<and> syms st' = tab"
    using assms(1-3) u' ops by (simp add: expand_Suc expand_expression_body_def expand_preop_def size_ok_def)
qed

lemma fold_cast:
  assumes "e_node e = Cast ct cty (Some u)" "ct \<in> {EXPR_CAST, EXPR_FORCE_CAST, EXPR_IMPLIED_CAST}"
    and "e_ctype e = Some ty" "size_ok tab ty n" "e_ctype u = Some old" "size_ok tab old k" "canonical k a"
    and "base_of tab ty \<noteq> Some Fp_type" "base_of tab old \<noteq> Some Fp_type" "is_bool_type tab ty \<Longrightarrow> n = 1"
    and f: "folds_to (expand_expression cf td m) tab u a"
  shows "folds_to (expand_expression cf td (Suc m)) tab e
    (if is_bool_type tab ty then (if a = 0 then 0 else 1) else of_ival n (ival (signed_type tab old) k a))"
    (is "folds_to _ _ _ ?v")
  unfolding folds_to_def
proof (intro allI impI)
  fix st :: xstate
  assume st: "syms st = tab"
  obtain u' t st1 where u': "expand_expression cf td m u st = Some (u', 0, st1)" "e_node u' = EXPR_VALUE a t"
    "syms st1 = tab" "e_ctype u' = e_ctype u" using folds_toE [OF f st] by metis
  have "fst (cast_value cf ty (EXPR_VALUE a t) old st1) = EXPR_VALUE ?v t"
    using cast_value_fold [where st = st1 and oldtype = old and newtype = ty and old_n = k and new_n = n
        and v = a and s = "signed_type tab old" and cf = cf and t = t] assms(4,6-10) u'(3)
    by (simp add: size_ok_def signed_type_def)
  from cast_value_value [OF this] u'(3) obtain st' where
    "cast_value cf ty (EXPR_VALUE a t) old st1 = (EXPR_VALUE ?v t, st')" "syms st' = tab" by auto
  then show "\<exists>e' t st'. expand_expression cf td (Suc m) e st = Some (e', 0, st')
      \<and> e_node e' = EXPR_VALUE ?v t \<and> e_ctype e' = e_ctype e \<and> syms st' = tab"
    using assms(1-5) u'
    by (auto simp: expand_Suc expand_expression_body_def expand_cast_def size_ok_def Let_def)
qed

lemma fold_value:
  "e_node e = EXPR_VALUE v t \<Longrightarrow> e_ctype e = Some ty \<Longrightarrow> ty \<noteq> Bad_ctype \<Longrightarrow>
   folds_to (expand_expression cf td (Suc m)) tab e v"
  by (simp add: folds_to_def expand_Suc expand_expression_body_def)

text \<open>Enough fuel is one more than what the parts need.\<close>

lemma fuel_step:
  assumes "\<And>m. m \<ge> n0 \<Longrightarrow> P (Suc m)"
  shows "\<exists>n0. \<forall>n \<ge> n0. P n"
proof (intro exI allI impI)
  fix n
  assume "Suc n0 \<le> n"
  then show "P n" using assms by (cases n) auto
qed

lemma const_folds:
  "const_eval tab e v \<Longrightarrow> \<exists>n0. \<forall>n \<ge> n0. folds_to (expand_expression cf td n) tab e v"
proof (induction rule: const_eval.induct)
  case (Value e v t ty)
  then show ?case by (intro fuel_step) (rule fold_value)
next
  case (Binop e l r ty n a b z)
  then obtain n1 n2 where "\<forall>m \<ge> n1. folds_to (expand_expression cf td m) tab l a"
    "\<forall>m \<ge> n2. folds_to (expand_expression cf td m) tab r b" by blast
  with Binop.hyps show ?case by (intro fuel_step [of "max n1 n2"])
      (rule fold_binop [where l = l and r = r and a = a and b = b and ty = ty]; simp)
next
  case (Compare e l r ety ty n a b c)
  then obtain n1 n2 where "\<forall>m \<ge> n1. folds_to (expand_expression cf td m) tab l a"
    "\<forall>m \<ge> n2. folds_to (expand_expression cf td m) tab r b" by blast
  with Compare.hyps show ?case
    by (intro fuel_step [of "max n1 n2"]) (rule fold_compare [where ty = ty and n = n and l = l and r = r and a = a and b = b]; simp)
next
  case (Logical_stop e l r ty a)
  then obtain n1 where "\<forall>m \<ge> n1. folds_to (expand_expression cf td m) tab l a" by blast
  with Logical_stop.hyps show ?case by (intro fuel_step [of n1]) (rule fold_logical(1) [where l = l and r = r and ty = ty]; simp)
next
  case (Logical_go e l r ty a b)
  then obtain n1 n2 where "\<forall>m \<ge> n1. folds_to (expand_expression cf td m) tab l a"
    "\<forall>m \<ge> n2. folds_to (expand_expression cf td m) tab r b" by blast
  with Logical_go.hyps show ?case
    by (intro fuel_step [of "max n1 n2"]) (rule fold_logical(2) [where l = l and r = r and a = a and ty = ty]; simp)
next
  case (Comma e l r ty a b)
  then obtain n1 n2 where "\<forall>m \<ge> n1. folds_to (expand_expression cf td m) tab l a"
    "\<forall>m \<ge> n2. folds_to (expand_expression cf td m) tab r b" by blast
  with Comma.hyps show ?case
    by (intro fuel_step [of "max n1 n2"]) (rule fold_comma [where l = l and r = r and a = a and ty = ty]; simp)
next
  case (Conditional e ct c x y ty k side v)
  then obtain n1 n2 where "\<forall>m \<ge> n1. folds_to (expand_expression cf td m) tab c k"
    "\<forall>m \<ge> n2. folds_to (expand_expression cf td m) tab side v" by blast
  with Conditional.hyps show ?case
    by (intro fuel_step [of "max n1 n2"])
       (rule fold_conditional [where c = c and k = k and x = x and y = y and side = side and ty = ty]; simp)
next
  case (Preop e u ov ty n a z)
  then obtain n1 where "\<forall>m \<ge> n1. folds_to (expand_expression cf td m) tab u a" by blast
  with Preop.hyps show ?case
    by (intro fuel_step [of n1]) (rule fold_preop [where u = u and a = a and n = n and z = z and ty = ty]; simp)
next
  case (Not e u ov ty n a)
  then obtain n1 where "\<forall>m \<ge> n1. folds_to (expand_expression cf td m) tab u a" by blast
  with Not.hyps show ?case
    by (intro fuel_step [of n1]) (rule fold_preop [where u = u and a = a and n = n and ty = ty]; simp)
next
  case (Cast e ct cty u ty n a old k)
  then obtain n1 where "\<forall>m \<ge> n1. folds_to (expand_expression cf td m) tab u a" by blast
  with Cast.hyps show ?case
    by (intro fuel_step [of n1]) (rule fold_cast [where u = u and k = k and n = n]; simp)
qed

text \<open>
  C19. Expansion evaluates constant expressions: an expression that C gives the integer value
  \<open>v\<close> (arithmetic at the width and sign of the types, comparisons, casts, and the logical,
  conditional and comma operators with only the sides they need) becomes the literal \<open>v\<close>, at
  cost 0 and with its type unchanged, for every large enough bound on the depth of the recursion.
\<close>

theorem expand_constant_expression:
  assumes "const_eval (syms st) e v"
  shows "\<exists>n0. \<forall>n \<ge> n0. \<exists>e' t st'. expand_expression cf td n e st = Some (e', 0, st')
    \<and> e_node e' = EXPR_VALUE v t \<and> e_ctype e' = e_ctype e \<and> syms st' = syms st"
  using const_folds [OF assms, of cf td] unfolding folds_to_def by blast

definition example_conf :: xconf where
  "example_conf = \<lparr>fp = \<lparr>f_add = (\<lambda>p a b. a + b), f_sub = (\<lambda>p a b. a - b), f_mul = (\<lambda>p a b. a * b),
      f_div = (\<lambda>p a b. a div b), f_neg = (\<lambda>a. - a), f_zero = (\<lambda>a. a = 0), f_lt = (<), f_le = (\<le>),
      f_eq = (=), f_round = (\<lambda>p a. a), of_longlong = ucast, to_longlong = ucast\<rparr>,
     Wundef = False, Wcast_truncate = False, bits_in_char = 8\<rparr>"

theorem expand_constant_expression_witness:
  "\<exists>n0. \<forall>n \<ge> n0. \<exists>e' t st'. expand_expression example_conf (\<lambda>tab a b. a \<noteq> b) n
       (int_op (CHR ''+'') (int_const 1) (int_op (CHR ''*'') (int_const 2) (int_const 3))) example_state
       = Some (e', 0, st')
     \<and> e_node e' = EXPR_VALUE 7 t
     \<and> e_ctype e' = Some Int_ctype \<and> syms st' = example_syms"
proof -
  have sz: "size_ok example_syms Int_ctype 32" "signed_type example_syms Int_ctype"
    by (simp_all add: size_ok_def signed_type_def example_syms_def basetype_def has_mod_def)
  have v: "const_eval example_syms (int_const k) k" for k
    by (rule const_eval.Value [where ty = Int_ctype]) (simp_all add: int_const_def)
  have m: "const_eval example_syms (int_op (CHR ''*'') (int_const 2) (int_const 3)) (of_ival 32 6)"
    by (rule const_eval.Binop [where l = "int_const 2" and r = "int_const 3" and a = 2 and b = 3 and ty = Int_ctype])
       (use sz v in \<open>simp_all add: int_op_def canonical_def int_spec_def ival_def\<close>)
  have "const_eval example_syms
      (int_op (CHR ''+'') (int_const 1) (int_op (CHR ''*'') (int_const 2) (int_const 3))) (of_ival 32 7)"
    by (rule const_eval.Binop [where l = "int_const 1" and a = 1 and b = "of_ival 32 6" and ty = Int_ctype
          and r = "int_op (CHR ''*'') (int_const 2) (int_const 3)"])
       (use sz v m in \<open>simp_all add: int_op_def canonical_def int_spec_def ival_def of_ival_def\<close>)
  then have "const_eval (syms example_state)
      (int_op (CHR ''+'') (int_const 1) (int_op (CHR ''*'') (int_const 2) (int_const 3))) 7"
    by (simp add: example_state_def of_ival_def)
  from expand_constant_expression [OF this] show ?thesis
    by (simp add: example_state_def int_op_def)
qed

section \<open>Fuel\<close>

text \<open>More fuel does not change a result: the order in which \<open>None\<close> is below everything.\<close>

definition ole :: "'a option \<Rightarrow> 'a option \<Rightarrow> bool" where
  "ole a b \<longleftrightarrow> a = None \<or> a = b"


named_theorems ole_intros \<open>rules for the order of partial results\<close>

lemma ole_refl [ole_intros, simp]: "ole a a"
  by (simp add: ole_def)

lemma ole_bind [ole_intros]: "ole a b \<Longrightarrow> (\<And>x. ole (F x) (G x)) \<Longrightarrow> ole (a \<bind> F) (b \<bind> G)"
  by (auto simp: ole_def bind_eq_None_conv) (metis bind.bind_lunit not_None_eq)+

lemma ole_if [ole_intros]: "ole a a' \<Longrightarrow> ole b b' \<Longrightarrow> ole (if c then a else b) (if c then a' else b')"
  by simp

lemma ole_prod [ole_intros]: "(\<And>x y. ole (F x y) (G x y)) \<Longrightarrow> ole (case p of (x, y) \<Rightarrow> F x y) (case p of (x, y) \<Rightarrow> G x y)"
  by (cases p) simp

lemma ole_option [ole_intros]:
  "ole a a' \<Longrightarrow> (\<And>x. ole (F x) (F' x)) \<Longrightarrow>
   ole (case n of None \<Rightarrow> a | Some x \<Rightarrow> F x) (case n of None \<Rightarrow> a' | Some x \<Rightarrow> F' x)"
  by (cases n) simp_all

lemma ole_value [ole_intros]:
  "(\<And>v t. ole (F v t) (F' v t)) \<Longrightarrow> ole a a' \<Longrightarrow>
   ole (case n of EXPR_VALUE v t \<Rightarrow> F v t | _ \<Rightarrow> a) (case n of EXPR_VALUE v t \<Rightarrow> F' v t | _ \<Rightarrow> a')"
  by (cases n) simp_all


















end
