(* ===== verification/Expand_Total.thy ===== *)
theory Expand_Total
  imports Expand_Props
begin

text \<open>
  The expansion of an expression ends: which expressions return, whatever the state, and how
  initialisers and positions, which expand rewritten copies of themselves, keep returning.
\<close>

section \<open>Expressions that return\<close>





























end
