(* ===== verification/Scope.thy ===== *)
theory Scope
  imports Ast
begin

text \<open>
  Names and scopes (\<open>scope.c\<close>; \<open>lookup_symbol\<close>, \<open>bind_symbol\<close>, \<open>check_declaration\<close> and
  \<open>access_symbol\<close> of \<open>symbol.c\<close>). Every identifier heads the chain of its symbols, innermost
  first, linked by \<open>next_id\<close>: the chain is a list here. Every scope lists the symbols bound in
  it, and ending a scope takes them out of the chains of their identifiers.
\<close>

section \<open>State\<close>

type_synonym namespace = "9 word"

abbreviation (input) "NS_MACRO \<equiv> (1 :: namespace)"
abbreviation (input) "NS_TYPEDEF \<equiv> (2 :: namespace)"
abbreviation (input) "NS_STRUCT \<equiv> (4 :: namespace)"
abbreviation (input) "NS_LABEL \<equiv> (8 :: namespace)"
abbreviation (input) "NS_SYMBOL \<equiv> (16 :: namespace)"
abbreviation (input) "NS_ITERATOR \<equiv> (32 :: namespace)"
abbreviation (input) "NS_PREPROCESSOR \<equiv> (64 :: namespace)"
abbreviation (input) "NS_UNDEF \<equiv> (128 :: namespace)"
abbreviation (input) "NS_KEYWORD \<equiv> (256 :: namespace)"

text \<open>
  What a symbol has for its name, beside the members of \<^typ>\<open>symbol\<close>. A scope is named by a
  number, \<open>builtin_scope\<close> by 0.
\<close>

record binding =
  namespace :: namespace
  used :: bool
  bound :: bool
  s_scope :: nat
  same_symbol :: "symref option"

record scope =
  sc_symbols :: "symref ptr_list"
  sc_next :: nat

datatype smsg = Already_bound_error | Reserved_word string | Already_bound string | Shadows string

record sstate =
  stab :: symtab
  binding_of :: "symref \<Rightarrow> binding"
  chain :: "string \<Rightarrow> symref list"
  scopes :: "nat \<Rightarrow> scope"
  n_scopes :: nat
  block_scope :: nat
  function_scope :: nat
  file_scope :: nat
  global_scope :: nat
  used_list :: "symref ptr_list"
  smsgs :: "smsg list"

abbreviation smsg :: "smsg \<Rightarrow> sstate \<Rightarrow> sstate" where
  "smsg m st \<equiv> st\<lparr>smsgs := smsgs st @ [m]\<rparr>"

abbreviation set_binding :: "symref \<Rightarrow> (binding \<Rightarrow> binding) \<Rightarrow> sstate \<Rightarrow> sstate" where
  "set_binding s f st \<equiv> st\<lparr>binding_of := (binding_of st)(s := f (binding_of st s))\<rparr>"

abbreviation set_symbol :: "symref \<Rightarrow> (symbol \<Rightarrow> symbol) \<Rightarrow> sstate \<Rightarrow> sstate" where
  "set_symbol s f st \<equiv> st\<lparr>stab := (stab st)(s := f (stab st s))\<rparr>"

definition or_modifiers :: "u64 \<Rightarrow> symbol \<Rightarrow> symbol" where
  "or_modifiers m s = s\<lparr>s_ctype := (s_ctype s)\<lparr>modifiers := or (modifiers (s_ctype s)) m\<rparr>\<rparr>"

section \<open>Scopes\<close>

definition init_scope :: "sstate \<Rightarrow> sstate" where
  "init_scope st = st\<lparr>scopes := (scopes st)(0 := (scopes st 0)\<lparr>sc_next := 0\<rparr>),
     block_scope := 0, function_scope := 0, file_scope := 0, global_scope := 0\<rparr>"

definition bind_scope :: "symref \<Rightarrow> nat \<Rightarrow> sstate \<Rightarrow> sstate" where
  "bind_scope s sc st =
     (let st1 = set_binding s (\<lambda>b. b\<lparr>s_scope := sc\<rparr>) st
      in st1\<lparr>scopes := (scopes st1)(sc := (scopes st1 sc)
           \<lparr>sc_symbols := add_ptr_list (sc_symbols (scopes st1 sc)) s\<rparr>)\<rparr>)"

text \<open>A new scope inside the one at \<open>s\<close>; the pointer to it is the first result.\<close>

definition start_scope :: "nat \<Rightarrow> sstate \<Rightarrow> nat \<times> sstate" where
  "start_scope s st = (n_scopes st,
     st\<lparr>n_scopes := Suc (n_scopes st),
        scopes := (scopes st)(n_scopes st := \<lparr>sc_symbols = [], sc_next = s\<rparr>)\<rparr>)"

definition start_file_scope :: "sstate \<Rightarrow> sstate" where
  "start_file_scope st =
     (let (sc, st1) = start_scope 0 st
      in st1\<lparr>file_scope := sc, function_scope := sc, block_scope := sc\<rparr>)"

definition start_symbol_scope :: "sstate \<Rightarrow> sstate" where
  "start_symbol_scope st =
     (let (sc, st1) = start_scope (block_scope st) st in st1\<lparr>block_scope := sc\<rparr>)"

definition start_function_scope :: "sstate \<Rightarrow> sstate" where
  "start_function_scope st =
     (let (sc, st1) = start_scope (function_scope st) st; st2 = st1\<lparr>function_scope := sc\<rparr>
      in start_symbol_scope st2)"

text \<open>
  The walk over the chain for the link that points to the symbol; a symbol that is not in its chain
  makes the walk run over the NULL at the end.
\<close>

fun unlink :: "symref \<Rightarrow> symref list \<Rightarrow> symref list option" where
  "unlink s [] = None"
| "unlink s (x # xs) = (if x = s then Some xs else map_option (Cons x) (unlink s xs))"

definition remove_symbol_scope :: "symref \<Rightarrow> sstate \<Rightarrow> sstate option" where
  "remove_symbol_scope s st =
     (case ident (stab st s) of
        None \<Rightarrow> None
      | Some i \<Rightarrow> map_option (\<lambda>c. st\<lparr>chain := (chain st)(i := c)\<rparr>) (unlink s (chain st i)))"

fun remove_symbols :: "symref list \<Rightarrow> sstate \<Rightarrow> sstate option" where
  "remove_symbols [] st = Some st"
| "remove_symbols (s # ss) st =
     (case remove_symbol_scope s st of None \<Rightarrow> None | Some st1 \<Rightarrow> remove_symbols ss st1)"

definition end_scope :: "nat \<Rightarrow> sstate \<Rightarrow> (nat \<times> sstate) option" where
  "end_scope sc st =
     (let ss = sc_symbols (scopes st sc);
          st1 = st\<lparr>scopes := (scopes st)(sc := (scopes st sc)\<lparr>sc_symbols := []\<rparr>)\<rparr>
      in map_option (\<lambda>st2. (sc_next (scopes st sc), st2)) (remove_symbols (entries ss) st1))"

definition end_file_scope :: "sstate \<Rightarrow> sstate option" where
  "end_file_scope st =
     map_option (\<lambda>(sc, st1). st1\<lparr>file_scope := sc\<rparr>) (end_scope (file_scope st) st)"

definition new_file_scope :: "sstate \<Rightarrow> sstate option" where
  "new_file_scope st =
     map_option start_file_scope (if file_scope st \<noteq> 0 then end_file_scope st else Some st)"

definition end_symbol_scope :: "sstate \<Rightarrow> sstate option" where
  "end_symbol_scope st =
     map_option (\<lambda>(sc, st1). st1\<lparr>block_scope := sc\<rparr>) (end_scope (block_scope st) st)"

definition end_function_scope :: "sstate \<Rightarrow> sstate option" where
  "end_function_scope st =
     (case end_symbol_scope st of
        None \<Rightarrow> None
      | Some st1 \<Rightarrow>
          map_option (\<lambda>(sc, st2). st2\<lparr>function_scope := sc\<rparr>) (end_scope (function_scope st1) st1))"

definition is_outer_scope :: "nat \<Rightarrow> sstate \<Rightarrow> bool" where
  "is_outer_scope sc st =
     (if sc = block_scope st then False
      else if sc = 0 \<and> sc_next (scopes st (block_scope st)) = 0 then False
      else True)"

definition toplevel :: "nat \<Rightarrow> sstate \<Rightarrow> bool" where
  "toplevel sc st = (sc = file_scope st \<or> sc = global_scope st)"

section \<open>Symbols and names\<close>

definition access_symbol :: "symref \<Rightarrow> sstate \<Rightarrow> sstate" where
  "access_symbol s st =
     (if has_mod (mods (stab st) s) MOD_INLINE \<and> \<not> has_mod (mods (stab st) s) MOD_ACCESSED
      then set_symbol s (or_modifiers MOD_ACCESSED) (st\<lparr>used_list := add_ptr_list (used_list st) s\<rparr>)
      else st)"

fun first_in :: "namespace \<Rightarrow> (symref \<Rightarrow> binding) \<Rightarrow> symref list \<Rightarrow> symref option" where
  "first_in ns b [] = None"
| "first_in ns b (s # ss) = (if and (namespace (b s)) ns \<noteq> 0 then Some s else first_in ns b ss)"

definition lookup_symbol :: "string \<Rightarrow> namespace \<Rightarrow> sstate \<Rightarrow> symref option \<times> sstate" where
  "lookup_symbol i ns st =
     (case first_in ns (binding_of st) (chain st i) of
        None \<Rightarrow> (None, st)
      | Some s \<Rightarrow> (Some s, set_binding s (\<lambda>b. b\<lparr>used := True\<rparr>) st))"

text \<open>The scope a name of namespace \<open>ns\<close> goes to, and the modifiers the symbol gets.\<close>

definition bind_target :: "symref \<Rightarrow> namespace \<Rightarrow> sstate \<Rightarrow> nat \<times> u64" where
  "bind_target s ns st =
     (let (sc, m) =
        (if ns = NS_SYMBOL \<and> toplevel (block_scope st) st then
           (if has_mod (mods (stab st) s) MOD_STATIC \<or> is_extern_inline (stab st) s
            then (file_scope st, MOD_TOPLEVEL)
            else (global_scope st, or MOD_ADDRESSABLE MOD_TOPLEVEL))
         else (block_scope st, 0));
        sc1 = (if ns = NS_MACRO then file_scope st else sc);
        sc2 = (if ns = NS_LABEL then function_scope st else sc1)
      in (sc2, m))"

text \<open>The symbol becomes the first of the name.\<close>

definition bind_name :: "symref \<Rightarrow> string \<Rightarrow> namespace \<Rightarrow> sstate \<Rightarrow> sstate" where
  "bind_name s i ns st =
     (let st1 = set_binding s (\<lambda>b. b\<lparr>namespace := ns\<rparr>) st;
          st2 = st1\<lparr>chain := (chain st1)(i := s # chain st1 i)\<rparr>;
          st3 = (case ident (stab st2 s) of
                   Some j \<Rightarrow> if j \<noteq> i then smsg (Already_bound j) st2 else st2
                 | None \<Rightarrow> st2);
          st4 = set_symbol s (\<lambda>x. x\<lparr>ident := Some i\<rparr>) st3
      in set_binding s (\<lambda>b. b\<lparr>bound := True\<rparr>) st4)"

text \<open>\<open>res\<close> tells the reserved words.\<close>

definition bind_symbol :: "(string \<Rightarrow> bool) \<Rightarrow> symref \<Rightarrow> string \<Rightarrow> namespace \<Rightarrow> sstate \<Rightarrow> sstate" where
  "bind_symbol res s i ns st =
     (if bound (binding_of st s) then smsg Already_bound_error st
      else if res i \<and> and ns (or (or NS_TYPEDEF NS_STRUCT) (or NS_LABEL NS_SYMBOL)) \<noteq> 0
      then smsg (Reserved_word i) st
      else
        (let st1 = bind_name s i ns st;
             (sc, m) = bind_target s ns st1;
             st2 = set_symbol s (or_modifiers m) st1
         in bind_scope s sc st2))"

text \<open>
  The earlier symbols of the name, from the one after \<open>s\<close>: the declaration of the same scope, or
  of an \<open>extern\<close> of the same kind, becomes \<open>same_symbol\<close>; the first other one that is not a
  function is reported as shadowed.
\<close>

fun check_from :: "bool \<Rightarrow> symref \<Rightarrow> bool \<Rightarrow> symref list \<Rightarrow> sstate \<Rightarrow> sstate" where
  "check_from Wshadow s warned [] st = st"
| "check_from Wshadow s warned (nxt # ns) st =
     (if namespace (binding_of st nxt) \<noteq> namespace (binding_of st s) then check_from Wshadow s warned ns st
      else if s_scope (binding_of st s) = s_scope (binding_of st nxt)
      then set_binding s (\<lambda>b. b\<lparr>same_symbol := Some nxt\<rparr>) st
      else if has_mod (and (mods (stab st) s) (mods (stab st) nxt)) MOD_EXTERN then
        (if has_mod (xor (mods (stab st) s) (mods (stab st) nxt)) MOD_INLINE
         then check_from Wshadow s warned ns st
         else set_binding s (\<lambda>b. b\<lparr>same_symbol := Some nxt\<rparr>) st)
      else if \<not> Wshadow \<or> warned then check_from Wshadow s warned ns st
      else if get_sym_type (stab st) nxt = SYM_FN then check_from Wshadow s warned ns st
      else check_from Wshadow s True ns
             (smsg (Shadows (case ident (stab st s) of Some i \<Rightarrow> i | None \<Rightarrow> [])) st))"

definition check_declaration :: "bool \<Rightarrow> symref \<Rightarrow> sstate \<Rightarrow> sstate" where
  "check_declaration Wshadow s st =
     (case ident (stab st s) of
        None \<Rightarrow> st
      | Some i \<Rightarrow> check_from Wshadow s False (tl (dropWhile (\<lambda>x. x \<noteq> s) (chain st i))) st)"

end
