(* ===== verification/Scope_Props.thy ===== *)
theory Scope_Props
  imports Scope
begin

text \<open>
  Scopes nest: whatever is declared inside a block or a function is gone at its end, and what it
  hid is visible again.
\<close>

section \<open>Invariant\<close>

text \<open>
  Every symbol of a chain is bound, carries the name of the chain and is listed once, in its own
  scope; every symbol a scope lists is in the chain of its name; the four current scopes exist.
\<close>

definition scopes_ok :: "sstate \<Rightarrow> bool" where
  "scopes_ok st \<longleftrightarrow>
     (\<forall>i. distinct (chain st i)) \<and>
     (\<forall>i. \<forall>s \<in> set (chain st i). bound (binding_of st s) \<and> ident (stab st s) = Some i
        \<and> s_scope (binding_of st s) < n_scopes st
        \<and> s \<in> set (entries (sc_symbols (scopes st (s_scope (binding_of st s)))))) \<and>
     (\<forall>sc < n_scopes st. distinct (entries (sc_symbols (scopes st sc))) \<and> sc_next (scopes st sc) < n_scopes st \<and>
        (\<forall>s \<in> set (entries (sc_symbols (scopes st sc))). bound (binding_of st s) \<and> s_scope (binding_of st s) = sc
           \<and> (\<exists>i. ident (stab st s) = Some i \<and> s \<in> set (chain st i)))) \<and>
     block_scope st < n_scopes st \<and> function_scope st < n_scopes st \<and> file_scope st < n_scopes st
     \<and> global_scope st < n_scopes st"








section \<open>Binding\<close>


definition target_of :: "sstate \<Rightarrow> namespace \<Rightarrow> nat set" where
  "target_of st ns =
     (if ns = NS_MACRO then {file_scope st} else if ns = NS_LABEL then {function_scope st}
      else if toplevel (block_scope st) st then {block_scope st, file_scope st, global_scope st}
      else {block_scope st})"




lemma ident_or_modifiers [simp]: "ident (or_modifiers m x) = ident x"
  by (simp add: or_modifiers_def)



lemma scopes_ok_smsg [simp]: "scopes_ok (smsg m st) = scopes_ok st"
  by (simp add: scopes_ok_def)



section \<open>Blocks and functions\<close>




text \<open>
  \<open>grows st st' N\<close>: the scopes are the same, old names are where they were, and in front of every
  chain come new names, each bound in a scope where a name of a namespace in \<open>N\<close> goes.
\<close>

definition grows :: "sstate \<Rightarrow> sstate \<Rightarrow> namespace set \<Rightarrow> bool" where
  "grows st st' N \<longleftrightarrow> scopes_ok st' \<and> n_scopes st \<le> n_scopes st'
     \<and> block_scope st' = block_scope st \<and> function_scope st' = function_scope st
     \<and> file_scope st' = file_scope st \<and> global_scope st' = global_scope st
     \<and> (\<forall>sc < n_scopes st. sc_next (scopes st' sc) = sc_next (scopes st sc))
     \<and> (\<forall>s. bound (binding_of st s) \<longrightarrow> bound (binding_of st' s) \<and> s_scope (binding_of st' s) = s_scope (binding_of st s))
     \<and> (\<forall>i. \<exists>new. chain st' i = new @ chain st i
          \<and> (\<forall>s \<in> set new. \<exists>ns \<in> N. s_scope (binding_of st' s) \<in> target_of st ns))"



lemma grows_mono: "grows st st' N \<Longrightarrow> N \<subseteq> M \<Longrightarrow> grows st st' M"
  unfolding grows_def by (meson subsetD)









end
