(* ===== verification/Layout_Props.thy ===== *)
theory Layout_Props
  imports Layout
begin

text \<open>
  Structures are laid out without overlap, aligned, with every bitfield inside one unit of its
  declared type, and large enough for their members.
\<close>

section \<open>Rounding\<close>

lemma unat_and_not_mask:
  fixes w :: u64
  shows "unat (and w (not (mask n))) = unat w div 2 ^ n * 2 ^ n"
proof -
  have "and w (not (mask n)) = push_bit n (drop_bit n w)"
    by (rule bit_word_eqI) (auto simp: bit_simps)
  moreover have "unat (push_bit n (drop_bit n w)) = unat w div 2 ^ n * 2 ^ n"
  proof -
    have "unat w div 2 ^ n * 2 ^ n < 2 ^ LENGTH(64)"
      using unsigned_less [of w] by (metis div_times_less_eq_dividend le_less_trans)
    then have "take_bit LENGTH(64) (push_bit n (drop_bit n (unat w))) = unat w div 2 ^ n * 2 ^ n"
      by (simp add: take_bit_nat_eq_self push_bit_eq_mult drop_bit_eq_div)
    then show ?thesis by (simp only: unsigned_push_bit_eq unat_drop_bit_eq)
  qed
  ultimately show ?thesis by simp
qed

lemma unat_round_up:
  assumes "unat x + 2 ^ n \<le> 2 ^ 63"
  shows "unat (round_up x (mask n)) = (unat x + (2 ^ n - 1)) div 2 ^ n * 2 ^ n"
proof -
  have n: "n \<le> 63" using assms by (metis add_leD2 one_less_numeral_iff power_le_imp_le_exp semiring_norm(76))
  have "(2 :: nat) ^ n \<le> 2 ^ 63" using n by (intro power_increasing) auto
  then have "unat (of_nat (mask n) :: u64) = mask n"
    by (simp only: unat_of_nat) (simp add: mask_eq_exp_minus_1)
  then have "unat (mask n :: u64) = 2 ^ n - 1"
    by (simp add: mask_eq_exp_minus_1)
  then have "unat (x + mask n) = unat x + (2 ^ n - 1)"
    using assms by (simp add: unat_word_ariths)
  then show ?thesis by (simp add: round_up_def unat_and_not_mask)
qed

lemma round_up_bounds:
  fixes b a :: nat
  assumes "0 < a"
  shows "b \<le> (b + (a - 1)) div a * a" "(b + (a - 1)) div a * a < b + a" "a dvd (b + (a - 1)) div a * a"
proof -
  have e: "(b + (a - 1)) div a * a + (b + (a - 1)) mod a = b + (a - 1)" by simp
  have "(b + (a - 1)) mod a < a" using assms by simp
  with e show "b \<le> (b + (a - 1)) div a * a" "(b + (a - 1)) div a * a < b + a" using assms by linarith+
qed simp

lemma to_int_small: "unat w < 2 ^ 31 \<Longrightarrow> to_int w = int (unat w)"
proof -
  assume "unat w < 2 ^ 31"
  then have "int (unat w) < int (2 ^ 31)" by (simp only: of_nat_less_iff)
  then have a: "uint w < 2 ^ 31" by simp
  have t: "take_bit 32 (uint w) = uint w" using a by (intro take_bit_int_eq_self) auto
  have s: "signed_take_bit 31 (uint w) = uint w"
    by (rule signed_take_bit_int_eq_self) (use a in \<open>auto intro: order_trans [OF _ uint_ge_0]\<close>)
  have "to_int w = signed_take_bit 31 (take_bit 32 (uint w))"
    unfolding to_int_def sint_uint unsigned_ucast_eq by simp
  then show "to_int w = int (unat w)" using t s by simp
qed

lemma to_int_of_int:
  assumes "- (2 ^ 31) \<le> z" "z < 2 ^ 31"
  shows "to_int (word_of_int z) = z"
proof -
  have "to_int (word_of_int z) = signed_take_bit 31 (take_bit 32 (take_bit 64 z))"
    by (simp add: to_int_def sint_uint unsigned_ucast_eq unsigned_of_int)
  also have "\<dots> = signed_take_bit 31 z"
    by (simp add: take_bit_take_bit signed_take_bit_take_bit)
  also have "\<dots> = z" using assms by (rule signed_take_bit_int_eq_self)
  finally show ?thesis .
qed

section \<open>One bitfield\<close>

text \<open>
  A field lies in one unit, which starts at a multiple of the alignment, and begins after what is
  already used; the space used afterwards covers it.
\<close>

lemma place_bitfield_fits:
  fixes bits :: u64
  assumes "0 \<le> width" "width \<le> base" "base \<le> 256" "width = 0 \<Longrightarrow> 2 ^ n \<le> base"
    and "n \<le> 23" "unat bits < 2 ^ 30"
  obtains unit off bits' where "place_bitfield (mask n) base width bits = (unit, off, bits')"
    "2 ^ n dvd unat unit" "unat bits \<le> unat unit + unat off" "unat off < 256"
    "unat off + nat width \<le> nat base"
    "unat unit + unat off + nat width \<le> unat bits'"
    "unat bits' < unat bits + 2 ^ n + 257"
proof -
  let ?B = "unat bits" and ?A = "2 ^ n :: nat"
  have A: "?A \<le> 2 ^ 23" "0 < ?A" using power_increasing [OF assms(5), of "2 :: nat"] by simp_all
  let ?off = "and bits (mask n)"
  have off: "unat ?off = ?B mod ?A"
    by (simp only: take_bit_eq_mask [symmetric] unsigned_take_bit_eq) (simp only: take_bit_eq_mod)
  have off_less: "unat ?off < ?A" using off by simp
  define z where "z = int (unat ?off)"
  have z0: "?off = 0 \<longleftrightarrow> z = 0" "0 \<le> z" by (simp_all add: z_def unsigned_eq_0_iff)
  have "unat ?off < 2 ^ 23" using off_less A(1) by (rule less_le_trans)
  then have "z < int (2 ^ 23)" unfolding z_def by (simp only: of_nat_less_iff)
  then have o23: "z < 8388608" by simp
  have room: "to_int (word_of_int base - ?off) = base - z"
  proof -
    have "word_of_int base - ?off = word_of_int (base - z)" by (simp add: z_def)
    moreover have "to_int (word_of_int z) = z" if "- 2147483648 \<le> z" "z < 2147483648" for z
      using to_int_of_int [of z] that by simp
    moreover have "- 2147483648 \<le> base - z" "base - z < 2147483648"
      using o23 z0(2) assms(1-3) by linarith+
    ultimately show ?thesis by metis
  qed
  let ?w = "if width \<noteq> 0 then width else if z \<noteq> 0 then base - z else 0"
  have add: "unat (x + word_of_int k :: u64) = unat x + nat k" if "unat x < 2 ^ 32" "0 \<le> k" "k \<le> 256" for x :: u64 and k
  proof -
    have "unat (word_of_int k :: u64) = nat k" using that by (simp add: unsigned_of_int take_bit_int_eq_self)
    then show ?thesis using that by (simp add: unat_word_ariths)
  qed
  show ?thesis
  proof (cases "?w > base - z")
    case True
    let ?r = "round_up bits (mask n)"
    have r: "unat ?r = (?B + (?A - 1)) div ?A * ?A" by (rule unat_round_up) (use A assms(6) in simp)
    have w: "0 \<le> ?w" "?w \<le> 256" "?w = width" using True assms(1-3) by (auto split: if_splits)
    have wn: "width \<noteq> 0" "base - z < width" using True assms(1,2) by (auto split: if_splits)
    note bnd = round_up_bounds [OF A(2), of ?B]
    have r32: "unat ?r < 2 ^ 32" using bnd(2) r A(1) assms(6) by simp
    have "place_bitfield (mask n) base width bits = (?r, 0, ?r + word_of_int ?w)"
      using wn room z0(1) by (simp add: place_bitfield_def Let_def)
    moreover have "unat (?r + word_of_int ?w) = unat ?r + nat ?w" by (rule add [OF r32 w(1,2)])
    ultimately show ?thesis
      using that [of ?r 0 "?r + word_of_int ?w"] bnd r w assms(1-3) by simp
  next
    case False
    have zb: "width = 0 \<Longrightarrow> z < base"
    proof -
      assume "width = 0"
      then have "2 ^ n \<le> base" by (rule assms(4))
      moreover have "z < int (2 ^ n)" unfolding z_def using off_less by (simp only: of_nat_less_iff)
      ultimately show "z < base" by simp
    qed
    have w': "0 \<le> ?w" "?w \<le> 256" "width \<le> ?w" "z + ?w \<le> base"
      using False assms(1-3) zb z0(2) by (auto split: if_splits)
    have uz: "unat ?off = nat z" by (simp add: z_def)
    have "z < 256" using w'(4) zb False assms(1-3) by (cases "width = 0") auto
    then have o256: "unat ?off < 256" unfolding uz by simp
    from uz w' z0(2) have w: "0 \<le> ?w" "?w \<le> 256" "nat width \<le> nat ?w" "unat ?off + nat ?w \<le> nat base" by linarith+
    have "place_bitfield (mask n) base width bits = (bits - ?off, ?off, bits + word_of_int ?w)"
      using False room z0(1) assms(1,2) by (cases "width = 0"; cases "z = 0") (simp_all add: place_bitfield_def Let_def)
    moreover have "?off \<le> bits" by (simp add: word_and_le2)
    then have "unat (bits - ?off) = ?B - ?B mod ?A" by (simp add: unat_sub off)
    moreover have "unat (bits + word_of_int ?w) = ?B + nat ?w"
      by (rule add) (use w assms(6) in auto)
    moreover have "?A dvd ?B - ?B mod ?A" by simp
    moreover have "nat ?w < ?A + 257" using w(2) by linarith
    moreover have "?B - ?B mod ?A + ?B mod ?A = ?B" by simp
    ultimately show ?thesis
      using w(3,4) o256 unfolding off by (intro that [of "bits - ?off" ?off "bits + word_of_int ?w"]) (simp_all only: off)
  qed
qed

section \<open>Members\<close>

text \<open>The tables differ only in where members are.\<close>

definition same_types :: "symtab \<Rightarrow> symtab \<Rightarrow> bool" where
  "same_types tab tab' \<longleftrightarrow> (\<forall>s. (tab' s)\<lparr>s_offset := 0, bit_offset := 0\<rparr> = (tab s)\<lparr>s_offset := 0, bit_offset := 0\<rparr>)"

lemma same_typesD:
  assumes "same_types tab tab'"
  shows "sym_type (tab' s) = sym_type (tab s)" "bit_size (tab' s) = bit_size (tab s)" "s_ctype (tab' s) = s_ctype (tab s)"
    "ident (tab' s) = ident (tab s)" "symbol_list (tab' s) = symbol_list (tab s)"
proof -
  have e: "(tab' s)\<lparr>s_offset := 0, bit_offset := 0\<rparr> = (tab s)\<lparr>s_offset := 0, bit_offset := 0\<rparr>"
    using assms by (simp add: same_types_def)
  from arg_cong [OF e, of sym_type] arg_cong [OF e, of bit_size] arg_cong [OF e, of s_ctype]
    arg_cong [OF e, of ident] arg_cong [OF e, of symbol_list]
  show "sym_type (tab' s) = sym_type (tab s)" "bit_size (tab' s) = bit_size (tab s)" "s_ctype (tab' s) = s_ctype (tab s)"
    "ident (tab' s) = ident (tab s)" "symbol_list (tab' s) = symbol_list (tab s)" by simp_all
qed

lemma same_types_fns:
  assumes "same_types tab tab'"
  shows "is_bitfield_type tab' s = is_bitfield_type tab s" "bitfield_base_size tab' s = bitfield_base_size tab s"
proof -
  note d = same_typesD [OF assms]
  have n: "node_base tab' s = node_base tab s" for s by (simp add: node_base_def d)
  have e: "enum_base tab' s = enum_base tab s" for s by (simp add: enum_base_def d)
  have u: "bitfield_unit tab' s = bitfield_unit tab s" for s by (simp add: bitfield_unit_def n d Let_def)
  show "is_bitfield_type tab' s = is_bitfield_type tab s"
    by (simp add: is_bitfield_type_def get_sym_type_def n e d)
  show "bitfield_base_size tab' s = bitfield_base_size tab s"
    by (simp add: bitfield_base_size_def u d)
qed

lemma same_types_refl [simp]: "same_types tab tab"
  by (simp add: same_types_def)

lemma same_types_trans: "same_types a b \<Longrightarrow> same_types b c \<Longrightarrow> same_types a c"
  by (simp add: same_types_def)

text \<open>The bytes a type is aligned to; a named member, and every member that is no bitfield, counts.\<close>

definition align_bytes :: "symtab \<Rightarrow> symref \<Rightarrow> nat" where
  "align_bytes tab m = unat (alignment (s_ctype (tab m)))"

definition counts :: "symtab \<Rightarrow> symref \<Rightarrow> bool" where
  "counts tab m = (ident (tab m) \<noteq> None \<or> \<not> is_bitfield_type tab m)"

definition member_ok :: "symtab \<Rightarrow> symref \<Rightarrow> bool" where
  "member_ok tab m \<longleftrightarrow> 0 \<le> bit_size (tab m) \<and> (\<exists>k \<le> 20. alignment (s_ctype (tab m)) = 2 ^ k)
     \<and> (is_bitfield_type tab m \<longrightarrow> bit_size (tab m) \<le> bitfield_base_size tab m \<and> bitfield_base_size tab m \<le> 256
          \<and> base_of tab m \<noteq> None \<and> (bit_size (tab m) = 0 \<longrightarrow> 8 * int (align_bytes tab m) \<le> bitfield_base_size tab m))"

text \<open>The first bit of a member and the first one after it.\<close>

definition first_bit :: "symtab \<Rightarrow> symref \<Rightarrow> nat" where
  "first_bit tab m = unat (s_offset (tab m)) * 8 + (if is_bitfield_type tab m then bit_offset (tab m) else 0)"

definition end_bit :: "symtab \<Rightarrow> symref \<Rightarrow> nat" where
  "end_bit tab m = first_bit tab m + nat (bit_size (tab m))"

definition placed_ok :: "symtab \<Rightarrow> symref \<Rightarrow> bool" where
  "placed_ok tab m \<longleftrightarrow> align_bytes tab m dvd unat (s_offset (tab m))
     \<and> (is_bitfield_type tab m \<longrightarrow> int (bit_offset (tab m)) + bit_size (tab m) \<le> bitfield_base_size tab m)"

definition room_for :: "symtab \<Rightarrow> symref \<Rightarrow> nat" where
  "room_for tab m = nat (bit_size (tab m)) + 8 * align_bytes tab m + 257"

lemma member_ok_cong: "same_types tab tab' \<Longrightarrow> member_ok tab' m = member_ok tab m"
  by (simp add: member_ok_def align_bytes_def same_typesD same_types_fns)

lemma align_mask_mask:
  assumes "a = 2 ^ k" "k \<le> 20"
  shows "align_mask 8 a = mask (k + 3)"
proof -
  have p: "(2 :: nat) ^ k \<le> 2 ^ 20" using assms(2) by (intro power_increasing) auto
  have "unat (of_nat (2 ^ k) :: u64) = 2 ^ k" using p by (simp only: unat_of_nat) simp
  then have u: "unat a = 2 ^ k" using assms(1) by simp
  then have "to_int a = 2 ^ k" using to_int_small [of a] p by simp
  then show ?thesis by (simp add: align_mask_def bytes_to_bits_def mask_eq_exp_minus_1 power_add)
qed

lemma align_bytes_pow: "alignment (s_ctype (tab m)) = 2 ^ k \<Longrightarrow> k \<le> 20 \<Longrightarrow> align_bytes tab m = 2 ^ k"
proof -
  assume a: "alignment (s_ctype (tab m)) = 2 ^ k" and k: "k \<le> 20"
  have p: "(2 :: nat) ^ k \<le> 2 ^ 20" using k by (intro power_increasing) auto
  have "unat (of_nat (2 ^ k) :: u64) = 2 ^ k" using p by (simp only: unat_of_nat) simp
  then show ?thesis using a by (simp add: align_bytes_def)
qed

lemma byte_offset:
  assumes "2 ^ (k + 3) dvd unat w" "unat w < 2 ^ 31"
  shows "unat (word_of_int (bits_to_bytes 8 (to_int w)) :: u64) * 8 = unat w"
    and "2 ^ k dvd unat (word_of_int (bits_to_bytes 8 (to_int w)) :: u64)"
proof -
  have t: "to_int w = int (unat w)" using assms(2) by (rule to_int_small)
  have "bits_to_bytes 8 (to_int w) = int (unat w div 8)"
    by (simp add: t bits_to_bytes_def zdiv_int)
  moreover have "unat (of_nat (unat w div 8) :: u64) = unat w div 8"
    using assms(2) by (simp only: unat_of_nat) simp
  ultimately have u: "unat (word_of_int (bits_to_bytes 8 (to_int w)) :: u64) = unat w div 8"
    by simp
  from assms(1) obtain q where q: "unat w = 8 * (2 ^ k * q)" by (auto simp: power_add)
  then have "8 dvd unat w" by simp
  then show "unat (word_of_int (bits_to_bytes 8 (to_int w)) :: u64) * 8 = unat w" using u by simp
  show "2 ^ k dvd unat (word_of_int (bits_to_bytes 8 (to_int w)) :: u64)" unfolding u q by simp
qed

lemma note_alignment_fields [simp]:
  "total_bits (note_alignment s st i) = total_bits i" "align_size (note_alignment s st i) = align_size i"
  "max_align (note_alignment s st i) = (if counts (ltab st) s then max (align_of st s) (max_align i) else max_align i)"
  by (auto simp: note_alignment_def counts_def max_def)

lemma upd_fields [simp]:
  "ltab (upd s f st) = (ltab st)(s := f (ltab st s))" "examined (upd s f st) = examined st"
  by (simp_all add: upd_def)

text \<open>One member, that is examined already.\<close>

lemma lay_out_struct_step:
  assumes "t_bits_in_char tg = 8" "ex (Some m) st = Some (r, st)" "member_ok (ltab st) m"
    and "unat (total_bits i) + room_for (ltab st) m < 2 ^ 30"
  obtains i' st' where "lay_out_struct tg ex m i st = Some (i', st')"
    "same_types (ltab st) (ltab st')" "examined st' = examined st"
    "\<And>s. s \<noteq> m \<Longrightarrow> (is_bitfield_type (ltab st) m \<longrightarrow> base_of (ltab st) m \<noteq> Some s) \<Longrightarrow> ltab st' s = ltab st s"
    "(is_bitfield_type (ltab st) m \<longrightarrow> base_of (ltab st) m \<noteq> Some m) \<Longrightarrow>
       unat (total_bits i) \<le> first_bit (ltab st') m \<and> end_bit (ltab st') m \<le> unat (total_bits i')
       \<and> placed_ok (ltab st') m"
    "unat (total_bits i) \<le> unat (total_bits i')" "unat (total_bits i') \<le> unat (total_bits i) + room_for (ltab st) m"
    "align_size i' = align_size i"
    "max_align i' = (if counts (ltab st) m then max (align_of st m) (max_align i) else max_align i)"
proof -
  let ?tab = "ltab st"
  from assms(3) obtain k where k: "alignment (s_ctype (?tab m)) = 2 ^ k" "k \<le> 20" by (auto simp: member_ok_def)
  note ab = align_bytes_pow [of ?tab m, OF k] and msk = align_mask_mask [OF k]
  let ?sz = "bit_size (?tab m)"
  have sz: "0 \<le> ?sz" using assms(3) by (simp add: member_ok_def)
  have B: "unat (total_bits i) + nat ?sz + 2 ^ (k + 3) + 257 < 2 ^ 30"
    using assms(4) ab by (simp add: room_for_def power_add)
  let ?i = "note_alignment m st i"
  show ?thesis
  proof (cases "is_bitfield_type ?tab m")
    case True
    let ?base = "bitfield_base_size ?tab m"
    from assms(3) True have mo: "?sz \<le> ?base" "?base \<le> 256" "?sz = 0 \<longrightarrow> 8 * int (align_bytes ?tab m) \<le> ?base"
      by (simp_all add: member_ok_def)
    from assms(3) True obtain b where b: "base_of ?tab m = Some b" by (auto simp: member_ok_def)
    have z: "?sz = 0 \<Longrightarrow> 2 ^ (k + 3) \<le> ?base" using mo(3) ab by (simp add: power_add)
    obtain unit off bits' where p: "place_bitfield (mask (k + 3)) ?base ?sz (total_bits i) = (unit, off, bits')"
      "2 ^ (k + 3) dvd unat unit" "unat (total_bits i) \<le> unat unit + unat off" "unat off < 256"
      "unat off + nat ?sz \<le> nat ?base" "unat unit + unat off + nat ?sz \<le> unat bits'"
      "unat bits' < unat (total_bits i) + 2 ^ (k + 3) + 257"
      by (rule place_bitfield_fits [of ?sz ?base "k + 3" "total_bits i"]) (use sz mo z k B in auto)
    let ?o = "word_of_int (bits_to_bytes 8 (to_int unit)) :: u64"
    let ?st1 = "upd m (\<lambda>x. x\<lparr>s_offset := ?o, bit_offset := unat off mod 256\<rparr>) st"
    let ?st = "upd b (\<lambda>x. x\<lparr>bit_offset := unat off mod 256\<rparr>) ?st1"
    have "unat unit < 2 ^ 30" using p(6,7) B by linarith
    then have u31: "unat unit < 2 ^ 31" by simp
    note bo = byte_offset [OF p(2) u31]
    have run: "lay_out_struct tg ex m i st = Some (?i\<lparr>total_bits := bits'\<rparr>, ?st)"
      using True assms(1,2) sz b p(1) by (simp add: lay_out_struct_def Let_def msk)
    have same: "same_types ?tab (ltab ?st)" by (simp add: same_types_def)
    show ?thesis
    proof (rule that [OF run same])
      show "ltab ?st s = ltab st s" if "s \<noteq> m" "is_bitfield_type ?tab m \<longrightarrow> base_of ?tab m \<noteq> Some s" for s
        using that True b by simp
      show "unat (total_bits i) \<le> first_bit (ltab ?st) m \<and> end_bit (ltab ?st) m \<le> unat (total_bits (?i\<lparr>total_bits := bits'\<rparr>))
       \<and> placed_ok (ltab ?st) m" if "is_bitfield_type ?tab m \<longrightarrow> base_of ?tab m \<noteq> Some m"
      proof -
        have l: "s_offset (ltab ?st m) = ?o" "bit_offset (ltab ?st m) = unat off" using that True b p(4) by simp_all
        have f: "first_bit (ltab ?st) m = unat unit + unat off"
          by (simp only: first_bit_def l same_types_fns [OF same] True if_True bo(1))
        have "end_bit (ltab ?st) m \<le> unat bits'"
          using p(6) by (simp add: end_bit_def f same_typesD [OF same] del: upd_fields)
        moreover have "int (unat off) + ?sz \<le> ?base" using p(5) sz mo(1) by linarith
        then have "placed_ok (ltab ?st) m"
          using bo(2) ab by (simp add: placed_ok_def align_bytes_def l same_types_fns [OF same] same_typesD [OF same] del: upd_fields)
        ultimately show ?thesis using p(3) f by simp
      qed
      show "unat (total_bits i) \<le> unat (total_bits (?i\<lparr>total_bits := bits'\<rparr>))" using p(3,6) by simp
      show "unat (total_bits (?i\<lparr>total_bits := bits'\<rparr>)) \<le> unat (total_bits i) + room_for ?tab m"
        using p(7) ab by (simp add: room_for_def power_add)
    qed simp_all
  next
    case False
    let ?r = "round_up (total_bits i) (mask (k + 3))"
    let ?o = "word_of_int (bits_to_bytes 8 (to_int ?r)) :: u64"
    let ?st = "upd m (\<lambda>x. x\<lparr>s_offset := ?o\<rparr>) st"
    have r: "unat ?r = (unat (total_bits i) + (2 ^ (k + 3) - 1)) div 2 ^ (k + 3) * 2 ^ (k + 3)"
      by (rule unat_round_up) (use B in simp)
    have "0 < (2 ^ (k + 3) :: nat)" by simp
    note bnd = round_up_bounds [OF this, of "unat (total_bits i)", folded r]
    have "unat ?r < 2 ^ 30" using bnd(2) B by linarith
    then have u31: "unat ?r < 2 ^ 31" by simp
    note bo = byte_offset [OF bnd(3) u31]
    let ?b = "?r + word_of_int ?sz"
    have "unat (word_of_int ?sz :: u64) = nat ?sz"
      using sz B by (simp add: unsigned_of_int take_bit_int_eq_self)
    then have ub: "unat ?b = unat ?r + nat ?sz" using u31 B by (simp add: unat_word_ariths)
    have run: "lay_out_struct tg ex m i st = Some (?i\<lparr>total_bits := ?b\<rparr>, ?st)"
      using False assms(1,2) sz by (simp add: lay_out_struct_def Let_def msk)
    have same: "same_types ?tab (ltab ?st)" by (simp add: same_types_def)
    show ?thesis
    proof (rule that [OF run same])
      have l: "s_offset (ltab ?st m) = ?o" by simp
      have f: "first_bit (ltab ?st) m = unat ?r"
        by (simp only: first_bit_def l same_types_fns [OF same] False if_False bo(1) add_0_right)
      have "end_bit (ltab ?st) m = unat ?b"
        by (simp only: end_bit_def f same_typesD [OF same] ub)
      moreover have "placed_ok (ltab ?st) m"
        using bo(2) ab False by (simp add: placed_ok_def align_bytes_def l same_types_fns [OF same] same_typesD [OF same] del: upd_fields)
      ultimately show "unat (total_bits i) \<le> first_bit (ltab ?st) m
        \<and> end_bit (ltab ?st) m \<le> unat (total_bits (?i\<lparr>total_bits := ?b\<rparr>)) \<and> placed_ok (ltab ?st) m"
        using f bnd(1) by simp
      show "unat (total_bits i) \<le> unat (total_bits (?i\<lparr>total_bits := ?b\<rparr>))" using bnd(1) ub by simp
      show "unat (total_bits (?i\<lparr>total_bits := ?b\<rparr>)) \<le> unat (total_bits i) + room_for ?tab m"
        using bnd(2) ub ab by (simp add: room_for_def power_add)
    qed simp_all
  qed
qed

section \<open>Structures\<close>

text \<open>What a symbol that is no member and no declared type of a bitfield keeps.\<close>

definition touched :: "symtab \<Rightarrow> symref list \<Rightarrow> symref set" where
  "touched tab ms = set ms \<union> {b. \<exists>m \<in> set ms. is_bitfield_type tab m \<and> base_of tab m = Some b}"

definition laid_out :: "symtab \<Rightarrow> symref list \<Rightarrow> nat \<Rightarrow> nat \<Rightarrow> bool" where
  "laid_out tab ms lo hi \<longleftrightarrow> sorted_wrt (\<lambda>a b. end_bit tab a \<le> first_bit tab b) ms
     \<and> (\<forall>m \<in> set ms. lo \<le> first_bit tab m \<and> end_bit tab m \<le> hi \<and> placed_ok tab m)"

lemma position_cong:
  assumes "same_types tab tab'" "s_offset (tab' m) = s_offset (tab m)" "bit_offset (tab' m) = bit_offset (tab m)"
  shows "first_bit tab' m = first_bit tab m" "end_bit tab' m = end_bit tab m" "placed_ok tab' m = placed_ok tab m"
  using assms(2,3) same_typesD [OF assms(1)] same_types_fns [OF assms(1)]
  by (simp_all add: first_bit_def end_bit_def placed_ok_def align_bytes_def)

lemma lay_out_members_ok:
  assumes "t_bits_in_char tg = 8" "\<And>m st. examined st m \<Longrightarrow> ex (Some m) st = Some (Some m, st)"
    and "\<forall>m \<in> set ms. examined st m \<and> member_ok (ltab st) m" "distinct ms"
    and "\<forall>m \<in> set ms. \<forall>b. is_bitfield_type (ltab st) m \<and> base_of (ltab st) m = Some b \<longrightarrow> b \<notin> set ms"
    and "unat (total_bits i) + sum_list (map (room_for (ltab st)) ms) < 2 ^ 30"
  shows "\<exists>i' st'. lay_out_members (lay_out_struct tg ex) ms i st = Some (i', st')
    \<and> same_types (ltab st) (ltab st') \<and> examined st' = examined st
    \<and> (\<forall>s. s \<notin> touched (ltab st) ms \<longrightarrow> ltab st' s = ltab st s)
    \<and> laid_out (ltab st') ms (unat (total_bits i)) (unat (total_bits i')) \<and> unat (total_bits i) \<le> unat (total_bits i')
    \<and> unat (total_bits i') < 2 ^ 30 \<and> align_size i' = align_size i
    \<and> max_align i' = fold max (map (align_of st) (filter (counts (ltab st)) ms)) (max_align i)"
  using assms(3-6)
proof (induction ms arbitrary: i st)
  case Nil
  then show ?case by (simp add: laid_out_def)
next
  case (Cons m ms)
  let ?tab = "ltab st"
  from Cons.prems(1) have m: "examined st m" "member_ok ?tab m" by auto
  have sum: "unat (total_bits i) + room_for ?tab m < 2 ^ 30" using Cons.prems(4) by simp
  obtain i1 st1 where run: "lay_out_struct tg ex m i st = Some (i1, st1)"
    and same: "same_types ?tab (ltab st1)" and exd: "examined st1 = examined st"
    and frame: "\<And>s. s \<noteq> m \<Longrightarrow> (is_bitfield_type ?tab m \<longrightarrow> base_of ?tab m \<noteq> Some s) \<Longrightarrow> ltab st1 s = ltab st s"
    and pos: "(is_bitfield_type ?tab m \<longrightarrow> base_of ?tab m \<noteq> Some m) \<Longrightarrow>
       unat (total_bits i) \<le> first_bit (ltab st1) m \<and> end_bit (ltab st1) m \<le> unat (total_bits i1) \<and> placed_ok (ltab st1) m"
    and mono: "unat (total_bits i) \<le> unat (total_bits i1)" "unat (total_bits i1) \<le> unat (total_bits i) + room_for ?tab m"
    and al: "align_size i1 = align_size i"
      "max_align i1 = (if counts ?tab m then max (align_of st m) (max_align i) else max_align i)"
    using lay_out_struct_step [where ex = ex and m = m and st = st and i = i,
        OF assms(1) assms(2) [OF m(1)] m(2) sum] by metis
  note D = same_typesD [OF same] same_types_fns [OF same]
  have room: "room_for (ltab st1) = room_for ?tab" by (rule ext) (simp add: room_for_def align_bytes_def D)
  have cnt: "counts (ltab st1) = counts ?tab" by (rule ext) (simp add: counts_def D)
  have "\<exists>i' st'. lay_out_members (lay_out_struct tg ex) ms i1 st1 = Some (i', st')
    \<and> same_types (ltab st1) (ltab st') \<and> examined st' = examined st1
    \<and> (\<forall>s. s \<notin> touched (ltab st1) ms \<longrightarrow> ltab st' s = ltab st1 s)
    \<and> laid_out (ltab st') ms (unat (total_bits i1)) (unat (total_bits i')) \<and> unat (total_bits i1) \<le> unat (total_bits i')
    \<and> unat (total_bits i') < 2 ^ 30 \<and> align_size i' = align_size i1
    \<and> max_align i' = fold max (map (align_of st1) (filter (counts (ltab st1)) ms)) (max_align i1)"
  proof (rule Cons.IH)
    show "\<forall>m \<in> set ms. examined st1 m \<and> member_ok (ltab st1) m"
      using Cons.prems(1) by (simp add: exd member_ok_cong [OF same])
    show "distinct ms" using Cons.prems(2) by simp
    show "\<forall>m \<in> set ms. \<forall>b. is_bitfield_type (ltab st1) m \<and> base_of (ltab st1) m = Some b \<longrightarrow> b \<notin> set ms"
      using Cons.prems(3) by (simp add: D)
    show "unat (total_bits i1) + sum_list (map (room_for (ltab st1)) ms) < 2 ^ 30"
      using Cons.prems(4) mono(2) by (simp add: room)
  qed
  then obtain i' st' where r: "lay_out_members (lay_out_struct tg ex) ms i1 st1 = Some (i', st')"
    and same': "same_types (ltab st1) (ltab st')" and exd': "examined st' = examined st1"
    and frame': "\<forall>s. s \<notin> touched (ltab st1) ms \<longrightarrow> ltab st' s = ltab st1 s"
    and lo: "laid_out (ltab st') ms (unat (total_bits i1)) (unat (total_bits i'))"
    and mono': "unat (total_bits i1) \<le> unat (total_bits i')" "unat (total_bits i') < 2 ^ 30"
    and al': "align_size i' = align_size i1"
      "max_align i' = fold max (map (align_of st1) (filter (counts (ltab st1)) ms)) (max_align i1)"
    by blast
  have st: "same_types ?tab (ltab st')" using same same' by (rule same_types_trans)
  have t1: "touched (ltab st1) ms \<subseteq> touched ?tab (m # ms)" by (auto simp: touched_def D)
  have "m \<notin> touched (ltab st1) ms" using Cons.prems(2,3) by (auto simp: touched_def D)
  then have "ltab st' m = ltab st1 m" using frame' by blast
  then have e: "s_offset (ltab st' m) = s_offset (ltab st1 m)" "bit_offset (ltab st' m) = bit_offset (ltab st1 m)"
    by simp_all
  have nb: "is_bitfield_type ?tab m \<longrightarrow> base_of ?tab m \<noteq> Some m" using Cons.prems(3) by auto
  from pos [OF nb] have p: "unat (total_bits i) \<le> first_bit (ltab st') m" "end_bit (ltab st') m \<le> unat (total_bits i1)"
    "placed_ok (ltab st') m" by (simp_all add: position_cong [OF same' e])
  have "laid_out (ltab st') (m # ms) (unat (total_bits i)) (unat (total_bits i'))"
    using lo p mono mono' unfolding laid_out_def by (fastforce dest: order_trans)
  moreover have "ltab st' s = ltab st s" if s: "s \<notin> touched ?tab (m # ms)" for s
  proof -
    have "ltab st1 s = ltab st s" by (rule frame) (use s in \<open>auto simp: touched_def\<close>)
    with frame' t1 s show ?thesis by auto
  qed
  ultimately show ?case
    using run r st exd exd' mono mono' al al' by (simp add: cnt D)
qed

lemma examined_examine:
  "examined st m \<Longrightarrow> examine_symbol_type tg Wvla ev ee (Suc n) (Some m) st = Some (Some m, st)"
  by (simp add: examine_body_def)

lemma fold_max_word:
  fixes a :: u64
  shows "a \<le> fold max xs a" and "x \<in> set xs \<Longrightarrow> x \<le> fold max xs a" and "fold max xs a \<in> insert a (set xs)"
proof (induction xs arbitrary: a)
  case (Cons y xs)
  { case 1 show ?case using Cons(1) [of "max y a"] by simp }
  { case 2 show ?case using Cons(1) [of "max y a"] Cons(2) [of "max y a"] 2 by auto }
  { case 3 show ?case using Cons(3) [of "max y a"] by (auto simp: max_def split: if_splits) }
qed simp_all

text \<open>
  C25. A structure whose members have sizes and alignments (powers of two, up to a megabyte) is laid
  out correctly: in the order of declaration and without overlap, every member at a multiple of
  its alignment, every bitfield within one unit of its declared type, and all of them inside the
  structure, whose size is a multiple of its alignment, which is at least that of every member
  that counts.
\<close>

theorem struct_layout_correct:
  assumes "t_bits_in_char tg = 8" "symbol_list (ltab st s) = ms" "alignment (s_ctype (ltab st s)) = 0"
    and "\<forall>m \<in> set ms. examined st m \<and> member_ok (ltab st) m" "distinct ms"
    and "\<forall>m \<in> set ms. \<forall>b. is_bitfield_type (ltab st) m \<and> base_of (ltab st) m = Some b \<longrightarrow> b \<notin> set ms"
    and "s \<notin> touched (ltab st) ms" "s \<notin> bitfield_unit (ltab st) ` set ms" "sum_list (map (room_for (ltab st)) ms) < 2 ^ 30"
  shows "\<exists>st'. examine_struct_union_type tg (examine_symbol_type tg Wvla ev ee (Suc n)) s True st = Some st'
    \<and> laid_out (ltab st') ms 0 (nat (bit_size (ltab st' s)))
    \<and> 8 * align_bytes (ltab st') s dvd nat (bit_size (ltab st' s))
    \<and> (\<forall>m \<in> set ms. counts (ltab st) m \<longrightarrow> align_bytes (ltab st) m \<le> align_bytes (ltab st') s)"
proof -
  let ?i = "\<lparr>max_align = 1, total_bits = 0, align_size = True\<rparr> :: layout_info"
  have "unat (total_bits ?i) + sum_list (map (room_for (ltab st)) ms) < 2 ^ 30" using assms(9) by simp
  from lay_out_members_ok [where i = ?i and ex = "examine_symbol_type tg Wvla ev ee (Suc n)",
      OF assms(1) examined_examine assms(4-6) this]
  obtain i' st1 where run: "lay_out_members (lay_out_struct tg (examine_symbol_type tg Wvla ev ee (Suc n))) ms ?i st
      = Some (i', st1)"
    and same: "same_types (ltab st) (ltab st1)" and frame: "\<forall>s. s \<notin> touched (ltab st) ms \<longrightarrow> ltab st1 s = ltab st s"
    and lo: "laid_out (ltab st1) ms 0 (unat (total_bits i'))" and less: "unat (total_bits i') < 2 ^ 30"
    and al: "align_size i'" and mx: "max_align i' = fold max (map (align_of st) (filter (counts (ltab st)) ms)) 1"
    by auto
  from fold_max_word(3) [of "map (align_of st) (filter (counts (ltab st)) ms)" 1] assms(4)
  obtain k where k: "max_align i' = 2 ^ k" "k \<le> 20"
    unfolding mx [symmetric] by (auto simp: member_ok_def intro: that [of 0])
  let ?st2 = "default_alignment s (max_align i') st1"
  have s1: "ltab st1 s = ltab st s" using frame assms(7) by blast
  have a2: "align_of ?st2 s = 2 ^ k" by (simp add: default_alignment_def s1 assms(3) k(1) upd_ctype_def)
  let ?b = "round_up (total_bits i') (mask (k + 3))"
  let ?st = "upd s (\<lambda>x. x\<lparr>bit_size := to_int ?b\<rparr>) ?st2"
  have run2: "examine_struct_union_type tg (examine_symbol_type tg Wvla ev ee (Suc n)) s True st = Some ?st"
    using run assms(1,2) al align_mask_mask [OF a2 k(2)]
    by (simp add: examine_struct_union_type_def Let_def)
  have p: "(2 :: nat) ^ (k + 3) \<le> 2 ^ 23" using k(2) by (intro power_increasing) auto
  have b: "unat ?b = (unat (total_bits i') + (2 ^ (k + 3) - 1)) div 2 ^ (k + 3) * 2 ^ (k + 3)"
    by (rule unat_round_up) (use p less in simp)
  have "0 < (2 ^ (k + 3) :: nat)" by simp
  note bnd = round_up_bounds [OF this, of "unat (total_bits i')", folded b]
  have "unat ?b < 2 ^ 31" using bnd(2) less p by simp
  then have bs: "bit_size (ltab ?st s) = int (unat ?b)" by (simp add: to_int_small)
  have oth: "ltab ?st x = ltab st1 x" if "x \<noteq> s" for x
    using that by (simp add: default_alignment_def upd_ctype_def)
  have "s \<notin> set ms" using assms(7) by (auto simp: touched_def)
  have kind: "sym_type (ltab ?st x) = sym_type (ltab st1 x)" "base_of (ltab ?st) x = base_of (ltab st1) x" for x
    by (simp_all add: default_alignment_def upd_ctype_def)
  have nb: "node_base (ltab ?st) x = node_base (ltab st1) x" for x by (simp only: node_base_def kind)
  have eb: "enum_base (ltab ?st) x = enum_base (ltab st1) x" for x by (simp only: enum_base_def kind)
  have bf: "is_bitfield_type (ltab ?st) x = is_bitfield_type (ltab st1) x" for x
    by (simp only: is_bitfield_type_def get_sym_type_def nb eb kind)
  have bu: "bitfield_unit (ltab ?st) x = bitfield_unit (ltab st) x"
    "bitfield_unit (ltab st1) x = bitfield_unit (ltab st) x" for x
    by (simp_all only: bitfield_unit_def nb kind same_typesD [OF same] node_base_def)
  have pos: "first_bit (ltab ?st) m = first_bit (ltab st1) m" "end_bit (ltab ?st) m = end_bit (ltab st1) m"
    "placed_ok (ltab ?st) m = placed_ok (ltab st1) m" if m: "m \<in> set ms" for m
  proof -
    have "m \<noteq> s" using m \<open>s \<notin> set ms\<close> by blast
    from oth [OF this] have e: "ltab ?st m = ltab st1 m" .
    have "bitfield_unit (ltab st) m \<noteq> s" using m assms(8) by blast
    from oth [OF this] have u: "bitfield_base_size (ltab ?st) m = bitfield_base_size (ltab st1) m"
      by (simp only: bitfield_base_size_def bu)
    show "first_bit (ltab ?st) m = first_bit (ltab st1) m" by (simp only: first_bit_def e bf)
    then show "end_bit (ltab ?st) m = end_bit (ltab st1) m" by (simp only: end_bit_def e)
    show "placed_ok (ltab ?st) m = placed_ok (ltab st1) m" by (simp only: placed_ok_def align_bytes_def e bf u)
  qed
  have "laid_out (ltab ?st) ms 0 (nat (bit_size (ltab ?st s)))"
    using lo bnd(1) unfolding laid_out_def bs nat_int
    by (auto simp only: pos intro: order_trans elim!: sorted_wrt_mono_rel [rotated])
  moreover have as: "align_bytes (ltab ?st) s = 2 ^ k"
  proof -
    have "align_of ?st s = 2 ^ k" using a2 by simp
    then show ?thesis using k(2) by (rule align_bytes_pow)
  qed
  moreover have "8 * align_bytes (ltab ?st) s dvd nat (bit_size (ltab ?st s))"
    using bnd(3) unfolding bs as nat_int by (simp only: power_add) (simp add: mult.commute)
  moreover have "align_bytes (ltab st) m \<le> align_bytes (ltab ?st) s" if "m \<in> set ms" "counts (ltab st) m" for m
  proof -
    have "align_of st m \<le> max_align i'" unfolding mx by (rule fold_max_word(2)) (use that in auto)
    also have "max_align i' = align_of ?st s" using a2 k(1) by simp
    finally show ?thesis by (simp only: align_bytes_def word_le_nat_alt)
  qed
  ultimately show ?thesis using run2 by blast
qed

text \<open>A structure of a byte, a word and a bitfield of three bits.\<close>

definition example_member :: "sym_type \<Rightarrow> int \<Rightarrow> u64 \<Rightarrow> symref option \<Rightarrow> symref list \<Rightarrow> symbol" where
  "example_member t n a b ms = \<lparr>sym_type = t, ident = Some ''m'', s_offset = 0, bit_size = n, bit_offset = 0,
     s_ctype = \<lparr>modifiers = 0, alignment = a, contexts = [], address_space = 0, base_type = b\<rparr>, array_size = None,
     arguments = [], variadic = False, symbol_list = ms, s_stmt = None, initializer = None, op_expand = None\<rparr>"

definition example_struct :: symtab where
  "example_struct = (\<lambda>s.
     if s = Sym 0 then example_member SYM_STRUCT 0 0 None [Sym 1, Sym 2, Sym 3]
     else if s = Sym 1 then example_member SYM_NODE 8 1 (Some Char_ctype) []
     else if s = Sym 2 then example_member SYM_NODE 32 4 (Some Int_ctype) []
     else if s = Sym 3 then example_member SYM_NODE 3 4 (Some (Sym 4)) []
     else if s = Sym 4 then example_member SYM_BITFIELD 3 4 (Some Int_ctype) []
     else example_member SYM_BASETYPE (if s = Char_ctype then 8 else 32) 4 (Some Int_type) [])"

definition example_lstate :: "symtab \<Rightarrow> lstate" where
  "example_lstate tab = \<lparr>lx = \<lparr>syms = tab, conservative = False, xwarns = []\<rparr>, examined = (\<lambda>s. s \<noteq> Sym 0),
     evaluated = (\<lambda>s. False),
     restr = [], fouled = [], n_syms = 5, used_syms = [], lwarns = []\<rparr>"

theorem struct_layout_correct_witness:
  "\<forall>ev ee. \<exists>st'. examine_struct_union_type default_target (examine_symbol_type default_target True ev ee 1) (Sym 0) True
        (example_lstate example_struct) = Some st'
    \<and> laid_out (ltab st') [Sym 1, Sym 2, Sym 3] 0 (nat (bit_size (ltab st' (Sym 0))))"
proof (intro allI)
  fix ev ee
  let ?st = "example_lstate example_struct"
  have st: "ltab ?st = example_struct" "examined ?st = (\<lambda>s. s \<noteq> Sym 0)" by (simp_all add: example_lstate_def)
  have bf: "is_bitfield_type example_struct (Sym k) \<longleftrightarrow> k = 3" if "k \<in> {1, 2, 3}" for k
    using that by (auto simp: is_bitfield_type_def get_sym_type_def enum_base_def node_base_def example_struct_def example_member_def)
  have bu: "bitfield_unit example_struct (Sym k) = (if k = 1 then Char_ctype else Int_ctype)" if "k \<in> {1, 2, 3}" for k
    using that by (auto simp: bitfield_unit_def Let_def node_base_def example_struct_def example_member_def)
  have p: "\<exists>j \<le> 20. (1 :: u64) = 2 ^ j" "\<exists>j \<le> 20. (4 :: u64) = 2 ^ j"
    by (rule exI [of _ 0], simp) (rule exI [of _ 2], simp)
  have ok: "member_ok example_struct (Sym k)" if "k \<in> {1, 2, 3}" for k
  proof -
    have "\<exists>j \<le> 20. alignment (s_ctype (example_struct (Sym k))) = 2 ^ j"
      using that by (auto simp: example_struct_def example_member_def intro: exI [of _ 0] exI [of _ 2])
    then show ?thesis
      using that unfolding member_ok_def bf [OF that] bitfield_base_size_def bu [OF that]
      by (auto simp: example_struct_def example_member_def)
  qed
  have "\<exists>st'. examine_struct_union_type default_target (examine_symbol_type default_target True ev ee (Suc 0)) (Sym 0) True ?st
        = Some st'
    \<and> laid_out (ltab st') [Sym 1, Sym 2, Sym 3] 0 (nat (bit_size (ltab st' (Sym 0))))
    \<and> 8 * align_bytes (ltab st') (Sym 0) dvd nat (bit_size (ltab st' (Sym 0)))
    \<and> (\<forall>m \<in> set [Sym 1, Sym 2, Sym 3]. counts (ltab ?st) m \<longrightarrow> align_bytes (ltab ?st) m \<le> align_bytes (ltab st') (Sym 0))"
  proof (rule struct_layout_correct)
    show "t_bits_in_char default_target = 8" by (simp add: default_target_def)
    show "symbol_list (ltab ?st (Sym 0)) = [Sym 1, Sym 2, Sym 3]" "alignment (s_ctype (ltab ?st (Sym 0))) = 0"
      unfolding st by (simp_all add: example_struct_def example_member_def)
    show "\<forall>m \<in> set [Sym 1, Sym 2, Sym 3]. examined ?st m \<and> member_ok (ltab ?st) m"
      unfolding st using ok by simp
    show "distinct [Sym 1, Sym 2, Sym 3]" by simp
    have b: "base_of example_struct (Sym 3) = Some (Sym 4)" by (simp add: example_struct_def example_member_def)
    show "\<forall>m \<in> set [Sym 1, Sym 2, Sym 3]. \<forall>b. is_bitfield_type (ltab ?st) m \<and> base_of (ltab ?st) m = Some b
        \<longrightarrow> b \<notin> set [Sym 1, Sym 2, Sym 3]"
      unfolding st using bf b by simp
    show "Sym 0 \<notin> touched (ltab ?st) [Sym 1, Sym 2, Sym 3]"
      unfolding st touched_def using bf b by auto
    show "Sym 0 \<notin> bitfield_unit (ltab ?st) ` set [Sym 1, Sym 2, Sym 3]"
      unfolding st using bu by auto
    show "sum_list (map (room_for (ltab ?st)) [Sym 1, Sym 2, Sym 3]) < 2 ^ 30"
      unfolding st by (simp add: room_for_def align_bytes_def example_struct_def example_member_def)
  qed
  then show "\<exists>st'. examine_struct_union_type default_target (examine_symbol_type default_target True ev ee 1) (Sym 0) True ?st
        = Some st' \<and> laid_out (ltab st') [Sym 1, Sym 2, Sym 3] 0 (nat (bit_size (ltab st' (Sym 0))))"
    by auto
qed

section \<open>Unions\<close>






text \<open>
  A field of width 0 whose alignment is larger than its type gives used bits back: after 44 bits,
  \<open>char : 0\<close> aligned to 4 bytes leaves only 40, and the next member overlaps the last one.
\<close>

lemma zero_width_overlap: "place_bitfield (mask 5) 8 0 44 = (32, 12, 40)"
  by (simp add: place_bitfield_def Let_def mask_eq_exp_minus_1 to_int_def)

end
