(* ===== verification/Uses_Props.thy ===== *)
theory Uses_Props
  imports Uses
begin

text \<open>
  What the operations on use lists do: reading a place after a write, the table of shared
  constants, and the replacement of one pseudo by another.
\<close>

section \<open>Reading and writing places\<close>

named_theorems store_simps \<open>what an update of the store leaves as it was\<close>

lemma read_write_same [simp]: "read_place pl (write_place pl p st) = p"
  by (cases pl) (simp_all add: upd_insn_def)

lemma read_write_other: "pl' \<noteq> pl \<Longrightarrow> read_place pl' (write_place pl p st) = read_place pl' st"
  by (cases pl; cases pl') (auto simp: upd_insn_def)

lemma read_write: "read_place pl' (write_place pl p st) = (if pl' = pl then p else read_place pl' st)"
  using read_write_other by simp

lemma write_place_store [store_simps]:
  "pseudos (write_place pl p st) = pseudos st" "n_pseudos (write_place pl p st) = n_pseudos st"
  "n_insns (write_place pl p st) = n_insns st" "val_hash (write_place pl p st) = val_hash st"
  "bbs (write_place pl p st) = bbs st" "ltypes (write_place pl p st) = ltypes st"
  "i_bb (insns (write_place pl p st) i) = i_bb (insns st i)"
  "opcode (insns (write_place pl p st) i) = opcode (insns st i)"
  "i_size (insns (write_place pl p st) i) = i_size (insns st i)"
  by (cases pl; simp add: upd_insn_def)+

lemma upd_pseudo_store [store_simps]:
  "read_place pl (upd_pseudo p f st) = read_place pl st" "insns (upd_pseudo p f st) = insns st"
  "n_pseudos (upd_pseudo p f st) = n_pseudos st" "n_insns (upd_pseudo p f st) = n_insns st"
  "val_hash (upd_pseudo p f st) = val_hash st" "bbs (upd_pseudo p f st) = bbs st"
  "cells (upd_pseudo p f st) = cells st" "ltypes (upd_pseudo p f st) = ltypes st"
  "pseudos (upd_pseudo p f st) q = (if q = p then f (pseudos st p) else pseudos st q)"
  by (cases pl; simp add: upd_pseudo_def)+

lemma set_insn_bb_store [store_simps]:
  "read_place pl (set_insn_bb i b st) = read_place pl st" "pseudos (set_insn_bb i b st) = pseudos st"
  "n_pseudos (set_insn_bb i b st) = n_pseudos st" "n_insns (set_insn_bb i b st) = n_insns st"
  "val_hash (set_insn_bb i b st) = val_hash st" "bbs (set_insn_bb i b st) = bbs st"
  "ltypes (set_insn_bb i b st) = ltypes st"
  "i_bb (insns (set_insn_bb i b st) j) = (if j = i then b else i_bb (insns st j))"
  "opcode (insns (set_insn_bb i b st) j) = opcode (insns st j)"
  "i_size (insns (set_insn_bb i b st) j) = i_size (insns st j)"
  by (cases pl; simp add: set_insn_bb_def upd_insn_def)+

lemma add_repeat_store [store_simps]:
  "read_place pl (add_repeat r st) = read_place pl st" "pseudos (add_repeat r st) = pseudos st"
  "insns (add_repeat r st) = insns st" "n_insns (add_repeat r st) = n_insns st"
  "n_pseudos (add_repeat r st) = n_pseudos st" "val_hash (add_repeat r st) = val_hash st"
  by (cases pl; simp add: add_repeat_def)+

lemma lmsg_store [store_simps]:
  "read_place pl (lmsg m st) = read_place pl st" "pseudos (lmsg m st) = pseudos st"
  "insns (lmsg m st) = insns st" "cells (lmsg m st) = cells st" "n_insns (lmsg m st) = n_insns st"
  "n_pseudos (lmsg m st) = n_pseudos st" "val_hash (lmsg m st) = val_hash st" "ltypes (lmsg m st) = ltypes st"
  by (cases pl; simp add: lmsg_def)+

lemma read_place_cong: "insns st' = insns st \<Longrightarrow> cells st' = cells st \<Longrightarrow> read_place pl st' = read_place pl st"
  by (cases pl) simp_all

section \<open>Constants\<close>

definition vals_ok :: "lin \<Rightarrow> bool" where
  "vals_ok st \<longleftrightarrow>
     2 \<le> n_pseudos st
     \<and> (\<forall>h. \<forall>p \<in> set (val_hash st h).
          2 \<le> p \<and> p < n_pseudos st \<and> ptype st p = PSEUDO_VAL \<and> val_bucket (pvalue st p) = h)
     \<and> (\<forall>h. \<forall>p \<in> set (val_hash st h). \<forall>q \<in> set (val_hash st h). pvalue st p = pvalue st q \<longrightarrow> p = q)"

lemma vals_okD:
  assumes "vals_ok st" "p \<in> set (val_hash st h)"
  shows "2 \<le> p" "p < n_pseudos st" "ptype st p = PSEUDO_VAL" "val_bucket (pvalue st p) = h"
    and "q \<in> set (val_hash st h) \<Longrightarrow> pvalue st p = pvalue st q \<Longrightarrow> p = q"
  using assms unfolding vals_ok_def by blast+

text \<open>The constant is there already, or a new pseudo is made for it; nothing else changes.\<close>

lemma value_pseudo_spec:
  assumes ok: "vals_ok st" and run: "value_pseudo v st = (p, st')"
  shows "vals_ok st'" "ptype st' p = PSEUDO_VAL" "pvalue st' p = v" "2 \<le> p" "p < n_pseudos st'"
    "p \<in> set (val_hash st' (val_bucket v))"
    "n_pseudos st \<le> n_pseudos st'" "insns st' = insns st" "cells st' = cells st" "ltypes st' = ltypes st"
    "\<And>q. q < n_pseudos st \<Longrightarrow> pseudos st' q = pseudos st q"
    "p < n_pseudos st \<Longrightarrow> p \<in> set (val_hash st (val_bucket v))"
proof -
  let ?h = "val_bucket v"
  have "vals_ok st' \<and> ptype st' p = PSEUDO_VAL \<and> pvalue st' p = v \<and> 2 \<le> p \<and> p < n_pseudos st'
      \<and> p \<in> set (val_hash st' ?h) \<and> n_pseudos st \<le> n_pseudos st' \<and> insns st' = insns st \<and> cells st' = cells st
      \<and> ltypes st' = ltypes st \<and> (\<forall>q < n_pseudos st. pseudos st' q = pseudos st q)
      \<and> (p < n_pseudos st \<longrightarrow> p \<in> set (val_hash st ?h))"
  proof (cases "List.find (\<lambda>p. pvalue st p = v) (val_hash st ?h)")
    case (Some q)
    then have q: "q \<in> set (val_hash st ?h)" "pvalue st q = v" by (auto simp: find_Some_iff)
    have eq: "p = q" "st' = st" using run Some by (simp_all add: value_pseudo_def Let_def)
    show ?thesis using q ok vals_okD [OF ok q(1)] by (simp add: eq)
  next
    case None
    then have none: "\<forall>q \<in> set (val_hash st ?h). pvalue st q \<noteq> v" by (auto simp: find_None_iff)
    have p: "p = n_pseudos st"
      and st': "st' = st\<lparr>n_pseudos := Suc p, pseudos := (pseudos st)(p := blank_pseudo\<lparr>p_type := PSEUDO_VAL, p_value := v\<rparr>),
         val_hash := (val_hash st)(?h := val_hash st ?h @ [p])\<rparr>"
      using run None by (auto simp: value_pseudo_def Let_def new_pseudo_def)
    have old: "q \<noteq> p" "q < Suc p" if "q \<in> set (val_hash st h)" for q h
      using vals_okD(2) [OF ok that] p by auto
    have n2: "2 \<le> p" using ok p by (simp add: vals_ok_def)
    have v: "vals_ok st'"
      unfolding vals_ok_def st' using n2 old vals_okD [OF ok] none
      by (simp add: blank_pseudo_def) metis
    show ?thesis using v n2 by (simp add: st' p blank_pseudo_def)
  qed
  then show "vals_ok st'" "ptype st' p = PSEUDO_VAL" "pvalue st' p = v" "2 \<le> p" "p < n_pseudos st'"
    "p \<in> set (val_hash st' (val_bucket v))"
    "n_pseudos st \<le> n_pseudos st'" "insns st' = insns st" "cells st' = cells st" "ltypes st' = ltypes st"
    "\<And>q. q < n_pseudos st \<Longrightarrow> pseudos st' q = pseudos st q"
    "p < n_pseudos st \<Longrightarrow> p \<in> set (val_hash st (val_bucket v))"
    by blast+
qed

section \<open>Replacing a pseudo\<close>

text \<open>The use list of \<open>t\<close> names every place once, and it holds \<open>t\<close>, or \<open>VOID\<close> where it was given up.\<close>

definition tracked :: "lin \<Rightarrow> addr \<Rightarrow> bool" where
  "tracked st t \<longleftrightarrow>
     distinct (map userp (users st t)) \<and> (\<forall>u \<in> set (users st t). read_place (userp u) st \<in> {t, VOID})"

definition replaced :: "addr \<Rightarrow> addr \<Rightarrow> lin \<Rightarrow> lin \<Rightarrow> bool" where
  "replaced t p st st' \<longleftrightarrow>
     users st' t = []
     \<and> (\<forall>pl. read_place pl st' =
          (if pl \<in> userp ` set (users st t) \<and> read_place pl st = t then p else read_place pl st))"

text \<open>Only operands of instructions, entries of lists and use lists may have changed.\<close>

definition same_code :: "lin \<Rightarrow> lin \<Rightarrow> bool" where
  "same_code st st' \<longleftrightarrow>
     (\<forall>i. opcode (insns st' i) = opcode (insns st i) \<and> i_size (insns st' i) = i_size (insns st i)
        \<and> i_bb (insns st' i) = i_bb (insns st i))
     \<and> (\<forall>q. p_type (pseudos st' q) = p_type (pseudos st q) \<and> p_value (pseudos st' q) = p_value (pseudos st q)
        \<and> p_def (pseudos st' q) = p_def (pseudos st q))
     \<and> n_pseudos st' = n_pseudos st \<and> n_insns st' = n_insns st \<and> val_hash st' = val_hash st
     \<and> bbs st' = bbs st \<and> ltypes st' = ltypes st"

lemma same_code_refl: "same_code st st"
  by (simp add: same_code_def)

lemma same_code_trans: "same_code st st1 \<Longrightarrow> same_code st1 st2 \<Longrightarrow> same_code st st2"
  by (simp add: same_code_def)

lemma same_code_write: "same_code st (write_place pl p st)"
  by (simp add: same_code_def store_simps)

lemma same_code_users: "same_code st (upd_pseudo p (\<lambda>x. x\<lparr>p_users := f x\<rparr>) st)"
  by (simp add: same_code_def store_simps)

lemma convert_users_spec:
  assumes "\<forall>u \<in> set us. read_place (userp u) st \<in> {t, VOID}" "distinct (map userp us)" "t \<noteq> VOID"
  shows "\<exists>st'. convert_users t p us st = Some st' \<and> same_code st st' \<and> pseudos st' = pseudos st
    \<and> (\<forall>pl. read_place pl st' = (if pl \<in> userp ` set us \<and> read_place pl st = t then p else read_place pl st))"
  using assms(1,2)
proof (induction us arbitrary: st)
  case (Cons u us)
  let ?pl = "userp u"
  define st1 where "st1 = (if read_place ?pl st = VOID then st else write_place ?pl p st)"
  have new: "?pl \<notin> userp ` set us" "distinct (map userp us)" using Cons.prems(2) by auto
  have v: "read_place ?pl st = t \<or> read_place ?pl st = VOID" using Cons.prems(1) by simp
  have same: "read_place pl st1 = read_place pl st" if "pl \<noteq> ?pl" for pl
    using that by (simp add: st1_def read_write)
  have "\<forall>u \<in> set us. read_place (userp u) st1 \<in> {t, VOID}"
  proof
    fix u' assume u': "u' \<in> set us"
    with new(1) have "userp u' \<noteq> ?pl" by (metis imageI)
    with same Cons.prems(1) u' show "read_place (userp u') st1 \<in> {t, VOID}" by simp
  qed
  from Cons.IH [OF this new(2)] obtain st' where run: "convert_users t p us st1 = Some st'"
    and code: "same_code st1 st'" and ps: "pseudos st' = pseudos st1"
    and read: "\<And>pl. read_place pl st' = (if pl \<in> userp ` set us \<and> read_place pl st1 = t then p else read_place pl st1)"
    by blast
  have "convert_users t p (u # us) st = convert_users t p us st1"
    using v by (auto simp: st1_def Let_def)
  moreover have "same_code st st'"
    by (rule same_code_trans [OF _ code]) (simp add: st1_def same_code_refl same_code_write)
  moreover have "pseudos st' = pseudos st" by (simp add: ps st1_def store_simps)
  moreover have "read_place pl st' = (if pl \<in> userp ` set (u # us) \<and> read_place pl st = t then p else read_place pl st)" for pl
  proof (cases "pl = ?pl")
    case True
    then have "read_place pl st' = read_place ?pl st1" using read new(1) by simp
    with True v assms(3) show ?thesis by (auto simp: st1_def)
  next
    case False
    then show ?thesis using read same by simp
  qed
  ultimately show ?case using run by metis
qed (simp add: same_code_refl)

lemma convert_target_spec:
  assumes t: "i_target (insns st i) = t" "t \<noteq> NULL" "t \<noteq> VOID" and p: "p \<noteq> NULL" "p \<noteq> t" and tr: "tracked st t"
  shows "\<exists>st'. convert_instruction_target i p st = Some st' \<and> same_code st st' \<and> replaced t p st st'"
proof -
  have us: "\<forall>u \<in> set (users st t). read_place (userp u) st \<in> {t, VOID}" "distinct (map userp (users st t))"
    using tr by (simp_all add: tracked_def)
  from convert_users_spec [OF us t(3), of p] obtain st1 where
    run: "convert_users t p (users st t) st = Some st1" and code: "same_code st st1" and ps: "pseudos st1 = pseudos st"
    and read: "\<forall>pl. read_place pl st1 =
      (if pl \<in> userp ` set (users st t) \<and> read_place pl st = t then p else read_place pl st)" by blast
  let ?st2 = "upd_pseudo p (\<lambda>x. x\<lparr>p_users := p_users x @ users st t\<rparr>) st1"
  let ?st3 = "upd_pseudo t (\<lambda>x. x\<lparr>p_users := []\<rparr>) ?st2"
  have "convert_instruction_target i p st = Some ?st3"
    using t p run by (simp add: convert_instruction_target_def Let_def)
  moreover have "same_code st1 ?st3" by (simp add: same_code_def store_simps)
  moreover have "replaced t p st ?st3" using read by (simp add: replaced_def store_simps)
  ultimately show ?thesis using same_code_trans [OF code, of ?st3] by blast
qed

lemma replace_with_pseudo_spec:
  assumes "i_target (insns st i) = t" "t \<noteq> NULL" "t \<noteq> VOID" "p \<noteq> NULL" "p \<noteq> t" "tracked st t"
  shows "\<exists>st'. replace_with_pseudo i p st = Some (REPEAT_CSE, st') \<and> replaced t p st st'
    \<and> i_bb (insns st' i) = NULL \<and> (\<forall>q. ptype st' q = ptype st q \<and> pvalue st' q = pvalue st q)"
proof -
  from convert_target_spec [OF assms] obtain st1 where run: "convert_instruction_target i p st = Some st1"
    and code: "same_code st st1" and re: "replaced t p st st1" by blast
  have "replaced t p st (set_insn_bb i NULL st1)" using re by (simp add: replaced_def store_simps)
  with run code show ?thesis by (simp add: replace_with_pseudo_def store_simps same_code_def)
qed

section \<open>Killing instructions\<close>











lemma has_use_list_write [store_simps]: "has_use_list (write_place pl p st) q = has_use_list st q"
  by (simp add: has_use_list_def store_simps)

lemma has_use_list_users [store_simps]:
  "has_use_list (upd_pseudo p (\<lambda>x. x\<lparr>p_users := f x\<rparr>) st) q = has_use_list st q"
  by (simp add: has_use_list_def store_simps)






















end
