(* ===== verification/Simplify_Props.thy ===== *)
theory Simplify_Props
  imports Simplify Uses_Props Const_Fold_Props
begin

text \<open>
  The simplifier computes what the machine does: constants fold to the value the instruction has
  at its width, and the identities replace an instruction by a pseudo of the same value.
\<close>

section \<open>Folding constants\<close>

text \<open>
  The value of a binary instruction of \<open>n\<close> bits on integers: signed operators read the operands as
  signed, unsigned ones as unsigned, and a shift count must be less than \<open>n\<close>. The quotient that
  does not fit 64 bits traps.
\<close>

definition truth :: "bool \<Rightarrow> int" where
  "truth b = (if b then 1 else 0)"

definition op_value :: "lin_opcode \<Rightarrow> int \<Rightarrow> u64 \<Rightarrow> u64 \<Rightarrow> int option" where
  "op_value op n l r =
     (let a = ival True n l; b = ival True n r; ua = ival False n l; ub = ival False n r;
          traps = (n = 64 \<and> a = - (2 ^ nat (n - 1)) \<and> b = -1) in
      case op of
        OP_ADD \<Rightarrow> Some (a + b) | OP_SUB \<Rightarrow> Some (a - b)
      | OP_MULU \<Rightarrow> Some (ua * ub) | OP_MULS \<Rightarrow> Some (a * b)
      | OP_DIVU \<Rightarrow> if ub = 0 then None else Some (ua div ub)
      | OP_MODU \<Rightarrow> if ub = 0 then None else Some (ua mod ub)
      | OP_DIVS \<Rightarrow> if b = 0 \<or> traps then None else Some (a sdiv b)
      | OP_MODS \<Rightarrow> if b = 0 \<or> traps then None else Some (a smod b)
      | OP_SHL \<Rightarrow> if ub < n then Some (a * 2 ^ nat ub) else None
      | OP_LSR \<Rightarrow> if ub < n then Some (ua div 2 ^ nat ub) else None
      | OP_ASR \<Rightarrow> if ub < n then Some (a div 2 ^ nat ub) else None
      | OP_AND \<Rightarrow> Some (and a b) | OP_OR \<Rightarrow> Some (or a b) | OP_XOR \<Rightarrow> Some (xor a b)
      | OP_AND_BOOL \<Rightarrow> Some (truth (a \<noteq> 0 \<and> b \<noteq> 0)) | OP_OR_BOOL \<Rightarrow> Some (truth (a \<noteq> 0 \<or> b \<noteq> 0))
      | OP_SET_EQ \<Rightarrow> Some (truth (a = b)) | OP_SET_NE \<Rightarrow> Some (truth (a \<noteq> b))
      | OP_SET_LE \<Rightarrow> Some (truth (a \<le> b)) | OP_SET_GE \<Rightarrow> Some (truth (a \<ge> b))
      | OP_SET_LT \<Rightarrow> Some (truth (a < b)) | OP_SET_GT \<Rightarrow> Some (truth (a > b))
      | OP_SET_B \<Rightarrow> Some (truth (ua < ub)) | OP_SET_A \<Rightarrow> Some (truth (ua > ub))
      | OP_SET_BE \<Rightarrow> Some (truth (ua \<le> ub)) | OP_SET_AE \<Rightarrow> Some (truth (ua \<ge> ub))
      | _ \<Rightarrow> None)"

lemma sign_bits_extend: "sign_bits (size_mask n) v = extend (size_mask n) v"
proof -
  let ?k = "nat (n - 1)"
  have "or v (not (or (2 ^ ?k) (2 ^ ?k - 1))) = or v (not (2 ^ ?k - 1))" if "and v (2 ^ ?k) \<noteq> 0" for v :: u64
  proof (rule bit_word_eqI)
    fix i assume "i < LENGTH(64)"
    moreover have "bit v ?k" using that by (simp add: and_exp_eq_0_iff_not_bit)
    ultimately show "bit (or v (not (or (2 ^ ?k) (2 ^ ?k - 1)))) i = bit (or v (not (2 ^ ?k - 1))) i"
      by (auto simp: bit_simps mask_eq_exp_minus_1 [symmetric])
  qed
  then show ?thesis by (simp add: sign_bits_def extend_def size_mask_eq)
qed

lemma and_extend_all_mask:
  assumes "1 \<le> n" "n \<le> 64" "canonical n v"
  shows "and (extend (size_mask n) v) (all_mask n) = v"
proof -
  have "take_bit (nat n) (extend (size_mask n) v) = take_bit (nat n) v"
    using take_extend [OF assms] by (metis unsigned_take_bit_eq unsigned_word_eqI)
  then show ?thesis using assms by (simp add: and_all_mask canonical_def)
qed

lemma c_bool_value: "1 \<le> n \<Longrightarrow> and (c_bool b) (all_mask n) = of_ival n (truth b)"
proof -
  assume n: "1 \<le> n"
  then have k: "nat n = Suc (nat (n - 1))" by simp
  show ?thesis using n by (simp add: and_all_mask of_ival_def c_bool_def truth_def k)
qed

text \<open>A shift count below the width is not negative as a signed number.\<close>

lemma small_count:
  assumes n: "1 \<le> n" "n \<le> 64" and r: "canonical n r" and less: "ival False n r < n"
  shows "extend (size_mask n) r = r" "r < 64" "unat r = nat (ival False n r)"
proof -
  have u: "uint r = ival False n r" using extended_operands(3) [OF n r, of r False] by simp
  have "n \<le> 2 ^ nat (n - 1)"
  proof -
    have "nat (n - 1) < 2 ^ nat (n - 1)" by (rule less_exp)
    then have "int (nat (n - 1)) < int (2 ^ nat (n - 1))" by linarith
    then show ?thesis using n by simp
  qed
  then have "uint r < 2 ^ nat (n - 1)" using u less by linarith
  then have "take_bit (nat (n - 1)) (uint r) = uint r" by (simp add: take_bit_int_eq_self_iff)
  then have "\<not> bit (uint r) (nat (n - 1))" by (metis bit_take_bit_iff order_less_irrefl)
  then have "\<not> bit r (nat (n - 1))" using n by (simp add: bit_uint_iff)
  then show "extend (size_mask n) r = r" by (simp add: extend_def size_mask_eq and_exp_eq_0_iff_not_bit)
  have "uint r < 64" using u less n by linarith
  then show "r < 64" by (simp add: word_less_def)
  show "unat r = nat (ival False n r)" using u by (simp add: unat_eq_nat_uint)
qed

lemma fold_extended:
  assumes n: "1 \<le> n" "n \<le> 64" and l: "canonical n l" and r: "canonical n r"
    and sl: "sl = extend (size_mask n) l" and sr: "sr = extend (size_mask n) r"
  shows "and (sl + sr) (all_mask n) = of_ival n (ival True n l + ival True n r)"
    "and (sl - sr) (all_mask n) = of_ival n (ival True n l - ival True n r)"
    "and (push_bit c sl) (all_mask n) = of_ival n (push_bit c (ival True n l))"
    "and (and sl sr) (all_mask n) = of_ival n (and (ival True n l) (ival True n r))"
    "and (or sl sr) (all_mask n) = of_ival n (or (ival True n l) (ival True n r))"
    "and (xor sl sr) (all_mask n) = of_ival n (xor (ival True n l) (ival True n r))"
proof -
  have n64: "nat n \<le> 64" using n(2) by simp
  have e: "take_bit (nat n) (uint sl) = take_bit (nat n) (ival True n l)"
    "take_bit (nat n) (uint sr) = take_bit (nat n) (ival True n r)"
    using extended_operands(1) [OF n l, where s = True] extended_operands(1) [OF n r, where s = True] sl sr by simp_all
  note c = take_bit_congs [OF e] and red = and_all_mask_of_int [OF n]
  show "and (sl + sr) (all_mask n) = of_ival n (ival True n l + ival True n r)"
    by (rule red) (simp only: take_uint [OF n64] c)
  show "and (sl - sr) (all_mask n) = of_ival n (ival True n l - ival True n r)"
    by (rule red) (simp only: take_uint [OF n64] c)
  show "and (push_bit c sl) (all_mask n) = of_ival n (push_bit c (ival True n l))"
    by (rule red) (simp only: take_uint [OF n64] c)
  show "and (and sl sr) (all_mask n) = of_ival n (and (ival True n l) (ival True n r))"
    by (rule red) (simp only: unsigned_and_eq c)
  show "and (or sl sr) (all_mask n) = of_ival n (or (ival True n l) (ival True n r))"
    by (rule red) (simp only: unsigned_or_eq c)
  show "and (xor sl sr) (all_mask n) = of_ival n (xor (ival True n l) (ival True n r))"
    by (rule red) (simp only: unsigned_xor_eq c)
qed

lemma constant_binop_value:
  assumes n: "1 \<le> n" "n \<le> 64" and l: "canonical n l" and r: "canonical n r"
    and sl: "sl = extend (size_mask n) l" and sr: "sr = extend (size_mask n) r"
    and z: "op_value op n l r = Some z"
  shows "\<exists>v. constant_binop op sl sr l r = Fold v \<and> and v (all_mask n) = of_ival n z"
proof -
  have a: "sint sl = ival True n l" and b: "sint sr = ival True n r"
    using sl sr n l r by (simp_all add: sint_extend)
  have ua: "uint l = ival False n l" and ub: "uint r = ival False n r"
    using extended_operands(3) [OF n l, of l False] extended_operands(3) [OF n r, of r False] by simp_all
  have z0: "sl = 0 \<longleftrightarrow> ival True n l = 0" "sr = 0 \<longleftrightarrow> ival True n r = 0" "r = 0 \<longleftrightarrow> ival False n r = 0"
    using a b ub signed_word_eqI [of sl 0, where ?'a = int] signed_word_eqI [of sr 0, where ?'a = int]
    by (auto simp: uint_0_iff)
  have eq: "sl = sr \<longleftrightarrow> ival True n l = ival True n r"
    using a b signed_word_eqI [of sl sr, where ?'a = int] by auto
  have traps: "sl = size_mask 64 \<and> sr = -1 \<longleftrightarrow> n = 64 \<and> ival True n l = - (2 ^ nat (n - 1)) \<and> ival True n r = -1"
    using trap_iff [OF n l] sint_minus_1 [of sr] b sl by auto
  have cmp: "l < r \<longleftrightarrow> ival False n l < ival False n r" "l \<le> r \<longleftrightarrow> ival False n l \<le> ival False n r"
    "r < l \<longleftrightarrow> ival False n r < ival False n l" "r \<le> l \<longleftrightarrow> ival False n r \<le> ival False n l"
    by (simp_all add: word_less_def word_le_def ua ub)
  have p: "0 \<le> ival False n l" "0 \<le> ival False n r" by (simp_all add: ival_def)
  note ring = fold_extended [OF n l r sl sr] fold_ring(3) [OF n l r, where s = False, OF refl refl, simplified]
    fold_ring(3) [OF n l r, where s = True, OF refl refl, simplified, folded sl sr]
  note dv = fold_div(1,2) [OF n l r, where s = True, OF refl refl, simplified, folded sl sr, unfolded a b]
    fold_div(1,2) [OF n l r, where s = False, OF refl refl, simplified, unfolded sdiv_nonneg [OF p] smod_nonneg [OF p]]
  have sh: "and (signed_drop_bit c sl) (all_mask n) = of_ival n (ival True n l div 2 ^ c)"
    "and (drop_bit c l) (all_mask n) = of_ival n (ival False n l div 2 ^ c)" for c
    using fold_div(3) [OF n l r, where s = True and c = c, OF refl refl, simplified, folded sl sr]
      fold_div(3) [OF n l r, where s = False and c = c, OF refl refl, simplified]
    by (simp_all add: drop_bit_eq_div)
  have shl: "and (sl * 2 ^ c) (all_mask n) = of_ival n (ival True n l * 2 ^ c)" for c
    using ring(3) [of c] by (simp add: push_bit_eq_mult)
  have sc: "sr = r" "r < 64" "unat r = nat (ival False n r)" if "ival False n r < n"
    using small_count [OF n r that] sr by simp_all
  show ?thesis
    using z
    by (cases op)
       (auto simp: op_value_def constant_binop_def Let_def shift_ok_def ring dv sh shl sc z0 eq cmp traps a b
          c_bool_value [OF n(1)] push_bit_eq_mult split: if_splits)
qed

section \<open>Identities\<close>

text \<open>The value of a pseudo: that of the constant, or what the environment gives.\<close>

definition pv :: "lin \<Rightarrow> (addr \<Rightarrow> u64) \<Rightarrow> addr \<Rightarrow> u64" where
  "pv st env p = (if ptype st p = PSEUDO_VAL then pvalue st p else env p)"

definition low :: "int \<Rightarrow> u64 \<Rightarrow> u64" where
  "low n v = take_bit (nat n) v"

definition insn_value :: "lin \<Rightarrow> (addr \<Rightarrow> u64) \<Rightarrow> addr \<Rightarrow> int option" where
  "insn_value st env i =
     (let x = insns st i; n = int (i_size x)
      in op_value (opcode x) n (low n (pv st env (src1 x))) (low n (pv st env (src2 x))))"

lemma canonical_low: "canonical n (low n v)"
  by (simp add: canonical_def low_def)

lemma low_canonical: "canonical n v \<Longrightarrow> low n v = v"
  by (simp add: canonical_def low_def)

lemma low_0 [simp]: "low n 0 = 0"
  by (simp add: low_def)

lemma low_1: "1 \<le> n \<Longrightarrow> low n 1 = 1"
proof -
  assume "1 \<le> n"
  then have "nat n = Suc (nat (n - 1))" by simp
  then show ?thesis by (simp add: low_def)
qed

lemma of_ival_cong: "take_bit (nat n) z = take_bit (nat n) z' \<Longrightarrow> of_ival n z = of_ival n z'"
  by (simp add: of_ival_def)

lemma of_ival_ival:
  assumes "1 \<le> n" "n \<le> 64" "canonical n v"
  shows "of_ival n (ival s n v) = v"
proof -
  have "of_ival n (ival s n v) = of_ival n (uint v)"
    by (rule of_ival_cong) (simp add: take_ival [OF assms(1)])
  also have "\<dots> = word_of_int (uint (take_bit (nat n) v))" by (simp add: of_ival_def unsigned_take_bit_eq)
  also have "\<dots> = v" using assms(3) by (simp add: canonical_def)
  finally show ?thesis .
qed

lemma of_ival_0: "of_ival n 0 = 0"
  by (simp add: of_ival_def)

lemma ival_low: "1 \<le> n \<Longrightarrow> take_bit (nat n) (ival s n (low n v)) = take_bit (nat n) (uint v)"
  by (simp add: take_ival low_def unsigned_take_bit_eq)

lemma value_of_1: "1 \<le> n \<Longrightarrow> take_bit (nat n) (ival s n 1) = take_bit (nat n) 1"
  by (simp add: take_ival)

lemma ival_1_nonzero: "1 \<le> n \<Longrightarrow> ival s n 1 \<noteq> 0"
proof
  assume n: "1 \<le> n" and "ival s n 1 = 0"
  then have "take_bit (nat n) (1 :: int) = 0" using value_of_1 [OF n, of s] by simp
  moreover have "nat n = Suc (nat (n - 1))" using n by simp
  ultimately show False by simp
qed

lemma of_ival_mult_1: "1 \<le> n \<Longrightarrow> n \<le> 64 \<Longrightarrow> canonical n v \<Longrightarrow> of_ival n (ival s n v * ival s n 1) = v"
  using of_ival_cong [OF take_bit_congs(3) [OF refl value_of_1, of n "ival s n v" s]]
  by (simp add: of_ival_ival)

text \<open>A neutral or absorbing constant on the right, and on the left.\<close>

lemma right_neutral:
  assumes n: "1 \<le> n" "n \<le> 64" and l: "canonical n l"
  shows "op \<in> {OP_SUB, OP_ADD, OP_OR, OP_XOR, OP_SHL, OP_LSR} \<Longrightarrow> op_value op n l 0 = Some z \<Longrightarrow> of_ival n z = l"
    and "op = OP_OR_BOOL \<Longrightarrow> l \<in> {0, 1} \<Longrightarrow> op_value op n l 0 = Some z \<Longrightarrow> of_ival n z = l"
    and "op \<in> {OP_MULU, OP_MULS} \<Longrightarrow> op_value op n l 1 = Some z \<Longrightarrow> of_ival n z = l"
    and "op = OP_AND_BOOL \<Longrightarrow> l \<in> {0, 1} \<Longrightarrow> op_value op n l 1 = Some z \<Longrightarrow> of_ival n z = l"
    and "op \<in> {OP_MULU, OP_MULS, OP_AND_BOOL, OP_AND} \<Longrightarrow> op_value op n l 0 = Some z \<Longrightarrow> of_ival n z = 0"
    and "op = OP_ASR \<Longrightarrow> op_value op n l 0 = Some z \<Longrightarrow> of_ival n z = l"
proof -
  have t: "of_ival n (truth b) = (if b then 1 else 0)" for b
    using of_ival_ival [OF n canonical_low [of n 1]] of_ival_cong [OF value_of_1 [OF n(1)]] low_1 [OF n(1)]
    by (simp add: truth_def of_ival_0)
  note f = op_value_def Let_def ival_0 of_ival_ival [OF n l] of_ival_0
  show "op \<in> {OP_SUB, OP_ADD, OP_OR, OP_XOR, OP_SHL, OP_LSR} \<Longrightarrow> op_value op n l 0 = Some z \<Longrightarrow> of_ival n z = l"
    by (auto simp: f split: if_splits)
  show "op = OP_ASR \<Longrightarrow> op_value op n l 0 = Some z \<Longrightarrow> of_ival n z = l" by (auto simp: f split: if_splits)
  show "op = OP_OR_BOOL \<Longrightarrow> l \<in> {0, 1} \<Longrightarrow> op_value op n l 0 = Some z \<Longrightarrow> of_ival n z = l"
    using ival_1_nonzero [OF n(1)] by (auto simp: f t)
  show "op \<in> {OP_MULU, OP_MULS} \<Longrightarrow> op_value op n l 1 = Some z \<Longrightarrow> of_ival n z = l"
    using of_ival_mult_1 [OF n l] by (auto simp: f)
  show "op = OP_AND_BOOL \<Longrightarrow> l \<in> {0, 1} \<Longrightarrow> op_value op n l 1 = Some z \<Longrightarrow> of_ival n z = l"
    using ival_1_nonzero [OF n(1)] by (auto simp: f t)
  show "op \<in> {OP_MULU, OP_MULS, OP_AND_BOOL, OP_AND} \<Longrightarrow> op_value op n l 0 = Some z \<Longrightarrow> of_ival n z = 0"
    by (auto simp: f t)
qed

lemma left_neutral:
  assumes n: "1 \<le> n" "n \<le> 64" and r: "canonical n r"
  shows "op \<in> {OP_ADD, OP_OR, OP_XOR} \<Longrightarrow> op_value op n 0 r = Some z \<Longrightarrow> of_ival n z = r"
    and "op \<in> {OP_SHL, OP_LSR, OP_ASR, OP_AND, OP_MULU, OP_MULS} \<Longrightarrow> op_value op n 0 r = Some z \<Longrightarrow> of_ival n z = 0"
proof -
  note f = op_value_def Let_def ival_0 of_ival_ival [OF n r] of_ival_0
  show "op \<in> {OP_ADD, OP_OR, OP_XOR} \<Longrightarrow> op_value op n 0 r = Some z \<Longrightarrow> of_ival n z = r"
    by (auto simp: f)
  show "op \<in> {OP_SHL, OP_LSR, OP_ASR, OP_AND, OP_MULU, OP_MULS} \<Longrightarrow> op_value op n 0 r = Some z \<Longrightarrow> of_ival n z = 0"
    by (auto simp: f split: if_splits)
qed

lemma sub_constant:
  assumes n: "1 \<le> n" "n \<le> 64" and z: "op_value OP_SUB n l (low n v) = Some z"
  shows "\<exists>z'. op_value OP_ADD n l (low n (- v)) = Some z' \<and> of_ival n z' = of_ival n z"
proof -
  have n64: "nat n \<le> 64" using n by simp
  have "take_bit (nat n) (ival True n (low n (- v))) = take_bit (nat n) (uint (0 - v))"
    by (simp add: ival_low [OF n(1)])
  also have "\<dots> = take_bit (nat n) (0 - uint v)" by (simp only: take_uint(2) [OF n64]) simp
  also have "\<dots> = take_bit (nat n) (0 - ival True n (low n v))"
    by (rule take_bit_congs(2) [OF refl]) (simp add: ival_low [OF n(1)])
  finally have "take_bit (nat n) (ival True n l + ival True n (low n (- v)))
      = take_bit (nat n) (ival True n l + (0 - ival True n (low n v)))"
    by (rule take_bit_congs(1) [OF refl])
  then show ?thesis using z by (auto simp: op_value_def Let_def intro!: of_ival_cong)
qed

text \<open>A pseudo made by a cast from an unsigned type has no bits beyond that type.\<close>

definition zero_extended :: "lin \<Rightarrow> (addr \<Rightarrow> u64) \<Rightarrow> addr \<Rightarrow> bool" where
  "zero_extended st env p \<longleftrightarrow>
     (\<forall>t. ptype st p = PSEUDO_REG \<and> opcode (insns st (p_def (pseudos st p))) = OP_CAST
        \<and> orig_type (insns st (p_def (pseudos st p))) = Some t
        \<longrightarrow> 0 \<le> bit_size (ltypes st t) \<and> bit_size (ltypes st t) < 2 ^ 31
          \<and> uint (env p) < 2 ^ nat (bit_size (ltypes st t)))"

lemma uint_low_less: "uint (low n v) < 2 ^ nat n"
  by (simp add: low_def unsigned_take_bit_eq)

lemma uint_low_le: "uint (low n v) \<le> uint v"
  by (simp add: low_def unsigned_take_bit_eq take_bit_int_less_eq_self_iff)

lemma operand_size_bound:
  assumes n: "n = int (i_size (insns st i))" and p: "ptype st p \<noteq> PSEUDO_VAL" and ze: "zero_extended st env p"
    and l: "l = low n (pv st env p)"
  shows "uint l < 2 ^ operand_size i p st" "operand_size i p st \<le> i_size (insns st i)"
proof -
  show "operand_size i p st \<le> i_size (insns st i)"
    using p by (simp add: operand_size_def Let_def split: option.splits)
  have top: "uint l < 2 ^ i_size (insns st i)" using uint_low_less [of n] l n by simp
  let ?x = "insns st (p_def (pseudos st p))"
  show "uint l < 2 ^ operand_size i p st"
  proof (cases "ptype st p = PSEUDO_REG \<and> p_def (pseudos st p) \<noteq> NULL \<and> opcode ?x = OP_CAST \<and> orig_type ?x \<noteq> None")
    case True
    then obtain t where t: "orig_type ?x = Some t" by auto
    let ?b = "bit_size (ltypes st t)"
    have os: "operand_size i p st = min (i_size (insns st i)) (unat (word_of_int ?b :: u32))"
      using True p t by (simp add: operand_size_def Let_def)
    have b: "0 \<le> ?b" "?b < 2 ^ 31" and e: "uint (env p) < 2 ^ nat ?b"
      using ze True t unfolding zero_extended_def by blast+
    have "take_bit 32 ?b = ?b" using b by (simp add: take_bit_int_eq_self_iff)
    then have "unat (word_of_int ?b :: u32) = nat ?b" by (simp add: unat_eq_nat_uint unsigned_of_int)
    moreover have "uint l < 2 ^ nat ?b"
      using e uint_low_le [of n "env p"] p l by (simp add: pv_def)
    ultimately show ?thesis using top os by (simp add: min_def)
  next
    case False
    then have "operand_size i p st = i_size (insns st i)"
      using p by (auto simp: operand_size_def Let_def split: option.splits)
    with top show ?thesis by simp
  qed
qed

lemma asr_too_big:
  assumes n: "1 \<le> n" "n \<le> 64" and v: "canonical n v" and z: "op_value OP_ASR n l v = Some z"
    and l: "uint l < 2 ^ os" "canonical n l" and big: "sint v \<ge> int os"
  shows "of_ival n z = 0"
proof -
  have u: "uint v = ival False n v" using extended_operands(3) [OF n v, of v False] by simp
  have less: "ival False n v < n" and z': "z = ival True n l div 2 ^ nat (ival False n v)"
    using z by (auto simp: op_value_def Let_def split: if_splits)
  have "uint v < 64" using less u n by simp
  then have "uint v < 2 ^ 63" by (rule order_less_trans) simp
  moreover have "- (2 ^ 63) \<le> uint v" by (rule order_trans [OF _ uint_ge_0]) simp
  ultimately have "signed_take_bit 63 (uint v) = uint v" by (intro signed_take_bit_int_eq_self)
  then have "sint v = uint v" by (simp add: sint_uint)
  then have os: "os \<le> nat (uint v)" using big by linarith
  then have "os \<le> nat (n - 1)" using less u by simp
  then have "(2 :: int) ^ os \<le> 2 ^ nat (n - 1)" by (rule power_increasing) simp
  then have "uint l < 2 ^ nat (n - 1)" using l(1) by linarith
  then have "ival True n l = uint l"
    by (simp add: ival_def) (rule signed_take_bit_int_eq_self, simp_all, use uint_ge_0 [of l] in linarith)
  moreover have "uint l < 2 ^ nat (uint v)"
    using l(1) power_increasing [OF os, of "2 :: int"] by linarith
  ultimately have "z = 0" using z' u by simp
  then show ?thesis by (simp add: of_ival_0)
qed

section \<open>The routine for binary instructions\<close>

text \<open>What a simplification of instruction \<open>i\<close> with result \<open>t\<close> may do to the value \<open>w\<close> of \<open>t\<close>.\<close>

definition keeps_value :: "lin \<Rightarrow> (addr \<Rightarrow> u64) \<Rightarrow> addr \<Rightarrow> int \<Rightarrow> lin \<Rightarrow> bool" where
  "keeps_value st env i z st' \<longleftrightarrow>
     (let x = insns st i; n = int (i_size x); t = i_target x in
      (\<exists>p. replaced t p st st' \<and> i_bb (insns st' i) = NULL \<and> low n (pv st' env p) = of_ival n z)
      \<or> (\<exists>z'. insn_value st' env i = Some z' \<and> of_ival n z' = of_ival n z \<and> i_bb (insns st' i) = i_bb x
           \<and> i_target (insns st' i) = t \<and> (\<forall>pl. pl \<noteq> Src2 i \<longrightarrow> read_place pl st' = read_place pl st)))"

lemma keeps_value_same: "insn_value st env i = Some z \<Longrightarrow> keeps_value st env i z st"
  by (auto simp: keeps_value_def Let_def)

text \<open>An instruction whose result is a register that is used.\<close>

definition simplifiable :: "lin \<Rightarrow> addr \<Rightarrow> bool" where
  "simplifiable st i \<longleftrightarrow>
     (let x = insns st i; t = i_target x in
      vals_ok st \<and> tracked st t \<and> 2 \<le> t \<and> t < n_pseudos st \<and> ptype st t \<noteq> PSEUDO_VAL
      \<and> src1 x \<notin> {NULL, t} \<and> src2 x \<notin> {NULL, t} \<and> 1 \<le> i_size x \<and> i_size x \<le> 64
      \<and> (\<exists>u \<in> set (users st t). read_place (userp u) st \<noteq> VOID))"

lemma replaced_by_pseudo:
  assumes s: "simplifiable st i" and p: "p \<notin> {NULL, i_target (insns st i)}"
    and v: "low (int (i_size (insns st i))) (pv st env p) = of_ival (int (i_size (insns st i))) z"
  shows "\<exists>st'. replace_with_pseudo i p st = Some (REPEAT_CSE, st') \<and> keeps_value st env i z st'"
proof -
  let ?t = "i_target (insns st i)"
  have t: "?t \<noteq> NULL" "?t \<noteq> VOID" "tracked st ?t" using s by (auto simp: simplifiable_def Let_def)
  have p': "p \<noteq> NULL" "p \<noteq> ?t" using p by auto
  from replace_with_pseudo_spec [OF refl t(1,2) p' t(3)] obtain st' where
    "replace_with_pseudo i p st = Some (REPEAT_CSE, st')" "replaced ?t p st st'" "i_bb (insns st' i) = NULL"
    and same: "\<forall>q. ptype st' q = ptype st q \<and> pvalue st' q = pvalue st q" by blast
  moreover have "pv st' env p = pv st env p" using same by (simp add: pv_def)
  ultimately show ?thesis using v by (auto simp: keeps_value_def Let_def)
qed

lemma replaced_by_value:
  assumes s: "simplifiable st i" and v: "low (int (i_size (insns st i))) v = of_ival (int (i_size (insns st i))) z"
  shows "\<exists>st'. replace_with_value i v st = Some (REPEAT_CSE, st') \<and> keeps_value st env i z st'"
proof -
  obtain p st1 where run: "value_pseudo v st = (p, st1)" by force
  let ?x = "insns st i"
  let ?t = "i_target ?x"
  have ok: "vals_ok st" and t: "?t < n_pseudos st" "ptype st ?t \<noteq> PSEUDO_VAL"
    using s by (auto simp: simplifiable_def Let_def)
  note f = value_pseudo_spec [OF ok run]
  have same: "insns st1 = insns st" "pseudos st1 ?t = pseudos st ?t" "read_place pl st1 = read_place pl st" for pl
    using f(8) f(11) [OF t(1)] read_place_cong [OF f(8,9)] by simp_all
  have p: "p \<notin> {NULL, i_target (insns st1 i)}" using f(2,4) t(2) same by auto
  have s1: "simplifiable st1 i"
    using s f(1,7) same(1,2) t(1) unfolding simplifiable_def Let_def tracked_def same(3) by simp
  have "low (int (i_size (insns st1 i))) (pv st1 env p) = of_ival (int (i_size (insns st1 i))) z"
    using v f(2,3) same by (simp add: pv_def)
  from replaced_by_pseudo [OF s1 p this] obtain st' where
    r: "replace_with_pseudo i p st1 = Some (REPEAT_CSE, st')" and k: "keeps_value st1 env i z st'" by blast
  have "keeps_value st env i z st'"
    using k by (simp only: keeps_value_def replaced_def Let_def same)
  with r run show ?thesis by (simp add: replace_with_value_def)
qed

lemma simplifiable_lmsg: "simplifiable (lmsg m st) i = simplifiable st i"
  by (simp add: simplifiable_def Let_def tracked_def vals_ok_def store_simps)

lemma keeps_value_lmsg: "keeps_value (lmsg m st) env i z st' = keeps_value st env i z st'"
  by (simp add: keeps_value_def replaced_def Let_def store_simps)

lemma dead_insn_live:
  "simplifiable st i \<Longrightarrow> dead_insn i pls st = Some (0, st)"
  by (auto simp: simplifiable_def dead_insn_def Let_def)

text \<open>The hypotheses on the operands: constants fit, boolean operands are 0 or 1, casts extend.\<close>

definition operands_ok :: "lin \<Rightarrow> (addr \<Rightarrow> u64) \<Rightarrow> addr \<Rightarrow> bool" where
  "operands_ok st env i \<longleftrightarrow>
     (let x = insns st i; n = int (i_size x) in
      (\<forall>p \<in> {src1 x, src2 x}. ptype st p = PSEUDO_VAL \<longrightarrow> canonical n (pvalue st p))
      \<and> (opcode x \<in> {OP_AND_BOOL, OP_OR_BOOL} \<longrightarrow> pv st env (src1 x) \<in> {0, 1})
      \<and> zero_extended st env (src1 x))"

lemma constant_binop_keeps:
  assumes s: "simplifiable st i" and o: "operands_ok st env i" and z: "insn_value st env i = Some z"
    and c: "ptype st (src1 (insns st i)) = PSEUDO_VAL" "ptype st (src2 (insns st i)) = PSEUDO_VAL"
  shows "\<exists>r st'. simplify_constant_binop i st = Some (r, st') \<and> keeps_value st env i z st'"
proof -
  let ?x = "insns st i"
  let ?n = "int (i_size ?x)" and ?l = "pvalue st (src1 ?x)" and ?r = "pvalue st (src2 ?x)"
  have n: "1 \<le> ?n" "?n \<le> 64" using s by (auto simp: simplifiable_def Let_def)
  have l: "canonical ?n ?l" and r: "canonical ?n ?r" using o c by (auto simp: operands_ok_def Let_def)
  have "op_value (opcode ?x) ?n ?l ?r = Some z"
    using z c l r by (simp add: insn_value_def Let_def pv_def low_canonical)
  from constant_binop_value [OF n l r refl refl this] obtain v where
    v: "constant_binop (opcode ?x) (extend (size_mask ?n) ?l) (extend (size_mask ?n) ?r) ?l ?r = Fold v"
      "and v (all_mask ?n) = of_ival ?n z" by blast
  have "simplify_constant_binop i st = replace_with_value i (of_ival ?n z) st"
    using n v and_extend_all_mask [OF n l] and_extend_all_mask [OF n r]
    by (simp add: simplify_constant_binop_def Let_def sign_bits_extend all_mask_def)
  moreover have "low ?n (of_ival ?n z) = of_ival ?n z"
    using canonical_of_ival [OF n] by (rule low_canonical)
  note replaced_by_value [OF s this, where env = env]
  ultimately show ?thesis by auto
qed

lemma leftside_keeps:
  assumes s: "simplifiable st i" and z: "insn_value st env i = Some z"
    and c: "ptype st (src1 (insns st i)) = PSEUDO_VAL"
  shows "\<exists>r st'. simplify_constant_leftside i st = Some (r, st') \<and> keeps_value st env i z st'"
proof -
  let ?x = "insns st i"
  let ?n = "int (i_size ?x)" and ?op = "opcode ?x"
  have n: "1 \<le> ?n" "?n \<le> 64" and p: "src1 ?x \<notin> {NULL, i_target ?x}" "src2 ?x \<notin> {NULL, i_target ?x}"
    using s by (auto simp: simplifiable_def Let_def)
  consider (right) "?op \<in> {OP_ADD, OP_OR, OP_XOR}" "pvalue st (src1 ?x) = 0"
    | (zero) "?op \<in> {OP_SHL, OP_LSR, OP_ASR, OP_AND, OP_MULU, OP_MULS}" "pvalue st (src1 ?x) = 0"
    | (none) "\<not> (?op \<in> {OP_ADD, OP_OR, OP_XOR} \<and> pvalue st (src1 ?x) = 0)"
        "\<not> (?op \<in> {OP_SHL, OP_LSR, OP_ASR, OP_AND, OP_MULU, OP_MULS} \<and> pvalue st (src1 ?x) = 0)"
    by blast
  then show ?thesis
  proof cases
    case right
    have "op_value ?op ?n 0 (low ?n (pv st env (src2 ?x))) = Some z"
      using z c right(2) by (simp add: insn_value_def Let_def pv_def)
    with left_neutral(1) [OF n canonical_low right(1)]
    have "low ?n (pv st env (src2 ?x)) = of_ival ?n z" by metis
    from replaced_by_pseudo [OF s p(2) this] right show ?thesis
      by (auto simp: simplify_constant_leftside_def Let_def)
  next
    case zero
    have "op_value ?op ?n 0 (low ?n (pv st env (src2 ?x))) = Some z"
      using z c zero(2) by (simp add: insn_value_def Let_def pv_def)
    with left_neutral(2) [OF n canonical_low zero(1)]
    have "low ?n (pv st env (src1 ?x)) = of_ival ?n z" using c zero(2) by (simp add: pv_def)
    from replaced_by_pseudo [OF s p(1) this] zero show ?thesis
      by (auto simp: simplify_constant_leftside_def Let_def)
  next
    case none
    then have "simplify_constant_leftside i st = unchanged st"
      by (auto simp: simplify_constant_leftside_def Let_def)
    then show ?thesis using keeps_value_same [OF z] by simp
  qed
qed

lemma src_update:
  "insn_value st' env i = op_value op n (low n (pv st' env p)) (low n (pv st' env q))"
  if "insns st' i = x" "opcode x = op" "int (i_size x) = n" "src1 x = p" "src2 x = q"
  using that by (simp add: insn_value_def Let_def)

text \<open>A subtraction of a constant becomes an addition.\<close>

lemma sub_keeps:
  assumes s: "simplifiable st i" and z: "insn_value st env i = Some z"
    and c: "ptype st (src2 (insns st i)) = PSEUDO_VAL" "ptype st (src1 (insns st i)) \<noteq> PSEUDO_VAL"
    and op: "opcode (insns st i) = OP_SUB" and new: "src1 (insns st i) < n_pseudos st"
    and run: "value_pseudo (- pvalue st (src2 (insns st i))) (set_opcode i OP_ADD st) = (p, st1)"
  shows "keeps_value st env i z (set_src2 i p st1)"
proof -
  let ?x = "insns st i" and ?st0 = "set_opcode i OP_ADD st" and ?st' = "set_src2 i p st1"
  let ?n = "int (i_size ?x)" and ?v = "pvalue st (src2 (insns st i))"
  have n: "1 \<le> ?n" "?n \<le> 64" using s by (auto simp: simplifiable_def Let_def)
  have "vals_ok st" using s by (auto simp: simplifiable_def Let_def)
  then have ok: "vals_ok ?st0" by (simp add: vals_ok_def set_opcode_def upd_insn_def)
  note f = value_pseudo_spec [OF ok run]
  have ps: "pseudos ?st' = pseudos st1" "pseudos ?st0 = pseudos st" "n_pseudos ?st0 = n_pseudos st"
    by (simp_all add: set_src2_def set_opcode_def upd_insn_def)
  have x': "insns ?st' i = ?x\<lparr>opcode := OP_ADD, src2 := p\<rparr>"
    using f(8) by (simp add: set_src2_def set_opcode_def upd_insn_def)
  have l: "pv ?st' env (src1 ?x) = pv st env (src1 ?x)"
    using f(11) [of "src1 ?x"] new ps by (simp add: pv_def)
  have r: "pv ?st' env p = - ?v" using f(2,3) ps by (simp add: pv_def)
  have "op_value OP_SUB ?n (low ?n (pv st env (src1 ?x))) (low ?n ?v) = Some z"
    using z c op by (simp add: insn_value_def Let_def pv_def)
  from sub_constant [OF n this] obtain z' where
    z': "op_value OP_ADD ?n (low ?n (pv st env (src1 ?x))) (low ?n (- ?v)) = Some z'" "of_ival ?n z' = of_ival ?n z"
    by blast
  have "insn_value ?st' env i = Some z'"
    using z' l r by (simp add: src_update [OF x'] insn_value_def Let_def x')
  moreover have "read_place pl ?st' = read_place pl st" if "pl \<noteq> Src2 i" for pl
    using that f(8,9) by (cases pl) (auto simp: set_src2_def set_opcode_def upd_insn_def)
  ultimately show ?thesis using z'(2) by (auto simp: keeps_value_def Let_def x')
qed

lemma rightside_keeps:
  assumes s: "simplifiable st i" and o: "operands_ok st env i" and z: "insn_value st env i = Some z"
    and c: "ptype st (src2 (insns st i)) = PSEUDO_VAL" "ptype st (src1 (insns st i)) \<noteq> PSEUDO_VAL"
    and new: "src1 (insns st i) < n_pseudos st"
  shows "\<exists>r st'. simplify_constant_rightside i st = Some (r, st') \<and> keeps_value st env i z st'"
proof -
  let ?x = "insns st i"
  let ?n = "int (i_size ?x)" and ?op = "opcode ?x" and ?v = "pvalue st (src2 ?x)" and ?p = "src1 ?x"
  define l where "l = low ?n (pv st env ?p)"
  have n: "1 \<le> ?n" "?n \<le> 64" and p: "?p \<notin> {NULL, i_target ?x}" "src2 ?x \<notin> {NULL, i_target ?x}"
    using s by (auto simp: simplifiable_def Let_def)
  have v: "canonical ?n ?v" and b: "?op \<in> {OP_AND_BOOL, OP_OR_BOOL} \<Longrightarrow> pv st env ?p \<in> {0, 1}"
    and ze: "zero_extended st env ?p"
    using o c by (auto simp: operands_ok_def Let_def)
  have zv: "op_value ?op ?n l ?v = Some z"
    using z c v by (simp add: insn_value_def Let_def pv_def low_canonical l_def)
  have l: "canonical ?n l" by (simp add: l_def canonical_low)
  have b': "l \<in> {0, 1}" if "?op \<in> {OP_AND_BOOL, OP_OR_BOOL}"
    using b [OF that] low_1 [OF n(1)] by (auto simp: l_def)
  note rn = right_neutral [OF n l]
  note left = replaced_by_pseudo [OF s p(1), where env = env and z = z, folded l_def]
  note f = simplify_constant_rightside_def Let_def
  consider (sub) "?op = OP_SUB" "?v \<noteq> 0"
    | (neutral) "?op \<in> {OP_SUB, OP_ADD, OP_OR, OP_XOR, OP_SHL, OP_LSR}" "?v = 0"
    | (or_bool) "?op = OP_OR_BOOL" "?v = 0"
    | (asr) "?op = OP_ASR"
    | (mul) "?op \<in> {OP_MULU, OP_MULS}" "?v = 1"
    | (and_bool) "?op = OP_AND_BOOL" "?v = 1"
    | (zero) "?op \<in> {OP_MULU, OP_MULS, OP_AND_BOOL, OP_AND}" "?v = 0"
    | (none) "\<not> (?op = OP_SUB \<and> ?v \<noteq> 0)" "?op \<in> {OP_SUB, OP_ADD, OP_OR, OP_XOR, OP_OR_BOOL, OP_SHL, OP_LSR} \<longrightarrow> ?v \<noteq> 0"
        "?op \<noteq> OP_ASR" "?op \<in> {OP_MULU, OP_MULS, OP_AND_BOOL} \<longrightarrow> ?v \<noteq> 1"
        "?op \<in> {OP_MULU, OP_MULS, OP_AND_BOOL, OP_AND} \<longrightarrow> ?v \<noteq> 0"
    by blast
  then show ?thesis
  proof cases
    case sub
    obtain q st1 where run: "value_pseudo (- ?v) (set_opcode i OP_ADD st) = (q, st1)" by force
    have "simplify_constant_rightside i st = Some (REPEAT_CSE, set_src2 i q st1)"
      using sub run by (simp add: f)
    with sub_keeps [OF s z c sub(1) new run] show ?thesis by simp
  next
    case neutral
    have "simplify_constant_rightside i st = replace_with_pseudo i ?p st" using neutral by (auto simp: f)
    with left rn(1) [OF neutral(1)] zv neutral(2) show ?thesis by auto
  next
    case or_bool
    have "simplify_constant_rightside i st = replace_with_pseudo i ?p st" using or_bool by (auto simp: f)
    with left rn(2) [OF or_bool(1) b'] zv or_bool show ?thesis by auto
  next
    case asr
    have run: "simplify_constant_rightside i st = simplify_asr i ?p ?v st" using asr by (simp add: f)
    show ?thesis
    proof (cases "sint ?v \<ge> int (operand_size i ?p st)")
      case True
      have "of_ival ?n z = 0"
        using asr_too_big [OF n v _ _ l True] operand_size_bound(1) [OF refl c(2) ze l_def] zv asr by simp
      then have "low ?n 0 = of_ival ?n z" by simp
      from replaced_by_value [of "lmsg Shift_by_bigger st" i 0 z env] this s
      show ?thesis using True run
        by (auto simp: simplify_asr_def simplifiable_lmsg keeps_value_lmsg store_simps)
    next
      case False
      show ?thesis
      proof (cases "?v = 0")
        case True
        have "simplify_constant_rightside i st = replace_with_pseudo i ?p st"
          using True False run by (simp add: simplify_asr_def)
        with left rn(6) [OF asr] zv True show ?thesis by auto
      next
        case F: False
        have "simplify_constant_rightside i st = unchanged st" using F False run by (simp add: simplify_asr_def)
        then show ?thesis using keeps_value_same [OF z] by simp
      qed
    qed
  next
    case mul
    have "simplify_constant_rightside i st = replace_with_pseudo i ?p st" using mul by (auto simp: f)
    with left rn(3) [OF mul(1)] zv mul(2) show ?thesis by auto
  next
    case and_bool
    have "simplify_constant_rightside i st = replace_with_pseudo i ?p st" using and_bool by (auto simp: f)
    with left rn(4) [OF and_bool(1) b'] zv and_bool show ?thesis by auto
  next
    case zero
    have "simplify_constant_rightside i st = replace_with_pseudo i (src2 ?x) st" using zero by (auto simp: f)
    moreover have "low ?n (pv st env (src2 ?x)) = of_ival ?n z"
      using rn(5) [OF zero(1)] zv zero(2) c by (simp add: pv_def)
    note replaced_by_pseudo [OF s p(2) this]
    ultimately show ?thesis by auto
  next
    case none
    then have "simplify_constant_rightside i st = unchanged st" by (auto simp: f)
    then show ?thesis using keeps_value_same [OF z] by simp
  qed
qed

text \<open>
  C28. Simplifying a binary instruction whose result is used keeps the value of the result: with
  two constants the instruction folds to the value it has at its width, with a neutral or absorbing
  constant it is replaced by an operand, and a subtraction of a constant becomes an addition. Every
  place that held the result then holds a pseudo of the same value, or the instruction stays and
  computes the same. The operands of a logical and/or must be 0 or 1: the code replaces
  \<open>x || 0\<close> and \<open>x && 1\<close> by \<open>x\<close>.
\<close>

theorem simplify_binop_correct:
  assumes "simplifiable st i" "operands_ok st env i" "insn_value st env i = Some z"
    and "src1 (insns st i) < n_pseudos st"
  shows "\<exists>r st'. simplify_binop i st = Some (r, st') \<and> keeps_value st env i z st'"
proof -
  let ?c1 = "sparse_constant (src1 (insns st i)) st" and ?c2 = "sparse_constant (src2 (insns st i)) st"
  have run: "simplify_binop i st =
      (if ?c1 then (if ?c2 then simplify_constant_binop i st else simplify_constant_leftside i st)
       else if ?c2 then simplify_constant_rightside i st else unchanged st)"
    by (simp add: simplify_binop_def dead_insn_live [OF assms(1)])
  show ?thesis
    unfolding run
    using constant_binop_keeps [OF assms(1-3)] leftside_keeps [OF assms(1,3)] rightside_keeps [OF assms(1-3) _ _ assms(4)]
      keeps_value_same [OF assms(3)]
    by (simp add: sparse_constant_def)
qed

text \<open>\<open>x - 3\<close> in 32 bits, with one user.\<close>

definition example_binop :: "lin_opcode \<Rightarrow> u64 \<Rightarrow> lin" where
  "example_binop op v =
     (let reg = blank_pseudo\<lparr>p_type := PSEUDO_REG\<rparr> in
      (init_lin (\<lambda>_. basetype 32 MOD_SIGNED Int_type))
        \<lparr>pseudos := (\<lambda>_. blank_pseudo)(2 := reg, 3 := reg\<lparr>p_users := [\<lparr>u_insn = 2, userp = Src1 2\<rparr>]\<rparr>,
             4 := blank_pseudo\<lparr>p_type := PSEUDO_VAL, p_value := v\<rparr>),
         n_pseudos := 5, n_insns := 3,
         insns := (\<lambda>_. blank_insn)(1 := blank_insn\<lparr>opcode := op, i_size := 32, i_bb := 1, i_target := 3, src1 := 2, src2 := 4\<rparr>,
             2 := blank_insn\<lparr>opcode := OP_NEG, i_size := 32, i_bb := 1, src1 := 3\<rparr>),
         val_hash := (\<lambda>_. [])(val_bucket v := [4])\<rparr>)"

theorem simplify_binop_correct_witness:
  "\<exists>r st'. simplify_binop 1 (example_binop OP_SUB 3) = Some (r, st')
     \<and> keeps_value (example_binop OP_SUB 3) (\<lambda>_. 10) 1 7 st'"
proof -
  have c: "canonical 32 3" by (simp add: canonical_def take_bit_eq_mask mask_eq_exp_minus_1)
  have "simplifiable (example_binop OP_SUB 3) 1"
    by (auto simp: simplifiable_def example_binop_def tracked_def vals_ok_def Let_def blank_pseudo_def blank_insn_def)
  moreover have "operands_ok (example_binop OP_SUB 3) (\<lambda>_. 10) 1"
    using c by (simp add: operands_ok_def example_binop_def zero_extended_def Let_def blank_pseudo_def blank_insn_def)
  moreover have "insn_value (example_binop OP_SUB 3) (\<lambda>_. 10) 1 = Some 7"
    by (simp add: insn_value_def example_binop_def op_value_def pv_def low_def ival_def Let_def blank_pseudo_def
        blank_insn_def)
  moreover have "src1 (insns (example_binop OP_SUB 3) 1) < n_pseudos (example_binop OP_SUB 3)"
    by (simp add: example_binop_def Let_def)
  ultimately show ?thesis by (rule simplify_binop_correct)
qed

text \<open>Two mistakes. Whatever \<open>x\<close> is, \<open>x || 0\<close> becomes \<open>x\<close>.\<close>

lemma or_bool_takes_operand:
  assumes s: "simplifiable st i" and op: "opcode (insns st i) = OP_OR_BOOL"
    and c: "ptype st (src2 (insns st i)) = PSEUDO_VAL" "pvalue st (src2 (insns st i)) = 0"
    and v: "ptype st (src1 (insns st i)) \<noteq> PSEUDO_VAL"
  shows "\<exists>st'. simplify_binop i st = Some (REPEAT_CSE, st')
    \<and> replaced (i_target (insns st i)) (src1 (insns st i)) st st'"
proof -
  let ?x = "insns st i"
  have t: "i_target ?x \<noteq> NULL" "i_target ?x \<noteq> VOID" "src1 ?x \<noteq> NULL" "src1 ?x \<noteq> i_target ?x"
    "tracked st (i_target ?x)"
    using s by (auto simp: simplifiable_def Let_def)
  have "simplify_binop i st = replace_with_pseudo i (src1 ?x) st"
    using op c v by (simp add: simplify_binop_def dead_insn_live [OF s] sparse_constant_def
        simplify_constant_rightside_def)
  with replace_with_pseudo_spec [OF refl t] show ?thesis by auto
qed

text \<open>A comparison folds at the width of its result: \<open>0x80000000LL < 0\<close> is true.\<close>

lemma comparison_folds_at_32_bits:
  assumes "opcode (insns st i) = OP_SET_LT" "i_size (insns st i) = 32"
    and "pvalue st (src1 (insns st i)) = 0x80000000" "pvalue st (src2 (insns st i)) = 0"
  shows "simplify_constant_binop i st = replace_with_value i 1 st"
  using assms
  by (simp add: simplify_constant_binop_def Let_def sign_bits_def size_mask_def constant_binop_def c_bool_def)

section \<open>Casts\<close>

lemma int_bit_31: "1 \<le> n \<Longrightarrow> n \<le> 31 \<Longrightarrow> int_bit (n - 1) = Some (size_mask n)"
proof -
  assume n: "1 \<le> n" "n \<le> 31"
  then have k: "nat (n - 1) < 31" by simp
  have "(scast (push_bit (nat (n - 1)) 1 :: u32) :: u64) = push_bit (nat (n - 1)) 1"
    by (rule bit_word_eqI) (use k in \<open>auto simp: bit_simps\<close>)
  then show ?thesis using n by (simp add: int_bit_def size_mask_def)
qed

lemma int_bit_32: "int_bit 31 = Some (- (2 ^ 31))"
  by (simp add: int_bit_def)

text \<open>
  The value of a cast constant is that of the C conversion, as long as the new type has at
  most 31 bits. The mask is computed in \<open>int\<close>: for a 32-bit type it lets every bit through, so
  the value is not reduced at all, and for a wider type C does not define it.
\<close>

theorem get_cast_value_spec:
  assumes "1 \<le> old" "1 \<le> new" "canonical old v" "old \<le> 64"
  shows "get_cast_value v old new sign =
    (if new \<le> 31 then Some (of_ival new (ival sign old v))
     else if new = 32 then Some (if sign \<and> old < 32 then word_of_int (ival True old v) else v)
     else None)"
proof -
  have ext: "word_of_int (ival True old v) = extend (size_mask old) v"
    unfolding sint_extend [OF assms(1,4,3), symmetric] by simp
  let ?w = "if sign \<and> old < new then extend (size_mask old) v else v"
  have one: "(if sign \<and> new > old then do {
        msk \<leftarrow> int_bit (old - 1);
        Some (if and v msk \<noteq> 0 then or v (not (or msk (msk - 1))) else v) }
      else Some v) = Some ?w" if "new \<le> 32"
    using that int_bit_31 [OF assms(1)] sign_bits_extend [of old v] by (simp add: sign_bits_def)
  have none: "int_bit (new - 1) = None" if "32 < new" using that by (simp add: int_bit_def)
  consider "new \<le> 31" | "new = 32" | "32 < new" by linarith
  then show ?thesis
  proof cases
    case 1
    have n: "1 \<le> new" "new \<le> 64" using 1 assms(2) by simp_all
    have "take_bit (nat new) (uint ?w) = take_bit (nat new) (ival sign old v)"
    proof (cases "sign \<and> old < new")
      case True
      have "uint ?w = take_bit 64 (sint ?w)" by (simp add: uint_sint)
      moreover have "nat new \<le> 64" using 1 by simp
      ultimately show ?thesis using True sint_extend [OF assms(1,4,3)] by simp
    next
      case False
      have *: "ival sign old v = (if sign then signed_take_bit (nat (old - 1)) (uint v) else uint v)"
        using assms(3) by (simp add: ival_def canonical_def) (metis unsigned_take_bit_eq)
      have "take_bit (nat new) (signed_take_bit (nat (old - 1)) (uint v)) = take_bit (nat new) (uint v)" if "new \<le> old"
        using that assms(2) by (intro take_bit_signed_take_bit) linarith
      then show ?thesis using False * by auto
    qed
    then have "and ?w (all_mask new) = of_ival new (ival sign old v)" by (rule and_all_mask_of_int [OF n])
    then show ?thesis
      using 1 one int_bit_31 [OF assms(2) 1] by (simp add: get_cast_value_def all_mask_def)
  next
    case 2
    have "or (- (2 ^ 31)) (- (2 ^ 31) - 1) = (- 1 :: u64)" by simp
    then show ?thesis using 2 one int_bit_32 ext by (simp add: get_cast_value_def)
  next
    case 3
    then show ?thesis using none by (simp add: get_cast_value_def split: option.splits bind_splits)
  qed
qed

theorem get_cast_value_spec_witness:
  "get_cast_value 200 8 16 True = Some 0xFFC8 \<and> get_cast_value 0x100000005 64 32 True = Some 0x100000005"
proof
  have c: "canonical 8 200" by (simp add: canonical_def take_bit_eq_mask mask_eq_exp_minus_1)
  show "get_cast_value 200 8 16 True = Some 0xFFC8"
    using get_cast_value_spec [OF _ _ c, of 16 True] by (simp add: ival_def of_ival_def)
  have d: "canonical 64 0x100000005" by (simp add: canonical_def)
  show "get_cast_value 0x100000005 64 32 True = Some 0x100000005"
    using get_cast_value_spec [OF _ _ d, of 32 True] by simp
qed

end
