(* ===== verification/Liveness_Props.thy ===== *)
theory Liveness_Props
  imports Liveness
begin

text \<open>
  The passes of \<open>track_pseudo_liveness\<close> come to an end, and what they reach is the least
  solution of the equations of liveness.
\<close>

section \<open>Growing needs\<close>

abbreviation needs :: "lin \<Rightarrow> addr \<Rightarrow> addr set" where
  "needs st b \<equiv> set (b_needs (bbs st b))"

text \<open>Needs are appended and nothing else happens; without the flag nothing has happened.\<close>

definition grown :: "lin \<Rightarrow> lin \<Rightarrow> bool" where
  "grown st st' \<longleftrightarrow>
     st' = st\<lparr>bbs := bbs st', liveness_changed := liveness_changed st'\<rparr>
     \<and> (\<forall>b. \<exists>l. bbs st' b = (bbs st b)\<lparr>b_needs := b_needs (bbs st b) @ l\<rparr>)
     \<and> (liveness_changed st \<longrightarrow> liveness_changed st') \<and> (\<not> liveness_changed st' \<longrightarrow> bbs st' = bbs st)
     \<and> (liveness_changed st' \<longrightarrow> liveness_changed st \<or> (\<exists>b. \<exists>p \<in> needs st' b. p \<notin> needs st b))"

lemma grown_refl: "grown st st"
proof -
  have "\<exists>l. bbs st b = (bbs st b)\<lparr>b_needs := b_needs (bbs st b) @ l\<rparr>" for b
    by (rule exI [of _ "[]"]) simp
  then show ?thesis by (simp add: grown_def)
qed

lemma grown_needs: "grown st st' \<Longrightarrow> needs st b \<subseteq> needs st' b"
proof -
  assume "grown st st'"
  then obtain l where "bbs st' b = (bbs st b)\<lparr>b_needs := b_needs (bbs st b) @ l\<rparr>" unfolding grown_def by blast
  then show ?thesis by simp
qed

lemma grown_new:
  "grown st st' \<Longrightarrow> liveness_changed st' \<Longrightarrow> liveness_changed st \<or> (\<exists>b. \<exists>p \<in> needs st' b. p \<notin> needs st b)"
  unfolding grown_def by blast

lemma grown_trans:
  assumes a: "grown st st1" and b: "grown st1 st2"
  shows "grown st st2"
  unfolding grown_def
proof (intro conjI allI)
  have "st1 = st\<lparr>bbs := bbs st1, liveness_changed := liveness_changed st1\<rparr>"
    "st2 = st1\<lparr>bbs := bbs st2, liveness_changed := liveness_changed st2\<rparr>"
    using a b unfolding grown_def by blast+
  then show "st2 = st\<lparr>bbs := bbs st2, liveness_changed := liveness_changed st2\<rparr>"
    by (cases st; cases st1; cases st2) simp
  fix x
  obtain l where "bbs st1 x = (bbs st x)\<lparr>b_needs := b_needs (bbs st x) @ l\<rparr>" using a unfolding grown_def by blast
  moreover obtain k where "bbs st2 x = (bbs st1 x)\<lparr>b_needs := b_needs (bbs st1 x) @ k\<rparr>"
    using b unfolding grown_def by blast
  ultimately have "bbs st2 x = (bbs st x)\<lparr>b_needs := b_needs (bbs st x) @ (l @ k)\<rparr>" by simp
  then show "\<exists>l. bbs st2 x = (bbs st x)\<lparr>b_needs := b_needs (bbs st x) @ l\<rparr>" by blast
next
  show "liveness_changed st \<longrightarrow> liveness_changed st2" "\<not> liveness_changed st2 \<longrightarrow> bbs st2 = bbs st"
    using a b unfolding grown_def by (blast, metis)
  show "liveness_changed st2 \<longrightarrow> liveness_changed st \<or> (\<exists>b. \<exists>p \<in> needs st2 b. p \<notin> needs st b)"
    using grown_new [OF a] grown_new [OF b] grown_needs [OF a] grown_needs [OF b] by blast
qed

lemma grownD:
  assumes "grown st st'"
  shows "parents (bbs st' b) = parents (bbs st b)" "children (bbs st' b) = children (bbs st b)"
    "b_defines (bbs st' b) = b_defines (bbs st b)" "\<exists>l. b_needs (bbs st' b) = b_needs (bbs st b) @ l"
    "needs st b \<subseteq> needs st' b" "\<not> liveness_changed st' \<Longrightarrow> bbs st' = bbs st"
proof -
  obtain l where "bbs st' b = (bbs st b)\<lparr>b_needs := b_needs (bbs st b) @ l\<rparr>" using assms unfolding grown_def by blast
  then show "parents (bbs st' b) = parents (bbs st b)" "children (bbs st' b) = children (bbs st b)"
    "b_defines (bbs st' b) = b_defines (bbs st b)" "\<exists>l. b_needs (bbs st' b) = b_needs (bbs st b) @ l"
    "needs st b \<subseteq> needs st' b" by simp_all
  show "\<not> liveness_changed st' \<Longrightarrow> bbs st' = bbs st" using assms unfolding grown_def by blast
qed

lemma add_need_grown:
  "grown st (add_need b p st) \<and> p \<in> needs (add_need b p st) b
   \<and> (\<forall>c. needs (add_need b p st) c \<subseteq> (if c = b then insert p (needs st c) else needs st c))
   \<and> (p \<in> needs st b \<longrightarrow> add_need b p st = st)"
proof (cases "p \<in> needs st b")
  case True
  then show ?thesis by (auto simp: add_need_def pseudo_in_list_def grown_refl)
next
  case False
  have "\<exists>l. bbs (add_need b p st) c = (bbs st c)\<lparr>b_needs := b_needs (bbs st c) @ l\<rparr>" for c
    by (rule exI [of _ "if c = b then [p] else []"])
       (simp add: add_need_def pseudo_in_list_def set_needs_def upd_bb_def False Let_def)
  then have "grown st (add_need b p st)"
    using False by (simp add: grown_def add_need_def pseudo_in_list_def set_needs_def upd_bb_def Let_def)
  then show ?thesis
    using False by (simp add: add_need_def pseudo_in_list_def set_needs_def upd_bb_def Let_def)
qed

section \<open>The equations\<close>

text \<open>
  \<open>p\<close> is live at the start of \<open>b\<close>: a block needs it, and \<open>b\<close> leads there through blocks that do
  not define it. \<open>bs\<close> are the blocks of the function and \<open>st\<close> has the needs of the blocks alone.
\<close>

inductive_set live :: "addr list \<Rightarrow> lin \<Rightarrow> (addr \<times> addr) set" for bs st where
  needed: "p \<in> needs st b \<Longrightarrow> (b, p) \<in> live bs st"
| through: "(c, p) \<in> live bs st \<Longrightarrow> c \<in> set bs \<Longrightarrow> b \<in> set (parents (bbs st c)) \<Longrightarrow>
    p \<notin> set (b_defines (bbs st b)) \<Longrightarrow> (b, p) \<in> live bs st"

definition needs_in :: "(addr \<times> addr) set \<Rightarrow> lin \<Rightarrow> bool" where
  "needs_in S st \<longleftrightarrow> (\<forall>b. \<forall>p \<in> needs st b. (b, p) \<in> S)"

text \<open>The equation holds at \<open>b\<close>.\<close>

definition pushed :: "addr \<Rightarrow> lin \<Rightarrow> bool" where
  "pushed b st \<longleftrightarrow>
     (\<forall>q \<in> set (parents (bbs st b)). needs st b \<subseteq> set (b_defines (bbs st q)) \<union> needs st q)"

lemma need_in_parents_ok:
  "grown st (need_in_parents p qs st)
   \<and> (\<forall>q \<in> set qs. p \<in> set (b_defines (bbs st q)) \<union> needs (need_in_parents p qs st) q)
   \<and> (\<forall>b. p \<in> needs st b \<longrightarrow> bbs (need_in_parents p qs st) b = bbs st b)
   \<and> (needs_in S st \<longrightarrow> (\<forall>q \<in> set qs. p \<notin> set (b_defines (bbs st q)) \<longrightarrow> (q, p) \<in> S) \<longrightarrow>
        needs_in S (need_in_parents p qs st))"
proof (induction qs arbitrary: st)
  case Nil
  show ?case by (simp add: grown_refl)
next
  case (Cons q qs)
  let ?st = "if pseudo_in_list (b_defines (bbs st q)) p then st else add_need q p st"
  note a = add_need_grown [of st q p]
  have g: "grown st ?st" using a grown_refl by simp
  note d = grownD [OF g]
  note ih = Cons.IH [of ?st]
  have g2: "grown st (need_in_parents p (q # qs) st)" using grown_trans [OF g] ih by simp
  have "p \<in> set (b_defines (bbs st q)) \<union> needs ?st q" using a by (simp add: pseudo_in_list_def)
  moreover have "needs ?st q \<subseteq> needs (need_in_parents p qs ?st) q" using grownD(5) ih by blast
  ultimately have q: "p \<in> set (b_defines (bbs st q)) \<union> needs (need_in_parents p qs ?st) q" by blast
  have same: "bbs (need_in_parents p qs ?st) b = bbs st b" if "p \<in> needs st b" for b
  proof -
    have "p \<in> needs ?st b" using that d(5) by blast
    then have "bbs (need_in_parents p qs ?st) b = bbs ?st b" using ih by blast
    also have "bbs ?st b = bbs st b"
    proof (cases "b = q")
      case True
      then show ?thesis using a that by simp
    next
      case False
      then show ?thesis by (simp add: add_need_def set_needs_def upd_bb_def Let_def)
    qed
    finally show ?thesis .
  qed
  have "needs_in S ?st" if n: "needs_in S st" and q: "\<forall>x \<in> set (q # qs). p \<notin> set (b_defines (bbs st x)) \<longrightarrow> (x, p) \<in> S"
  proof (cases "p \<in> set (b_defines (bbs st q))")
    case True
    with n show ?thesis by (simp add: pseudo_in_list_def)
  next
    case False
    with q have "(q, p) \<in> S" by simp
    moreover have "needs (add_need q p st) c \<subseteq> (if c = q then insert p (needs st c) else needs st c)" for c
      using a by blast
    ultimately have "(c, x) \<in> S" if "x \<in> needs (add_need q p st) c" for c x
      using that n unfolding needs_in_def by (cases "c = q") (fastforce split: if_splits)+
    then show ?thesis using False by (simp add: needs_in_def pseudo_in_list_def)
  qed
  with ih d(3) have "needs_in S (need_in_parents p qs ?st)"
    if "needs_in S st" "\<forall>x \<in> set (q # qs). p \<notin> set (b_defines (bbs st x)) \<longrightarrow> (x, p) \<in> S"
    using that by simp
  with g2 q same ih d(3) show ?case by simp
qed
section \<open>Passes\<close>

text \<open>Pushing the needs of a block; its own list does not change on the way.\<close>

lemma track_bb_from_ok:
  assumes "needs st b \<subseteq> P" "needs_in S st"
    "\<And>q p. (b, p) \<in> S \<Longrightarrow> q \<in> set (parents (bbs st b)) \<Longrightarrow> p \<notin> set (b_defines (bbs st q)) \<Longrightarrow> (q, p) \<in> S"
    "\<forall>j < k. \<forall>q \<in> set (parents (bbs st b)). b_needs (bbs st b) ! j \<in> set (b_defines (bbs st q)) \<union> needs st q"
  shows "\<exists>st'. track_bb_from k b st = Some st' \<and> grown st st' \<and> needs_in S st' \<and> pushed b st'"
  using assms
proof (induction "length (b_needs (bbs st b)) - k" arbitrary: k st)
  case 0
  have "p \<in> set (b_defines (bbs st q)) \<union> needs st q" if q: "q \<in> set (parents (bbs st b))" and "p \<in> needs st b" for p q
  proof -
    obtain j where "j < length (b_needs (bbs st b))" "b_needs (bbs st b) ! j = p"
      using \<open>p \<in> needs st b\<close> by (auto simp: in_set_conv_nth)
    with 0 have "j < k" by simp
    with 0(5) q \<open>_ ! j = p\<close> show ?thesis by metis
  qed
  then have "pushed b st" unfolding pushed_def by blast
  moreover have "track_bb_from k b st = Some st" using 0(1) by (subst track_bb_from.simps) simp
  ultimately show ?case using 0(3) grown_refl by blast
next
  case (Suc n)
  let ?p = "b_needs (bbs st b) ! k" and ?ps = "parents (bbs st b)"
  let ?st = "need_in_parents ?p ?ps st"
  have k: "k < length (b_needs (bbs st b))" using Suc.hyps(2) by simp
  then have p: "?p \<in> needs st b" by simp
  note ok = need_in_parents_ok [of st ?p ?ps S]
  have same: "bbs ?st b = bbs st b" using ok p by blast
  have g: "grown st ?st" using ok by blast
  note d = grownD [OF g]
  have S: "(b, ?p) \<in> S" using Suc.prems(2) p by (simp add: needs_in_def)
  have ns: "needs_in S ?st" using ok Suc.prems(2) Suc.prems(3) [OF S] by blast
  have "\<forall>j < Suc k. \<forall>q \<in> set (parents (bbs ?st b)).
      b_needs (bbs ?st b) ! j \<in> set (b_defines (bbs ?st q)) \<union> needs ?st q"
  proof (intro allI impI ballI)
    fix j q
    assume j: "j < Suc k" and "q \<in> set (parents (bbs ?st b))"
    then have q: "q \<in> set ?ps" by (simp add: same)
    show "b_needs (bbs ?st b) ! j \<in> set (b_defines (bbs ?st q)) \<union> needs ?st q"
    proof (cases "j = k")
      case True
      then show ?thesis using ok q unfolding same d(3) by blast
    next
      case False
      with j have "j < k" by simp
      with Suc.prems(4) q have "b_needs (bbs st b) ! j \<in> set (b_defines (bbs st q)) \<union> needs st q" by blast
      then show ?thesis using d(5) unfolding same d(3) by blast
    qed
  qed
  moreover have "n = length (b_needs (bbs ?st b)) - Suc k" using Suc.hyps(2) by (simp add: same)
  moreover have "needs ?st b \<subseteq> P" using Suc.prems(1) by (simp add: same)
  moreover have "(q, p) \<in> S" if "(b, p) \<in> S" "q \<in> set (parents (bbs ?st b))" "p \<notin> set (b_defines (bbs ?st q))" for q p
    using Suc.prems(3) [of p q] that by (simp add: same d(3))
  ultimately obtain st' where "track_bb_from (Suc k) b ?st = Some st'" "grown ?st st'" "needs_in S st'" "pushed b st'"
    using Suc.hyps(1) [of ?st "Suc k"] ns by blast
  moreover from this k have "track_bb_from k b st = Some st'" by (subst track_bb_from.simps) simp
  ultimately show ?case using grown_trans [OF g] by blast
qed

text \<open>\<open>S\<close> is closed under the equations for the blocks \<open>bs\<close>.\<close>

definition closed_under :: "addr list \<Rightarrow> lin \<Rightarrow> (addr \<times> addr) set \<Rightarrow> bool" where
  "closed_under bs st S \<longleftrightarrow>
     (\<forall>b \<in> set bs. \<forall>q \<in> set (parents (bbs st b)). \<forall>p. (b, p) \<in> S \<longrightarrow> p \<notin> set (b_defines (bbs st q)) \<longrightarrow> (q, p) \<in> S)"

lemma closed_under_grown: "grown st st' \<Longrightarrow> closed_under bs st' S = closed_under bs st S"
  by (simp add: closed_under_def grownD)

lemma pass_ok:
  assumes "needs_in S st" "closed_under bs st S"
  shows "\<exists>st'. track_all track_bb_liveness bs st = Some st' \<and> grown st st' \<and> needs_in S st'
    \<and> (\<not> liveness_changed st' \<longrightarrow> (\<forall>b \<in> set bs. pushed b st'))"
  using assms
proof (induction bs arbitrary: st)
  case Nil
  then show ?case by (simp add: grown_refl)
next
  case (Cons b bs)
  have "(q, p) \<in> S" if "(b, p) \<in> S" "q \<in> set (parents (bbs st b))" "p \<notin> set (b_defines (bbs st q))" for q p
    using Cons.prems(2) that unfolding closed_under_def by simp
  with track_bb_from_ok [OF subset_refl Cons.prems(1), of b 0] obtain st1 where
    run: "track_bb_liveness b st = Some st1" and g: "grown st st1" and n: "needs_in S st1" and p: "pushed b st1"
    by (auto simp: track_bb_liveness_def)
  have "closed_under bs st S" using Cons.prems(2) by (simp add: closed_under_def)
  then have "closed_under bs st1 S" by (simp only: closed_under_grown [OF g])
  from Cons.IH [OF n this] obtain st2 where
    run2: "track_all track_bb_liveness bs st1 = Some st2" and g2: "grown st1 st2" and n2: "needs_in S st2"
    and p2: "\<not> liveness_changed st2 \<longrightarrow> (\<forall>b \<in> set bs. pushed b st2)" by blast
  have "pushed b st2" if "\<not> liveness_changed st2"
    using grownD(6) [OF g2 that] p by (simp add: pushed_def)
  with run run2 n2 p2 grown_trans [OF g g2] show ?case by auto
qed

section \<open>The fixed point\<close>

text \<open>The pairs of a finite set that are not needs yet are the measure of the passes.\<close>

definition missing :: "(addr \<times> addr) set \<Rightarrow> lin \<Rightarrow> (addr \<times> addr) set" where
  "missing S st = {(b, p). (b, p) \<in> S \<and> p \<notin> needs st b}"

lemma missing_less:
  assumes "finite S" "grown st st'" "needs_in S st'" "p \<in> needs st' b" "p \<notin> needs st b"
  shows "card (missing S st') < card (missing S st)"
proof (rule psubset_card_mono)
  show "finite (missing S st)" by (rule finite_subset [OF _ assms(1)]) (auto simp: missing_def)
  have "missing S st' \<subseteq> missing S st" using grown_needs [OF assms(2)] unfolding missing_def by blast
  moreover have "(b, p) \<in> missing S st" "(b, p) \<notin> missing S st'"
    using assms(3-5) unfolding missing_def needs_in_def by blast+
  ultimately show "missing S st' \<subset> missing S st" by blast
qed

lemma liveness_loop_ok:
  assumes "finite S" "needs_in S st" "closed_under bs st S"
  shows "\<exists>st'. liveness_loop bs st = Some st' \<and> needs_in S st' \<and> (\<forall>b \<in> set bs. pushed b st')
    \<and> grown (st\<lparr>liveness_changed := True\<rparr>) (st'\<lparr>liveness_changed := True\<rparr>)"
  using assms(2,3)
proof (induction "card (missing S st)" arbitrary: st rule: less_induct)
  case less
  let ?st = "st\<lparr>liveness_changed := False\<rparr>"
  have "needs_in S ?st" "closed_under (rev bs) ?st S"
    using less.prems by (simp_all add: needs_in_def closed_under_def)
  from pass_ok [OF this] obtain st1 where
    run: "track_all track_bb_liveness (rev bs) ?st = Some st1" and g: "grown ?st st1" and n: "needs_in S st1"
    and p: "\<not> liveness_changed st1 \<longrightarrow> (\<forall>b \<in> set bs. pushed b st1)" by auto
  have g': "grown (st\<lparr>liveness_changed := True\<rparr>) (st1\<lparr>liveness_changed := True\<rparr>)"
    using g unfolding grown_def by (cases st; cases st1) simp
  show ?case
  proof (cases "liveness_changed st1")
    case False
    with run n p g' show ?thesis by (subst liveness_loop.simps) auto
  next
    case True
    then obtain b q where "q \<in> needs st1 b" "q \<notin> needs ?st b" using grown_new [OF g] by auto
    from missing_less [OF assms(1) g n this] have "card (missing S st1) < card (missing S st)"
      by (simp add: missing_def)
    moreover have "closed_under bs ?st S" using less.prems(2) by (simp add: closed_under_def)
    then have "closed_under bs st1 S" by (simp only: closed_under_grown [OF g])
    ultimately obtain st2 where
      "liveness_loop bs st1 = Some st2" "needs_in S st2" "\<forall>b \<in> set bs. pushed b st2"
      "grown (st1\<lparr>liveness_changed := True\<rparr>) (st2\<lparr>liveness_changed := True\<rparr>)"
      using less.hyps n by blast
    with run True grown_trans [OF g'] show ?thesis by (subst liveness_loop.simps) auto
  qed
qed

text \<open>The live pairs are finitely many, as they come from the needs and go to blocks and parents.\<close>

lemma live_finite:
  assumes "finite {b. needs st b \<noteq> {}}"
  shows "finite (live bs st)"
proof (rule finite_subset)
  let ?B = "{b. needs st b \<noteq> {}}"
  show "live bs st \<subseteq> (?B \<union> (\<Union>c \<in> set bs. set (parents (bbs st c)))) \<times> (\<Union>b \<in> ?B. needs st b)"
  proof -
    have "b \<in> ?B \<union> (\<Union>c \<in> set bs. set (parents (bbs st c))) \<and> p \<in> (\<Union>b \<in> ?B. needs st b)"
      if "(b, p) \<in> live bs st" for b p
      using that
    proof (induction rule: live.induct)
      case (needed p b)
      then have "b \<in> ?B" by (simp add: mem_Collect_eq) force
      with needed show ?case by blast
    qed blast
    then show ?thesis by (intro subrelI) blast
  qed
  show "finite ((?B \<union> (\<Union>c \<in> set bs. set (parents (bbs st c)))) \<times> (\<Union>b \<in> ?B. needs st b))"
    using assms by simp
qed

lemma live_closed: "closed_under bs st (live bs st)"
  unfolding closed_under_def by (blast intro: live.through)

lemma live_least:
  assumes g: "grown (st\<lparr>liveness_changed := True\<rparr>) (st'\<lparr>liveness_changed := True\<rparr>)"
    and p: "\<forall>b \<in> set bs. pushed b st'"
  shows "(b, p) \<in> live bs st \<Longrightarrow> p \<in> needs st' b"
proof (induction rule: live.induct)
  case (needed p b)
  then show ?case using grown_needs [OF g, of b] by auto
next
  case (through c p b)
  have "parents (bbs st' c) = parents (bbs st c)" "b_defines (bbs st' b) = b_defines (bbs st b)"
    using grownD(1,3) [OF g] by simp_all
  moreover have "pushed c st'" using p through(2) by blast
  ultimately have "needs st' c \<subseteq> set (b_defines (bbs st b)) \<union> needs st' b"
    using through(3) unfolding pushed_def by metis
  with through show ?case by blast
qed
lemma drop_internal_fields:
  "bbs (drop_internal b st) c =
     (bbs st c)\<lparr>b_defines := (if c = b then filter (\<lambda>p. \<exists>d \<in> set (children (bbs st b)). p \<in> needs st d) (b_defines (bbs st b))
        else b_defines (bbs st c))\<rparr>"
  by (simp add: drop_internal_def set_defines_def upd_bb_def pseudo_in_list_def)

lemma drop_all:
  "b_needs (bbs (fold drop_internal bs st) b) = b_needs (bbs st b)
   \<and> children (bbs (fold drop_internal bs st) b) = children (bbs st b)
   \<and> b_defines (bbs (fold drop_internal bs st) b) =
       (if b \<in> set bs then filter (\<lambda>p. \<exists>d \<in> set (children (bbs st b)). p \<in> needs st d) (b_defines (bbs st b))
        else b_defines (bbs st b))"
  by (induction bs arbitrary: st) (simp_all add: drop_internal_fields)

text \<open>
  C33. The liveness analysis comes to an end, and its result is exact: once the needs and
  definitions of the blocks alone are noted, a block needs a pseudo in the end if and only if some
  path from it reaches a block that needs it without passing a definition, and the definitions
  kept are those that some child needs.
\<close>

theorem track_pseudo_liveness_exact:
  assumes "track_all usage_of_bb (ep_bbs ep) st = Some st1" "finite {b. needs st1 b \<noteq> {}}"
  shows "\<exists>st2. track_pseudo_liveness ep st = Some st2
    \<and> (\<forall>b. needs st2 b = {p. (b, p) \<in> live (ep_bbs ep) st1})
    \<and> (\<forall>b \<in> set (ep_bbs ep). b_defines (bbs st2 b) =
         filter (\<lambda>p. \<exists>c \<in> set (children (bbs st1 b)). (c, p) \<in> live (ep_bbs ep) st1) (b_defines (bbs st1 b)))"
proof -
  let ?bs = "ep_bbs ep"
  let ?S = "live ?bs st1"
  have "needs_in ?S st1" by (auto simp: needs_in_def intro: live.needed)
  from liveness_loop_ok [OF live_finite [OF assms(2)] this live_closed] obtain st2 where
    run: "liveness_loop ?bs st1 = Some st2" and n: "needs_in ?S st2" and p: "\<forall>b \<in> set ?bs. pushed b st2"
    and g: "grown (st1\<lparr>liveness_changed := True\<rparr>) (st2\<lparr>liveness_changed := True\<rparr>)" by blast
  have l: "needs st2 b = {p. (b, p) \<in> ?S}" for b
    using live_least [OF g p] n unfolding needs_in_def by blast
  have c: "children (bbs st2 b) = children (bbs st1 b)" "b_defines (bbs st2 b) = b_defines (bbs st1 b)" for b
    using grownD(2,3) [OF g, of b] by simp_all
  have "track_pseudo_liveness ep st = Some (fold drop_internal ?bs st2)"
    using assms(1) run by (simp add: track_pseudo_liveness_def)
  moreover have "needs (fold drop_internal ?bs st2) b = {p. (b, p) \<in> ?S}" for b
    by (simp add: drop_all l)
  moreover have "b_defines (bbs (fold drop_internal ?bs st2) b) =
      filter (\<lambda>p. \<exists>c \<in> set (children (bbs st1 b)). (c, p) \<in> ?S) (b_defines (bbs st1 b))" if "b \<in> set ?bs" for b
    using that by (simp add: drop_all l c)
  ultimately show ?thesis by blast
qed

text \<open>The block 2 uses the pseudo 5 that the block 1 defines, and loops.\<close>

definition loop_code :: lin where
  "loop_code =
     (init_lin (\<lambda>_. undefined))
       \<lparr>pseudos := (\<lambda>_. blank_pseudo)(5 := blank_pseudo\<lparr>p_type := PSEUDO_REG, p_def := 7\<rparr>),
        insns := (\<lambda>_. blank_insn)(7 := blank_insn\<lparr>opcode := OP_SETVAL, i_bb := 1, i_target := 5\<rparr>,
          8 := blank_insn\<lparr>opcode := OP_BR, i_bb := 2, i_target := 5, bb_true := 2, bb_false := 2\<rparr>),
        bbs := (\<lambda>_. blank_bb)(1 := blank_bb\<lparr>children := [2], b_insns := [7]\<rparr>,
          2 := blank_bb\<lparr>children := [2], parents := [1, 2], b_insns := [8]\<rparr>), n_bbs := 3\<rparr>"

abbreviation loop_entry :: entrypoint where
  "loop_entry \<equiv> \<lparr>ep_name = undefined, accesses = [], ep_bbs = [1, 2], active = 0, ep_entry = 0\<rparr>"

lemma loop_code_usage:
  "track_all usage_of_bb [1, 2] loop_code =
     Some (set_needs 2 [5] (set_defines 1 [5] (loop_code\<lparr>liveness_changed := True\<rparr>)))"
  by (simp add: usage_of_bb_def loop_code_def track_instruction_usage_def used_operands_def defined_operands_def
    insn_uses_def insn_defines_def trackable_pseudo_def add_need_def pseudo_in_list_def set_needs_def set_defines_def
    upd_bb_def blank_bb_def blank_insn_def blank_pseudo_def is_binary_def is_bincmp_def Let_def fun_upd_def)

lemma track_pseudo_liveness_exact_witness:
  "\<exists>st1 st2. track_all usage_of_bb [1, 2] loop_code = Some st1 \<and> track_pseudo_liveness loop_entry loop_code = Some st2
     \<and> needs st2 2 = {p. (2, p) \<in> live [1, 2] st1} \<and> (2, 5) \<in> live [1, 2] st1"
proof -
  let ?st1 = "set_needs 2 [5] (set_defines 1 [5] (loop_code\<lparr>liveness_changed := True\<rparr>))"
  have b: "b_needs (bbs ?st1 x) = (if x = 2 then [5] else [])" for x
    by (simp add: set_needs_def set_defines_def upd_bb_def loop_code_def blank_bb_def)
  have "finite {x. needs ?st1 x \<noteq> {}}" unfolding b by (rule finite_subset [of _ "{2}"]) (auto split: if_splits)
  moreover have "(2, 5) \<in> live [1, 2] ?st1" by (rule live.needed) (simp only: b, simp)
  ultimately show ?thesis
    using track_pseudo_liveness_exact [of loop_entry loop_code ?st1] loop_code_usage by auto
qed
end
