(* ===== verification/Flow_Props.thy ===== *)
theory Flow_Props
  imports Flow
begin

text \<open>
  The walks over the flow graph. Marking the reachable blocks ends and marks exactly them.
\<close>

section \<open>Marks\<close>

definition marked :: "nat \<Rightarrow> lin \<Rightarrow> addr set" where
  "marked g st = {b. generation (bbs st b) = g}"

text \<open>Nothing but the marks has changed.\<close>

definition only_marks :: "lin \<Rightarrow> lin \<Rightarrow> bool" where
  "only_marks st st' \<longleftrightarrow>
     st' = st\<lparr>bbs := bbs st'\<rparr> \<and> (\<forall>b. \<exists>g. bbs st' b = (bbs st b)\<lparr>generation := g\<rparr>)"

lemma only_marks_refl: "only_marks st st"
proof -
  have "\<exists>g. bbs st b = (bbs st b)\<lparr>generation := g\<rparr>" for b
    by (rule exI [of _ "generation (bbs st b)"]) simp
  moreover have "st = st\<lparr>bbs := bbs st\<rparr>" by simp
  ultimately show ?thesis unfolding only_marks_def by blast
qed

lemma only_marks_trans:
  assumes a: "only_marks st st1" and b: "only_marks st1 st2"
  shows "only_marks st st2"
  unfolding only_marks_def
proof (intro conjI allI)
  have "st1 = st\<lparr>bbs := bbs st1\<rparr>" "st2 = st1\<lparr>bbs := bbs st2\<rparr>" using a b by (simp_all add: only_marks_def)
  then show "st2 = st\<lparr>bbs := bbs st2\<rparr>" by (cases st; cases st1; cases st2) simp
  fix x
  obtain g where "bbs st1 x = (bbs st x)\<lparr>generation := g\<rparr>" using a unfolding only_marks_def by blast
  moreover obtain h where "bbs st2 x = (bbs st1 x)\<lparr>generation := h\<rparr>" using b unfolding only_marks_def by blast
  ultimately show "\<exists>g. bbs st2 x = (bbs st x)\<lparr>generation := g\<rparr>" by auto
qed

lemma only_marksD:
  assumes "only_marks st st'"
  shows "children (bbs st' b) = children (bbs st b)" "parents (bbs st' b) = parents (bbs st b)"
    "b_insns (bbs st' b) = b_insns (bbs st b)" "insns st' = insns st" "n_bbs st' = n_bbs st"
proof -
  have s: "st' = st\<lparr>bbs := bbs st'\<rparr>" using assms by (simp add: only_marks_def)
  obtain g where g: "bbs st' b = (bbs st b)\<lparr>generation := g\<rparr>" using assms unfolding only_marks_def by blast
  show "children (bbs st' b) = children (bbs st b)" "parents (bbs st' b) = parents (bbs st b)"
    "b_insns (bbs st' b) = b_insns (bbs st b)" by (simp_all add: g)
  show "insns st' = insns st" "n_bbs st' = n_bbs st" by (subst s, simp)+
qed

lemma mark_only: "only_marks st (mark g b st)"
  unfolding only_marks_def mark_def upd_bb_def
  using only_marks_refl unfolding only_marks_def by auto

lemma marked_mark: "marked g (mark g b st) = insert b (marked g st)"
  by (auto simp: marked_def mark_def upd_bb_def)

text \<open>The blocks not yet marked are the measure of the walks.\<close>

definition unmarked :: "nat \<Rightarrow> nat \<Rightarrow> lin \<Rightarrow> addr set" where
  "unmarked N g st = {b. b < N \<and> generation (bbs st b) \<noteq> g}"

lemma unmarked_finite: "finite (unmarked N g st)"
  by (simp add: unmarked_def)

lemma unmarked_mark:
  assumes "b < N" "generation (bbs st b) \<noteq> g"
  shows "card (unmarked N g (mark g b st)) < card (unmarked N g st)"
proof -
  have "unmarked N g (mark g b st) = unmarked N g st - {b}" by (auto simp: unmarked_def mark_def upd_bb_def)
  moreover have "b \<in> unmarked N g st" using assms by (simp add: unmarked_def)
  ultimately show ?thesis using card_Diff1_less [OF unmarked_finite] by metis
qed

lemma unmarked_mono: "marked g st \<subseteq> marked g st' \<Longrightarrow> card (unmarked N g st') \<le> card (unmarked N g st)"
  by (intro card_mono unmarked_finite) (auto simp: unmarked_def marked_def)

section \<open>Reachable blocks\<close>

definition edges :: "lin \<Rightarrow> (addr \<times> addr) set" where
  "edges st = {(b, c). c \<in> set (children (bbs st b))}"

definition graph_ok :: "lin \<Rightarrow> bool" where
  "graph_ok st \<longleftrightarrow>
     (\<forall>b < n_bbs st. set (children (bbs st b)) \<subseteq> {..< n_bbs st} \<and> set (parents (bbs st b)) \<subseteq> {..< n_bbs st})"

text \<open>What a walk from the blocks \<open>bs\<close> has done.\<close>

definition walked :: "nat \<Rightarrow> addr set \<Rightarrow> lin \<Rightarrow> lin \<Rightarrow> bool" where
  "walked g bs st st' \<longleftrightarrow>
     only_marks st st' \<and> marked g st \<subseteq> marked g st' \<and> bs \<subseteq> marked g st'
     \<and> marked g st' \<subseteq> marked g st \<union> (edges st)\<^sup>* `` bs
     \<and> (\<forall>x \<in> marked g st' - marked g st. set (children (bbs st x)) \<subseteq> marked g st')"

lemma edges_only_marks: "only_marks st st' \<Longrightarrow> edges st' = edges st"
  by (simp add: edges_def only_marksD)

lemma walkedD:
  assumes "walked g bs st st'"
  shows "only_marks st st'" "marked g st \<subseteq> marked g st'" "bs \<subseteq> marked g st'"
    "marked g st' \<subseteq> marked g st \<union> (edges st)\<^sup>* `` bs"
    "x \<in> marked g st' \<Longrightarrow> x \<notin> marked g st \<Longrightarrow> set (children (bbs st x)) \<subseteq> marked g st'"
  using assms unfolding walked_def by blast+

lemma walked_refl: "walked g {} st st"
  by (simp add: walked_def only_marks_refl)

lemma walked_trans:
  assumes a: "walked g A st st1" and b: "walked g B st1 st2"
  shows "walked g (A \<union> B) st st2"
  unfolding walked_def
proof (intro conjI ballI)
  note x = walkedD [OF a] and y = walkedD [OF b]
  note e = edges_only_marks [OF x(1)]
  show "only_marks st st2" by (rule only_marks_trans [OF x(1) y(1)])
  show "marked g st \<subseteq> marked g st2" "A \<union> B \<subseteq> marked g st2" using x(2,3) y(2,3) by blast+
  have "(edges st)\<^sup>* `` A \<subseteq> (edges st)\<^sup>* `` (A \<union> B)" "(edges st)\<^sup>* `` B \<subseteq> (edges st)\<^sup>* `` (A \<union> B)"
    by (simp_all add: Image_mono)
  with x(4) y(4) show "marked g st2 \<subseteq> marked g st \<union> (edges st)\<^sup>* `` (A \<union> B)"
    unfolding e by (meson Un_least Un_upper1 le_supI2 subset_trans)
  fix z
  assume z: "z \<in> marked g st2 - marked g st"
  then have "set (children (bbs st z)) \<subseteq> marked g st2" if "z \<in> marked g st1"
    using that x(5) [of z] y(2) by blast
  moreover have "set (children (bbs st z)) \<subseteq> marked g st2" if "z \<notin> marked g st1"
    using that z y(5) [of z] only_marksD(1) [OF x(1), of z] by simp
  ultimately show "set (children (bbs st z)) \<subseteq> marked g st2" by blast
qed

lemma mark_all_walked:
  assumes IH: "\<And>b st. graph_ok st \<Longrightarrow> n_bbs st = N \<Longrightarrow> b < N \<Longrightarrow> card (unmarked N g st) < n \<Longrightarrow>
      \<exists>st'. m b st = Some st' \<and> walked g {b} st st'"
    and "graph_ok st" "n_bbs st = N" "set bs \<subseteq> {..< N}" "card (unmarked N g st) < n"
  shows "\<exists>st'. mark_all m bs st = Some st' \<and> walked g (set bs) st st'"
  using assms(2-)
proof (induction bs arbitrary: st)
  case (Cons b bs)
  have b: "b < N" using Cons.prems(3) by simp
  from IH [OF Cons.prems(1,2) b Cons.prems(4)] obtain st1 where run: "m b st = Some st1" and w: "walked g {b} st st1"
    by blast
  have st1: "graph_ok st1" "n_bbs st1 = N"
    using Cons.prems(1,2) only_marksD [OF walkedD(1) [OF w]] by (simp_all add: graph_ok_def)
  have "card (unmarked N g st1) < n"
    using unmarked_mono [OF walkedD(2) [OF w], of N] Cons.prems(4) by linarith
  from Cons.IH [OF st1 _ this] Cons.prems(3) obtain st2 where "mark_all m bs st1 = Some st2" "walked g (set bs) st1 st2"
    by auto
  with run walked_trans [OF w, of "set bs" st2] show ?case by auto
qed (simp add: walked_refl)

lemma mark_walked:
  assumes "graph_ok st" "n_bbs st = N" "b < N" "card (unmarked N g st) < n"
  shows "\<exists>st'. mark_bb_reachable n g b st = Some st' \<and> walked g {b} st st'"
  using assms
proof (induction n arbitrary: b st)
  case (Suc n)
  show ?case
  proof (cases "generation (bbs st b) = g")
    case True
    then show ?thesis using only_marks_refl by (auto simp: walked_def marked_def)
  next
    case False
    let ?st = "mark g b st" and ?cs = "children (bbs st b)"
    note om = mark_only [of st g b]
    have st1: "graph_ok ?st" "n_bbs ?st = N"
      using Suc.prems(1,2) only_marksD [OF om] by (simp_all add: graph_ok_def)
    have c: "card (unmarked N g ?st) < n" using unmarked_mark [OF Suc.prems(3) False] Suc.prems(4) by linarith
    have cs: "set ?cs \<subseteq> {..< N}" using Suc.prems(1-3) by (auto simp: graph_ok_def)
    from mark_all_walked [OF Suc.IH st1 cs c] obtain st' where
      run: "mark_all (mark_bb_reachable n g) ?cs ?st = Some st'" and w: "walked g (set ?cs) ?st st'"
      by blast
    note x = walkedD [OF w, unfolded marked_mark edges_only_marks [OF om] only_marksD(1) [OF om]]
    have "walked g {b} st st'"
      unfolding walked_def
    proof (intro conjI ballI)
      show "only_marks st st'" by (rule only_marks_trans [OF om x(1)])
      show "marked g st \<subseteq> marked g st'" "{b} \<subseteq> marked g st'" using x(2) by auto
      have "(edges st)\<^sup>* `` set ?cs \<subseteq> (edges st)\<^sup>* `` {b}"
        by (auto simp: edges_def intro: converse_rtrancl_into_rtrancl)
      moreover have "b \<in> (edges st)\<^sup>* `` {b}" by simp
      ultimately show "marked g st' \<subseteq> marked g st \<union> (edges st)\<^sup>* `` {b}" using x(4) by blast
      fix z
      assume "z \<in> marked g st' - marked g st"
      then show "set (children (bbs st z)) \<subseteq> marked g st'" using x(3) x(5) by (cases "z = b") auto
    qed
    with run False show ?thesis by auto
  qed
qed simp

text \<open>
  C29. The marking of the reachable blocks ends: whatever the graph and its cycles, the number of
  blocks bounds the depth of the recursion. With a generation that is not yet used, it marks exactly
  the blocks that can be reached from the first one, and changes nothing else.
\<close>

theorem mark_bb_reachable_exact:
  assumes "graph_ok st" "b < n_bbs st" "marked g st = {}"
  shows "\<exists>st'. mark_bb_reachable (Suc (n_bbs st)) g b st = Some st' \<and> only_marks st st'
    \<and> marked g st' = {c. (b, c) \<in> (edges st)\<^sup>*}"
proof -
  have "card (unmarked (n_bbs st) g st) \<le> card {..< n_bbs st}"
    by (intro card_mono) (auto simp: unmarked_def)
  then have "card (unmarked (n_bbs st) g st) < Suc (n_bbs st)" by simp
  from mark_walked [OF assms(1) refl assms(2) this] obtain st' where
    run: "mark_bb_reachable (Suc (n_bbs st)) g b st = Some st'" and w: "walked g {b} st st'" by blast
  note x = walkedD [OF w, unfolded assms(3)]
  have "c \<in> marked g st'" if "(b, c) \<in> (edges st)\<^sup>*" for c
    using that
  proof (induction rule: rtrancl_induct)
    case base
    show ?case using x(3) by simp
  next
    case (step y z)
    then show ?case using x(5) [of y] by (auto simp: edges_def)
  qed
  then show ?thesis using run x(1,4) by auto
qed

text \<open>A loop of two blocks, entered from a third; a fourth is not reached.\<close>

definition example_graph :: lin where
  "example_graph =
     (init_lin (\<lambda>_. undefined))
       \<lparr>bbs := (\<lambda>_. blank_bb)(1 := blank_bb\<lparr>children := [2]\<rparr>, 2 := blank_bb\<lparr>children := [3], parents := [1, 3]\<rparr>,
            3 := blank_bb\<lparr>children := [2], parents := [2]\<rparr>, 4 := blank_bb\<lparr>children := [2]\<rparr>), n_bbs := 5\<rparr>"

lemma example_graph_ok: "graph_ok example_graph" "n_bbs example_graph = 5"
  by (auto simp: graph_ok_def example_graph_def blank_bb_def)

theorem mark_bb_reachable_exact_witness:
  "\<exists>st'. mark_bb_reachable 6 7 1 example_graph = Some st' \<and> marked 7 st' = {c. (1, c) \<in> (edges example_graph)\<^sup>*}"
proof -
  have "marked 7 example_graph = {}" by (auto simp: marked_def example_graph_def blank_bb_def init_lin_def)
  with mark_bb_reachable_exact [of example_graph 1 7] example_graph_ok show ?thesis by auto
qed

end
