(* ===== verification/Cse_Props.thy ===== *)
theory Cse_Props
  imports Cse Flow_Props
begin

text \<open>
  Dominance is what the walk over the parents decides. Comparing instructions is an order, so the
  sorted buckets bring equal instructions together.
\<close>

section \<open>Dominance\<close>

text \<open>One step to a parent other than \<open>b1\<close>.\<close>

definition back_edges :: "addr \<Rightarrow> lin \<Rightarrow> (addr \<times> addr) set" where
  "back_edges b1 st = {(x, y). y \<in> set (parents (bbs st x)) \<and> y \<noteq> b1}"

lemma back_edges_only_marks: "only_marks st st' \<Longrightarrow> back_edges b1 st' = back_edges b1 st"
  by (simp add: back_edges_def only_marksD)

text \<open>The marked blocks added are not the entry, and their parents are \<open>b1\<close> or marked.\<close>

definition closed_off :: "addr \<Rightarrow> addr \<Rightarrow> nat \<Rightarrow> lin \<Rightarrow> lin \<Rightarrow> addr set \<Rightarrow> bool" where
  "closed_off entry b1 g st st' A \<longleftrightarrow>
     (\<forall>x \<in> A. x \<noteq> entry \<and> set (parents (bbs st x)) \<subseteq> insert b1 (marked g st'))"

lemma closed_off_mono:
  "closed_off entry b1 g st st1 A \<Longrightarrow> marked g st1 \<subseteq> marked g st2 \<Longrightarrow> closed_off entry b1 g st st2 A"
  unfolding closed_off_def by blast

lemma closed_off_Un:
  "closed_off entry b1 g st st' (A \<union> B) \<longleftrightarrow> closed_off entry b1 g st st' A \<and> closed_off entry b1 g st st' B"
  unfolding closed_off_def by blast

lemma closed_off_subset: "closed_off entry b1 g st st' B \<Longrightarrow> A \<subseteq> B \<Longrightarrow> closed_off entry b1 g st st' A"
  unfolding closed_off_def by blast

lemma closed_off_marks: "only_marks st st1 \<Longrightarrow> closed_off entry b1 g st1 st' A = closed_off entry b1 g st st' A"
  by (simp add: closed_off_def only_marksD)

text \<open>What a call for the block \<open>b\<close> has found.\<close>

definition searched :: "addr \<Rightarrow> addr \<Rightarrow> nat \<Rightarrow> addr \<Rightarrow> lin \<Rightarrow> bool \<Rightarrow> lin \<Rightarrow> bool" where
  "searched entry b1 g b st r st' \<longleftrightarrow>
     only_marks st st' \<and> marked g st \<subseteq> marked g st'
     \<and> (if r then closed_off entry b1 g st st' (insert b (marked g st' - marked g st))
        else (b, entry) \<in> (back_edges b1 st)\<^sup>*)"

definition searched_all :: "addr \<Rightarrow> addr \<Rightarrow> nat \<Rightarrow> addr list \<Rightarrow> lin \<Rightarrow> bool \<Rightarrow> lin \<Rightarrow> bool" where
  "searched_all entry b1 g ps st r st' \<longleftrightarrow>
     only_marks st st' \<and> marked g st \<subseteq> marked g st'
     \<and> (if r then closed_off entry b1 g st st' (marked g st' - marked g st) \<and> set ps \<subseteq> insert b1 (marked g st')
        else \<exists>p \<in> set ps. p \<noteq> b1 \<and> (p, entry) \<in> (back_edges b1 st)\<^sup>*)"

lemma searched_all_skip:
  assumes "p = b1 \<or> p \<in> marked g st" "searched_all entry b1 g ps st r st'"
  shows "searched_all entry b1 g (p # ps) st r st'"
  using assms unfolding searched_all_def by (cases r) auto

lemma searched_all_false:
  assumes "p \<noteq> b1" "searched entry b1 g p (mark g p st) False st'"
  shows "searched_all entry b1 g (p # ps) st False st'"
proof -
  note om = mark_only [of st g p]
  have a: "only_marks (mark g p st) st'" "insert p (marked g st) \<subseteq> marked g st'" "(p, entry) \<in> (back_edges b1 st)\<^sup>*"
    using assms(2) unfolding searched_def marked_mark back_edges_only_marks [OF om] by simp_all
  then show ?thesis using only_marks_trans [OF om a(1)] assms(1) unfolding searched_all_def by auto
qed

lemma searched_all_true:
  assumes "p \<notin> marked g st" and s: "searched entry b1 g p (mark g p st) True st1"
    and "searched_all entry b1 g ps st1 r st'"
  shows "searched_all entry b1 g (p # ps) st r st'"
proof -
  note om = mark_only [of st g p]
  have a: "only_marks (mark g p st) st1" "insert p (marked g st) \<subseteq> marked g st1"
    "closed_off entry b1 g st st1 (insert p (marked g st1 - insert p (marked g st)))"
    using s unfolding searched_def marked_mark closed_off_marks [OF om] by simp_all
  have om1: "only_marks st st1" by (rule only_marks_trans [OF om a(1)])
  have m1: "closed_off entry b1 g st st1 (marked g st1 - marked g st)"
    by (rule closed_off_subset [OF a(3)]) blast
  have b: "only_marks st1 st'" "marked g st1 \<subseteq> marked g st'"
    using assms(3) unfolding searched_all_def by simp_all
  have om2: "only_marks st st'" by (rule only_marks_trans [OF om1 b(1)])
  show ?thesis
  proof (cases r)
    case True
    have c: "closed_off entry b1 g st st' (marked g st' - marked g st1)" "set ps \<subseteq> insert b1 (marked g st')"
      using assms(3) True unfolding searched_all_def closed_off_marks [OF om1] by simp_all
    have "closed_off entry b1 g st st' ((marked g st1 - marked g st) \<union> (marked g st' - marked g st1))"
      using c(1) closed_off_mono [OF m1 b(2)] by (simp add: closed_off_Un)
    then have "closed_off entry b1 g st st' (marked g st' - marked g st)"
      by (rule closed_off_subset) blast
    moreover have "set (p # ps) \<subseteq> insert b1 (marked g st')" using a(2) b(2) c(2) by auto
    ultimately show ?thesis using om2 True a(2) b(2) unfolding searched_all_def by auto
  next
    case False
    then show ?thesis
      using assms(3) om2 a(2) b(2) unfolding searched_all_def back_edges_only_marks [OF om1] by auto
  qed
qed

lemma all_parents_searched:
  assumes IH: "\<And>b st. graph_ok st \<Longrightarrow> n_bbs st = N \<Longrightarrow> b < N \<Longrightarrow> card (unmarked N g st) < n \<Longrightarrow>
      \<exists>r st'. dm b st = Some (r, st') \<and> searched entry b1 g b st r st'"
    and "graph_ok st" "n_bbs st = N" "set ps \<subseteq> {..< N}" "card (unmarked N g st) \<le> n"
  shows "\<exists>r st'. all_parents dm b1 g ps st = Some (r, st') \<and> searched_all entry b1 g ps st r st'"
  using assms(2-)
proof (induction ps arbitrary: st)
  case Nil
  show ?case by (auto simp: searched_all_def only_marks_refl closed_off_def)
next
  case (Cons p ps)
  have p: "p < N" and ps: "set ps \<subseteq> {..< N}" using Cons.prems(3) by simp_all
  show ?case
  proof (cases "p = b1 \<or> generation (bbs st p) = g")
    case True
    from Cons.IH [OF Cons.prems(1,2) ps Cons.prems(4)] obtain r st' where
      "all_parents dm b1 g ps st = Some (r, st')" "searched_all entry b1 g ps st r st'" by blast
    moreover from True have "p = b1 \<or> p \<in> marked g st" by (simp add: marked_def)
    ultimately show ?thesis using searched_all_skip True by auto
  next
    case False
    then have new: "p \<notin> marked g st" "p \<noteq> b1" "generation (bbs st p) \<noteq> g" by (simp_all add: marked_def)
    let ?st = "mark g p st"
    note om = mark_only [of st g p]
    have g1: "graph_ok ?st" "n_bbs ?st = N"
      using Cons.prems(1,2) only_marksD [OF om] by (simp_all add: graph_ok_def)
    have "card (unmarked N g ?st) < n" using unmarked_mark [OF p new(3)] Cons.prems(4) by linarith
    from IH [OF g1 p this] obtain r st1 where run: "dm p ?st = Some (r, st1)" and s: "searched entry b1 g p ?st r st1"
      by blast
    show ?thesis
    proof (cases r)
      case True
      have om1: "only_marks ?st st1" "marked g ?st \<subseteq> marked g st1" using s by (simp_all add: searched_def)
      have g2: "graph_ok st1" "n_bbs st1 = N" using g1 only_marksD [OF om1(1)] by (simp_all add: graph_ok_def)
      have "marked g st \<subseteq> marked g st1" using om1(2) by (auto simp: marked_mark)
      from unmarked_mono [OF this, of N] have "card (unmarked N g st1) \<le> n" using Cons.prems(4) by linarith
      from Cons.IH [OF g2 ps this] obtain q st' where
        "all_parents dm b1 g ps st1 = Some (q, st')" "searched_all entry b1 g ps st1 q st'" by blast
      moreover from s True have "searched entry b1 g p ?st True st1" by simp
      ultimately show ?thesis using run False True searched_all_true [OF new(1), of _ _ st1] by auto
    next
      case r: False
      from s r have "searched entry b1 g p ?st False st1" by simp
      with run False r searched_all_false [OF new(2)] show ?thesis by auto
    qed
  qed
qed

lemma bb_dominates_at_searched:
  assumes "graph_ok st" "n_bbs st = N" "b < N" "card (unmarked N g st) < n"
  shows "\<exists>r st'. bb_dominates_at n entry b1 g b st = Some (r, st') \<and> searched entry b1 g b st r st'"
  using assms
proof (induction n arbitrary: b st)
  case (Suc n)
  show ?case
  proof (cases "b = entry")
    case True
    then show ?thesis by (auto simp: searched_def only_marks_refl)
  next
    case False
    have ps: "set (parents (bbs st b)) \<subseteq> {..< N}" using Suc.prems(1-3) by (auto simp: graph_ok_def)
    have c: "card (unmarked N g st) \<le> n" using Suc.prems(4) by simp
    from all_parents_searched [OF Suc.IH Suc.prems(1,2) ps c] obtain r st' where
      run: "all_parents (bb_dominates_at n entry b1 g) b1 g (parents (bbs st b)) st = Some (r, st')"
      and s: "searched_all entry b1 g (parents (bbs st b)) st r st'" by blast
    have "searched entry b1 g b st r st'"
    proof (cases r)
      case True
      with s False show ?thesis by (simp add: searched_def searched_all_def closed_off_def)
    next
      case r: False
      with s obtain p where "(b, p) \<in> back_edges b1 st" "(p, entry) \<in> (back_edges b1 st)\<^sup>*"
        by (auto simp: searched_all_def back_edges_def)
      then have "(b, entry) \<in> (back_edges b1 st)\<^sup>*" by (rule converse_rtrancl_into_rtrancl)
      with s r show ?thesis by (simp add: searched_def searched_all_def)
    qed
    with run False show ?thesis by auto
  qed
qed simp

text \<open>
  C30. The test for dominance ends and is exact: with a fresh generation, \<open>bb_dominates\<close> answers
  whether every way back from \<open>b2\<close> over the parents to the entry's block goes through \<open>b1\<close>; it
  only leaves marks behind.
\<close>

theorem bb_dominates_exact:
  assumes "graph_ok st" "b2 < n_bbs st" "marked g st = {}"
  shows "\<exists>r st'. bb_dominates ep b1 b2 g st = Some (r, st') \<and> only_marks st st'
    \<and> (r \<longleftrightarrow> (b2, i_bb (insns st (ep_entry ep))) \<notin> (back_edges b1 st)\<^sup>*)"
proof -
  let ?e = "i_bb (insns st (ep_entry ep))"
  have "card (unmarked (n_bbs st) g st) \<le> card {..< n_bbs st}"
    by (intro card_mono) (auto simp: unmarked_def)
  then have "card (unmarked (n_bbs st) g st) < Suc (n_bbs st)" by simp
  from bb_dominates_at_searched [OF assms(1) refl assms(2) this] obtain r st' where
    run: "bb_dominates_at (Suc (n_bbs st)) ?e b1 g b2 st = Some (r, st')" and s: "searched ?e b1 g b2 st r st'"
    by blast
  have "(b2, ?e) \<notin> (back_edges b1 st)\<^sup>*" if r
  proof
    have c: "closed_off ?e b1 g st st' (insert b2 (marked g st'))" using s that assms(3) by (simp add: searched_def)
    assume "(b2, ?e) \<in> (back_edges b1 st)\<^sup>*"
    moreover have "x \<in> insert b2 (marked g st')" if "(b2, x) \<in> (back_edges b1 st)\<^sup>*" for x
      using that
    proof (induction rule: rtrancl_induct)
      case (step y z)
      then have "set (parents (bbs st y)) \<subseteq> insert b1 (marked g st')" using c unfolding closed_off_def by blast
      with step.hyps(2) show ?case by (auto simp: back_edges_def)
    qed simp
    ultimately show False using c unfolding closed_off_def by blast
  qed
  moreover have "r" if "(b2, ?e) \<notin> (back_edges b1 st)\<^sup>*"
    using s that by (cases r) (simp_all add: searched_def)
  ultimately have "r \<longleftrightarrow> (b2, ?e) \<notin> (back_edges b1 st)\<^sup>*" by blast
  moreover have "bb_dominates ep b1 b2 g st = Some (r, st')" using run by (simp only: bb_dominates_def)
  moreover have "only_marks st st'" using s by (simp only: searched_def)
  ultimately show ?thesis by blast
qed

text \<open>A diamond: the entry 1 leads to 2 and 3, both lead to 4. The entry dominates 4, the block 2 does not.\<close>

definition diamond :: lin where
  "diamond =
     (init_lin (\<lambda>_. undefined))
       \<lparr>insns := (\<lambda>_. blank_insn)(9 := blank_insn\<lparr>i_bb := 1\<rparr>),
        bbs := (\<lambda>_. blank_bb)(1 := blank_bb\<lparr>children := [2, 3]\<rparr>, 2 := blank_bb\<lparr>children := [4], parents := [1]\<rparr>,
            3 := blank_bb\<lparr>children := [4], parents := [1]\<rparr>, 4 := blank_bb\<lparr>parents := [2, 3]\<rparr>), n_bbs := 5\<rparr>"

lemma diamond_ok: "graph_ok diamond" "n_bbs diamond = 5" "marked 7 diamond = {}" "i_bb (insns diamond 9) = 1"
  by (auto simp: graph_ok_def diamond_def blank_bb_def marked_def init_lin_def)

lemma bb_dominates_exact_witness:
  "(\<exists>r st'. bb_dominates \<lparr>ep_name = undefined, accesses = [], ep_bbs = [1, 2, 3, 4], active = 0, ep_entry = 9\<rparr> 2 4 7 diamond = Some (r, st')
      \<and> only_marks diamond st' \<and> (r \<longleftrightarrow> (4, 1) \<notin> (back_edges 2 diamond)\<^sup>*))
   \<and> (4, 1) \<in> (back_edges 2 diamond)\<^sup>*"
proof
  show "\<exists>r st'. bb_dominates \<lparr>ep_name = undefined, accesses = [], ep_bbs = [1, 2, 3, 4], active = 0, ep_entry = 9\<rparr> 2 4 7 diamond = Some (r, st')
      \<and> only_marks diamond st' \<and> (r \<longleftrightarrow> (4, 1) \<notin> (back_edges 2 diamond)\<^sup>*)"
    using bb_dominates_exact [of diamond 4 7 "\<lparr>ep_name = undefined, accesses = [], ep_bbs = [1, 2, 3, 4], active = 0, ep_entry = 9\<rparr>" 2]
    by (simp add: diamond_ok)
  have "(4, 3) \<in> back_edges 2 diamond" "(3, 1) \<in> back_edges 2 diamond"
    by (simp_all add: back_edges_def diamond_def blank_bb_def)
  then show "(4, 1) \<in> (back_edges 2 diamond)\<^sup>*" by (meson r_into_rtrancl rtrancl_trans)
qed

section \<open>The order of the instructions\<close>

text \<open>Numbers in lexicographic order, a list before the longer ones that it begins.\<close>

fun list_cmp :: "nat list \<Rightarrow> nat list \<Rightarrow> int" where
  "list_cmp [] [] = 0"
| "list_cmp [] (y # ys) = -1"
| "list_cmp (x # xs) [] = 1"
| "list_cmp (x # xs) (y # ys) = then_by x y (list_cmp xs ys)"

lemma then_by_zero [simp]: "then_by x y c = 0 \<longleftrightarrow> x = y \<and> c = 0"
  by (auto simp: then_by_def)

lemma list_cmp_zero: "list_cmp xs ys = 0 \<longleftrightarrow> xs = ys"
  by (induction xs ys rule: list_cmp.induct) auto

lemma list_cmp_flip: "0 < list_cmp xs ys \<longleftrightarrow> list_cmp ys xs < 0"
  by (induction xs ys rule: list_cmp.induct) (auto simp: then_by_def)

lemma list_cmp_le_trans: "list_cmp xs ys \<le> 0 \<Longrightarrow> list_cmp ys zs \<le> 0 \<Longrightarrow> list_cmp xs zs \<le> 0"
proof (induction xs ys arbitrary: zs rule: list_cmp.induct)
  case (4 x xs y ys)
  then show ?case by (cases zs) (auto simp: then_by_def split: if_splits)
next
  case (2 y ys)
  show ?case by (cases zs) simp_all
qed auto

text \<open>What two instructions are compared by.\<close>

definition insn_key :: "(symref option \<Rightarrow> nat) \<Rightarrow> lin \<Rightarrow> addr \<Rightarrow> nat list" where
  "insn_key sa st i =
     (let x = insns st i; op = opcode x in
      opcode_nr op #
        (if op = OP_SEL then [src3 x, src2 x, src1 x, i_size x]
         else if is_binary op \<or> is_bincmp op then [src2 x, src1 x, i_size x]
         else if op \<in> {OP_NOT, OP_NEG, OP_SYMADDR} then [src1 x, i_size x]
         else if op = OP_SETVAL then [i_val x, i_size x]
         else if op = OP_PHI then
           concat (map (\<lambda>p. let d = insns st (p_def (pseudos st p)) in [src1 d, i_bb d])
             (real_phis st (map (cells st) (phi_list x))))
         else if op \<in> {OP_CAST, OP_SCAST, OP_PTRCAST} then [sa (orig_type x), src1 x, i_size x]
         else [i_size x]))"

lemma phi_list_cmp_key:
  "phi_list_cmp st ps qs =
     list_cmp (concat (map (\<lambda>p. let d = insns st (p_def (pseudos st p)) in [src1 d, i_bb d]) ps))
       (concat (map (\<lambda>p. let d = insns st (p_def (pseudos st p)) in [src1 d, i_bb d]) qs))"
  by (induction st ps qs rule: phi_list_cmp.induct) (simp_all add: Let_def phi_compare_def then_by_def)

lemma index_of_eq: "x \<in> set xs \<Longrightarrow> index_of x xs = index_of y xs \<Longrightarrow> x = y"
  by (induction xs) (auto split: if_splits)

lemma opcode_listed: "op \<in> set opcodes"
  by (cases op) (simp_all add: opcodes_def)

lemma opcode_nr_eq: "opcode_nr op = opcode_nr op' \<longleftrightarrow> op = op'"
  unfolding opcode_nr_def using index_of_eq [OF opcode_listed] by blast

lemma insn_compare_key: "insn_compare sa st i j = list_cmp (insn_key sa st i) (insn_key sa st j)"
proof (cases "opcode (insns st i) = opcode (insns st j)")
  case True
  then show ?thesis
    by (auto simp: insn_compare_def insn_key_def Let_def phi_list_compare_def phi_list_cmp_key then_by_def)
next
  case False
  then have "opcode_nr (opcode (insns st i)) \<noteq> opcode_nr (opcode (insns st j))" by (simp add: opcode_nr_eq)
  then show ?thesis by (simp add: insn_compare_def insn_key_def Let_def then_by_def)
qed

lemma concat_pairs: "concat (map (\<lambda>p. [f p, g p]) ps) = concat (map (\<lambda>p. [f p, g p]) qs)
    \<longleftrightarrow> map (\<lambda>p. (f p, g p)) ps = map (\<lambda>p. (f p, g p)) qs"
proof (induction ps arbitrary: qs)
  case Nil
  show ?case by (cases qs) simp_all
next
  case (Cons p ps)
  then show ?case by (cases qs) auto
qed

interpretation insn_order: cmp_order "insn_compare sa st" for sa st
  by unfold_locales (unfold insn_compare_key, simp add: list_cmp_flip, rule list_cmp_le_trans)

text \<open>The opcodes that the comparison distinguishes, and the binary ones.\<close>

lemma opcode_cases [case_names sel binary unary setval phi cast other]:
  obtains "op = OP_SEL" "\<not> is_binary op" "\<not> is_bincmp op"
  | "is_binary op \<or> is_bincmp op" "op \<notin> {OP_SEL, OP_PHI, OP_SETVAL, OP_NOT, OP_NEG, OP_SYMADDR, OP_CAST, OP_SCAST, OP_PTRCAST}"
  | "op \<in> {OP_NOT, OP_NEG, OP_SYMADDR}" "\<not> is_binary op" "\<not> is_bincmp op"
      "op \<notin> {OP_SEL, OP_PHI, OP_SETVAL, OP_CAST, OP_SCAST, OP_PTRCAST}"
  | "op = OP_SETVAL" "\<not> is_binary op" "\<not> is_bincmp op"
  | "op = OP_PHI" "\<not> is_binary op" "\<not> is_bincmp op"
  | "op \<in> {OP_CAST, OP_SCAST, OP_PTRCAST}" "\<not> is_binary op" "\<not> is_bincmp op"
      "op \<notin> {OP_SEL, OP_PHI, OP_SETVAL, OP_NOT, OP_NEG, OP_SYMADDR}"
  | "\<not> is_binary op" "\<not> is_bincmp op"
      "op \<notin> {OP_SEL, OP_PHI, OP_SETVAL, OP_NOT, OP_NEG, OP_SYMADDR, OP_CAST, OP_SCAST, OP_PTRCAST}"
proof -
  have b: "op \<notin> {OP_SEL, OP_PHI, OP_SETVAL, OP_NOT, OP_NEG, OP_SYMADDR, OP_CAST, OP_SCAST, OP_PTRCAST}"
    if "is_binary op \<or> is_bincmp op"
    using that by (elim disjE) (auto simp: is_binary_def is_bincmp_def)
  show thesis
  proof (cases "is_binary op \<or> is_bincmp op")
    case True
    show thesis by (rule that(2) [OF True b [OF True]])
  next
    case False
    then have nb: "\<not> is_binary op" "\<not> is_bincmp op" by simp_all
    consider "op = OP_SEL" | "op \<in> {OP_NOT, OP_NEG, OP_SYMADDR}" | "op = OP_SETVAL" | "op = OP_PHI"
      | "op \<in> {OP_CAST, OP_SCAST, OP_PTRCAST}"
      | "op \<notin> {OP_SEL, OP_PHI, OP_SETVAL, OP_NOT, OP_NEG, OP_SYMADDR, OP_CAST, OP_SCAST, OP_PTRCAST}"
      by blast
    then show thesis
    proof cases
      case 1 then show thesis by (rule that(1) [OF _ nb])
    next
      case 2 then show thesis by (rule that(3) [OF _ nb]) (use 2 in auto)
    next
      case 3 then show thesis by (rule that(4) [OF _ nb])
    next
      case 4 then show thesis by (rule that(5) [OF _ nb])
    next
      case 5 then show thesis by (rule that(6) [OF _ nb]) (use 5 in auto)
    next
      case 6 then show thesis by (rule that(7) [OF nb])
    qed
  qed
qed

text \<open>
  C31. The comparison of two instructions is the lexicographic order of what they compute: it is
  zero exactly when the opcodes agree, and with them the operands and the size, or for a phi node
  the sources and the blocks they come from, in order; casts also agree in the type cast from.
\<close>

theorem insn_compare_zero:
  assumes "inj sa"
  shows "insn_compare sa st i j = 0 \<longleftrightarrow>
    (let x = insns st i; y = insns st j; op = opcode x;
         from = (\<lambda>z. map (\<lambda>p. let d = insns st (p_def (pseudos st p)) in (src1 d, i_bb d)) (real_phis st (map (cells st) (phi_list z))))
     in opcode y = op \<and> (op = OP_PHI \<longrightarrow> from x = from y) \<and> (op \<noteq> OP_PHI \<longrightarrow> i_size x = i_size y)
      \<and> (op = OP_SEL \<or> is_binary op \<or> is_bincmp op \<or> op \<in> {OP_NOT, OP_NEG, OP_SYMADDR, OP_CAST, OP_SCAST, OP_PTRCAST}
           \<longrightarrow> src1 x = src1 y)
      \<and> (op = OP_SEL \<or> is_binary op \<or> is_bincmp op \<longrightarrow> src2 x = src2 y)
      \<and> (op = OP_SEL \<longrightarrow> src3 x = src3 y)
      \<and> (op = OP_SETVAL \<longrightarrow> i_val x = i_val y)
      \<and> (op \<in> {OP_CAST, OP_SCAST, OP_PTRCAST} \<longrightarrow> orig_type x = orig_type y))"
proof (cases "opcode (insns st i) = opcode (insns st j)")
  case False
  then show ?thesis by (simp add: insn_compare_key list_cmp_zero insn_key_def Let_def opcode_nr_eq)
next
  case True
  have sa: "sa a = sa b \<longleftrightarrow> a = b" for a b using assms by (simp add: inj_eq)
  show ?thesis unfolding insn_compare_key list_cmp_zero insn_key_def Let_def True
    by (cases "opcode (insns st j)" rule: opcode_cases) (simp_all add: sa concat_pairs conj_ac)
qed

text \<open>Two casts of the same pseudo from the same type, and one from another type.\<close>

definition three_casts :: lin where
  "three_casts =
     (init_lin (\<lambda>_. undefined))
       \<lparr>insns := (\<lambda>_. blank_insn)(5 := blank_insn\<lparr>opcode := OP_CAST, i_size := 64, src1 := 8, orig_type := Some Int_ctype\<rparr>,
          6 := blank_insn\<lparr>opcode := OP_CAST, i_size := 64, src1 := 8, orig_type := Some Uint_ctype\<rparr>,
          7 := blank_insn\<lparr>opcode := OP_CAST, i_size := 64, src1 := 8, orig_type := Some Int_ctype\<rparr>)\<rparr>"

definition static_symbols :: "symref list" where
  "static_symbols =
     [Int_type, Fp_type, Bool_ctype, Void_ctype, Type_ctype, Char_ctype, Schar_ctype, Uchar_ctype, Short_ctype,
      Sshort_ctype, Ushort_ctype, Int_ctype, Sint_ctype, Uint_ctype, Long_ctype, Slong_ctype, Ulong_ctype,
      Llong_ctype, Sllong_ctype, Ullong_ctype, Lllong_ctype, Slllong_ctype, Ulllong_ctype, Float_ctype,
      Double_ctype, Ldouble_ctype, String_ctype, Ptr_ctype, Lazy_ptr_ctype, Incomplete_ctype, Label_ctype,
      Bad_ctype, Null_ctype, Zero_int]"

definition sym_addr :: "symref option \<Rightarrow> nat" where
  "sym_addr s =
     (case s of None \<Rightarrow> 0 | Some (Sym n) \<Rightarrow> 40 + n | Some r \<Rightarrow> Suc (index_of r static_symbols))"

lemma index_of_less: "x \<in> set xs \<Longrightarrow> index_of x xs < length xs"
  by (induction xs) auto

lemma sym_addr_static:
  assumes "\<And>n. r \<noteq> Sym n"
  shows "sym_addr (Some r) = Suc (index_of r static_symbols)" "r \<in> set static_symbols"
  using assms by (cases r; simp add: sym_addr_def static_symbols_def)+

lemma inj_sym_addr: "inj sym_addr"
proof (rule injI)
  fix x y
  assume e: "sym_addr x = sym_addr y"
  have len: "length static_symbols < 40" by (simp add: static_symbols_def)
  have small: "0 < sym_addr (Some r) \<and> sym_addr (Some r) < 40" if "\<And>n. r \<noteq> Sym n" for r
    using sym_addr_static [OF that] index_of_less [OF sym_addr_static(2) [OF that]] len by simp
  have sym: "sym_addr (Some (Sym n)) = 40 + n" and none: "sym_addr None = 0" for n by (simp_all add: sym_addr_def)
  show "x = y"
  proof (cases x; cases y)
    fix a b
    assume xy: "x = Some a" "y = Some b"
    show ?thesis
    proof (cases "(\<exists>n. a = Sym n) \<or> (\<exists>n. b = Sym n)")
      case True
      then show ?thesis using e small [of a] small [of b] xy sym by force
    next
      case False
      then have "a = b"
        using e xy sym_addr_static [of a] sym_addr_static [of b] index_of_eq [of a static_symbols b] by auto
      with xy show ?thesis by simp
    qed
  next
    fix a assume "x = None" "y = Some a"
    then show ?thesis using e none sym small [of a] by (cases "\<exists>n. a = Sym n") force+
  next
    fix a assume "x = Some a" "y = None"
    then show ?thesis using e none sym small [of a] by (cases "\<exists>n. a = Sym n") force+
  qed simp
qed

lemma insn_compare_zero_witness:
  "insn_compare sym_addr three_casts 5 7 = 0 \<and> insn_compare sym_addr three_casts 5 6 \<noteq> 0"
  unfolding insn_compare_zero [OF inj_sym_addr]
  by (simp add: three_casts_def Let_def is_binary_def is_bincmp_def)

section \<open>Sorted buckets\<close>

lemma ordered_class_convex:
  assumes "cmp_order cmp" "ordered_by cmp xs" "a < b" "b < c" "c < length xs" "cmp (xs ! a) (xs ! c) = 0"
  shows "cmp (xs ! a) (xs ! b) = 0"
proof -
  have ab: "cmp (xs ! a) (xs ! b) \<le> 0" and bc: "cmp (xs ! b) (xs ! c) \<le> 0"
    using assms(2-5) by (auto simp: ordered_by_def sorted_wrt_iff_nth_less)
  have "cmp (xs ! c) (xs ! a) \<le> 0" using cmp_order.eqv_sym [OF assms(1), of "xs ! a"] assms(6) by simp
  from cmp_order.cmp_trans [OF assms(1) bc this] have "cmp (xs ! b) (xs ! a) \<le> 0" .
  then show ?thesis using ab cmp_order.cmp_flip [OF assms(1), of "xs ! b" "xs ! a"] by linarith
qed

text \<open>
  C32. Sorting a bucket brings the instructions that compute the same thing next to each other:
  whatever stands between two of them computes it too, so comparing neighbours finds them all. No
  instruction is lost or added, and equal ones keep their order.
\<close>

theorem sort_instruction_list_groups:
  "mset (entries (sort_instruction_list sa st l)) = mset (entries l)
   \<and> filter (\<lambda>i. insn_compare sa st x i = 0) (entries (sort_instruction_list sa st l))
      = filter (\<lambda>i. insn_compare sa st x i = 0) (entries l)
   \<and> (\<forall>c < length (entries (sort_instruction_list sa st l)). \<forall>b < c. \<forall>a < b.
        insn_compare sa st (entries (sort_instruction_list sa st l) ! a) (entries (sort_instruction_list sa st l) ! c) = 0 \<longrightarrow>
        insn_compare sa st (entries (sort_instruction_list sa st l) ! a) (entries (sort_instruction_list sa st l) ! b) = 0)"
proof -
  have o: "cmp_order (insn_compare sa st)" by unfold_locales
  have ok: "ordered_by (insn_compare sa st) (entries (sort_instruction_list sa st l))"
    "same_classes (insn_compare sa st) (entries l) (entries (sort_instruction_list sa st l))"
    using insn_order.sort_list_ok [of sa st l] by (simp_all add: sort_instruction_list_def)
  show ?thesis
    using ok(2) ordered_class_convex [OF o ok(1)] by (simp add: same_classes_def)
qed

lemma sort_instruction_list_groups_witness:
  "mset (entries (sort_instruction_list sym_addr three_casts [[5, 6], [7]])) = mset [5, 6, 7]
   \<and> filter (\<lambda>i. insn_compare sym_addr three_casts 5 i = 0)
       (entries (sort_instruction_list sym_addr three_casts [[5, 6], [7]])) = [5, 7]"
proof -
  note g = sort_instruction_list_groups [of sym_addr three_casts "[[5, 6], [7]]" 5]
  have c: "insn_compare sym_addr three_casts 5 5 = 0" "insn_compare sym_addr three_casts 5 6 \<noteq> 0"
    "insn_compare sym_addr three_casts 5 7 = 0"
    by code_simp+
  have e: "entries [[5, 6], [7 :: nat]] = [5, 6, 7]" by simp
  show ?thesis using g unfolding e by (simp add: c)
qed

end
