(* ===== verification/Conversion.thy ===== *)
theory Conversion
  imports Layout
begin

text \<open>
  The types of expressions (first part of \<open>evaluate.c\<close>): promotions and the usual conversions,
  restricted types, implied casts, the difference of two types, and arrays and functions that turn
  into pointers. A NULL pointer that the code follows is \<open>None\<close>.
\<close>

section \<open>What the functions are given\<close>

text \<open>
  Warning flags, the types of the target, and the functions of other parts: \<open>evaluate_expression\<close>,
  \<open>examine_symbol_type\<close>, \<open>evaluate_symbol\<close> and \<open>expand_expression\<close>.
\<close>

record econf =
  e_target :: target
  size_t_ctype :: symref
  ssize_t_ctype :: symref
  Wenum_mismatch :: bool
  Wtypesign :: bool
  Wnon_pointer_null :: bool
  Wcast_to_as :: bool
  Wptr_subtraction_blows :: bool

type_synonym evaluate_s = "symref \<Rightarrow> lstate \<Rightarrow> (symref option \<times> lstate) option"

record front =
  f_conf :: econf
  f_expr :: evaluate_e
  f_exam :: examine_t
  f_sym :: evaluate_s
  f_expand :: expand_e

abbreviation "emsg m \<equiv> lwarn (Emsg m)"

abbreviation (input) "MOD_LONG_ALL \<equiv> or (or MOD_LONG MOD_LONGLONG) MOD_LONGLONGLONG"
abbreviation (input) "MOD_SIZE \<equiv> or (or MOD_CHAR MOD_SHORT) MOD_LONG_ALL"
abbreviation (input) "MOD_SPECIFIER \<equiv> or MOD_SIZE MOD_SIGNEDNESS"
abbreviation (input) "MOD_IGNORE \<equiv>
  or (or (or MOD_TOPLEVEL MOD_STORAGE) (or MOD_ADDRESSABLE MOD_ASSIGNED))
     (or (or MOD_USERTYPE MOD_ACCESSED) MOD_EXPLICITLY_SIGNED)"
abbreviation (input) "MOD_IGN \<equiv> or MOD_VOLATILE MOD_CONST"

abbreviation as_of :: "symtab \<Rightarrow> symref \<Rightarrow> u32" where
  "as_of tab s \<equiv> address_space (s_ctype (tab s))"

section \<open>Promotions\<close>

definition integer_promotion :: "target \<Rightarrow> symtab \<Rightarrow> symref \<Rightarrow> symref option" where
  "integer_promotion tg tab s = do {
     t \<leftarrow> (if sym_type (tab s) = SYM_BITFIELD then base_of tab s else Some s);
     let m = mods tab t;
     Some (if bit_size (tab s) < bits_in_int tg then Int_ctype
           else if has_mod m (or MOD_CHAR MOD_SHORT) then (if has_mod m MOD_UNSIGNED then Uint_ctype else Int_ctype)
           else t) }"

definition bigger_of :: "symtab \<Rightarrow> symref \<Rightarrow> symref \<Rightarrow> symref" where
  "bigger_of tab l r =
     (let lm = mods tab l; rm = mods tab r in
      if l = r then l
      else if bit_size (tab l) > bit_size (tab r) then l
      else if bit_size (tab r) > bit_size (tab l) then r
      else if has_mod (xor lm rm) MOD_UNSIGNED then (if has_mod lm MOD_UNSIGNED then l else r)
      else if has_mod (and lm (not rm)) MOD_LONG_ALL then l
      else r)"

definition bigger_int_type :: "target \<Rightarrow> symtab \<Rightarrow> symref \<Rightarrow> symref \<Rightarrow> symref option" where
  "bigger_int_type tg tab l r = do {
     l1 \<leftarrow> integer_promotion tg tab l;
     r1 \<leftarrow> integer_promotion tg tab r;
     Some (bigger_of tab l1 r1) }"

section \<open>Casts\<close>

definition same_cast_type :: "symtab \<Rightarrow> symref \<Rightarrow> symref \<Rightarrow> bool" where
  "same_cast_type tab a b = (bit_size (tab a) = bit_size (tab b) \<and> bit_offset (tab a) = bit_offset (tab b))"

text \<open>The modifiers and address spaces met on the way down the nodes are collected.\<close>

partial_function (option) under_nodes ::
    "symtab \<Rightarrow> symref option \<Rightarrow> u64 \<Rightarrow> u32 \<Rightarrow> (symref option \<times> u64 \<times> u32) option" where
  "under_nodes tab so m a =
     (case so of
        None \<Rightarrow> Some (None, m, a)
      | Some s \<Rightarrow>
          if sym_type (tab s) = SYM_NODE then under_nodes tab (base_of tab s) (or m (mods tab s)) (or a (as_of tab s))
          else Some (Some s, or m (mods tab s), or a (as_of tab s)))"

definition base_type_mod :: "symtab \<Rightarrow> symref option \<Rightarrow> (symref option \<times> u64 \<times> u32) option" where
  "base_type_mod tab so = do {
     (b, m, a) \<leftarrow> under_nodes tab so 0 0;
     Some (b, and m (not MOD_IGNORE), a) }"

definition is_same_type :: "expression \<Rightarrow> symref \<Rightarrow> lstate \<Rightarrow> (bool \<times> lstate) option" where
  "is_same_type e new st = do {
     (b1, m1, a1) \<leftarrow> base_type_mod (ltab st) (e_ctype e);
     (b2, m2, a2) \<leftarrow> base_type_mod (ltab st) (Some new);
     let dif = and (xor m1 m2) (not MOD_NOCAST);
     let same = (b1 = b2 \<and> a1 = a2);
     Some (if same \<and> dif = 0 then (True, st)
           else if same \<and> dif = MOD_CONST then (False, st)
           else if has_mod (or m1 m2) MOD_NOCAST then (False, emsg ''implicit cast to/from nocast type'' st)
           else (False, st)) }"

definition enum_side :: "symtab \<Rightarrow> symref option \<Rightarrow> symref option" where
  "enum_side tab so =
     (case so of None \<Rightarrow> None | Some s \<Rightarrow> if sym_type (tab s) = SYM_NODE then base_of tab s else Some s)"

definition warn_for_different_enum_types ::
    "econf \<Rightarrow> symref option \<Rightarrow> symref option \<Rightarrow> lstate \<Rightarrow> lstate option" where
  "warn_for_different_enum_types cf a b st =
     (if Wenum_mismatch cf then do {
        x \<leftarrow> enum_side (ltab st) a;
        y \<leftarrow> enum_side (ltab st) b;
        Some (if x \<noteq> y \<and> sym_type (ltab st x) = SYM_ENUM \<and> sym_type (ltab st y) = SYM_ENUM
              then emsg ''mixing different enum types'' st else st) }
      else Some st)"

definition implied_cast :: "expression \<Rightarrow> symref \<Rightarrow> expression" where
  "implied_cast e t = Expr (e_flags e) 0 (e_pos e) (Some t) (Cast EXPR_IMPLIED_CAST t (Some e))"

text \<open>
  An implied cast moves below \<open>~\<close>, and replaces one to a type that is not smaller. Both
  overwrite the expression that is cast; the middle part of the result tells whether the result is
  that object.
\<close>

lemma smaller_unop: "e_node e = Unary k u x \<Longrightarrow> (size u < size e \<Longrightarrow> P) \<Longrightarrow> P"
  by (cases e) auto

function cast_object :: "econf \<Rightarrow> expression \<Rightarrow> symref \<Rightarrow> lstate \<Rightarrow> (expression \<times> bool \<times> lstate) option" where
  "cast_object cf old t st = do {
     st1 \<leftarrow> warn_for_different_enum_types cf (e_ctype old) (Some t) st;
     (same, st2) \<leftarrow> (if e_ctype old \<noteq> Some Null_ctype then is_same_type old t st1 else Some (False, st1));
     if same then Some (old, True, st2)
     else
       (case e_node old of
          Unary EXPR_PREOP u k \<Rightarrow>
            (case e_ctype old of
               None \<Rightarrow> None
             | Some c \<Rightarrow>
                 if bit_size (ltab st2 c) \<ge> bit_size (ltab st2 t) \<and> e_op old = op_chr (CHR ''~'') then do {
                   (u1, own, st3) \<leftarrow> cast_object cf u t st2;
                   Some (Expr (e_flags old) (e_op old) (e_pos old) (Some t) (Unary EXPR_PREOP u1 k), True, st3) }
                 else Some (implied_cast old t, False, st2))
        | Cast EXPR_IMPLIED_CAST ct x \<Rightarrow> do {
            st3 \<leftarrow> warn_for_different_enum_types cf (e_ctype old) (Some t) st2;
            c \<leftarrow> e_ctype old;
            if bit_size (ltab st3 c) \<ge> bit_size (ltab st3 t) then do {
              orig \<leftarrow> x;
              oc \<leftarrow> e_ctype orig;
              Some (if same_cast_type (ltab st3) oc t then (orig, False, st3)
                    else if bit_offset (ltab st3 c) = bit_offset (ltab st3 t)
                    then (Expr (e_flags old) (e_op old) (e_pos old) (Some t) (Cast EXPR_IMPLIED_CAST t (Some orig)), True, st3)
                    else (implied_cast old t, False, st3)) }
            else Some (implied_cast old t, False, st3) }
        | _ \<Rightarrow> Some (implied_cast old t, False, st2)) }"
  by pat_completeness auto

termination cast_object
  by (relation "measure (\<lambda>(cf, old, t, st). size old)") (auto elim!: smaller_unop)

declare cast_object.simps [simp del]

definition cast_to :: "econf \<Rightarrow> expression \<Rightarrow> symref \<Rightarrow> lstate \<Rightarrow> (expression \<times> lstate) option" where
  "cast_to cf old t st = map_option (\<lambda>(e, own, st1). (e, st1)) (cast_object cf old t st)"

section \<open>Kinds of types\<close>

datatype type_flag =
    TYPE_NUM | TYPE_BITFIELD | TYPE_RESTRICT | TYPE_FLOAT | TYPE_PTR | TYPE_COMPOUND | TYPE_FOULED | TYPE_FN

type_synonym tclass = "type_flag set"

definition class_table :: "sym_type \<Rightarrow> tclass" where
  "class_table t =
     (case t of
        SYM_PTR \<Rightarrow> {TYPE_PTR} | SYM_FN \<Rightarrow> {TYPE_PTR, TYPE_FN} | SYM_ARRAY \<Rightarrow> {TYPE_PTR, TYPE_COMPOUND}
      | SYM_STRUCT \<Rightarrow> {TYPE_COMPOUND} | SYM_UNION \<Rightarrow> {TYPE_COMPOUND}
      | SYM_BITFIELD \<Rightarrow> {TYPE_NUM, TYPE_BITFIELD} | SYM_RESTRICT \<Rightarrow> {TYPE_NUM, TYPE_RESTRICT}
      | SYM_FOULED \<Rightarrow> {TYPE_NUM, TYPE_RESTRICT, TYPE_FOULED} | _ \<Rightarrow> {})"

definition is_int :: "tclass \<Rightarrow> bool" where
  "is_int c = (TYPE_NUM \<in> c \<and> TYPE_FLOAT \<notin> c)"

text \<open>The type of a \<open>typeof\<close> is that of its expression.\<close>

definition typeof_base :: "front \<Rightarrow> symref \<Rightarrow> lstate \<Rightarrow> (symref \<times> lstate) option" where
  "typeof_base f t st = do {
     (r, st1) \<leftarrow> (case initializer (ltab st t) of
        None \<Rightarrow> Some (None, st)
      | Some e \<Rightarrow> do {
          (r, e1, st1) \<leftarrow> f_expr f e st;
          Some (r, upd t (\<lambda>x. x\<lparr>initializer := Some e1\<rparr>) st1) });
     case r of
       None \<Rightarrow> Some (Bad_ctype, st1)
     | Some s \<Rightarrow> do {
         b \<leftarrow> (if sym_type (ltab st1 s) = SYM_NODE then base_of (ltab st1) s else Some s);
         Some (b, st1) } }"

definition class_of :: "symtab \<Rightarrow> symref \<Rightarrow> tclass" where
  "class_of tab t =
     (if sym_type (tab t) = SYM_BASETYPE \<and> base_of tab t = Some Int_type then {TYPE_NUM}
      else if sym_type (tab t) = SYM_BASETYPE \<and> base_of tab t = Some Fp_type then {TYPE_NUM, TYPE_FLOAT}
      else class_table (sym_type (tab t)))"

definition classify_type :: "front \<Rightarrow> symref \<Rightarrow> lstate \<Rightarrow> (tclass \<times> symref \<times> lstate) option" where
  "classify_type f s st = do {
     t \<leftarrow> (if sym_type (ltab st s) = SYM_NODE then base_of (ltab st) s else Some s);
     (t1, st1) \<leftarrow> (if sym_type (ltab st t) = SYM_TYPEOF then typeof_base f t st else Some (t, st));
     t2 \<leftarrow> (if sym_type (ltab st1 t1) = SYM_ENUM then base_of (ltab st1) t1 else Some t1);
     Some (class_of (ltab st1) t2, t2, st1) }"

definition is_string_type :: "target \<Rightarrow> symtab \<Rightarrow> symref \<Rightarrow> bool option" where
  "is_string_type tg tab s = do {
     t \<leftarrow> (if sym_type (tab s) = SYM_NODE then base_of tab s else Some s);
     if sym_type (tab t) = SYM_ARRAY then map_option (is_byte_type (t_bits_in_char tg) tab) (base_of tab t)
     else Some False }"

text \<open>A type error: the expression gets the type \<open>bad_ctype\<close>.\<close>

definition bad_expr_type :: "expression \<Rightarrow> lstate \<Rightarrow> (symref option \<times> expression \<times> lstate) option" where
  "bad_expr_type e st =
     Some (Some Bad_ctype, Expr 0 (e_op e) (e_pos e) (Some Bad_ctype) (e_node e),
       emsg ''incompatible types for operation'' st)"

section \<open>Restricted types\<close>

definition restricted_value :: "expression \<Rightarrow> bool" where
  "restricted_value e = (case e_node e of EXPR_VALUE v t \<Rightarrow> v \<noteq> 0 | _ \<Rightarrow> True)"

definition restricted_binop :: "nat \<Rightarrow> nat" where
  "restricted_binop op =
     (if op \<in> {op_chr (CHR ''&''), op_chr (CHR ''=''), SPECIAL_AND_ASSIGN, SPECIAL_OR_ASSIGN, SPECIAL_XOR_ASSIGN} then 1
      else if op \<in> {op_chr (CHR ''|''), op_chr (CHR ''^''), op_chr (CHR ''?'')} then 2
      else if op \<in> {SPECIAL_EQUAL, SPECIAL_NOTEQUAL} then 3
      else 0)"

text \<open>Whether the operator drops the restriction, and the type, which may not be there.\<close>

definition restricted_unop :: "target \<Rightarrow> nat \<Rightarrow> symref \<Rightarrow> lstate \<Rightarrow> (bool \<times> symref option) option" where
  "restricted_unop tg op t st =
     (if op = op_chr (CHR ''~'') then
        (if bit_size (ltab st t) < bits_in_int tg then map_option (\<lambda>b. (False, b)) (befoul t st)
         else Some (False, Some t))
      else if op = op_chr (CHR ''+'') then Some (False, Some t)
      else Some (True, Some t))"

definition restricted_common ::
    "symtab \<Rightarrow> expression \<Rightarrow> expression \<Rightarrow> tclass \<Rightarrow> tclass \<Rightarrow> symref \<Rightarrow> symref \<Rightarrow> symref option" where
  "restricted_common tab l r lc rc lt rt =
     (if TYPE_RESTRICT \<in> lc then
        (if TYPE_RESTRICT \<in> rc then
           (if lt = rt then Some lt
            else if TYPE_FOULED \<in> lc then (if base_of tab lt = Some rt then Some lt else None)
            else if TYPE_FOULED \<in> rc then (if base_of tab rt = Some lt then Some rt else None)
            else None)
         else if \<not> restricted_value r then Some lt else None)
      else if \<not> restricted_value l then Some rt else None)"

text \<open>The type of an operation on restricted types, if it is one that they allow.\<close>

definition restricted_binop_type ::
    "symtab \<Rightarrow> nat \<Rightarrow> expression \<Rightarrow> expression \<Rightarrow> tclass \<Rightarrow> tclass \<Rightarrow> symref \<Rightarrow> symref \<Rightarrow> symref option" where
  "restricted_binop_type tab op l r lc rc lt rt =
     (case restricted_common tab l r lc rc lt rt of
        None \<Rightarrow> None
      | Some c \<Rightarrow>
          (if restricted_binop op = 1 then (if (TYPE_FOULED \<in> lc) \<noteq> (TYPE_FOULED \<in> rc) then base_of tab c else Some c)
           else if restricted_binop op = 3 then (if TYPE_FOULED \<in> lc \<inter> rc then None else Some c)
           else if restricted_binop op = 0 then None
           else Some c))"

text \<open>To the arithmetic type under a restricted one, with a warning.\<close>

definition unrestrict :: "tclass \<Rightarrow> symref \<Rightarrow> lstate \<Rightarrow> (symref \<times> lstate) option" where
  "unrestrict c t st =
     (if TYPE_RESTRICT \<in> c then do {
        t1 \<leftarrow> (if TYPE_FOULED \<in> c then base_of (ltab st) t else Some t);
        t2 \<leftarrow> base_of (ltab st) t1;
        Some (t2, emsg ''degrades to integer'' st) }
      else Some (t, st))"

definition arithmetic_type :: "target \<Rightarrow> symtab \<Rightarrow> tclass \<Rightarrow> tclass \<Rightarrow> symref \<Rightarrow> symref \<Rightarrow> symref option" where
  "arithmetic_type tg tab lc rc lt rt =
     (if TYPE_FLOAT \<notin> lc then (if TYPE_FLOAT \<notin> rc then bigger_int_type tg tab lt rt else Some rt)
      else if TYPE_FLOAT \<in> rc then
        Some (if has_mod (and (mods tab rt) (not (mods tab lt))) MOD_LONG_ALL then rt else lt)
      else Some lt)"

definition usual_conversions ::
    "econf \<Rightarrow> nat \<Rightarrow> expression \<Rightarrow> expression \<Rightarrow> tclass \<Rightarrow> tclass \<Rightarrow> symref \<Rightarrow> symref \<Rightarrow> lstate
     \<Rightarrow> (symref \<times> lstate) option" where
  "usual_conversions cf op l r lc rc lt rt st = do {
     st1 \<leftarrow> warn_for_different_enum_types cf (e_ctype l) (e_ctype r) st;
     let tg = e_target cf;
     if TYPE_RESTRICT \<in> lc \<union> rc then
       (case restricted_binop_type (ltab st1) op l r lc rc lt rt of
          Some c \<Rightarrow> Some (c, st1)
        | None \<Rightarrow> do {
            (lt1, st2) \<leftarrow> unrestrict lc lt st1;
            (rt1, st3) \<leftarrow> unrestrict rc rt st2;
            c \<leftarrow> arithmetic_type tg (ltab st3) lc rc lt1 rt1;
            Some (c, st3) })
     else do { c \<leftarrow> arithmetic_type tg (ltab st1) lc rc lt rt; Some (c, st1) } }"

section \<open>Pointers\<close>

definition blank_symbol :: "sym_type \<Rightarrow> symbol" where
  "blank_symbol t =
     \<lparr>sym_type = t, ident = None, s_offset = 0, bit_size = 0, bit_offset = 0,
      s_ctype = \<lparr>modifiers = 0, alignment = 0, contexts = [], address_space = 0, base_type = None\<rparr>,
      array_size = None, arguments = [], variadic = False, symbol_list = [], s_stmt = None,
      initializer = None, op_expand = None\<rparr>"

text \<open>\<open>alloc_symbol\<close>, and a copy of a symbol with its two marks.\<close>

definition marks :: "lstate \<Rightarrow> symref \<Rightarrow> bool \<times> bool" where
  "marks st s = (examined st s, evaluated st s)"

definition new_symbol :: "symbol \<Rightarrow> bool \<times> bool \<Rightarrow> lstate \<Rightarrow> symref \<times> lstate" where
  "new_symbol x m st =
     (let s = Sym (n_syms st)
      in (s, upd s (\<lambda>_. x) (st\<lparr>n_syms := Suc (n_syms st), examined := (examined st)(s := fst m),
             evaluated := (evaluated st)(s := snd m)\<rparr>)))"

definition alloc_symbol :: "sym_type \<Rightarrow> lstate \<Rightarrow> symref \<times> lstate" where
  "alloc_symbol t = new_symbol (blank_symbol t) (False, False)"

text \<open>Arguments that are arrays or functions become pointers.\<close>

definition examine_fn_argument :: "front \<Rightarrow> symref \<Rightarrow> lstate \<Rightarrow> lstate option" where
  "examine_fn_argument f s st = do {
     (r, st1) \<leftarrow> f_sym f s st;
     case r of
       None \<Rightarrow> Some st1
     | Some arg \<Rightarrow>
         (if sym_type (ltab st1 arg) \<in> {SYM_ARRAY, SYM_FN} then do {
            let (p, st2) = alloc_symbol SYM_PTR st1;
            let tab = ltab st2;
            let c0 = (if sym_type (tab arg) = SYM_ARRAY then s_ctype (tab arg)
                      else (s_ctype (tab p))\<lparr>base_type := Some arg\<rparr>);
            let c1 = (add_modifiers (and (mods tab s) MOD_PTRINHERIT) c0)\<lparr>address_space := or (address_space c0) (as_of tab s)\<rparr>;
            let st3 = upd_ctype p (\<lambda>_. c1) st2;
            let st4 = upd_ctype s (\<lambda>c. c\<lparr>base_type := Some p, address_space := 0,
                        modifiers := and (modifiers c) (not MOD_PTRINHERIT)\<rparr>) st3;
            let st5 = (upd s (\<lambda>x. x\<lparr>bit_size := 0\<rparr>) st4)\<lparr>examined := (examined st4)(s := False)\<rparr>;
            (q, st6) \<leftarrow> f_exam f (Some s) st5;
            Some st6 }
          else Some st1) }"

fun examine_each :: "front \<Rightarrow> symref list \<Rightarrow> lstate \<Rightarrow> lstate option" where
  "examine_each f [] st = Some st"
| "examine_each f (s # ss) st = do { st1 \<leftarrow> examine_fn_argument f s st; examine_each f ss st1 }"

definition examine_fn_arguments :: "front \<Rightarrow> symref \<Rightarrow> lstate \<Rightarrow> lstate option" where
  "examine_fn_arguments f fn st = examine_each f (arguments (ltab st fn)) st"

section \<open>The difference of two types\<close>

datatype tdiff = Tdiff string | Arg_diff nat tdiff

definition gathered :: "symtab \<Rightarrow> bool \<Rightarrow> symref \<Rightarrow> u64 \<Rightarrow> u32 \<Rightarrow> u64 \<times> u32" where
  "gathered tab move t m a =
     (if move \<and> sym_type (tab t) \<noteq> SYM_PTR then (or m (mods tab t), or a (as_of tab t)) else (m, a))"

abbreviation (input) "clash m n ign \<equiv> and (xor m n) (not ign) \<noteq> (0 :: u64)"

text \<open>The arguments of two functions, in step; \<open>td\<close> compares their types.\<close>

fun arguments_difference ::
    "(ctype \<Rightarrow> ctype \<Rightarrow> u64 \<Rightarrow> u64 \<Rightarrow> lstate \<Rightarrow> (tdiff option \<times> lstate) option) \<Rightarrow> nat \<Rightarrow> symref list \<Rightarrow> symref list
     \<Rightarrow> lstate \<Rightarrow> (tdiff option \<times> lstate) option" where
  "arguments_difference td i [] [] st = Some (None, st)"
| "arguments_difference td i (a # as) (b # bs) st = do {
     (d, st1) \<leftarrow> td (s_ctype (ltab st a)) (s_ctype (ltab st b)) MOD_IGN MOD_IGN st;
     case d of
       None \<Rightarrow> arguments_difference td (Suc i) as bs st1
     | Some x \<Rightarrow> Some (Some (Arg_diff i x), st1) }"
| "arguments_difference td i as bs st = Some (Some (Tdiff ''different argument counts''), st)"

text \<open>
  The loop of \<open>type_difference\<close>; the first argument bounds its rounds. The flags say whose modifiers
  are still to be gathered. A base type that is missing is followed, unless it is a node's.
\<close>

fun difference_loop ::
    "(ctype \<Rightarrow> ctype \<Rightarrow> u64 \<Rightarrow> u64 \<Rightarrow> lstate \<Rightarrow> (tdiff option \<times> lstate) option) \<Rightarrow> front \<Rightarrow> nat
     \<Rightarrow> symref \<Rightarrow> symref \<Rightarrow> u32 \<Rightarrow> u32 \<Rightarrow> u64 \<Rightarrow> u64 \<Rightarrow> bool \<Rightarrow> bool \<Rightarrow> lstate \<Rightarrow> (tdiff option \<times> lstate) option" where
  "difference_loop td f 0 t1 t2 as1 as2 mod1 mod2 move1 move2 st = None"
| "difference_loop td f (Suc n) t1 t2 as1 as2 mod1 mod2 move1 move2 st =
     (let tab = ltab st; (m1, a1) = gathered tab move1 t1 mod1 as1; (m2, a2) = gathered tab move2 t2 mod2 as2;
          differ = (\<lambda>x. Some (Some (Tdiff x), st));
          go = (\<lambda>x y. do { b1 \<leftarrow> x; b2 \<leftarrow> y; difference_loop td f n b1 b2 a1 a2 m1 m2 True True st })
      in
      if t1 = t2 then
        (if a1 \<noteq> a2 then differ ''different address spaces''
         else if clash m1 m2 (or MOD_IGNORE MOD_SIGNEDNESS) then differ ''different modifiers''
         else Some (None, st))
      else if sym_type (tab t1) \<in> {SYM_NODE, SYM_ENUM} then
        (case base_of tab t1 of
           None \<Rightarrow> differ ''bad types''
         | Some b \<Rightarrow> difference_loop td f n b t2 a1 a2 m1 m2 True False st)
      else if sym_type (tab t2) \<in> {SYM_NODE, SYM_ENUM} then
        (case base_of tab t2 of
           None \<Rightarrow> differ ''bad types''
         | Some b \<Rightarrow> difference_loop td f n t1 b a1 a2 m1 m2 False True st)
      else if sym_type (tab t1) \<noteq> sym_type (tab t2) then differ ''different base types''
      else
        (case sym_type (tab t1) of
           SYM_RESTRICT \<Rightarrow> differ ''different base types''
         | SYM_UNION \<Rightarrow> if ident (tab t1) = ident (tab t2) then Some (None, st) else differ ''different base types''
         | SYM_STRUCT \<Rightarrow> if ident (tab t1) = ident (tab t2) then Some (None, st) else differ ''different base types''
         | SYM_ARRAY \<Rightarrow> go (base_of tab t1) (base_of tab t2)
         | SYM_PTR \<Rightarrow>
             if a1 \<noteq> a2 then differ ''different address spaces''
             else if clash m1 m2 (or MOD_IGNORE MOD_SPECIFIER) then differ ''different modifiers''
             else do {
               (b1, st1) \<leftarrow> examine_pointer_target (f_exam f) t1 st;
               (b2, st2) \<leftarrow> examine_pointer_target (f_exam f) t2 st1;
               let tab2 = ltab st2;
               c1 \<leftarrow> b1;
               c2 \<leftarrow> b2;
               difference_loop td f n c1 c2 (as_of tab2 t1) (as_of tab2 t2) (mods tab2 t1) (mods tab2 t2) True True st2 }
         | SYM_FN \<Rightarrow>
             if a1 \<noteq> a2 then differ ''different address spaces''
             else if clash m1 m2 (or MOD_IGNORE MOD_SIGNEDNESS) then differ ''different modifiers''
             else do {
               b1 \<leftarrow> base_of tab t1;
               b2 \<leftarrow> base_of tab t2;
               if variadic (tab b1) \<noteq> variadic (tab b2) then differ ''incompatible variadic arguments''
               else do {
                 st1 \<leftarrow> examine_fn_arguments f t1 st;
                 st2 \<leftarrow> examine_fn_arguments f t2 st1;
                 (d, st3) \<leftarrow> arguments_difference td 1 (arguments (ltab st2 t1)) (arguments (ltab st2 t2)) st2;
                 case d of
                   Some x \<Rightarrow> Some (Some x, st3)
                 | None \<Rightarrow> difference_loop td f n b1 b2 (as_of tab t1) (as_of tab t2) (mods tab t1) (mods tab t2)
                     True True st3 } }
         | SYM_BASETYPE \<Rightarrow>
             if a1 \<noteq> a2 then differ ''different address spaces''
             else if base_of tab t1 \<noteq> base_of tab t2 then differ ''different base types''
             else if \<not> clash m1 m2 MOD_IGNORE then Some (None, st)
             else if and (and (xor m1 m2) (not MOD_IGNORE)) MOD_SIZE \<noteq> 0 then differ ''different type sizes''
             else if clash m1 m2 (or MOD_IGNORE MOD_SIGNEDNESS) then differ ''different modifiers''
             else differ ''different signedness''
         | _ \<Rightarrow> Some (Some (Tdiff ''bad types''), emsg ''internal error: bad type in derived'' st)))"

primrec type_difference ::
    "nat \<Rightarrow> front \<Rightarrow> ctype \<Rightarrow> ctype \<Rightarrow> u64 \<Rightarrow> u64 \<Rightarrow> lstate \<Rightarrow> (tdiff option \<times> lstate) option" where
  "type_difference 0 f c1 c2 mod1 mod2 st = None"
| "type_difference (Suc n) f c1 c2 mod1 mod2 st = do {
     t1 \<leftarrow> base_type c1;
     t2 \<leftarrow> base_type c2;
     difference_loop (type_difference n f) f (Suc n) t1 t2 (address_space c1) (address_space c2)
       (or mod1 (modifiers c1)) (or mod2 (modifiers c2)) True True st }"
end
