(* ===== verification/Evaluate.thy ===== *)
theory Evaluate
  imports Conversion
begin

text \<open>
  Types of operators (second part of \<open>evaluate.c\<close>): pointer arithmetic, comparison, conditional,
  assignment, unary operators, members and casts. An operator gives the type it returns (\<open>None\<close> for
  the NULL of an error), the expression as it was overwritten, and the state. The whole result is
  \<open>None\<close> where the code follows a NULL pointer.
\<close>

section \<open>Results\<close>

type_synonym evaluation = "(symref option \<times> expression \<times> lstate) option"

definition set_type :: "expression \<Rightarrow> symref option \<Rightarrow> expression" where
  "set_type e t = Expr (e_flags e) (e_op e) (e_pos e) t (e_node e)"

definition set_op :: "expression \<Rightarrow> nat \<Rightarrow> expression" where
  "set_op e k = Expr (e_flags e) k (e_pos e) (e_ctype e) (e_node e)"

lemma set_type_simps [simp]:
  "e_flags (set_type e t) = e_flags e" "e_op (set_type e t) = e_op e" "e_pos (set_type e t) = e_pos e"
  "e_ctype (set_type e t) = t" "e_node (set_type e t) = e_node e"
  "e_flags (set_op e k) = e_flags e" "e_op (set_op e k) = k" "e_pos (set_op e k) = e_pos e"
  "e_ctype (set_op e k) = e_ctype e" "e_node (set_op e k) = e_node e"
  by (simp_all add: set_type_def set_op_def)

text \<open>\<open>alloc_expression\<close> at the place of \<open>e\<close>, with the members that are set next.\<close>

definition new_expr :: "expression \<Rightarrow> nat \<Rightarrow> symref option \<Rightarrow> enode \<Rightarrow> expression" where
  "new_expr e k t n = Expr 0 k (e_pos e) t n"

definition alloc_const_expression :: "expression \<Rightarrow> int \<Rightarrow> expression" where
  "alloc_const_expression e v = new_expr e 0 (Some Int_ctype) (EXPR_VALUE (word_of_int v) 0)"

definition expression_error :: "expression \<Rightarrow> string \<Rightarrow> lstate \<Rightarrow> expression \<times> lstate" where
  "expression_error e m st = (set_type e (Some Bad_ctype), emsg m st)"

definition give_up :: "expression \<Rightarrow> string \<Rightarrow> lstate \<Rightarrow> evaluation" where
  "give_up e m st = (let (e1, st1) = expression_error e m st in Some (None, e1, st1))"

definition give :: "symref \<Rightarrow> expression \<Rightarrow> lstate \<Rightarrow> evaluation" where
  "give t e st = Some (Some t, set_type e (Some t), st)"

text \<open>An operator on two constants is a constant expression.\<close>

definition keep_flags :: "expression \<Rightarrow> u32 \<Rightarrow> expression" where
  "keep_flags e fl = (if e_flags e \<noteq> 0 \<and> and fl Int_const_expr = 0 then set_flags e 0 else e)"

text \<open>A test in the code without braces around its one message.\<close>

definition emsg_if :: "bool \<Rightarrow> string \<Rightarrow> lstate \<Rightarrow> lstate" where
  "emsg_if b m st = (if b then emsg m st else st)"

definition lvalue_expression :: "expression \<Rightarrow> bool" where
  "lvalue_expression e = (case e_node e of Unary EXPR_PREOP u k \<Rightarrow> e_op e = op_chr (CHR ''*'') | _ \<Rightarrow> False)"

definition zero_constant :: "front \<Rightarrow> expression \<Rightarrow> lstate \<Rightarrow> (bool \<times> expression \<times> lstate) option" where
  "zero_constant f e st = do {
     (z, e1, x) \<leftarrow> is_zero_constant (f_expand f) e (lx st);
     Some (z, e1, st\<lparr>lx := x\<rparr>) }"

section \<open>Arrays and functions that become pointers\<close>

definition access_sym :: "symref \<Rightarrow> lstate \<Rightarrow> lstate" where
  "access_sym s st =
     (if has_mod (mods (ltab st) s) MOD_INLINE \<and> \<not> has_mod (mods (ltab st) s) MOD_ACCESSED
      then upd_ctype s (add_modifiers MOD_ACCESSED) (st\<lparr>used_syms := add_ptr_list (used_syms st) s\<rparr>)
      else st)"

text \<open>The type pointed to: a node, and then an array if it decays, hands its qualifiers to the pointer.\<close>

definition inherit_from :: "symref \<Rightarrow> symref \<Rightarrow> lstate \<Rightarrow> lstate" where
  "inherit_from p s st =
     upd_ctype p (\<lambda>c. (add_modifiers (and (mods (ltab st) s) MOD_PTRINHERIT) c)
       \<lparr>address_space := or (address_space c) (as_of (ltab st) s)\<rparr>) st"

definition create_pointer :: "front \<Rightarrow> symref \<Rightarrow> bool \<Rightarrow> lstate \<Rightarrow> (symref \<times> lstate) option" where
  "create_pointer f s degen st = do {
     let tg = e_target (f_conf f);
     let (node, st1) = alloc_symbol SYM_NODE st;
     let (p, st2) = alloc_symbol SYM_PTR st1;
     let sized = (\<lambda>x. x\<lparr>bit_size := bits_in_pointer tg,
                       s_ctype := (s_ctype x)\<lparr>alignment := word_of_int (pointer_alignment tg)\<rparr>\<rparr>);
     let st3 = upd p sized (upd node sized (upd_ctype node (\<lambda>c. c\<lparr>base_type := Some p\<rparr>) st2));
     let st4 = access_sym s st3;
     let st5 = (if has_mod (mods (ltab st4) s) MOD_REGISTER
                then upd_ctype s (\<lambda>c. c\<lparr>modifiers := and (modifiers c) (not MOD_REGISTER)\<rparr>)
                       (emsg ''taking address of register variable'' st4)
                else st4);
     let (s1, st6) = (if sym_type (ltab st5 s) = SYM_NODE then (base_of (ltab st5) s, inherit_from p s st5)
                      else (Some s, st5));
     (s2, st7) \<leftarrow> (if degen then do {
                      t \<leftarrow> s1;
                      Some (if sym_type (ltab st6 t) = SYM_ARRAY then (base_of (ltab st6) t, inherit_from p t st6)
                            else (s1, st6)) }
                   else Some (s1, st6));
     Some (node, upd_ctype p (\<lambda>c. c\<lparr>base_type := s2\<rparr>) st7) }"

text \<open>
  An array in a value (a slice) is read from a copy of the whole: \<open>(copy = whole, &copy + offset)\<close>.
  The member \<open>op_value\<close> of the new operation is only read for \<open>++\<close> and \<open>--\<close>.
\<close>

definition copy_compound :: "front \<Rightarrow> expression \<Rightarrow> expression \<Rightarrow> u32 \<Rightarrow> lstate \<Rightarrow> (expression \<times> lstate) option" where
  "copy_compound f e base bitpos st = do {
     let (a, st1) = alloc_symbol SYM_NODE st;
     bt \<leftarrow> e_ctype base;
     let st2 = upd a (\<lambda>x. x\<lparr>bit_size := bit_size (ltab st1 bt), array_size := array_size (ltab st1 bt)\<rparr>)
                 (upd_ctype a (\<lambda>c. c\<lparr>base_type := Some bt\<rparr>) st1);
     let e0 = new_expr e 0 (Some Lazy_ptr_ctype) (EXPR_SYMBOL a '''');
     let e1 = new_expr e (op_chr (CHR ''*'')) (Some bt) (Unary EXPR_PREOP e0 0);
     let e2 = new_expr e (op_chr (CHR ''='')) (Some bt) (Binary EXPR_ASSIGNMENT e1 base);
     let off = bits_to_bytes (t_bits_in_char (e_target (f_conf f))) (sint bitpos);
     let e3 = (if bitpos \<noteq> 0
               then new_expr e (op_chr (CHR ''+'')) (Some Lazy_ptr_ctype)
                      (Binary EXPR_BINOP e0 (alloc_const_expression e off))
               else e0);
     let e4 = new_expr e 0 (Some Lazy_ptr_ctype) (Binary EXPR_COMMA e2 e3);
     Some (Expr (e_flags e) (op_chr (CHR ''*'')) (e_pos e) (e_ctype e) (Unary EXPR_PREOP e4 0), st2) }"

definition decay :: "front \<Rightarrow> symref \<Rightarrow> expression \<Rightarrow> lstate \<Rightarrow> evaluation" where
  "decay f c e st =
     (case e_node e of
        Unary EXPR_PREOP u k \<Rightarrow>
          if e_op e = op_chr (CHR ''*'') then do {
            (p, st1) \<leftarrow> create_pointer f c True st;
            Some (Some p, set_type u (Some p), st1) }
          else (let (e1, st1) = expression_error e ''strange non-value function or array'' st
                in Some (Some Bad_ctype, e1, st1))
      | _ \<Rightarrow> (let (e1, st1) = expression_error e ''strange non-value function or array'' st
              in Some (Some Bad_ctype, e1, st1)))"

definition degenerate :: "front \<Rightarrow> expression \<Rightarrow> lstate \<Rightarrow> evaluation" where
  "degenerate f e st =
     (case e_ctype e of
        None \<Rightarrow> Some (None, e, st)
      | Some c \<Rightarrow> do {
          (b, st1) \<leftarrow> f_exam f (Some c) st;
          base \<leftarrow> (if sym_type (ltab st1 c) = SYM_NODE then base_of (ltab st1) c else b);
          if sym_type (ltab st1 base) = SYM_ARRAY then do {
            (e1, st2) \<leftarrow> (case e_node e of
               EXPR_SLICE w bitpos nrbits \<Rightarrow> copy_compound f e w bitpos st1
             | _ \<Rightarrow> Some (e, st1));
            decay f c e1 st2 }
          else if sym_type (ltab st1 base) = SYM_FN then decay f c e st1
          else Some (Some c, e, st1) })"

text \<open>\<open>classify_type(degenerate(e), &type)\<close>.\<close>

definition degenerate_class :: "front \<Rightarrow> expression \<Rightarrow> lstate \<Rightarrow> (tclass \<times> symref \<times> expression \<times> lstate) option" where
  "degenerate_class f e st = do {
     (t, e1, st1) \<leftarrow> degenerate f e st;
     s \<leftarrow> t;
     (c, b, st2) \<leftarrow> classify_type f s st1;
     Some (c, b, e1, st2) }"

section \<open>Pointer arithmetic\<close>

text \<open>
  A constant index times the size of the elements: the index, of \<open>ib\<close> bits, is sign extended, and
  the product cut to the \<open>pb\<close> bits of a pointer.
\<close>

definition scale_constant :: "int \<Rightarrow> int \<Rightarrow> u64 \<Rightarrow> int \<Rightarrow> u64" where
  "scale_constant pb ib v k =
     (let msk = size_mask ib;
          v1 = (if and v msk \<noteq> 0 then or v (- msk) else and v (msk - 1));
          pm = size_mask pb
      in and (v1 * word_of_int k) (or pm (pm - 1)))"

definition scaled_index :: "econf \<Rightarrow> expression \<Rightarrow> expression \<Rightarrow> symref \<Rightarrow> int \<Rightarrow> lstate \<Rightarrow> (expression \<times> lstate) option" where
  "scaled_index cf e index itype multiply st =
     (let ib = bit_size (ltab st itype); pb = bits_in_pointer (e_target cf); ssize = Some (ssize_t_ctype cf)
      in case e_node index of
           EXPR_VALUE v t \<Rightarrow> Some (new_expr e 0 ssize (EXPR_VALUE (scale_constant pb ib v multiply) 0), st)
         | _ \<Rightarrow> do {
             (i1, st1) \<leftarrow> (if ib < pb then cast_to cf index (ssize_t_ctype cf) st else Some (index, st));
             Some (if multiply > 1
                   then new_expr e (op_chr (CHR ''*'')) ssize
                          (Binary EXPR_BINOP i1 (new_expr e 0 ssize (EXPR_VALUE (word_of_int multiply) 0)))
                   else i1, st1) })"

definition evaluate_ptr_add ::
    "front \<Rightarrow> expression \<Rightarrow> binary_type \<Rightarrow> expression \<Rightarrow> expression \<Rightarrow> symref \<Rightarrow> lstate \<Rightarrow> evaluation" where
  "evaluate_ptr_add f e bt l index itype st = do {
     let tg = e_target (f_conf f);
     (cl, c, l1, st1) \<leftarrow> degenerate_class f l st;
     (b, st2) \<leftarrow> examine_pointer_target (f_exam f) c st1;
     let e1 = set_node e (Binary bt l1 index);
     case b of
       None \<Rightarrow> give_up e1 ''missing type information'' st2
     | Some base \<Rightarrow>
         if is_function (ltab st2) (Some base) then give_up e1 ''arithmetics on pointers to functions'' st2
         else do {
           let multiply = (if is_void_type (ltab st2) base then 1
                           else bits_to_bytes (t_bits_in_char tg) (bit_size (ltab st2 base)));
           let c1 = (if c = Null_ctype then Ptr_ctype else c);
           if multiply = 1 \<and> bit_size (ltab st2 itype) \<ge> bits_in_pointer tg then give c1 e1 st2
           else do {
             (i1, st3) \<leftarrow> scaled_index (f_conf f) e1 index itype multiply st2;
             give c1 (set_node e1 (Binary bt l1 i1)) st3 } } }"

definition bad_null :: "econf \<Rightarrow> lstate \<Rightarrow> lstate" where
  "bad_null cf = emsg_if (Wnon_pointer_null cf) ''Using plain integer as NULL pointer''"

definition target_qualifiers :: "symtab \<Rightarrow> symref \<Rightarrow> u64" where
  "target_qualifiers tab t =
     (case base_of tab t of
        None \<Rightarrow> and (mods tab t) MOD_IGN
      | Some b \<Rightarrow> if sym_type (tab b) = SYM_ARRAY then 0 else and (mods tab t) MOD_IGN)"

text \<open>The call of \<open>type_difference\<close> on two types; \<open>td\<close> is its depth.\<close>

definition difference ::
    "nat \<Rightarrow> front \<Rightarrow> symref \<Rightarrow> symref \<Rightarrow> u64 \<Rightarrow> u64 \<Rightarrow> lstate \<Rightarrow> (tdiff option \<times> lstate) option" where
  "difference td f t1 t2 m1 m2 st =
     type_difference td f (s_ctype (ltab st t1)) (s_ctype (ltab st t2)) m1 m2 st"

definition evaluate_ptr_sub ::
    "nat \<Rightarrow> front \<Rightarrow> expression \<Rightarrow> binary_type \<Rightarrow> expression \<Rightarrow> expression \<Rightarrow> lstate \<Rightarrow> evaluation" where
  "evaluate_ptr_sub td f e bt l r st = do {
     let cf = f_conf f;
     let bic = t_bits_in_char (e_target cf);
     (cl, lt, l1, st1) \<leftarrow> degenerate_class f l st;
     (cr, rt, r1, st2) \<leftarrow> degenerate_class f r st1;
     (lb, st3) \<leftarrow> examine_pointer_target (f_exam f) lt st2;
     (rb, st4) \<leftarrow> examine_pointer_target (f_exam f) rt st3;
     (d, st5) \<leftarrow> difference td f lt rt (target_qualifiers (ltab st4) rt) (target_qualifiers (ltab st4) lt) st4;
     let e1 = set_node e (Binary bt l1 r1);
     let (e2, st6) = (if d \<noteq> None then expression_error e1 ''subtraction of different types cannot work'' st5
                      else (e1, st5));
     if is_function (ltab st6) lb then give_up e2 ''subtraction of functions'' st6
     else do {
       let ssize = ssize_t_ctype cf;
       base \<leftarrow> lb;
       let size = bit_size (ltab st6 base);
       let value = (word_of_int (bits_to_bytes bic size) :: u64);
       if size > bic then
         give ssize
           (set_node (set_op e2 (op_chr (CHR ''/'')))
             (Binary bt (new_expr e (op_chr (CHR ''-'')) (Some ssize) (Binary EXPR_BINOP l1 r1))
                (new_expr e 0 (Some (size_t_ctype cf)) (EXPR_VALUE value 0))))
           (emsg_if (and value (value - 1) \<noteq> 0 \<and> Wptr_subtraction_blows cf)
             ''potentially expensive pointer subtraction'' st6)
       else give ssize e2 st6 } }"

section \<open>Binary operators\<close>

definition evaluate_conditional :: "front \<Rightarrow> expression \<Rightarrow> bool \<Rightarrow> lstate \<Rightarrow> evaluation" where
  "evaluate_conditional f e iterator st = do {
     let assigns = (case e_node e of Binary EXPR_ASSIGNMENT l r \<Rightarrow> e_op e = op_chr (CHR ''='') | _ \<Rightarrow> False);
     (t, e1, st1) \<leftarrow> f_expr f e (emsg_if (\<not> iterator \<and> assigns) ''assignment expression in conditional'' st);
     Some (t, e1, case t of
       None \<Rightarrow> st1
     | Some c \<Rightarrow> emsg_if (has_mod (mods (ltab st1) c) MOD_SAFE) ''testing a safe expression'' st1) }"

definition evaluate_logical :: "front \<Rightarrow> expression \<Rightarrow> expression \<Rightarrow> expression \<Rightarrow> lstate \<Rightarrow> evaluation" where
  "evaluate_logical f e l r st = do {
     (lt, l1, st1) \<leftarrow> evaluate_conditional f l False st;
     if lt = None then Some (None, set_node e (Binary EXPR_LOGICAL l1 r), st1)
     else do {
       (rt, r1, st2) \<leftarrow> evaluate_conditional f r False st1;
       let e1 = set_node e (Binary EXPR_LOGICAL l1 r1);
       if rt = None then Some (None, e1, st2)
       else give Bool_ctype (keep_flags e1 (and (e_flags l1) (e_flags r1))) st2 } }"

definition shift_op :: "nat \<Rightarrow> bool" where
  "shift_op op = (op \<in> {SPECIAL_LEFTSHIFT, SPECIAL_RIGHTSHIFT})"

definition is_not :: "expression \<Rightarrow> bool" where
  "is_not e = (case e_node e of Unary EXPR_PREOP u k \<Rightarrow> e_op e = op_chr (CHR ''!'') | _ \<Rightarrow> False)"

text \<open>The types of the operands and of the result of an operation on two numbers.\<close>

definition number_types ::
    "front \<Rightarrow> expression \<Rightarrow> expression \<Rightarrow> expression \<Rightarrow> tclass \<Rightarrow> tclass \<Rightarrow> symref \<Rightarrow> symref \<Rightarrow> lstate
     \<Rightarrow> (symref \<times> symref \<times> symref \<times> lstate) option" where
  "number_types f e l r lc rc lt rt st =
     (if shift_op (e_op e) then do {
        (lt1, st1) \<leftarrow> unrestrict lc lt st;
        (rt1, st2) \<leftarrow> unrestrict rc rt st1;
        lt2 \<leftarrow> integer_promotion (e_target (f_conf f)) (ltab st2) lt1;
        rt2 \<leftarrow> integer_promotion (e_target (f_conf f)) (ltab st2) rt1;
        Some (lt2, rt2, lt2, st2) }
      else do {
        let dubious = (e_op e \<in> {op_chr (CHR ''&''), op_chr (CHR ''|'')} \<and> (is_not l \<or> is_not r));
        (c, st1) \<leftarrow> usual_conversions (f_conf f) (e_op e) l r lc rc lt rt (emsg_if dubious ''dubious'' st);
        Some (c, c, c, st1) })"

definition binop_numbers ::
    "front \<Rightarrow> expression \<Rightarrow> binary_type \<Rightarrow> expression \<Rightarrow> expression \<Rightarrow> tclass \<Rightarrow> tclass \<Rightarrow> symref \<Rightarrow> symref \<Rightarrow> lstate
     \<Rightarrow> evaluation" where
  "binop_numbers f e bt l r lc rc lt rt st = do {
     (lt1, rt1, c, st1) \<leftarrow> number_types f e l r lc rc lt rt st;
     (l1, st2) \<leftarrow> cast_to (f_conf f) l lt1 st1;
     (r1, st3) \<leftarrow> cast_to (f_conf f) r rt1 st2;
     give c (set_node e (Binary bt l1 r1)) st3 }"

definition evaluate_binop ::
    "nat \<Rightarrow> front \<Rightarrow> expression \<Rightarrow> binary_type \<Rightarrow> expression \<Rightarrow> expression \<Rightarrow> lstate \<Rightarrow> evaluation" where
  "evaluate_binop td f e0 bt l r st = do {
     lc0 \<leftarrow> e_ctype l;
     (lc, lt, st1) \<leftarrow> classify_type f lc0 st;
     rc0 \<leftarrow> e_ctype r;
     (rc, rt, st2) \<leftarrow> classify_type f rc0 st1;
     let op = e_op e0;
     let e = keep_flags e0 (and (e_flags l) (e_flags r));
     if TYPE_NUM \<in> lc \<inter> rc then
       (if TYPE_FLOAT \<in> lc \<union> rc \<and> op \<notin> {op_chr (CHR ''+''), op_chr (CHR ''-''), op_chr (CHR ''*''), op_chr (CHR ''/'')}
        then bad_expr_type e st2
        else binop_numbers f e bt l r lc rc lt rt st2)
     else if TYPE_PTR \<in> lc \<and> is_int rc \<and> op \<in> {op_chr (CHR ''+''), op_chr (CHR ''-'')} then do {
       (rt1, st3) \<leftarrow> unrestrict rc rt st2;
       evaluate_ptr_add f e bt l r rt1 st3 }
     else if TYPE_PTR \<in> rc \<and> is_int lc \<and> op = op_chr (CHR ''+'') then do {
       (lt1, st3) \<leftarrow> unrestrict lc lt st2;
       evaluate_ptr_add f e bt r l lt1 st3 }
     else if TYPE_PTR \<in> lc \<inter> rc \<and> op = op_chr (CHR ''-'') then evaluate_ptr_sub td f e bt l r st2
     else bad_expr_type e st2 }"

definition evaluate_comma :: "front \<Rightarrow> expression \<Rightarrow> expression \<Rightarrow> expression \<Rightarrow> lstate \<Rightarrow> evaluation" where
  "evaluate_comma f e l r st = do {
     (t, r1, st1) \<leftarrow> degenerate f r st;
     let t1 = (if t = Some Null_ctype then Some Ptr_ctype else t);
     let e1 = set_type (set_node e (Binary EXPR_COMMA l r1)) t1;
     Some (t1, set_flags e1 (and (e_flags e) (and (e_flags l) (e_flags r1))), st1) }"

definition modify_for_unsigned :: "nat \<Rightarrow> nat" where
  "modify_for_unsigned op =
     (if op = op_chr (CHR ''<'') then SPECIAL_UNSIGNED_LT
      else if op = op_chr (CHR ''>'') then SPECIAL_UNSIGNED_GT
      else if op = SPECIAL_LTE then SPECIAL_UNSIGNED_LTE
      else if op = SPECIAL_GTE then SPECIAL_UNSIGNED_GTE
      else op)"

text \<open>0: no null pointer; 1: of the type of \<open>NULL\<close>; 2: the constant 0.\<close>

definition is_null_pointer_constant :: "front \<Rightarrow> expression \<Rightarrow> lstate \<Rightarrow> (nat \<times> expression \<times> lstate) option" where
  "is_null_pointer_constant f e st =
     (if e_ctype e = Some Null_ctype then Some (1, e, st)
      else if and (e_flags e) Int_const_expr = 0 then Some (0, e, st)
      else do {
        (z, e1, st1) \<leftarrow> zero_constant f e st;
        Some (if z then 2 else 0, e1, st1) })"

text \<open>
  The code stores the cast of an operand in a local variable only: of the cast, the operand keeps
  what overwrites it.
\<close>

definition cast_dropped :: "econf \<Rightarrow> expression \<Rightarrow> symref \<Rightarrow> lstate \<Rightarrow> (expression \<times> lstate) option" where
  "cast_dropped cf e t st = map_option (\<lambda>(e1, own, st1). (if own then e1 else e, st1)) (cast_object cf e t st)"

definition equality_op :: "nat \<Rightarrow> bool" where
  "equality_op op = (op \<in> {SPECIAL_EQUAL, SPECIAL_NOTEQUAL})"

text \<open>Two pointers that are not null; a pointer to \<open>void\<close> can be equal to any.\<close>

definition compare_pointers ::
    "nat \<Rightarrow> front \<Rightarrow> expression \<Rightarrow> expression \<Rightarrow> expression \<Rightarrow> symref \<Rightarrow> symref \<Rightarrow> lstate \<Rightarrow> evaluation" where
  "compare_pointers td f e0 l r lt rt st = do {
     let e = set_op e0 (modify_for_unsigned (e_op e0));
     let done = (\<lambda>l1 r1 s. give Bool_ctype (set_node e (Binary EXPR_COMPARE l1 r1)) s);
     (lb, st1) \<leftarrow> examine_pointer_target (f_exam f) lt st;
     (rb, st2) \<leftarrow> examine_pointer_target (f_exam f) rt st1;
     let void_ok = (equality_op (e_op e) \<and> as_of (ltab st2) lt = as_of (ltab st2) rt);
     if void_ok \<and> lb = Some Void_ctype then do {
       (r1, st3) \<leftarrow> cast_dropped (f_conf f) r lt st2;
       done l r1 st3 }
     else if void_ok \<and> rb = Some Void_ctype then do {
       (l1, st3) \<leftarrow> cast_dropped (f_conf f) l rt st2;
       done l1 r st3 }
     else do {
       (d, st3) \<leftarrow> difference td f lt rt (target_qualifiers (ltab st2) rt) (target_qualifiers (ltab st2) lt) st2;
       if d = None then done l r st3
       else give_up (set_node e (Binary EXPR_COMPARE l r)) ''incompatible types in comparison expression'' st3 } }"

text \<open>
  A comparison with a pointer in it. The \<open>taint\<close> of the constant that replaces \<open>NULL == NULL\<close> is
  what the pointer \<open>right\<close> had there: its bit \<open>Taint_comma\<close>, the only one that is read, is 0.
\<close>

definition compare_null ::
    "nat \<Rightarrow> front \<Rightarrow> expression \<Rightarrow> expression \<Rightarrow> expression \<Rightarrow> tclass \<Rightarrow> tclass \<Rightarrow> symref \<Rightarrow> symref \<Rightarrow> lstate
     \<Rightarrow> evaluation" where
  "compare_null td f e l r lc rc lt rt st = do {
     let cf = f_conf f;
     (n1, l1, st1) \<leftarrow> is_null_pointer_constant f l st;
     (n2, r1, st2) \<leftarrow> is_null_pointer_constant f r st1;
     let st3 = (if n2 = 2 then bad_null cf else id) ((if n1 = 2 then bad_null cf else id) st2);
     let e1 = set_node e (Binary EXPR_COMPARE l1 r1);
     if n1 \<noteq> 0 \<and> n2 \<noteq> 0 then
       give Bool_ctype (set_node e (EXPR_VALUE (if e_op e = SPECIAL_EQUAL then 1 else 0) 0)) st3
     else if n1 \<noteq> 0 \<and> TYPE_PTR \<in> rc then do {
       (l2, st4) \<leftarrow> cast_dropped cf l1 rt st3;
       give Bool_ctype (set_node e (Binary EXPR_COMPARE l2 r1)) st4 }
     else if n2 \<noteq> 0 \<and> TYPE_PTR \<in> lc then do {
       (r2, st4) \<leftarrow> cast_dropped cf r1 lt st3;
       give Bool_ctype (set_node e (Binary EXPR_COMPARE l1 r2)) st4 }
     else if TYPE_PTR \<notin> lc \<inter> rc then bad_expr_type e1 st3
     else compare_pointers td f e1 l1 r1 lt rt st3 }"

definition compare_numbers ::
    "front \<Rightarrow> expression \<Rightarrow> expression \<Rightarrow> expression \<Rightarrow> tclass \<Rightarrow> tclass \<Rightarrow> symref \<Rightarrow> symref \<Rightarrow> lstate \<Rightarrow> evaluation" where
  "compare_numbers f e l r lc rc lt rt st = do {
     let cf = f_conf f;
     (c, st1) \<leftarrow> usual_conversions cf (e_op e) l r lc rc lt rt st;
     (l1, st2) \<leftarrow> cast_to cf l c st1;
     (r1, st3) \<leftarrow> cast_to cf r c st2;
     let op = (if has_mod (mods (ltab st3) c) MOD_UNSIGNED then modify_for_unsigned (e_op e) else e_op e);
     give Bool_ctype (set_node (set_op e op) (Binary EXPR_COMPARE l1 r1)) st3 }"

definition evaluate_compare :: "nat \<Rightarrow> front \<Rightarrow> expression \<Rightarrow> expression \<Rightarrow> expression \<Rightarrow> lstate \<Rightarrow> evaluation" where
  "evaluate_compare td f e0 l r st = do {
     (lc, lt, l1, st1) \<leftarrow> degenerate_class f l st;
     (rc, rt, r1, st2) \<leftarrow> degenerate_class f r st1;
     let e = keep_flags (set_node e0 (Binary EXPR_COMPARE l1 r1)) (and (e_flags l1) (e_flags r1));
     if is_type_type (ltab st2) lt \<and> is_type_type (ltab st2) rt then give Bool_ctype e st2
     else do {
       c1 \<leftarrow> e_ctype l1;
       c2 \<leftarrow> e_ctype r1;
       let st3 = emsg_if (has_mod (mods (ltab st2) c1) MOD_SAFE \<or> has_mod (mods (ltab st2) c2) MOD_SAFE)
                   ''testing a safe expression'' st2;
       if TYPE_NUM \<in> lc \<inter> rc then compare_numbers f e l1 r1 lc rc lt rt st3
       else if TYPE_PTR \<notin> lc \<union> rc then bad_expr_type e st3
       else if equality_op (e_op e) then compare_null td f e l1 r1 lc rc lt rt st3
       else if TYPE_PTR \<notin> lc \<inter> rc then bad_expr_type e st3
       else compare_pointers td f e l1 r1 lt rt st3 } }"

section \<open>Conditional expressions\<close>

text \<open>The operand that stands for the true case: \<open>x\<close> itself in \<open>x ? : y\<close>.\<close>

definition put_sim :: "cond_type \<Rightarrow> expression \<Rightarrow> expression option \<Rightarrow> expression \<Rightarrow> expression \<Rightarrow> enode" where
  "put_sim k c t sim fl = (case t of None \<Rightarrow> Cond k sim None (Some fl) | Some x \<Rightarrow> Cond k c (Some sim) (Some fl))"

text \<open>
  The type of a conditional on pointers, and the types its operands are cast to, if they are; or a
  message.
\<close>

datatype cond_result = Cond_type symref "symref option" "symref option" | Cond_error string

definition with_quals :: "u64 \<Rightarrow> symref \<Rightarrow> lstate \<Rightarrow> symref \<times> lstate" where
  "with_quals qual c st =
     (if and qual (not (mods (ltab st) c)) \<noteq> 0 then
        (let (s, st1) = new_symbol (ltab st c) (marks st c) st
         in (s, upd_ctype s (add_modifiers qual) st1))
      else (c, st))"

definition cond_pointers ::
    "nat \<Rightarrow> front \<Rightarrow> symref \<Rightarrow> symref \<Rightarrow> lstate \<Rightarrow> (cond_result \<times> lstate) option" where
  "cond_pointers td f lt rt st =
     (if as_of (ltab st) lt \<noteq> as_of (ltab st) rt then Some (Cond_error ''different address spaces'', st)
      else do {
        (lb, st1) \<leftarrow> examine_pointer_target (f_exam f) lt st;
        (rb, st2) \<leftarrow> examine_pointer_target (f_exam f) rt st1;
        let qual = or (target_qualifiers (ltab st2) lt) (target_qualifiers (ltab st2) rt);
        let done = (\<lambda>t s. let (c, s1) = with_quals qual t s in (Cond_type c (Some c) (Some c), s1));
        if lb = Some Void_ctype then Some (done lt st2)
        else if rb = Some Void_ctype then Some (done rt st2)
        else do {
          (d, st3) \<leftarrow> difference td f lt rt qual qual st2;
          Some (if d = None then done lt st3 else (Cond_error ''different types'', st3)) } })"

definition cond_null ::
    "nat \<Rightarrow> front \<Rightarrow> nat \<Rightarrow> nat \<Rightarrow> tclass \<Rightarrow> tclass \<Rightarrow> symref \<Rightarrow> symref \<Rightarrow> lstate \<Rightarrow> (cond_result \<times> lstate) option" where
  "cond_null td f n1 n2 lc rc lt rt st =
     (let cf = f_conf f in
      if n1 \<noteq> 0 \<and> n2 \<noteq> 0 then Some (Cond_type Ptr_ctype (Some Ptr_ctype) (Some Ptr_ctype), st)
      else if n1 \<noteq> 0 \<and> TYPE_PTR \<in> rc then
        Some (Cond_type rt (Some rt) None, if n1 = 2 then bad_null cf st else st)
      else if n2 \<noteq> 0 \<and> TYPE_PTR \<in> lc then
        Some (Cond_type lt None (Some lt), if n2 = 2 then bad_null cf st else st)
      else if TYPE_PTR \<notin> lc \<inter> rc then Some (Cond_error ''different types'', st)
      else cond_pointers td f lt rt st)"

definition cast_opt :: "econf \<Rightarrow> expression \<Rightarrow> symref option \<Rightarrow> lstate \<Rightarrow> (expression \<times> lstate) option" where
  "cast_opt cf e t st = (case t of None \<Rightarrow> Some (e, st) | Some c \<Rightarrow> cast_to cf e c st)"

text \<open>Both operands evaluated: \<open>sim\<close> and \<open>fl\<close> of the types \<open>lt0\<close> and \<open>rt0\<close>.\<close>

definition cond_operands ::
    "nat \<Rightarrow> front \<Rightarrow> expression \<Rightarrow> cond_type \<Rightarrow> expression \<Rightarrow> expression option \<Rightarrow> expression \<Rightarrow> expression
     \<Rightarrow> symref \<Rightarrow> symref \<Rightarrow> lstate \<Rightarrow> evaluation" where
  "cond_operands td f e k c t sim fl lt0 rt0 st = do {
     let cf = f_conf f;
     (lc, lt, st1) \<leftarrow> classify_type f lt0 st;
     (rc, rt, st2) \<leftarrow> classify_type f rt0 st1;
     if TYPE_NUM \<in> lc \<inter> rc then do {
       (ct, st3) \<leftarrow> usual_conversions cf (op_chr (CHR ''?'')) sim fl lc rc lt rt st2;
       (sim1, st4) \<leftarrow> cast_to cf sim ct st3;
       (fl1, st5) \<leftarrow> cast_to cf fl ct st4;
       give ct (set_node e (put_sim k c t sim1 fl1)) st5 }
     else if TYPE_PTR \<in> lc \<union> rc then do {
       (n1, sim1, st3) \<leftarrow> is_null_pointer_constant f sim st2;
       (n2, fl1, st4) \<leftarrow> is_null_pointer_constant f fl st3;
       (res, st5) \<leftarrow> cond_null td f n1 n2 lc rc lt rt st4;
       case res of
         Cond_error m \<Rightarrow> give_up (set_node e (put_sim k c t sim1 fl1)) m st5
       | Cond_type ct a b \<Rightarrow> do {
           (sim2, st6) \<leftarrow> cast_opt cf sim1 a st5;
           (fl2, st7) \<leftarrow> cast_opt cf fl1 b st6;
           give ct (set_node e (put_sim k c t sim2 fl2)) st7 } }
     else if lt = rt then give lt (set_node e (put_sim k c t sim fl)) st2
     else give_up (set_node e (put_sim k c t sim fl)) ''different base types'' st2 }"

definition evaluate_conditional_expression ::
    "nat \<Rightarrow> front \<Rightarrow> expression \<Rightarrow> cond_type \<Rightarrow> expression \<Rightarrow> expression option \<Rightarrow> expression option \<Rightarrow> lstate
     \<Rightarrow> evaluation" where
  "evaluate_conditional_expression td f e k c0 t0 fl0 st = do {
     (ct, c1, st1) \<leftarrow> evaluate_conditional f c0 False st;
     if ct = None then Some (None, set_node e (Cond k c1 t0 fl0), st1)
     else case fl0 of
       None \<Rightarrow> Some (None, set_node e (Cond k c1 t0 fl0), st1)
     | Some fl1 \<Rightarrow> do {
         (ft, fl2, st2) \<leftarrow> f_expr f fl1 st1;
         if ft = None then Some (None, set_node e (Cond k c1 t0 (Some fl2)), st2)
         else do {
           (cd, c2, st3) \<leftarrow> degenerate f c1 st2;
           (rd, fl3, st4) \<leftarrow> degenerate f fl2 st3;
           rt0 \<leftarrow> rd;
           case t0 of
             None \<Rightarrow> do {
               lt0 \<leftarrow> cd;
               cond_operands td f (keep_flags e (and (e_flags c2) (and (e_flags c2) (e_flags fl3)))) k c2 None c2 fl3 lt0 rt0 st4 }
           | Some t1 \<Rightarrow> do {
               (tt, t2, st5) \<leftarrow> f_expr f t1 st4;
               if tt = None then Some (None, set_node e (Cond k c2 (Some t2) (Some fl3)), st5)
               else do {
                 (ld, t3, st6) \<leftarrow> degenerate f t2 st5;
                 lt0 \<leftarrow> ld;
                 cond_operands td f (keep_flags e (and (e_flags c2) (and (e_flags t3) (e_flags fl3)))) k c2 (Some t3) t3 fl3 lt0 rt0
                   st6 } } } } }"

section \<open>Assignment\<close>

definition compatible_float_op :: "nat \<Rightarrow> bool" where
  "compatible_float_op op = (op \<in> {SPECIAL_ADD_ASSIGN, SPECIAL_SUB_ASSIGN, SPECIAL_MUL_ASSIGN, SPECIAL_DIV_ASSIGN})"

text \<open>The new operands, and whether the assignment goes on: the code returns 1 or 0.\<close>

type_synonym assigned = "(bool \<times> expression \<times> lstate) option"

definition assign_cast :: "front \<Rightarrow> bool \<Rightarrow> expression \<Rightarrow> expression \<Rightarrow> expression \<Rightarrow> symref \<Rightarrow> lstate \<Rightarrow> assigned" where
  "assign_cast f ok e l r target st = do {
     (r1, st1) \<leftarrow> cast_to (f_conf f) r target st;
     Some (ok, set_node e (Binary EXPR_ASSIGNMENT l r1), st1) }"

definition assign_op_numbers ::
    "front \<Rightarrow> expression \<Rightarrow> expression \<Rightarrow> expression \<Rightarrow> symref \<Rightarrow> tclass \<Rightarrow> tclass \<Rightarrow> symref \<Rightarrow> symref \<Rightarrow> lstate
     \<Rightarrow> assigned" where
  "assign_op_numbers f e l r target tc sc t s st =
     (let identical = (if t = s then Some (True, e, st)
                       else assign_cast f False e l r target (emsg ''invalid assignment'' st))
      in if TYPE_FLOAT \<in> tc \<and> \<not> compatible_float_op (e_op e) then
           (let (e1, st1) = expression_error e ''invalid assignment'' st in Some (False, e1, st1))
         else if TYPE_RESTRICT \<in> tc then
           (if restricted_binop (e_op e) = 0 then assign_cast f False e l r target (emsg ''bad assignment'' st)
            else if TYPE_FOULED \<in> sc \<and> base_of (ltab st) s = Some t then assign_cast f True e l r target st
            else if \<not> restricted_value r then Some (True, e, st)
            else identical)
         else if TYPE_RESTRICT \<notin> sc then assign_cast f True e l r target st
         else identical)"

definition evaluate_assign_op :: "front \<Rightarrow> expression \<Rightarrow> expression \<Rightarrow> expression \<Rightarrow> lstate \<Rightarrow> assigned" where
  "evaluate_assign_op f e l r st = do {
     target \<leftarrow> e_ctype l;
     source \<leftarrow> e_ctype r;
     (tc, t, st1) \<leftarrow> classify_type f target st;
     (sc, s, st2) \<leftarrow> classify_type f source st1;
     if TYPE_NUM \<in> tc \<inter> sc then assign_op_numbers f e l r target tc sc t s st2
     else if tc = {TYPE_PTR} \<and> is_int sc then
       (if e_op e \<in> {SPECIAL_ADD_ASSIGN, SPECIAL_SUB_ASSIGN} then do {
          (s1, st3) \<leftarrow> unrestrict sc s st2;
          (ty, e1, st4) \<leftarrow> evaluate_ptr_add f e EXPR_ASSIGNMENT l r s1 st3;
          Some (True, e1, st4) }
        else (let (e1, st3) = expression_error e ''invalid pointer assignment'' st2 in Some (False, e1, st3)))
     else (let (e1, st3) = expression_error e ''invalid assignment'' st2 in Some (False, e1, st3)) }"

definition whitelist_pointers :: "front \<Rightarrow> symref option \<Rightarrow> symref option \<Rightarrow> lstate \<Rightarrow> (bool \<times> lstate) option" where
  "whitelist_pointers f b1 b2 st =
     (if b1 = b2 then Some (False, st)
      else if b1 = Some Void_ctype \<or> b2 = Some Void_ctype then Some (True, st)
      else do {
        s1 \<leftarrow> b1;
        (c1, t1, st1) \<leftarrow> classify_type f s1 st;
        if c1 \<noteq> {TYPE_NUM} then Some (False, st1)
        else do {
          s2 \<leftarrow> b2;
          (c2, t2, st2) \<leftarrow> classify_type f s2 st1;
          let m1 = mods (ltab st2) t1;
          let m2 = mods (ltab st2) t2;
          Some (c2 = {TYPE_NUM} \<and>
                (t1 = t2 \<or> has_mod (and m1 m2) MOD_CHAR \<or> (\<not> has_mod (xor m1 m2) MOD_SIZE \<and> \<not> Wtypesign (f_conf f))),
                st2) } })"

text \<open>
  Whether \<open>*rp\<close> may become a \<open>target\<close>, and \<open>*rp\<close> after that: cast if it has to be, and cast all the
  same after a message.
\<close>

definition incorrect_type :: "front \<Rightarrow> string \<Rightarrow> expression \<Rightarrow> symref \<Rightarrow> lstate \<Rightarrow> assigned" where
  "incorrect_type f m r target st = do {
     (r1, st1) \<leftarrow> cast_to (f_conf f) r target (emsg m st);
     Some (False, r1, st1) }"

definition convert_to :: "front \<Rightarrow> expression \<Rightarrow> symref \<Rightarrow> lstate \<Rightarrow> assigned" where
  "convert_to f r target st = do { (r1, st1) \<leftarrow> cast_to (f_conf f) r target st; Some (True, r1, st1) }"

definition assign_pointer ::
    "nat \<Rightarrow> front \<Rightarrow> symref \<Rightarrow> expression \<Rightarrow> tclass \<Rightarrow> symref \<Rightarrow> symref \<Rightarrow> lstate \<Rightarrow> assigned" where
  "assign_pointer td f target r sc t s st = do {
     (n, r1, st1) \<leftarrow> is_null_pointer_constant f r st;
     if n \<noteq> 0 then convert_to f r1 target (if n = 2 then bad_null (f_conf f) st1 else st1)
     else if TYPE_PTR \<notin> sc then incorrect_type f ''different base types'' r1 target st1
     else do {
       (b1, st2) \<leftarrow> examine_pointer_target (f_exam f) t st1;
       (b2, st3) \<leftarrow> examine_pointer_target (f_exam f) s st2;
       let mod1 = target_qualifiers (ltab st3) t;
       let mod2 = target_qualifiers (ltab st3) s;
       (w, st4) \<leftarrow> whitelist_pointers f b1 b2 st3;
       if w then
         (if as_of (ltab st4) t \<noteq> as_of (ltab st4) s
          then incorrect_type f ''different address spaces'' r1 target st4
          else if and mod2 (not mod1) \<noteq> 0 then incorrect_type f ''different modifiers'' r1 target st4
          else convert_to f r1 target st4)
       else do {
         (d, st5) \<leftarrow> difference td f t s 0 mod1 st4;
         if d \<noteq> None then incorrect_type f ''different types'' r1 target st5
         else Some (True, r1, st5) } } }"

definition compatible_assignment_types ::
    "nat \<Rightarrow> front \<Rightarrow> symref \<Rightarrow> expression \<Rightarrow> lstate \<Rightarrow> assigned" where
  "compatible_assignment_types td f target r0 st = do {
     (source, r, st1) \<leftarrow> degenerate f r0 st;
     (tc, t, st2) \<leftarrow> classify_type f target st1;
     s0 \<leftarrow> source;
     (sc, s, st3) \<leftarrow> classify_type f s0 st2;
     if TYPE_NUM \<in> tc \<inter> sc then
       (if TYPE_RESTRICT \<in> tc then
          (if TYPE_FOULED \<in> sc \<and> base_of (ltab st3) s = Some t then convert_to f r target st3
           else if \<not> restricted_value r \<or> s = t then Some (True, r, st3)
           else incorrect_type f ''different base types'' r target st3)
        else if TYPE_RESTRICT \<notin> sc then convert_to f r target st3
        else incorrect_type f ''different base types'' r target st3)
     else if tc = {TYPE_PTR} then assign_pointer td f target r sc t s st3
     else if TYPE_COMPOUND \<in> tc \<and> s = t then Some (True, r, st3)
     else if TYPE_NUM \<in> tc then
       (if t = Bool_ctype \<and> TYPE_PTR \<in> sc then convert_to f r target st3
        else incorrect_type f ''different base types'' r target st3)
     else incorrect_type f ''invalid types'' r target st3 }"

fun mark_assigned :: "expression \<Rightarrow> lstate \<Rightarrow> lstate" where
  "mark_assigned (Expr fl k p t (EXPR_SYMBOL s nm)) st =
     (if sym_type (ltab st s) \<noteq> SYM_NODE then st else upd_ctype s (add_modifiers MOD_ASSIGNED) st)"
| "mark_assigned (Expr fl k p t (Binary EXPR_BINOP l r)) st = mark_assigned r (mark_assigned l st)"
| "mark_assigned (Expr fl k p t (Cast EXPR_CAST c (Some x))) st = mark_assigned x st"
| "mark_assigned (Expr fl k p t (Cast EXPR_FORCE_CAST c (Some x))) st = mark_assigned x st"
| "mark_assigned (Expr fl k p t (EXPR_SLICE x a b)) st = mark_assigned x st"
| "mark_assigned e st = st"

text \<open>The left side is known to be \<open>*x\<close>; \<open>t\<close> is its type.\<close>

definition evaluate_assign_to :: "expression \<Rightarrow> symref \<Rightarrow> lstate \<Rightarrow> (expression \<times> lstate) option" where
  "evaluate_assign_to l t st =
     (let (l1, st1) = (if has_mod (mods (ltab st) t) MOD_CONST then expression_error l ''assignment to const expression'' st
                       else (l, st))
      in case e_node l1 of Unary k u v \<Rightarrow> Some (l1, mark_assigned u st1) | _ \<Rightarrow> None)"

definition evaluate_assignment :: "nat \<Rightarrow> front \<Rightarrow> expression \<Rightarrow> expression \<Rightarrow> expression \<Rightarrow> lstate \<Rightarrow> evaluation" where
  "evaluate_assignment td f e l r st =
     (if \<not> lvalue_expression l then give_up e ''not an lvalue'' st
      else do {
        lt \<leftarrow> e_ctype l;
        (ok, e1, st1) \<leftarrow> (if e_op e \<noteq> op_chr (CHR ''='') then evaluate_assign_op f e l r st
          else do {
            (ok, r1, st1) \<leftarrow> compatible_assignment_types td f lt r st;
            Some (ok, set_node e (Binary EXPR_ASSIGNMENT l r1), st1) });
        if \<not> ok then Some (None, e1, st1)
        else (case e_node e1 of
            Binary bt l1 r1 \<Rightarrow> do {
              (l2, st2) \<leftarrow> evaluate_assign_to l1 lt st1;
              give lt (set_node e1 (Binary bt l2 r1)) st2 }
          | _ \<Rightarrow> None) })"

section \<open>Unary operators\<close>

definition evaluate_addressof :: "front \<Rightarrow> expression \<Rightarrow> expression \<Rightarrow> lstate \<Rightarrow> evaluation" where
  "evaluate_addressof f e u st =
     (case e_node u of
        Unary EXPR_PREOP x k \<Rightarrow>
          if e_op u \<noteq> op_chr (CHR ''*'') then give_up e ''not addressable'' st
          else do {
            let e1 = set_flags x 0;
            let st1 = (case e_node x of
                EXPR_SYMBOL s nm \<Rightarrow> upd_ctype s (add_modifiers MOD_ADDRESSABLE) st
              | _ \<Rightarrow> st);
            if e_ctype x = Some Lazy_ptr_ctype then do {
              c \<leftarrow> e_ctype u;
              (p, st2) \<leftarrow> create_pointer f c False st1;
              give p e1 st2 }
            else Some (e_ctype x, e1, st1) }
      | _ \<Rightarrow> give_up e ''not addressable'' st)"

text \<open>
  What the new node of a dereference is merged from. An array gives up the dereference it is under,
  and the type of that operand comes first.
\<close>

definition evaluate_dereference :: "front \<Rightarrow> expression \<Rightarrow> unary_type \<Rightarrow> expression \<Rightarrow> u64 \<Rightarrow> lstate \<Rightarrow> evaluation" where
  "evaluate_dereference f e k u v st =
     (case (e_op u = op_chr (CHR ''&''), e_node u) of
        (True, Unary EXPR_PREOP x w) \<Rightarrow> Some (e_ctype x, set_flags x 0, st)
      | _ \<Rightarrow> do {
          c0 \<leftarrow> e_ctype u;
          c \<leftarrow> (if sym_type (ltab st c0) = SYM_NODE then base_of (ltab st) c0 else Some c0);
          let (n, st1) = alloc_symbol SYM_NODE st;
          let target = base_of (ltab st1) c;
          let sized = (\<lambda>e1 s. do {
             t \<leftarrow> target;
             give n e1 (upd n (\<lambda>x. x\<lparr>bit_size := bit_size (ltab s t), array_size := array_size (ltab s t)\<rparr>) s) });
          if sym_type (ltab st1 c) = SYM_PTR then do {
            t \<leftarrow> target;
            st2 \<leftarrow> merge_type n c (upd_ctype n (\<lambda>x. x\<lparr>modifiers := and (mods (ltab st1) t) MOD_SPECIFIER\<rparr>) st1);
            sized e st2 }
          else if sym_type (ltab st1 c) = SYM_ARRAY then
            (if \<not> lvalue_expression u then
               (let (u1, st2) = expression_error u ''non-lvalue array'' st1
                in Some (None, set_node e (Unary k u1 v), st2))
             else (case e_node u of
                 Unary uk x w \<Rightarrow> do {
                   xc \<leftarrow> e_ctype x;
                   st2 \<leftarrow> merge_type n xc st1;
                   st3 \<leftarrow> merge_type n c st2;
                   sized (set_node e (Unary k x v)) st3 }
               | _ \<Rightarrow> None))
          else give_up e ''cannot dereference this type'' st1 })"

definition unrestrict_unop ::
    "front \<Rightarrow> expression \<Rightarrow> tclass \<Rightarrow> symref \<Rightarrow> lstate \<Rightarrow> (symref \<times> lstate) option" where
  "unrestrict_unop f e c t st = do {
     (drop, t1) \<leftarrow> restricted_unop (e_target (f_conf f)) (e_op e) t st;
     t2 \<leftarrow> t1;
     if drop then unrestrict c t2 st else Some (t2, st) }"

definition evaluate_postop :: "front \<Rightarrow> expression \<Rightarrow> unary_type \<Rightarrow> expression \<Rightarrow> u64 \<Rightarrow> lstate \<Rightarrow> evaluation" where
  "evaluate_postop f e k u v st = do {
     t0 \<leftarrow> e_ctype u;
     (c, t, st1) \<leftarrow> classify_type f t0 st;
     if c = {} \<or> TYPE_COMPOUND \<in> c then give_up e ''need scalar for ++/--'' st1
     else if \<not> lvalue_expression u then give_up e ''need lvalue expression for ++/--'' st1
     else do {
       (t1, st2) \<leftarrow> (if TYPE_RESTRICT \<in> c then unrestrict_unop f e c t st1 else Some (t, st1));
       (multiply, st3) \<leftarrow> (if TYPE_NUM \<in> c then Some (1, st2)
         else if c = {TYPE_PTR} then do {
           (b, st3) \<leftarrow> examine_pointer_target (f_exam f) t1 st2;
           if is_function (ltab st3) b then Some (0, st3)
           else do {
             s \<leftarrow> b;
             Some (bits_to_bytes (t_bits_in_char (e_target (f_conf f))) (bit_size (ltab st3 s)), st3) } }
         else Some (0, st2));
       if multiply \<noteq> 0 then do {
         (u1, st4) \<leftarrow> evaluate_assign_to u t0 st3;
         give t1 (set_node e (Unary k u1 (word_of_int multiply))) st4 }
       else give_up e ''bad argument type for ++/--'' st3 } }"

definition evaluate_sign :: "front \<Rightarrow> expression \<Rightarrow> unary_type \<Rightarrow> expression \<Rightarrow> u64 \<Rightarrow> lstate \<Rightarrow> evaluation" where
  "evaluate_sign f e0 k u v st = do {
     t0 \<leftarrow> e_ctype u;
     (c, t, st1) \<leftarrow> classify_type f t0 st;
     let e = keep_flags e0 (e_flags u);
     if TYPE_NUM \<notin> c then bad_expr_type e st1
     else do {
       (t1, st2) \<leftarrow> (if TYPE_RESTRICT \<in> c then unrestrict_unop f e c t st1 else Some (t, st1));
       if TYPE_FLOAT \<in> c \<and> e_op e = op_chr (CHR ''~'') then bad_expr_type e st2
       else do {
         (t2, u1, st3) \<leftarrow> (if TYPE_FLOAT \<in> c then Some (t1, u, st2)
           else do {
             t2 \<leftarrow> integer_promotion (e_target (f_conf f)) (ltab st2) t1;
             (u1, st3) \<leftarrow> cast_to (f_conf f) u t2 st2;
             Some (t2, u1, st3) });
         give t2 (if e_op e = op_chr (CHR ''+'') then u1 else set_node e (Unary k u1 v)) st3 } } }"

definition is_fouled_type :: "symtab \<Rightarrow> symref \<Rightarrow> bool" where
  "is_fouled_type tab t = (get_sym_type tab t = SYM_FOULED)"

definition evaluate_not :: "front \<Rightarrow> expression \<Rightarrow> expression \<Rightarrow> lstate \<Rightarrow> evaluation" where
  "evaluate_not f e0 u st = do {
     t \<leftarrow> e_ctype u;
     let e = keep_flags e0 (e_flags u);
     let st1 = emsg_if (has_mod (mods (ltab st) t) MOD_SAFE) ''testing a safe expression'' st;
     if is_float_type (ltab st1) t then
       give Bool_ctype (set_node (set_op e SPECIAL_EQUAL) (Binary EXPR_BINOP u (new_expr e 0 (Some t) (EXPR_FVALUE 0)))) st1
     else give Bool_ctype e (emsg_if (is_fouled_type (ltab st1) t) ''degrades to integer'' st1) }"

definition evaluate_preop :: "front \<Rightarrow> expression \<Rightarrow> expression \<Rightarrow> u64 \<Rightarrow> lstate \<Rightarrow> evaluation" where
  "evaluate_preop f e u v st =
     (let op = e_op e in
      if op = op_chr (CHR ''('') then Some (e_ctype u, u, st)
      else if op \<in> {op_chr (CHR ''+''), op_chr (CHR ''-''), op_chr (CHR ''~'')} then evaluate_sign f e EXPR_PREOP u v st
      else if op = op_chr (CHR ''*'') then evaluate_dereference f e EXPR_PREOP u v st
      else if op = op_chr (CHR ''&'') then evaluate_addressof f e u st
      else if op \<in> {SPECIAL_INCREMENT, SPECIAL_DECREMENT} then evaluate_postop f e EXPR_PREOP u v st
      else if op = op_chr (CHR ''!'') then evaluate_not f e u st
      else Some (Some Bool_ctype, set_type e (e_ctype u), st))"

section \<open>Members\<close>

text \<open>
  The member of a name, and its offset, an \<open>int\<close>. The members of unnamed structures and unions are
  looked into; \<open>n\<close> bounds how deep. \<open>None\<close> is no member, or too deep a nest.
\<close>

fun find_member :: "(symref list \<Rightarrow> (symref \<times> int) option) \<Rightarrow> symtab \<Rightarrow> string \<Rightarrow> symref list \<Rightarrow> (symref \<times> int) option" where
  "find_member deep tab nm [] = None"
| "find_member deep tab nm (s # ss) =
     (case ident (tab s) of
        Some i \<Rightarrow> if i \<noteq> nm then find_member deep tab nm ss else Some (s, to_int (s_offset (tab s)))
      | None \<Rightarrow>
          (case base_of tab s of
             None \<Rightarrow> find_member deep tab nm ss
           | Some b \<Rightarrow>
               if sym_type (tab b) \<notin> {SYM_UNION, SYM_STRUCT} then find_member deep tab nm ss
               else (case deep (symbol_list (tab b)) of
                   None \<Rightarrow> find_member deep tab nm ss
                 | Some (m, off) \<Rightarrow> Some (m, to_int (word_of_int off + s_offset (tab s))))))"

primrec find_identifier :: "nat \<Rightarrow> symtab \<Rightarrow> string \<Rightarrow> symref list \<Rightarrow> (symref \<times> int) option" where
  "find_identifier 0 tab nm l = None"
| "find_identifier (Suc n) tab nm l = find_member (find_identifier n tab nm) tab nm l"

definition evaluate_offset :: "expression \<Rightarrow> u64 \<Rightarrow> expression" where
  "evaluate_offset e off =
     new_expr e (op_chr (CHR ''+'')) (Some Lazy_ptr_ctype)
       (Binary EXPR_BINOP e (new_expr e 0 (Some Int_ctype) (EXPR_VALUE off 0)))"

text \<open>The modifiers pass through an \<open>int\<close>.\<close>

definition convert_to_as_mod :: "symref \<Rightarrow> u32 \<Rightarrow> u64 \<Rightarrow> lstate \<Rightarrow> symref \<times> lstate" where
  "convert_to_as_mod s a m st =
     (let m1 = (word_of_int (to_int (or (word_of_int (to_int m)) (mods (ltab st) s))) :: u64) in
      if as_of (ltab st) s \<noteq> a \<or> mods (ltab st) s \<noteq> m1 then
        (let (n, st1) = new_symbol (ltab st s) (marks st s) st
         in (n, upd_ctype n (\<lambda>c. c\<lparr>address_space := a, modifiers := m1\<rparr>) st1))
      else (s, st))"

text \<open>
  The member \<open>nm\<close> of \<open>d\<close>, which is evaluated: an offset and a dereference, or a slice of a value.
  The modifiers are kept in an \<open>unsigned int\<close>.
\<close>

definition member_of ::
    "nat \<Rightarrow> front \<Rightarrow> expression \<Rightarrow> expression \<Rightarrow> string \<Rightarrow> symref \<Rightarrow> u32 \<Rightarrow> u32 \<Rightarrow> lstate \<Rightarrow> evaluation" where
  "member_of n f e d nm c a m st =
     (case find_identifier n (ltab st) nm (symbol_list (ltab st c)) of
        None \<Rightarrow> give_up e (if symbol_list (ltab st c) \<noteq> [] then ''no member'' else ''using member in incomplete'') st
      | Some (m0, off) \<Rightarrow> do {
          let (member, st1) = convert_to_as_mod m0 a (ucast m) st;
          (b, st2) \<leftarrow> f_exam f (base_of (ltab st1) member) st1;
          if lvalue_expression d then
            (case e_node d of
               Unary k x v \<Rightarrow>
                 give member (set_node (set_op e (op_chr (CHR ''*'')))
                   (Unary EXPR_PREOP (evaluate_offset x (word_of_int off)) 0)) st2
             | _ \<Rightarrow> None)
          else
            (let (base, bitpos) = (case e_node d of EXPR_SLICE x p k \<Rightarrow> (x, p) | _ \<Rightarrow> (d, 0));
                 pos1 = bitpos + word_of_int (bytes_to_bits (t_bits_in_char (e_target (f_conf f))) off)
                        + of_nat (bit_offset (ltab st2 member))
             in give member (set_node e (EXPR_SLICE base pos1 (word_of_int (bit_size (ltab st2 member))))) st2) })"

definition evaluate_member_dereference :: "nat \<Rightarrow> front \<Rightarrow> expression \<Rightarrow> expression \<Rightarrow> string \<Rightarrow> lstate \<Rightarrow> evaluation" where
  "evaluate_member_dereference n f e0 d0 nm st = do {
     (t, d, st1) \<leftarrow> f_expr f d0 st;
     let e = set_node e0 (EXPR_DEREF d nm);
     if t = None then Some (None, e, st1)
     else do {
       c0 \<leftarrow> e_ctype d;
       (r, st2) \<leftarrow> f_exam f (Some c0) st1;
       let tab = ltab st2;
       let m0 = (ucast (mods tab c0) :: u32);
       (c, a, m) \<leftarrow> (if sym_type (tab c0) = SYM_NODE then do {
           b \<leftarrow> base_of tab c0;
           Some (b, or (as_of tab c0) (as_of tab b), or m0 (ucast (mods tab b))) }
         else Some (c0, as_of tab c0, m0));
       if sym_type (tab c) \<notin> {SYM_STRUCT, SYM_UNION} then give_up e ''expected structure or union'' st2
       else member_of n f e d nm c a m st2 } }"

fun is_promoted :: "expression \<Rightarrow> bool" where
  "is_promoted (Expr fl k p t (Binary EXPR_BINOP l r)) = True"
| "is_promoted (Expr fl k p t (Cond c a b d)) = True"
| "is_promoted (Expr fl k p t (Binary EXPR_COMMA l r)) = is_promoted r"
| "is_promoted (Expr fl k p t (Unary EXPR_PREOP u v)) =
     (if k = op_chr (CHR ''('') then is_promoted u
      else k \<in> {op_chr (CHR ''+''), op_chr (CHR ''-''), op_chr (CHR ''~'')})"
| "is_promoted e = False"

section \<open>Casts\<close>

text \<open>A cast of an initialiser makes a symbol of the type: the initialiser is evaluated with it.\<close>

definition cast_initializer :: "front \<Rightarrow> expression \<Rightarrow> symref \<Rightarrow> expression \<Rightarrow> lstate \<Rightarrow> evaluation" where
  "cast_initializer f e s target st = do {
     (r, st1) \<leftarrow> f_sym f s (upd s (\<lambda>x. x\<lparr>initializer := Some target\<rparr>) st);
     let addr = new_expr e 0 (Some Lazy_ptr_ctype) (EXPR_SYMBOL s '''');
     give s (set_node (set_op e (op_chr (CHR ''*''))) (Unary EXPR_PREOP addr 0)) st1 }"

text \<open>The address space of a side of the cast, an \<open>int\<close>: -1 for \<open>unsigned long\<close>, which holds any pointer.\<close>

definition cast_space :: "front \<Rightarrow> symref \<Rightarrow> tclass \<Rightarrow> lstate \<Rightarrow> (int \<times> lstate) option" where
  "cast_space f t c st =
     (if t = Ulong_ctype then Some (-1, st)
      else if c = {TYPE_PTR} then do {
        (b, st1) \<leftarrow> examine_pointer_target (f_exam f) t st;
        Some (sint (as_of (ltab st1) t), st1) }
      else Some (0, st))"

definition space_messages :: "bool \<Rightarrow> int \<Rightarrow> int \<Rightarrow> lstate \<Rightarrow> lstate" where
  "space_messages adds as1 as2 st =
     emsg_if adds ''cast adds address space to expression''
       (emsg_if (as1 > 0 \<and> as2 > 0 \<and> as1 \<noteq> as2) ''cast between address spaces''
         (emsg_if (as1 = 0 \<and> as2 > 0) ''cast removes address space of expression'' st))"

definition cast_messages :: "symref \<Rightarrow> tclass \<Rightarrow> symref \<Rightarrow> tclass \<Rightarrow> lstate \<Rightarrow> lstate" where
  "cast_messages t1 c1 t2 c2 st =
     emsg_if (t1 \<noteq> t2 \<and> TYPE_RESTRICT \<in> c2) ''cast from restricted''
       (emsg_if (t1 \<noteq> t2 \<and> TYPE_RESTRICT \<in> c1) ''cast to restricted'' st)"

text \<open>
  The end of a cast that is not forced: address spaces, and \<open>(void * ) 0\<close>, which becomes the null
  pointer (its \<open>taint\<close> is what the pointer to the operand had there, as above).
\<close>

definition cast_pointers ::
    "front \<Rightarrow> expression \<Rightarrow> cast_type \<Rightarrow> symref \<Rightarrow> expression \<Rightarrow> symref \<Rightarrow> tclass \<Rightarrow> symref \<Rightarrow> tclass \<Rightarrow> lstate
     \<Rightarrow> evaluation" where
  "cast_pointers f e k ct target t1 c1 t2 c2 st = do {
     (as1, st1) \<leftarrow> cast_space f t1 c1 st;
     (as2, st2) \<leftarrow> cast_space f t2 c2 st1;
     (n, target1, st3) \<leftarrow> (if as1 > 0 \<and> as2 = 0 then is_null_pointer_constant f target st2 else Some (1, target, st2));
     let st4 = space_messages (n = 0 \<and> Wcast_to_as (f_conf f)) as1 as2 st3;
     let e1 = set_node e (Cast k ct (Some target1));
     if \<not> has_mod (mods (ltab st4) t1) MOD_PTRINHERIT \<and> c1 = {TYPE_PTR} \<and> as1 = 0
        \<and> and (e_flags target1) Int_const_expr \<noteq> 0 \<and> base_of (ltab st4) t1 = Some Void_ctype then do {
       (z, target2, st5) \<leftarrow> zero_constant f target1 st4;
       if z then Some (Some ct, set_type (set_node e (EXPR_VALUE 0 0)) (Some Null_ctype), st5)
       else Some (Some ct, set_node e (Cast k ct (Some target2)), st5) }
     else Some (Some ct, e1, st4) }"

text \<open>The flags of the cast: a cast to an integer type may stay a constant expression.\<close>

definition cast_flags :: "bool \<Rightarrow> u32 \<Rightarrow> expression \<Rightarrow> expression" where
  "cast_flags to_int_type target_flags e =
     (if \<not> to_int_type then set_flags e 0
      else if e_flags e = Int_const_expr \<and> and target_flags Int_const_expr = 0 then set_flags e 0
      else e)"

definition evaluate_cast :: "front \<Rightarrow> expression \<Rightarrow> cast_type \<Rightarrow> symref \<Rightarrow> expression option \<Rightarrow> lstate \<Rightarrow> evaluation" where
  "evaluate_cast f e0 k ct0 x st =
     (case x of
        None \<Rightarrow> Some (None, e0, st)
      | Some target0 \<Rightarrow>
          (case e_node target0 of
             EXPR_INITIALIZER l \<Rightarrow> cast_initializer f e0 ct0 target0 st
           | _ \<Rightarrow> do {
               (r, st1) \<leftarrow> f_exam f (Some ct0) st;
               ct \<leftarrow> r;
               (t, target1, st2) \<leftarrow> f_expr f target0 st1;
               (d, target, st3) \<leftarrow> degenerate f target1 st2;
               (c1, t1, st4) \<leftarrow> classify_type f ct st3;
               let e = cast_flags (is_int c1) (e_flags target) (set_type (set_node e0 (Cast k ct (Some target))) (Some ct));
               if t1 = Void_ctype then Some (Some ct, e, st4)
               else do {
                 let st5 = emsg_if (TYPE_COMPOUND \<in> c1 \<or> TYPE_FN \<in> c1) ''cast to non-scalar'' st4;
                 case e_ctype target of
                   None \<Rightarrow> (let (e1, st6) = expression_error e ''cast from unknown type'' st5 in Some (Some ct, e1, st6))
                 | Some t20 \<Rightarrow> do {
                     (c2, t2, st6) \<leftarrow> classify_type f t20 st5;
                     let st7 = emsg_if (TYPE_COMPOUND \<in> c2) ''cast from non-scalar'' st6;
                     if k = EXPR_FORCE_CAST then Some (Some ct, e, st7)
                     else do {
                       t21 \<leftarrow> (if TYPE_FOULED \<in> c2 then base_of (ltab st7) t2 else Some t2);
                       cast_pointers f e k ct target t1 c1 t21 c2 (cast_messages t1 c1 t21 c2 st7) } } } }))"

section \<open>Expressions\<close>

text \<open>Both operands first, and no further if one of them fails.\<close>

definition both_operands ::
    "front \<Rightarrow> expression \<Rightarrow> binary_type \<Rightarrow> expression \<Rightarrow> expression
     \<Rightarrow> (expression \<Rightarrow> expression \<Rightarrow> expression \<Rightarrow> lstate \<Rightarrow> evaluation) \<Rightarrow> lstate \<Rightarrow> evaluation" where
  "both_operands f e bt l r g st = do {
     (lt, l1, st1) \<leftarrow> f_expr f l st;
     if lt = None then Some (None, set_node e (Binary bt l1 r), st1)
     else do {
       (rt, r1, st2) \<leftarrow> f_expr f r st1;
       let e1 = set_node e (Binary bt l1 r1);
       if rt = None then Some (None, e1, st2) else g e1 l1 r1 st2 } }"

text \<open>
  One level of \<open>evaluate_expression\<close>: \<open>f_expr f\<close> are its recursive calls, \<open>other\<close> evaluates strings,
  symbols, calls, sizes, offsets and statements.
\<close>

definition evaluate_expression :: "nat \<Rightarrow> nat \<Rightarrow> front \<Rightarrow> evaluate_e \<Rightarrow> evaluate_e" where
  "evaluate_expression td n f other e st =
     (case e_ctype e of
        Some t \<Rightarrow> Some (Some t, e, st)
      | None \<Rightarrow>
          (case e_node e of
             EXPR_VALUE v t \<Rightarrow> give_up e ''value expression without a type'' st
           | EXPR_FVALUE v \<Rightarrow> give_up e ''value expression without a type'' st
           | Binary EXPR_BINOP l r \<Rightarrow>
               both_operands f e EXPR_BINOP l r (\<lambda>e1. evaluate_binop td f e1 EXPR_BINOP) st
           | Binary EXPR_LOGICAL l r \<Rightarrow> evaluate_logical f e l r st
           | Binary EXPR_COMMA l r \<Rightarrow> do {
               (lt, l1, st1) \<leftarrow> f_expr f l st;
               (rt, r1, st2) \<leftarrow> f_expr f r st1;
               if rt = None then Some (None, set_node e (Binary EXPR_COMMA l1 r1), st2)
               else evaluate_comma f e l1 r1 st2 }
           | Binary EXPR_COMPARE l r \<Rightarrow> both_operands f e EXPR_COMPARE l r (evaluate_compare td f) st
           | Binary EXPR_ASSIGNMENT l r \<Rightarrow> both_operands f e EXPR_ASSIGNMENT l r (evaluate_assignment td f) st
           | Unary k u v \<Rightarrow> do {
               (ut, u1, st1) \<leftarrow> f_expr f u st;
               let e1 = set_node e (Unary k u1 v);
               if ut = None then Some (None, e1, st1)
               else if k = EXPR_PREOP then evaluate_preop f e1 u1 v st1
               else evaluate_postop f e1 k u1 v st1 }
           | Cast k t x \<Rightarrow>
               (if k \<in> {EXPR_CAST, EXPR_FORCE_CAST, EXPR_IMPLIED_CAST} then evaluate_cast f e k t x st
                else other e st)
           | EXPR_DEREF d nm \<Rightarrow> evaluate_member_dereference n f e d nm st
           | Cond k c t x \<Rightarrow> evaluate_conditional_expression td f e k c t x st
           | EXPR_LABEL s \<Rightarrow> give Ptr_ctype e st
           | EXPR_TYPE s \<Rightarrow> do { (r, st1) \<leftarrow> f_sym f s st; give Type_ctype e st1 }
           | EXPR_INITIALIZER l \<Rightarrow> give_up e ''initializer in expression'' st
           | EXPR_IDENTIFIER i s x \<Rightarrow> give_up e ''initializer in expression'' st
           | EXPR_INDEX a b x \<Rightarrow> give_up e ''initializer in expression'' st
           | EXPR_POS a b x \<Rightarrow> give_up e ''initializer in expression'' st
           | EXPR_SLICE x a b \<Rightarrow> give_up e ''SLICE re-evaluated'' st
           | _ \<Rightarrow> other e st))"

end
