(* ===== verification/Evaluate_Props.thy ===== *)
theory Evaluate_Props
  imports Evaluate Const_Fold_Props
begin

text \<open>
  The types of expressions: the common type of two integers is the one of the C standard (up to its
  last case), a constant index of a pointer is scaled by the size of the elements, and an operation
  on two numbers leaves operands of the size of its result.
\<close>

section \<open>The common type of two integers\<close>

text \<open>
  The standard's view of an integer type: size, signedness and rank. The common type of two promoted
  types (C99, 6.3.1.8): of two with the same signedness the one of greater rank; else the unsigned
  one if its rank is not lower; else the signed one if it is larger; else the unsigned type of the
  signed one's rank.
\<close>

type_synonym ity = "int \<times> bool \<times> nat"

definition int_rank :: "u64 \<Rightarrow> nat" where
  "int_rank m =
     (if has_mod m MOD_LONGLONGLONG then 3 else if has_mod m MOD_LONGLONG then 2 else if has_mod m MOD_LONG then 1 else 0)"

definition ity_of :: "symtab \<Rightarrow> symref \<Rightarrow> ity" where
  "ity_of tab s = (bit_size (tab s), has_mod (mods tab s) MOD_UNSIGNED, int_rank (mods tab s))"

definition c99_mixed :: "ity \<Rightarrow> ity \<Rightarrow> ity" where
  "c99_mixed u s =
     (if snd (snd u) \<ge> snd (snd s) then u else if fst s > fst u then s else (fst s, True, snd (snd s)))"

definition c99_common :: "ity \<Rightarrow> ity \<Rightarrow> ity" where
  "c99_common a b =
     (if fst (snd a) = fst (snd b) then (if snd (snd a) \<ge> snd (snd b) then a else b)
      else if fst (snd a) then c99_mixed a b else c99_mixed b a)"

text \<open>
  What the C types are like: the modifiers of \<open>long\<close> are nested up to \<open>long long\<close>, sizes grow with
  the rank, and the type beyond \<open>long long\<close>, whose modifier stands alone, is larger than the rest.
\<close>

definition long_bits_ok :: "u64 \<Rightarrow> bool" where
  "long_bits_ok m = (and m MOD_LONG_ALL \<in> {0, MOD_LONG, or MOD_LONG MOD_LONGLONG, MOD_LONGLONGLONG})"

definition rank_below :: "ity \<Rightarrow> ity \<Rightarrow> bool" where
  "rank_below a b =
     (if snd (snd a) < snd (snd b) then (if snd (snd b) = 3 then fst a < fst b else fst a \<le> fst b)
      else snd (snd a) = snd (snd b) \<longrightarrow> fst a = fst b)"

definition ranked :: "symtab \<Rightarrow> symref \<Rightarrow> symref \<Rightarrow> bool" where
  "ranked tab a b =
     (long_bits_ok (mods tab a) \<and> long_bits_ok (mods tab b)
      \<and> rank_below (ity_of tab a) (ity_of tab b) \<and> rank_below (ity_of tab b) (ity_of tab a))"

lemma and_not_split: "and (and a (not b)) m = and (and a m) (not (and b (m :: u64)))"
  by (rule bit_word_eqI) (auto simp: bit_simps)

lemma has_mod_sub: "and m' f = f \<Longrightarrow> has_mod (and m m') f = has_mod m f"
  by (simp add: has_mod_def and.assoc)

lemma has_mod_unsigned_xor:
  "has_mod (xor a b) MOD_UNSIGNED \<longleftrightarrow> has_mod a MOD_UNSIGNED \<noteq> has_mod b MOD_UNSIGNED"
proof -
  have "has_mod m MOD_UNSIGNED \<longleftrightarrow> bit m 7" for m
    using and_exp_eq_0_iff_not_bit [of m 7] by (simp add: has_mod_def)
  then show ?thesis by (simp add: bit_simps)
qed

lemma int_rank_long: "int_rank m = int_rank (and m MOD_LONG_ALL)"
  by (simp add: int_rank_def has_mod_sub)

lemma long_bits_cases:
  assumes "long_bits_ok m"
  obtains "and m MOD_LONG_ALL = 0" "int_rank m = 0"
  | "and m MOD_LONG_ALL = MOD_LONG" "int_rank m = 1"
  | "and m MOD_LONG_ALL = or MOD_LONG MOD_LONGLONG" "int_rank m = 2"
  | "and m MOD_LONG_ALL = MOD_LONGLONGLONG" "int_rank m = 3"
proof -
  have rank: "int_rank m = int_rank w" if "and m MOD_LONG_ALL = w" for w
    using int_rank_long [of m] that by simp
  from assms have "and m MOD_LONG_ALL = 0 \<or> and m MOD_LONG_ALL = MOD_LONG \<or>
      and m MOD_LONG_ALL = or MOD_LONG MOD_LONGLONG \<or> and m MOD_LONG_ALL = MOD_LONGLONGLONG"
    by (simp add: long_bits_ok_def)
  then show thesis
  proof (elim disjE)
    assume b: "and m MOD_LONG_ALL = 0"
    show thesis by (rule that(1) [OF b]) (simp only: rank [OF b], simp add: int_rank_def has_mod_def)
  next
    assume b: "and m MOD_LONG_ALL = MOD_LONG"
    show thesis by (rule that(2) [OF b]) (simp only: rank [OF b], simp add: int_rank_def has_mod_def)
  next
    assume b: "and m MOD_LONG_ALL = or MOD_LONG MOD_LONGLONG"
    show thesis by (rule that(3) [OF b]) (simp only: rank [OF b], simp add: int_rank_def has_mod_def)
  next
    assume b: "and m MOD_LONG_ALL = MOD_LONGLONGLONG"
    show thesis by (rule that(4) [OF b]) (simp only: rank [OF b], simp add: int_rank_def has_mod_def)
  qed
qed

lemma long_bits_ranks:
  assumes "long_bits_ok l" "long_bits_ok r" "int_rank l = 3 \<longleftrightarrow> int_rank r = 3"
  shows "has_mod (and l (not r)) MOD_LONG_ALL \<longleftrightarrow> int_rank r < int_rank l"
  unfolding has_mod_def and_not_split
  by (rule long_bits_cases [OF assms(1)]; rule long_bits_cases [OF assms(2)])
    (use assms(3) in \<open>simp_all only:\<close>, simp_all)

lemma bigger_of_c99:
  assumes "ranked tab a b"
  shows "bigger_of tab a b \<in> {a, b}"
    and "fst (ity_of tab (bigger_of tab a b)) = fst (c99_common (ity_of tab a) (ity_of tab b))"
    and "fst (snd (ity_of tab (bigger_of tab a b))) = fst (snd (c99_common (ity_of tab a) (ity_of tab b)))"
    and "ity_of tab (bigger_of tab a b) \<noteq> c99_common (ity_of tab a) (ity_of tab b) \<Longrightarrow>
      bit_size (tab a) = bit_size (tab b) \<and> has_mod (mods tab a) MOD_UNSIGNED \<noteq> has_mod (mods tab b) MOD_UNSIGNED"
proof -
  let ?l = "mods tab a" and ?r = "mods tab b"
  have long: "long_bits_ok ?l" "long_bits_ok ?r"
    and below: "rank_below (ity_of tab a) (ity_of tab b)" "rank_below (ity_of tab b) (ity_of tab a)"
    using assms by (simp_all add: ranked_def)
  have same: "has_mod (and ?l (not ?r)) MOD_LONG_ALL \<longleftrightarrow> int_rank ?r < int_rank ?l"
    if "bit_size (tab a) = bit_size (tab b)"
  proof (rule long_bits_ranks [OF long])
    show "int_rank ?l = 3 \<longleftrightarrow> int_rank ?r = 3"
      using below that by (auto simp: rank_below_def ity_of_def int_rank_def split: if_splits)
  qed
  note defs = bigger_of_def c99_common_def c99_mixed_def ity_of_def rank_below_def Let_def has_mod_unsigned_xor
  show "bigger_of tab a b \<in> {a, b}" by (simp add: bigger_of_def Let_def)
  show "fst (ity_of tab (bigger_of tab a b)) = fst (c99_common (ity_of tab a) (ity_of tab b))"
    using below same by (auto simp: defs split: if_splits)
  show "fst (snd (ity_of tab (bigger_of tab a b))) = fst (snd (c99_common (ity_of tab a) (ity_of tab b)))"
    using below same by (auto simp: defs split: if_splits)
  show "ity_of tab (bigger_of tab a b) \<noteq> c99_common (ity_of tab a) (ity_of tab b) \<Longrightarrow>
      bit_size (tab a) = bit_size (tab b) \<and> has_mod (mods tab a) MOD_UNSIGNED \<noteq> has_mod (mods tab b) MOD_UNSIGNED"
    using below same by (auto simp: defs split: if_splits)
qed

text \<open>
  C36. The usual conversions of two integers find the common type of the C standard: for operand
  types whose sizes go with their ranks, \<open>bigger_int_type\<close> returns one of the two promoted types,
  of the size and the signedness that C99 asks for, and of its rank, except when an unsigned type
  meets a signed one of the same size.
\<close>

theorem bigger_int_type_c99:
  assumes "integer_promotion tg tab l = Some a" "integer_promotion tg tab r = Some b" "ranked tab a b"
  shows "\<exists>c. bigger_int_type tg tab l r = Some c \<and> c \<in> {a, b}
    \<and> bit_size (tab c) = fst (c99_common (ity_of tab a) (ity_of tab b))
    \<and> has_mod (mods tab c) MOD_UNSIGNED = fst (snd (c99_common (ity_of tab a) (ity_of tab b)))
    \<and> (int_rank (mods tab c) = snd (snd (c99_common (ity_of tab a) (ity_of tab b)))
       \<or> bit_size (tab a) = bit_size (tab b) \<and> has_mod (mods tab a) MOD_UNSIGNED \<noteq> has_mod (mods tab b) MOD_UNSIGNED)"
proof -
  let ?c = "bigger_of tab a b"
  have "bigger_int_type tg tab l r = Some ?c" using assms by (simp add: bigger_int_type_def)
  moreover note bigger_of_c99 [OF assms(3)]
  moreover have "ity_of tab ?c = (bit_size (tab ?c), has_mod (mods tab ?c) MOD_UNSIGNED, int_rank (mods tab ?c))"
    by (simp add: ity_of_def)
  ultimately show ?thesis by (metis fst_conv snd_conv)
qed

text \<open>The types on the default target, where \<open>long\<close> is not larger than \<open>int\<close>.\<close>

lemma init_one_other: "x \<noteq> s \<Longrightarrow> init_one tg (s, t, m, bits, mx, bt) tab x = tab x"
  by (simp add: init_one_def Let_def)

lemma init_one_same:
  "sym_type (init_one tg (s, t, m, bits, mx, bt) tab s) = t"
  "bit_size (init_one tg (s, t, m, bits, mx, bt) tab s) = to_int (case bits of Some k \<Rightarrow> word_of_int k | None \<Rightarrow> -1)"
  "mods (init_one tg (s, t, m, bits, mx, bt) tab) s = m"
  by (simp_all add: init_one_def Let_def)

lemmas init_ctype_simps = init_ctype_def ctype_declaration_def Let_def init_one_other init_one_same to_int_def

lemma builtin_types:
  "bit_size (init_ctype default_target tab Int_ctype) = 32"
  "bit_size (init_ctype default_target tab Long_ctype) = 32"
  "mods (init_ctype default_target tab) Long_ctype = or MOD_SIGNED MOD_LONG"
  "sym_type (init_ctype default_target tab Long_ctype) = SYM_BASETYPE"
  "bit_size (init_ctype default_target tab Uint_ctype) = 32"
  "mods (init_ctype default_target tab) Uint_ctype = MOD_UNSIGNED"
  "sym_type (init_ctype default_target tab Uint_ctype) = SYM_BASETYPE"
  by (simp_all add: init_ctype_simps default_target_def)
section \<open>Pointer arithmetic\<close>

lemma sign_fill:
  assumes "1 \<le> n" "n \<le> 64"
  shows "(if and v (size_mask n) \<noteq> 0 then or v (- size_mask n) else and v (size_mask n - 1))
    = signed_take_bit (nat (n - 1)) v"
proof (rule bit_word_eqI)
  fix i
  assume i: "i < LENGTH(64)"
  let ?k = "nat (n - 1)"
  have top: "and v (size_mask n) \<noteq> 0 \<longleftrightarrow> bit v ?k"
    by (simp add: size_mask_eq and_exp_eq_0_iff_not_bit)
  have low: "bit (size_mask n - 1) i \<longleftrightarrow> i < ?k"
    using i by (simp add: size_mask_eq mask_eq_exp_minus_1 [symmetric] bit_simps)
  then have high: "bit (- size_mask n) i \<longleftrightarrow> \<not> i < ?k"
    using i by (simp add: minus_eq_not_minus_1 bit_not_iff)
  show "bit (if and v (size_mask n) \<noteq> 0 then or v (- size_mask n) else and v (size_mask n - 1)) i
    = bit (signed_take_bit ?k v) i"
    using top low high i assms by (auto simp: bit_simps min_def not_less le_less)
qed

lemma uint_scale_constant:
  assumes "1 \<le> ib" "ib \<le> 64" "1 \<le> pb" "pb \<le> 64"
  shows "uint (scale_constant pb ib v k) = (ival True ib v * k) mod 2 ^ nat pb"
proof -
  let ?v = "signed_take_bit (nat (ib - 1)) v"
  have v: "word_of_int (ival True ib v) = ?v"
    using assms by (simp add: ival_def signed_take_bit_word [symmetric])
  define z where "z = ival True ib v * k"
  have "scale_constant pb ib v k = and (?v * word_of_int k) (all_mask pb)"
    using sign_fill [OF assms(1,2), of v] by (simp add: scale_constant_def all_mask_def Let_def)
  also have "\<dots> = take_bit (nat pb) (word_of_int z)"
    using assms by (simp add: and_all_mask v z_def)
  finally have "uint (scale_constant pb ib v k) = take_bit (nat pb) (take_bit 64 z)"
    by (simp add: unsigned_take_bit_eq unsigned_of_int)
  moreover have "nat pb \<le> 64" using assms by simp
  ultimately show ?thesis by (simp add: min_def z_def flip: take_bit_eq_mod)
qed

text \<open>What a step of a pointer is: one for \<open>void\<close>, else the bytes of the type pointed to.\<close>

definition element_size :: "target \<Rightarrow> symtab \<Rightarrow> symref \<Rightarrow> int" where
  "element_size tg tab b = (if is_void_type tab b then 1 else bits_to_bytes (t_bits_in_char tg) (bit_size (tab b)))"

text \<open>
  C37. Adding a constant to a pointer: if the result has a type, then the type pointed to is there and
  no function, and the right operand is a constant of type \<open>ssize_t\<close>, namely the index, read as a
  signed number of the width of its type, times the size of the elements, modulo the width of a
  pointer. The index is left alone only if that size is one and the index is as wide as a pointer.
\<close>

theorem evaluate_ptr_add_constant:
  assumes "evaluate_ptr_add f e bt l index itype st = Some (Some c, e', st')"
    and "e_node index = EXPR_VALUE v taint"
    and "1 \<le> bit_size (ltab st' itype)" "bit_size (ltab st' itype) \<le> 64"
    and "1 \<le> bits_in_pointer (e_target (f_conf f))" "bits_in_pointer (e_target (f_conf f)) \<le> 64"
  shows "\<exists>cl ptr l' st1 base i'.
      degenerate_class f l st = Some (cl, ptr, l', st1)
    \<and> examine_pointer_target (f_exam f) ptr st1 = Some (Some base, st')
    \<and> \<not> is_function (ltab st') (Some base) \<and> e_node e' = Binary bt l' i' \<and> e_ctype e' = Some c
    \<and> (let k = element_size (e_target (f_conf f)) (ltab st') base; pb = bits_in_pointer (e_target (f_conf f)) in
       (k = 1 \<and> bit_size (ltab st' itype) \<ge> pb \<and> i' = index)
       \<or> (\<exists>w. e_node i' = EXPR_VALUE w 0 \<and> e_ctype i' = Some (ssize_t_ctype (f_conf f))
            \<and> uint w = (ival True (bit_size (ltab st' itype)) v * k) mod 2 ^ nat pb))"
proof -
  let ?tg = "e_target (f_conf f)"
  from assms(1) obtain cl ct l1 st1 b st2 where
    d: "degenerate_class f l st = Some (cl, ct, l1, st1)" and
    x: "examine_pointer_target (f_exam f) ct st1 = Some (b, st2)"
    by (auto simp: evaluate_ptr_add_def Let_def bind_eq_Some_conv)
  from assms(1) obtain base where b: "b = Some base" and nf: "\<not> is_function (ltab st2) (Some base)"
    by (cases b) (auto simp: evaluate_ptr_add_def d x give_up_def expression_error_def Let_def split: if_splits)
  let ?k = "element_size ?tg (ltab st2) base"
  have s: "scaled_index (f_conf f) e1 index itype n st2 =
      Some (new_expr e1 0 (Some (ssize_t_ctype (f_conf f)))
        (EXPR_VALUE (scale_constant (bits_in_pointer ?tg) (bit_size (ltab st2 itype)) v n) 0), st2)" for e1 n
    by (simp add: scaled_index_def assms(2))
  have st': "st' = st2" and
    e': "e_ctype e' = Some c" and
    cases: "(?k = 1 \<and> bit_size (ltab st2 itype) \<ge> bits_in_pointer ?tg \<and> e_node e' = Binary bt l1 index)
      \<or> e_node e' = Binary bt l1 (new_expr (set_node e (Binary bt l1 index)) 0 (Some (ssize_t_ctype (f_conf f)))
           (EXPR_VALUE (scale_constant (bits_in_pointer ?tg) (bit_size (ltab st2 itype)) v ?k) 0))"
    using assms(1)
    by (auto simp: evaluate_ptr_add_def d x b nf s give_def element_size_def Let_def split: if_splits)
  have u: "uint (scale_constant (bits_in_pointer ?tg) (bit_size (ltab st2 itype)) v ?k) =
      (ival True (bit_size (ltab st2 itype)) v * ?k) mod 2 ^ nat (bits_in_pointer ?tg)"
    by (rule uint_scale_constant) (use assms st' in auto)
  from cases show ?thesis
    by (elim disjE conjE) (simp_all add: d x b st' e' nf new_expr_def u Let_def)
qed

section \<open>Operations on numbers\<close>






lemma lwarn_table [simp]: "ltab (lwarn m st) = ltab st"
  by (simp add: lwarn_def)

lemma emsg_if_table [simp]: "ltab (emsg_if b m st) = ltab st"
  by (simp add: emsg_if_def)




lemma implied_cast_type [simp]: "e_ctype (implied_cast e t) = Some t"
  by (simp add: implied_cast_def)








text \<open>An example: a pointer to \<open>int\<close>, which is \<open>Sym 0\<close>, and a constant.\<close>

definition example_types :: symtab where
  "example_types = (\<lambda>s.
     if s = Sym 0 then (blank_symbol SYM_PTR)\<lparr>bit_size := 32, s_ctype := (s_ctype (blank_symbol SYM_PTR))\<lparr>base_type := Some Int_ctype\<rparr>\<rparr>
     else if s = Uint_ctype then (blank_symbol SYM_BASETYPE)\<lparr>bit_size := 32,
       s_ctype := (s_ctype (blank_symbol SYM_BASETYPE))\<lparr>modifiers := MOD_UNSIGNED, base_type := Some Int_type\<rparr>\<rparr>
     else if s = Char_ctype then (blank_symbol SYM_BASETYPE)\<lparr>bit_size := 8,
       s_ctype := (s_ctype (blank_symbol SYM_BASETYPE))\<lparr>modifiers := or MOD_SIGNED MOD_CHAR, base_type := Some Int_type\<rparr>\<rparr>
     else (blank_symbol SYM_BASETYPE)\<lparr>bit_size := 32,
       s_ctype := (s_ctype (blank_symbol SYM_BASETYPE))\<lparr>modifiers := MOD_SIGNED, base_type := Some Int_type\<rparr>\<rparr>)"

definition example_front :: front where
  "example_front = (let ev = (\<lambda>e st. Some (e_ctype e, e, st)); ee = (\<lambda>e st. Some (e, 0, st)) in
     \<lparr>f_conf = \<lparr>e_target = default_target, size_t_ctype = Uint_ctype, ssize_t_ctype = Int_ctype, Wenum_mismatch = True,
        Wtypesign = False, Wnon_pointer_null = True, Wcast_to_as = True, Wptr_subtraction_blows = True\<rparr>,
      f_expr = ev, f_exam = examine_symbol_type default_target True ev ee 1,
      f_sym = (\<lambda>s st. Some (Some s, st)), f_expand = ee\<rparr>)"

definition types_state :: lstate where
  "types_state = \<lparr>lx = \<lparr>syms = example_types, conservative = False, xwarns = []\<rparr>, examined = (\<lambda>s. True), evaluated = (\<lambda>s. False),
     restr = [], fouled = [], n_syms = 1, used_syms = [], lwarns = []\<rparr>"

definition leaf :: "symref \<Rightarrow> u64 \<Rightarrow> expression" where
  "leaf t v = Expr 0 0 no_pos (Some t) (EXPR_VALUE v 0)"

lemma leaf_simps [simp]: "e_node (leaf t v) = EXPR_VALUE v 0" "e_ctype (leaf t v) = Some t" "e_flags (leaf t v) = 0"
  by (simp_all add: leaf_def)

lemma set_node_twice [simp]: "set_node (set_node e a) b = set_node e b"
  by (simp add: set_node_def)

definition pointer_plus :: expression where
  "pointer_plus = Expr 0 (op_chr (CHR ''+'')) no_pos None (Binary EXPR_BINOP (leaf (Sym 0) 0) (leaf Int_ctype (- 3)))"

lemmas example_simps =
  example_types_def example_front_def types_state_def leaf_def pointer_plus_def blank_symbol_def default_target_def

lemma example_degenerate:
  "degenerate_class example_front (leaf (Sym 0) v) types_state = Some ({TYPE_PTR}, Sym 0, leaf (Sym 0) v, types_state)"
  by (simp add: example_simps degenerate_class_def degenerate_def classify_type_def class_of_def class_table_def
      examine_body_def Let_def)

lemma example_target:
  obtains st1 where "examine_pointer_target (f_exam example_front) (Sym 0) types_state = Some (Some Int_ctype, st1)"
    and "ltab st1 Int_ctype = example_types Int_ctype"
proof
  let ?bc = "s_ctype (example_types Int_ctype)"
  let ?st = "upd_ctype (Sym 0) (\<lambda>c. (add_modifiers (and (modifiers ?bc) MOD_PTRINHERIT) c)
      \<lparr>address_space := or (address_space c) (address_space ?bc), contexts := concat_ptr_list (contexts ?bc) (contexts c)\<rparr>)
      types_state"
  show "ltab ?st Int_ctype = example_types Int_ctype" by (simp add: upd_ctype_def upd_def types_state_def)
  show "examine_pointer_target (f_exam example_front) (Sym 0) types_state = Some (Some Int_ctype, ?st)"
    by (simp add: example_front_def types_state_def example_types_def examine_pointer_target_def examine_base_type_def
        examine_body_def blank_symbol_def Let_def upd_ctype_def upd_def)
qed

theorem evaluate_ptr_add_constant_witness:
  "\<exists>st' l' i'. evaluate_ptr_add example_front pointer_plus EXPR_BINOP (leaf (Sym 0) 0) (leaf Int_ctype (- 3)) Int_ctype types_state
      = Some (Some (Sym 0), set_type (set_node pointer_plus (Binary EXPR_BINOP l' i')) (Some (Sym 0)), st')
    \<and> e_node i' = EXPR_VALUE 0xFFFFFFF4 0"
proof -
  let ?f = example_front and ?l = "leaf (Sym 0) 0" and ?i = "leaf Int_ctype (- 3)"
  obtain st1 where t: "examine_pointer_target (f_exam ?f) (Sym 0) types_state = Some (Some Int_ctype, st1)"
    and st1: "ltab st1 Int_ctype = example_types Int_ctype" by (rule example_target)
  have bits: "bits_in_pointer (e_target (f_conf ?f)) = 32" "bit_size (ltab st1 Int_ctype) = 32"
    by (simp_all add: st1 example_front_def default_target_def example_types_def Let_def)
  have k: "element_size (e_target (f_conf ?f)) (ltab st1) Int_ctype = 4" "\<not> is_function (ltab st1) (Some Int_ctype)"
    by (simp_all add: st1 element_size_def is_void_type_def node_base_def is_function_def bits_to_bytes_def example_front_def
        default_target_def example_types_def blank_symbol_def Let_def)
  define i0 where "i0 = new_expr (set_node pointer_plus (Binary EXPR_BINOP ?l ?i)) 0
      (Some (ssize_t_ctype (f_conf ?f))) (EXPR_VALUE (scale_constant 32 32 (- 3) 4) 0)"
  have run: "evaluate_ptr_add ?f pointer_plus EXPR_BINOP ?l ?i Int_ctype types_state
      = Some (Some (Sym 0), set_type (set_node pointer_plus (Binary EXPR_BINOP ?l i0)) (Some (Sym 0)), st1)"
    using k bits
    by (simp add: evaluate_ptr_add_def example_degenerate t scaled_index_def give_def Let_def element_size_def i0_def
        split del: if_split)
  have "\<exists>w. e_node i0 = EXPR_VALUE w 0 \<and> uint w = 0xFFFFFFF4"
    using evaluate_ptr_add_constant [OF run, of "- 3" 0] bits k
    by (auto simp: example_degenerate t Let_def ival_def)
  then have "e_node i0 = EXPR_VALUE 0xFFFFFFF4 0"
    by (metis word_of_int_uint word_of_int_numeral)
  with run show ?thesis by blast
qed

text \<open>A case where C99 is not met: on the default target \<open>long\<close> has the size of \<open>int\<close>.\<close>

lemmas builtin_ranks = builtin_types ity_of_def int_rank_def has_mod_def

lemma default_int: "bits_in_int default_target = 32"
  by (simp add: default_target_def)

lemma long_and_unsigned:
  "ity_of (init_ctype default_target tab) Long_ctype = (32, False, 1)"
  "ity_of (init_ctype default_target tab) Uint_ctype = (32, True, 0)"
  "integer_promotion default_target (init_ctype default_target tab) Long_ctype = Some Long_ctype"
  "integer_promotion default_target (init_ctype default_target tab) Uint_ctype = Some Uint_ctype"
  "ranked (init_ctype default_target tab) Long_ctype Uint_ctype"
  by (simp_all add: builtin_ranks integer_promotion_def default_int ranked_def long_bits_ok_def rank_below_def Let_def)

text \<open>C99 gives \<open>unsigned long\<close>, the code \<open>unsigned int\<close>.\<close>

lemma long_plus_unsigned:
  "bigger_int_type default_target (init_ctype default_target tab) Long_ctype Uint_ctype = Some Uint_ctype"
  "c99_common (ity_of (init_ctype default_target tab) Long_ctype) (ity_of (init_ctype default_target tab) Uint_ctype)
    = (32, True, 1)"
  by (simp_all add: long_and_unsigned bigger_int_type_def bigger_of_def c99_common_def c99_mixed_def builtin_types has_mod_def)

theorem bigger_int_type_c99_witness:
  "\<exists>c. bigger_int_type default_target (init_ctype default_target example_types) Long_ctype Uint_ctype = Some c
    \<and> c \<in> {Long_ctype, Uint_ctype} \<and> bit_size (init_ctype default_target example_types c) = 32
    \<and> has_mod (mods (init_ctype default_target example_types) c) MOD_UNSIGNED"
  using bigger_int_type_c99 [OF long_and_unsigned(3) long_and_unsigned(4) long_and_unsigned(5), of example_types]
  by (auto simp: long_and_unsigned(1,2) c99_common_def c99_mixed_def)



end
