(* ===== verification/Calls.thy ===== *)
theory Calls
  imports Evaluate
begin

text \<open>
  Types of the other expressions (third part of \<open>evaluate.c\<close>): symbols, strings, sizes, calls with
  their arguments, \<open>__builtin_offsetof\<close>, and the builtin functions of \<open>symbol.c\<close>.
\<close>

section \<open>What the parser has found out\<close>

text \<open>
  Members of the symbols that evaluation does not change: the definition of a symbol, its other
  declarations from the one before it on, arguments with a \<open>forced_arg\<close>, functions with an
  \<open>inline_stmt\<close>, labels that are keywords, and the symbols of \<open>__builtin_choose_expr\<close>. Then the flags,
  and the functions of other parts: the initialisers of \<open>evaluate.c\<close>, \<open>inline_function\<close> and \<open>uninline\<close>.
  The first argument of the functions is \<open>current_fn\<close>.
\<close>

record parsed =
  def_of :: "symref \<Rightarrow> symref option"
  same_symbols :: "symref \<Rightarrow> symref list"
  forced_arg :: "symref \<Rightarrow> bool"
  has_inline :: "symref \<Rightarrow> bool"
  label_keyword :: "symref \<Rightarrow> bool"
  op_choose :: "symref \<Rightarrow> bool"
  Wreturn_void :: bool
  Wdecl :: bool
  p_initializer :: "symref option \<Rightarrow> symref \<Rightarrow> expression \<Rightarrow> lstate \<Rightarrow> (expression \<times> lstate) option"
  p_inline :: "symref option \<Rightarrow> expression \<Rightarrow> symref \<Rightarrow> lstate \<Rightarrow> (bool \<times> expression \<times> lstate) option"
  p_uninline :: "symref \<Rightarrow> lstate \<Rightarrow> lstate option"

section \<open>Symbols and strings\<close>

text \<open>The type of a symbol is the symbol itself: \<open>*x\<close>, where the type of \<open>x\<close> is not known yet.\<close>

definition symbol_address :: "expression \<Rightarrow> symref \<Rightarrow> string \<Rightarrow> expression" where
  "symbol_address e s nm =
     set_node (set_op e (op_chr (CHR ''*''))) (Unary EXPR_PREOP (new_expr e 0 (Some Lazy_ptr_ctype) (EXPR_SYMBOL s nm)) 0)"

definition evaluate_symbol_expression :: "front \<Rightarrow> expression \<Rightarrow> symref \<Rightarrow> string \<Rightarrow> lstate \<Rightarrow> evaluation" where
  "evaluate_symbol_expression f e s nm st = do {
     (r, st1) \<leftarrow> f_exam f (Some s) st;
     (b, st2) \<leftarrow> f_exam f (base_of (ltab st1) s) st1;
     if b = None then give_up e ''identifier has no type'' st2
     else give s (symbol_address e s nm) st2 }"

text \<open>A string is an array with an initialiser. The length of \<open>struct string\<close> counts the final NUL.\<close>

definition evaluate_string :: "econf \<Rightarrow> expression \<Rightarrow> string \<Rightarrow> lstate \<Rightarrow> evaluation" where
  "evaluate_string cf e s st =
     (let n = int (length s) + 1;
          bits = bytes_to_bits (t_bits_in_char (e_target cf)) n;
          (a, st1) = alloc_symbol SYM_NODE st;
          (array, st2) = alloc_symbol SYM_ARRAY st1;
          typed = (\<lambda>t x. x\<lparr>array_size := Some (alloc_const_expression e n), bit_size := bits,
                     s_ctype := (s_ctype x)\<lparr>alignment := 1, modifiers := MOD_STATIC, base_type := Some t\<rparr>\<rparr>);
          init = new_expr e 0 (Some a) (EXPR_STRING False s);
          st3 = upd a (\<lambda>x. (typed array x)\<lparr>initializer := Some init\<rparr>) st2;
          st4 = upd array (typed Char_ctype) st3
      in give a (symbol_address e a '''') st4)"

section \<open>Sizes\<close>

text \<open>
  The type to measure. A \<open>sizeof\<close> has a type or an expression: with an expression, \<open>cast_type\<close> is NULL.
  The test \<open>is_promoted\<close> looks at the \<open>sizeof\<close>, not at its operand.
\<close>

definition measured_type :: "target \<Rightarrow> symtab \<Rightarrow> expression \<Rightarrow> symref \<Rightarrow> symref" where
  "measured_type tg tab e s =
     (if get_sym_type tab s = SYM_RESTRICT then
        (if bit_size (tab s) < bits_in_int tg \<and> is_promoted e then Int_ctype else s)
      else if is_fouled_type tab s then Int_ctype
      else s)"

lemma restricted_not_promoted:
  "get_sym_type tab s = SYM_RESTRICT \<Longrightarrow> measured_type tg tab (Expr fl k q t (Cast c ty x)) s = s"
  by (simp add: measured_type_def)

definition evaluate_type_information ::
    "front \<Rightarrow> expression \<Rightarrow> cast_type \<Rightarrow> symref \<Rightarrow> expression option \<Rightarrow> lstate \<Rightarrow> evaluation" where
  "evaluate_type_information f e k t x st = do {
     (r, e1, st1) \<leftarrow> (case x of
         None \<Rightarrow> Some (Some t, e, st)
       | Some u \<Rightarrow> do {
           (r, u1, st1) \<leftarrow> f_expr f u st;
           let e1 = set_node e (Cast k t (Some u1));
           Some (map_option (measured_type (e_target (f_conf f)) (ltab st1) e1) r, e1, st1) });
     case r of
       None \<Rightarrow> Some (None, e1, st1)
     | Some s \<Rightarrow> do {
         (y, st2) \<leftarrow> f_exam f (Some s) st1;
         if is_bitfield_type (ltab st2) s then give_up e1 ''trying to examine bitfield type'' st2
         else Some (Some s, e1, st2) } }"

definition give_size :: "econf \<Rightarrow> u64 \<Rightarrow> expression \<Rightarrow> lstate \<Rightarrow> evaluation" where
  "give_size cf v e st = give (size_t_ctype cf) (set_node e (EXPR_VALUE v 0)) st"

text \<open>The size of a type in bits, with what is taken for types that have none.\<close>

definition measure :: "int \<Rightarrow> symtab \<Rightarrow> symref \<Rightarrow> lstate \<Rightarrow> int \<times> lstate" where
  "measure bic tab s st =
     (let (n1, st1) = (if bit_size (tab s) < 0 \<and> is_void_type tab s then (bic, emsg ''sizeof(void)'' st) else (bit_size (tab s), st));
          (n2, st2) = (if n1 = 1 \<and> is_bool_type tab s then (bic, emsg ''sizeof bool'' st1) else (n1, st1))
      in if is_function tab (base_of tab s) then (bic, emsg ''sizeof on a function'' st2) else (n2, st2))"

definition evaluate_sizeof :: "front \<Rightarrow> expression \<Rightarrow> cast_type \<Rightarrow> symref \<Rightarrow> expression option \<Rightarrow> lstate \<Rightarrow> evaluation" where
  "evaluate_sizeof f e k t x st = do {
     let bic = t_bits_in_char (e_target (f_conf f));
     (r, e1, st1) \<leftarrow> evaluate_type_information f e k t x st;
     case r of
       None \<Rightarrow> Some (None, e1, st1)
     | Some s \<Rightarrow>
         (let (n, st2) = measure bic (ltab st1) s st1;
              st3 = emsg_if (n < 0 \<or> and n (bic - 1) \<noteq> 0) ''cannot size expression'' st2
          in give_size (f_conf f) (word_of_int (bits_to_bytes bic n)) e1 st3) }"

text \<open>\<open>__sizeof_ptr__\<close>: of what a pointer points to, or of an array.\<close>

definition evaluate_ptrsizeof :: "front \<Rightarrow> expression \<Rightarrow> cast_type \<Rightarrow> symref \<Rightarrow> expression option \<Rightarrow> lstate \<Rightarrow> evaluation" where
  "evaluate_ptrsizeof f e k t x st = do {
     let bic = t_bits_in_char (e_target (f_conf f));
     (r, e1, st1) \<leftarrow> evaluate_type_information f e k t x st;
     case r of
       None \<Rightarrow> Some (None, e1, st1)
     | Some s0 \<Rightarrow>
         (case (if sym_type (ltab st1 s0) = SYM_NODE then base_of (ltab st1) s0 else Some s0) of
            None \<Rightarrow> Some (None, e1, st1)
          | Some s \<Rightarrow> do {
              (b, st2) \<leftarrow> (if sym_type (ltab st1 s) = SYM_ARRAY then Some (Some s, st1)
                 else if sym_type (ltab st1 s) = SYM_PTR then f_exam f (base_of (ltab st1) s) st1
                 else Some (None, st1));
              case b of
                None \<Rightarrow> give_up e1 ''expected pointer expression'' st2
              | Some b1 \<Rightarrow>
                  (let n = bit_size (ltab st2 b1)
                   in give_size (f_conf f) (word_of_int (bits_to_bytes bic (if and n (bic - 1) \<noteq> 0 then 0 else n))) e1 st2) }) }"

definition evaluate_alignof :: "front \<Rightarrow> expression \<Rightarrow> cast_type \<Rightarrow> symref \<Rightarrow> expression option \<Rightarrow> lstate \<Rightarrow> evaluation" where
  "evaluate_alignof f e k t x st = do {
     (r, e1, st1) \<leftarrow> evaluate_type_information f e k t x st;
     case r of
       None \<Rightarrow> Some (None, e1, st1)
     | Some s \<Rightarrow> give_size (f_conf f) (align_of st1 s) e1 st1 }"

section \<open>Calls\<close>

text \<open>The expressions of a list are overwritten in its blocks.\<close>

fun refill :: "'a ptr_list \<Rightarrow> 'a list \<Rightarrow> 'a ptr_list" where
  "refill [] ys = []"
| "refill (b # bs) ys = take (length b) ys # refill bs (drop (length b) ys)"

text \<open>An argument without a parameter is promoted.\<close>

definition promote_argument :: "front \<Rightarrow> symref \<Rightarrow> expression \<Rightarrow> lstate \<Rightarrow> (expression \<times> lstate) option" where
  "promote_argument f c e st = do {
     let cf = f_conf f;
     (cl, t, st1) \<leftarrow> classify_type f c st;
     if is_int cl then do { t1 \<leftarrow> integer_promotion (e_target cf) (ltab st1) t; cast_to cf e t1 st1 }
     else if TYPE_FLOAT \<in> cl then
       (if has_mod (mods (ltab st1) t) MOD_LONG_ALL then Some (e, st1) else cast_to cf e Double_ctype st1)
     else if TYPE_PTR \<in> cl then
       (if e_ctype e = Some Null_ctype then cast_to cf e Ptr_ctype st1
        else do { (d, e1, st2) \<leftarrow> degenerate f e st1; Some (e1, st2) })
     else Some (e, st1) }"

definition evaluate_argument ::
    "nat \<Rightarrow> front \<Rightarrow> parsed \<Rightarrow> symref option \<Rightarrow> symref \<Rightarrow> expression \<Rightarrow> lstate \<Rightarrow> (expression \<times> lstate) option" where
  "evaluate_argument td f p target c e st =
     (case target of
        None \<Rightarrow> promote_argument f c e st
      | Some t \<Rightarrow>
          if forced_arg p t then Some (e, st)
          else do {
            (r, st1) \<leftarrow> f_exam f (Some t) st;
            (ok, e1, st2) \<leftarrow> compatible_assignment_types td f t e st1;
            Some (e1, st2) })"

text \<open>The arguments in step with the parameters, up to one that has no type.\<close>

fun evaluate_arguments ::
    "nat \<Rightarrow> front \<Rightarrow> parsed \<Rightarrow> symref list \<Rightarrow> expression list \<Rightarrow> lstate \<Rightarrow> (bool \<times> expression list \<times> lstate) option" where
  "evaluate_arguments td f p types [] st = Some (True, [], st)"
| "evaluate_arguments td f p types (e # es) st = do {
     (t, e1, st1) \<leftarrow> f_expr f e st;
     case t of
       None \<Rightarrow> Some (False, e1 # es, st1)
     | Some c \<Rightarrow> do {
         (e2, st2) \<leftarrow> evaluate_argument td f p (case types of [] \<Rightarrow> None | a # as \<Rightarrow> Some a) c e1 st1;
         (ok, es1, st3) \<leftarrow> evaluate_arguments td f p (tl types) es st2;
         Some (ok, e2 # es1, st3) } }"

text \<open>Without parameters: all of them, or up to one that has no type.\<close>

fun evaluate_all :: "front \<Rightarrow> bool \<Rightarrow> expression list \<Rightarrow> lstate \<Rightarrow> (bool \<times> expression list \<times> lstate) option" where
  "evaluate_all f go_on [] st = Some (True, [], st)"
| "evaluate_all f go_on (e # es) st = do {
     (t, e1, st1) \<leftarrow> f_expr f e st;
     if t = None \<and> \<not> go_on then Some (False, e1 # es, st1)
     else do { (ok, es1, st2) \<leftarrow> evaluate_all f go_on es st1; Some (ok, e1 # es1, st2) } }"

text \<open>The builtin functions: \<open>__builtin_choose_expr\<close> becomes one of its arguments, the others are \<open>int\<close>.\<close>

definition arguments_choose :: "front \<Rightarrow> expression \<Rightarrow> expression \<Rightarrow> expression ptr_list \<Rightarrow> lstate \<Rightarrow> (bool \<times> expression \<times> lstate) option" where
  "arguments_choose f e fn args st = do {
     (ok, es, st1) \<leftarrow> evaluate_all f False (entries args) st;
     let e1 = set_node e (EXPR_CALL fn (refill args es));
     Some (if \<not> ok then (False, e1, st1)
           else if length es < 3 then (False, e1, emsg ''not enough arguments for __builtin_choose_expr'' st1)
           else if length es > 3 then (False, e1, emsg ''too many arguments for __builtin_choose_expr'' st1)
           else (True, e1, st1)) }"

definition evaluate_choose :: "front \<Rightarrow> expression list \<Rightarrow> lstate \<Rightarrow> (bool \<times> expression \<times> lstate) option" where
  "evaluate_choose f es st =
     (case es of
        [a, b, c] \<Rightarrow> do {
          (v, a1, x) \<leftarrow> get_expression_value_from (f_expand f) 0 (e_ctype a) (Some a) (lx st);
          Some (True, if v \<noteq> 0 then b else c, st\<lparr>lx := x\<rparr>) }
      | _ \<Rightarrow> None)"

definition evaluate_symbol_call ::
    "front \<Rightarrow> parsed \<Rightarrow> expression \<Rightarrow> expression \<Rightarrow> expression list \<Rightarrow> symref \<Rightarrow> lstate \<Rightarrow> (bool \<times> expression \<times> lstate) option" where
  "evaluate_symbol_call f p e fn args c st =
     (case e_node fn of
        Unary EXPR_PREOP u k \<Rightarrow>
          if op_choose p c then evaluate_choose f args st
          else if op_expand (ltab st c) \<noteq> None then Some (True, set_type e (Some Int_ctype), st)
          else if has_mod (mods (ltab st) c) MOD_INLINE then
            (let d = (case def_of p c of None \<Rightarrow> c | Some d \<Rightarrow> d) in p_inline p (base_of (ltab st) d) e d st)
          else Some (False, e, st)
      | _ \<Rightarrow> Some (False, e, st))"

text \<open>The arguments of a call of the function type \<open>c\<close>, and their number.\<close>

definition call_arguments ::
    "nat \<Rightarrow> front \<Rightarrow> parsed \<Rightarrow> expression \<Rightarrow> expression \<Rightarrow> expression ptr_list \<Rightarrow> symref \<Rightarrow> lstate \<Rightarrow> (bool \<times> expression \<times> lstate) option" where
  "call_arguments td f p e fn args c st = do {
     (ok, es, st1) \<leftarrow> evaluate_arguments td f p (arguments (ltab st c)) (entries args) st;
     let e1 = set_node e (EXPR_CALL fn (refill args es));
     let n = length es;
     let k = length (arguments (ltab st1 c));
     Some (ok,
       if ok \<and> n < k then expression_error e1 ''not enough arguments for function'' st1
       else if ok \<and> n > k \<and> \<not> variadic (ltab st1 c) then expression_error e1 ''too many arguments for function'' st1
       else (e1, st1)) }"

definition is_preop :: "expression \<Rightarrow> bool" where
  "is_preop e = (case e_node e of Unary EXPR_PREOP u k \<Rightarrow> True | _ \<Rightarrow> False)"

text \<open>The function is the symbol \<open>s\<close> or an expression of its type; \<open>c\<close> is the function type.\<close>

definition evaluate_call_of ::
    "nat \<Rightarrow> front \<Rightarrow> parsed \<Rightarrow> expression \<Rightarrow> expression \<Rightarrow> expression ptr_list \<Rightarrow> symref \<Rightarrow> symref \<Rightarrow> lstate \<Rightarrow> evaluation" where
  "evaluate_call_of td f p e fn args s c st = do {
     st1 \<leftarrow> examine_fn_arguments f c st;
     let node = sym_type (ltab st1 s) = SYM_NODE;
     (ok, e1, st2) \<leftarrow> (if node \<and> is_preop fn \<and> op_choose p s then arguments_choose f e fn args st1
                       else call_arguments td f p e fn args c st1);
     if \<not> ok then Some (None, e1, st2)
     else do {
       let es = (case e_node e1 of EXPR_CALL g l \<Rightarrow> entries l | _ \<Rightarrow> []);
       (done, e2, st3) \<leftarrow> (if node then evaluate_symbol_call f p e1 fn es s st2 else Some (False, e1, st2));
       if done then Some (e_ctype e2, e2, st3)
       else (let b = base_of (ltab st3) c in Some (b, set_type e2 b, st3)) } }"

definition evaluate_call :: "nat \<Rightarrow> front \<Rightarrow> parsed \<Rightarrow> expression \<Rightarrow> expression \<Rightarrow> expression ptr_list \<Rightarrow> lstate \<Rightarrow> evaluation" where
  "evaluate_call td f p e0 fn0 args st = do {
     (t, fn, st1) \<leftarrow> f_expr f fn0 st;
     let e = set_node e0 (EXPR_CALL fn args);
     if t = None then Some (None, e, st1)
     else do {
       s \<leftarrow> e_ctype fn;
       c0 \<leftarrow> (if sym_type (ltab st1 s) = SYM_NODE then base_of (ltab st1) s else Some s);
       (r, st2) \<leftarrow> (if sym_type (ltab st1 c0) = SYM_PTR then f_exam f (base_of (ltab st1) c0) st1 else Some (Some c0, st1));
       c \<leftarrow> r;
       if sym_type (ltab st2 c) \<noteq> SYM_FN then do {
         let (e1, st3) = expression_error e ''not a function'' st2;
         (ok, es, st4) \<leftarrow> evaluate_all f True (entries args) st3;
         Some (None, set_node e1 (EXPR_CALL fn (refill args es)), st4) }
       else evaluate_call_of td f p e fn args s c st2 } }"

section \<open>Offsets of members\<close>

definition structure_of :: "front \<Rightarrow> tclass \<Rightarrow> symref option \<Rightarrow> lstate \<Rightarrow> (symref option \<times> lstate) option" where
  "structure_of f cl t st =
     (case t of
        None \<Rightarrow> Some (None, st)
      | Some s \<Rightarrow> do {
          (r, st1) \<leftarrow> f_exam f (Some s) st;
          (cl1, c, st2) \<leftarrow> classify_type f s st1;
          Some (if cl1 = cl then Some c else None, st2) })"

text \<open>A constant index is scaled with the size of the elements \<open>b\<close>.\<close>

definition offsetof_index :: "front \<Rightarrow> expression \<Rightarrow> expression option \<Rightarrow> symref option \<Rightarrow> lstate \<Rightarrow> evaluation" where
  "offsetof_index f e ix b st =
     (let cf = f_conf f; sz = size_t_ctype cf in
      case ix of
        None \<Rightarrow> Some (Some sz, set_type (set_flags (set_node e (EXPR_VALUE 0 0)) Int_const_expr) (Some sz), st)
      | Some i \<Rightarrow> do {
          (r, i1, st1) \<leftarrow> f_expr f i st;
          it0 \<leftarrow> r;
          (cl, it, st2) \<leftarrow> classify_type f it0 st1;
          if \<not> is_int cl then give_up e ''non-integer index'' st2
          else do {
            (it1, st3) \<leftarrow> unrestrict cl it st2;
            (i2, st4) \<leftarrow> cast_to cf i1 sz st3;
            elem \<leftarrow> b;
            let m = set_flags (set_type (alloc_const_expression e (bits_to_bytes (t_bits_in_char (e_target cf)) (bit_size (ltab st4 elem))))
                      (Some sz)) Int_const_expr;
            let e1 = set_flags (set_node (set_op e (op_chr (CHR ''*''))) (Binary EXPR_BINOP i2 m))
                      (and (and (e_flags m) (e_flags i2)) Int_const_expr);
            give sz e1 st4 } })"

text \<open>The offset of the rest, \<open>down\<close>, is added; it starts at \<open>t\<close>.\<close>

definition offsetof_down :: "front \<Rightarrow> expression \<Rightarrow> symref option \<Rightarrow> expression option \<Rightarrow> lstate \<Rightarrow> evaluation" where
  "offsetof_down f e t down st =
     (let sz = size_t_ctype (f_conf f) in
      case down of
        None \<Rightarrow> Some (Some sz, e, st)
      | Some d \<Rightarrow> do {
          let d1 = (case e_node d of EXPR_OFFSETOF t0 x i \<Rightarrow> set_node d (EXPR_OFFSETOF t x i) | _ \<Rightarrow> d);
          (r, d2, st1) \<leftarrow> f_expr f d1 st;
          if r = None then Some (None, e, st1)
          else give sz (set_flags (set_node (set_op e (op_chr (CHR ''+''))) (Binary EXPR_BINOP e d2))
                  (and (and (e_flags d2) (e_flags e)) Int_const_expr)) st1 })"

definition evaluate_offsetof ::
    "nat \<Rightarrow> front \<Rightarrow> expression \<Rightarrow> symref option \<Rightarrow> expression option \<Rightarrow> (string option + expression option) \<Rightarrow> lstate \<Rightarrow> evaluation" where
  "evaluate_offsetof n f e t down i st =
     (let sz = size_t_ctype (f_conf f) in
      case i of
        Inl nm \<Rightarrow> do {
          (r, st1) \<leftarrow> structure_of f {TYPE_COMPOUND} t st;
          case r of
            None \<Rightarrow> give_up e ''expected structure or union'' st1
          | Some c \<Rightarrow>
              (case (case nm of None \<Rightarrow> None | Some x \<Rightarrow> find_identifier n (ltab st1) x (symbol_list (ltab st1 c))) of
                 None \<Rightarrow> give_up e ''unknown member'' st1
               | Some (m, off) \<Rightarrow>
                   offsetof_down f (set_type (set_flags (set_node e (EXPR_VALUE (word_of_int off) 0)) Int_const_expr) (Some sz))
                     (Some m) down st1) }
      | Inr ix \<Rightarrow> do {
          (r, st1) \<leftarrow> structure_of f {TYPE_COMPOUND, TYPE_PTR} t st;
          case r of
            None \<Rightarrow> give_up e (if t = None then ''expected structure or union'' else ''expected array'') st1
          | Some c \<Rightarrow> do {
              (ok, e1, st2) \<leftarrow> offsetof_index f e ix (base_of (ltab st1) c) st1;
              if ok = None then Some (None, e1, st2)
              else offsetof_down f e1 (base_of (ltab st1) c) down st2 } })"

section \<open>The rest of the dispatch\<close>

text \<open>\<open>es\<close> is \<open>evaluate_statement\<close>.\<close>

definition evaluate_other ::
    "nat \<Rightarrow> nat \<Rightarrow> front \<Rightarrow> parsed \<Rightarrow> (statement \<Rightarrow> lstate \<Rightarrow> (symref option \<times> statement \<times> lstate) option) \<Rightarrow> evaluate_e" where
  "evaluate_other td n f p es e st =
     (case e_node e of
        EXPR_STRING w s \<Rightarrow> evaluate_string (f_conf f) e s st
      | EXPR_SYMBOL s nm \<Rightarrow> evaluate_symbol_expression f e s nm st
      | Cast k t x \<Rightarrow>
          (if k = EXPR_SIZEOF then evaluate_sizeof f e k t x st
           else if k = EXPR_PTRSIZEOF then evaluate_ptrsizeof f e k t x st
           else if k = EXPR_ALIGNOF then evaluate_alignof f e k t x st
           else None)
      | EXPR_CALL fn args \<Rightarrow> evaluate_call td f p e fn args st
      | EXPR_STATEMENT s \<Rightarrow> do {
          (t, s1, st1) \<leftarrow> es s st;
          Some (t, set_type (set_node e (EXPR_STATEMENT s1)) t, st1) }
      | EXPR_OFFSETOF t down i \<Rightarrow> evaluate_offsetof n f e t down i st
      | _ \<Rightarrow> None)"

end
