(* ===== verification/Statements.thy ===== *)
theory Statements
  imports Calls
begin

text \<open>
  Symbols and statements (last part of \<open>evaluate.c\<close>), and the recursion of all of it. A statement gives
  the type of its value, itself as it was overwritten, and the state. A case is known to the switch by
  its label: the case that was evaluated becomes the statement of the label.
\<close>

type_synonym evaluate_t = "statement \<Rightarrow> lstate \<Rightarrow> (symref option \<times> statement \<times> lstate) option"
type_synonym evaluate_y = "symref option \<Rightarrow> lstate \<Rightarrow> (symref option \<times> lstate) option"

section \<open>Symbols\<close>

text \<open>
  A symbol is evaluated once: its initialiser, and for a function its body, which \<open>uninline\<close> makes if
  there is none. \<open>front\<close> and \<open>body\<close> are for the new \<open>current_fn\<close>; \<open>ey\<close> are the recursive calls.
\<close>

definition evaluate_function ::
    "parsed \<Rightarrow> front \<Rightarrow> evaluate_t \<Rightarrow> symref \<Rightarrow> symref \<Rightarrow> lstate \<Rightarrow> (symref option \<times> lstate) option" where
  "evaluate_function p f body s base st = do {
     st1 \<leftarrow> examine_fn_arguments f base st;
     st2 \<leftarrow> (if s_stmt (ltab st1 base) = None \<and> has_inline p base then p_uninline p s st1 else Some st1);
     case s_stmt (ltab st2 base) of
       None \<Rightarrow> Some (Some base, st2)
     | Some b \<Rightarrow> do {
         (t, b1, st3) \<leftarrow> body b st2;
         Some (Some base, upd base (\<lambda>x. x\<lparr>s_stmt := Some b1\<rparr>) st3) } }"

definition evaluate_symbol ::
    "parsed \<Rightarrow> symref option \<Rightarrow> (symref option \<Rightarrow> front) \<Rightarrow> (symref option \<Rightarrow> evaluate_t) \<Rightarrow> evaluate_y \<Rightarrow> evaluate_y" where
  "evaluate_symbol p fn F body ey so st =
     (case so of
        None \<Rightarrow> Some (None, st)
      | Some s0 \<Rightarrow>
          if evaluated st s0 then Some (Some s0, st)
          else do {
            (r, st1) \<leftarrow> f_exam (F fn) (Some s0) (st\<lparr>evaluated := (evaluated st)(s0 := True)\<rparr>);
            s \<leftarrow> r;
            (b, st2) \<leftarrow> f_exam (F fn) (base_of (ltab st1) s) st1;
            case b of
              None \<Rightarrow> Some (None, st2)
            | Some base \<Rightarrow> do {
                st3 \<leftarrow> (case initializer (ltab st2 s) of
                    None \<Rightarrow> Some st2
                  | Some i \<Rightarrow> do {
                      (i1, st3) \<leftarrow> p_initializer p fn s i st2;
                      Some (upd s (\<lambda>x. x\<lparr>initializer := Some i1\<rparr>) st3) });
                if sym_type (ltab st3 base) \<noteq> SYM_FN then Some (Some base, st3)
                else if def_of p s \<noteq> None \<and> def_of p s \<noteq> Some s then ey (def_of p s) st3
                else evaluate_function p (F (Some base)) (body (Some base)) s base st3 } })"

text \<open>The other declarations of a symbol have its type; the second result tells if there were any.\<close>

fun check_same ::
    "nat \<Rightarrow> front \<Rightarrow> evaluate_y \<Rightarrow> symref \<Rightarrow> symref list \<Rightarrow> lstate \<Rightarrow> (bool \<times> lstate) option" where
  "check_same td f ey s [] st = Some (True, st)"
| "check_same td f ey s (n # ns) st = do {
     (r, st1) \<leftarrow> ey (Some n) st;
     (d, st2) \<leftarrow> difference td f s n 0 0 st1;
     if d \<noteq> None then Some (False, emsg ''redeclared with different type'' st2)
     else check_same td f ey s ns st2 }"

definition check_duplicates :: "nat \<Rightarrow> front \<Rightarrow> parsed \<Rightarrow> evaluate_y \<Rightarrow> symref \<Rightarrow> lstate \<Rightarrow> lstate option" where
  "check_duplicates td f p ey s st = do {
     (ok, st1) \<leftarrow> check_same td f ey s (same_symbols p s) st;
     let m = mods (ltab st1) s;
     Some (emsg_if (same_symbols p s = [] \<and> \<not> has_mod m (or MOD_STATIC MOD_REGISTER) \<and> has_mod m MOD_TOPLEVEL
             \<and> Wdecl p \<and> ident (ltab st1 s) \<noteq> Some ''main'') ''was not declared. Should it be static?'' st1) }"

fun evaluate_symbol_list :: "nat \<Rightarrow> front \<Rightarrow> parsed \<Rightarrow> evaluate_y \<Rightarrow> symref list \<Rightarrow> lstate \<Rightarrow> lstate option" where
  "evaluate_symbol_list td f p ey [] st = Some st"
| "evaluate_symbol_list td f p ey (s # ss) st = do {
     (r, st1) \<leftarrow> ey (Some s) st;
     st2 \<leftarrow> check_duplicates td f p ey s st1;
     evaluate_symbol_list td f p ey ss st2 }"

fun evaluate_declarations :: "evaluate_y \<Rightarrow> symref list \<Rightarrow> lstate \<Rightarrow> lstate option" where
  "evaluate_declarations ey [] st = Some st"
| "evaluate_declarations ey (s # ss) st = do { (r, st1) \<leftarrow> ey (Some s) st; evaluate_declarations ey ss st1 }"

section \<open>Statements\<close>

text \<open>A NULL expression or statement has no type.\<close>

definition opt_expr ::
    "(expression \<Rightarrow> lstate \<Rightarrow> evaluation) \<Rightarrow> expression option \<Rightarrow> lstate \<Rightarrow> (symref option \<times> expression option \<times> lstate) option" where
  "opt_expr g eo st = (case eo of None \<Rightarrow> Some (None, None, st) | Some e \<Rightarrow> do { (t, e1, st1) \<leftarrow> g e st; Some (t, Some e1, st1) })"

definition opt_stmt ::
    "evaluate_t \<Rightarrow> statement option \<Rightarrow> lstate \<Rightarrow> (symref option \<times> statement option \<times> lstate) option" where
  "opt_stmt g so st = (case so of None \<Rightarrow> Some (None, None, st) | Some s \<Rightarrow> do { (t, s1, st1) \<leftarrow> g s st; Some (t, Some s1, st1) })"

fun evaluate_block :: "evaluate_t \<Rightarrow> symref option \<Rightarrow> statement list \<Rightarrow> lstate \<Rightarrow> (symref option \<times> statement list \<times> lstate) option" where
  "evaluate_block es t [] st = Some (t, [], st)"
| "evaluate_block es t (s # ss) st = do {
     (t1, s1, st1) \<leftarrow> es s st;
     (t2, ss1, st2) \<leftarrow> evaluate_block es t1 ss st1;
     Some (t2, s1 # ss1, st2) }"

definition evaluate_return_expression ::
    "nat \<Rightarrow> front \<Rightarrow> parsed \<Rightarrow> symref option \<Rightarrow> expression option \<Rightarrow> lstate \<Rightarrow> (expression option \<times> lstate) option" where
  "evaluate_return_expression td f p fn eo st = do {
     (r, e1, st1) \<leftarrow> opt_expr (f_expr f) eo st;
     c \<leftarrow> fn;
     let t = base_of (ltab st1) c;
     case (t = None \<or> t = Some Void_ctype, e1) of
       (True, None) \<Rightarrow> Some (None, st1)
     | (True, Some e) \<Rightarrow>
         (let (e2, st2) = (if e_ctype e \<noteq> Some Void_ctype then expression_error e ''return expression in void function'' st1
                           else (e, st1))
          in Some (Some e2, emsg_if (Wreturn_void p) ''returning void-valued expression'' st2))
     | (False, None) \<Rightarrow> Some (None, emsg ''return with no return value'' st1)
     | (False, Some e) \<Rightarrow>
         (case (e_ctype e, t) of
            (None, _) \<Rightarrow> Some (e1, st1)
          | (_, None) \<Rightarrow> None
          | (Some k, Some t1) \<Rightarrow> do {
              (ok, e2, st2) \<leftarrow> compatible_assignment_types td f t1 e st1;
              Some (Some e2, st2) }) }"

definition evaluate_if_statement ::
    "front \<Rightarrow> evaluate_t \<Rightarrow> expression option \<Rightarrow> statement option \<Rightarrow> statement option \<Rightarrow> lstate \<Rightarrow> (snode \<times> lstate) option" where
  "evaluate_if_statement f es c t x st =
     (if c = None then Some (STMT_IF c t x, st)
      else do {
        (r, c1, st1) \<leftarrow> opt_expr (\<lambda>e. evaluate_conditional f e False) c st;
        (r1, t1, st2) \<leftarrow> opt_stmt es t st1;
        (r2, x1, st3) \<leftarrow> opt_stmt es x st2;
        Some (STMT_IF c1 t1 x1, st3) })"

definition evaluate_iterator ::
    "nat \<Rightarrow> front \<Rightarrow> parsed \<Rightarrow> evaluate_y \<Rightarrow> evaluate_t \<Rightarrow> symref \<Rightarrow> symref \<Rightarrow> symref list \<Rightarrow> statement option \<Rightarrow> expression option
     \<Rightarrow> statement option \<Rightarrow> statement option \<Rightarrow> expression option \<Rightarrow> lstate \<Rightarrow> (snode \<times> lstate) option" where
  "evaluate_iterator td f p ey es brk con ss pre prec body post postc st = do {
     st1 \<leftarrow> evaluate_symbol_list td f p ey ss st;
     (r1, prec1, st2) \<leftarrow> opt_expr (\<lambda>e. evaluate_conditional f e True) prec st1;
     (r2, postc1, st3) \<leftarrow> opt_expr (\<lambda>e. evaluate_conditional f e True) postc st2;
     (r3, pre1, st4) \<leftarrow> opt_stmt es pre st3;
     (r4, body1, st5) \<leftarrow> opt_stmt es body st4;
     (r5, post1, st6) \<leftarrow> opt_stmt es post st5;
     Some (STMT_ITERATOR brk con ss pre1 prec1 body1 post1 postc1, st6) }"

text \<open>Operands of \<open>asm\<close>: name, constraint and expression in turn. The first result is \<open>False\<close> on a \<open>return\<close>.\<close>

definition assignment_constraint :: "string \<Rightarrow> bool" where
  "assignment_constraint s = (case s of [] \<Rightarrow> False | c # cs \<Rightarrow> c = CHR ''='' \<or> c = CHR ''+'')"

definition verify_constraint :: "bool \<Rightarrow> expression \<Rightarrow> string \<Rightarrow> lstate \<Rightarrow> expression \<times> lstate" where
  "verify_constraint out e s st =
     (if out \<and> \<not> assignment_constraint s then expression_error e ''output constraint is not an assignment constraint'' st
      else if \<not> out \<and> assignment_constraint s then expression_error e ''input constraint with assignment'' st
      else (e, st))"

definition asm_operand :: "front \<Rightarrow> bool \<Rightarrow> expression \<Rightarrow> lstate \<Rightarrow> (bool \<times> expression \<times> lstate) option" where
  "asm_operand f out e st = do {
     (t, e1, st1) \<leftarrow> f_expr f e st;
     if t = None then Some (False, e1, st1)
     else if \<not> out then Some (True, e1, st1)
     else do {
       c \<leftarrow> e_ctype e1;
       (e2, st2) \<leftarrow> evaluate_assign_to e1 c (emsg_if (\<not> lvalue_expression e1) ''asm output is not an lvalue'' st1);
       Some (True, e2, st2) } }"

fun asm_operands ::
    "front \<Rightarrow> bool \<Rightarrow> nat \<Rightarrow> (string option + expression option) list \<Rightarrow> lstate
     \<Rightarrow> (bool \<times> (string option + expression option) list \<times> lstate) option" where
  "asm_operands f out k [] st = Some (True, [], st)"
| "asm_operands f out k (x # xs) st =
     (if k = 0 then do { (ok, ys, st1) \<leftarrow> asm_operands f out 1 xs st; Some (ok, x # ys, st1) }
      else (case x of
          Inl i \<Rightarrow> None
        | Inr eo \<Rightarrow>
            if k = 1 then
              (let (e1, st1) =
                     (case eo of
                        None \<Rightarrow> (None, emsg ''asm constraint is not a string'' st)
                      | Some e \<Rightarrow> (case e_node e of
                            EXPR_STRING w s \<Rightarrow> map_prod Some id (verify_constraint out e s st)
                          | _ \<Rightarrow> (None, emsg ''asm constraint is not a string'' st)))
               in do { (ok, ys, st2) \<leftarrow> asm_operands f out 2 xs st1; Some (ok, Inr e1 # ys, st2) })
            else (case eo of
                None \<Rightarrow> Some (False, x # xs, st)
              | Some e \<Rightarrow> do {
                  (ok, e1, st1) \<leftarrow> asm_operand f out e st;
                  if \<not> ok then Some (False, Inr (Some e1) # xs, st1)
                  else do { (ok1, ys, st2) \<leftarrow> asm_operands f out 0 xs st1; Some (ok1, Inr (Some e1) # ys, st2) } })))"

fun asm_clobbers :: "expression option list \<Rightarrow> lstate \<Rightarrow> bool \<times> expression option list \<times> lstate" where
  "asm_clobbers [] st = (True, [], st)"
| "asm_clobbers (x # xs) st =
     (case x of
        None \<Rightarrow> (False, x # xs, emsg ''bad asm clobbers'' st)
      | Some e \<Rightarrow>
          (let (e1, st1) = (case e_node e of EXPR_STRING w s \<Rightarrow> (e, st) | _ \<Rightarrow> expression_error e ''asm clobber is not a string'' st);
               (ok, ys, st2) = asm_clobbers xs st1
           in (ok, Some e1 # ys, st2)))"

definition is_string :: "expression option \<Rightarrow> bool" where
  "is_string eo = (case eo of None \<Rightarrow> False | Some e \<Rightarrow> (case e_node e of EXPR_STRING w s \<Rightarrow> True | _ \<Rightarrow> False))"

definition evaluate_asm_statement ::
    "front \<Rightarrow> expression option \<Rightarrow> (string option + expression option) list \<Rightarrow> (string option + expression option) list
     \<Rightarrow> expression option list \<Rightarrow> symref list \<Rightarrow> lstate \<Rightarrow> (snode \<times> lstate) option" where
  "evaluate_asm_statement f str outs ins clobbers labels st =
     (if \<not> is_string str then Some (STMT_ASM str outs ins clobbers labels, emsg ''need constant string for inline asm'' st)
      else do {
        (ok, outs1, st1) \<leftarrow> asm_operands f True 0 outs st;
        if \<not> ok then Some (STMT_ASM str outs1 ins clobbers labels, st1)
        else do {
          (ok1, ins1, st2) \<leftarrow> asm_operands f False 0 ins st1;
          if \<not> ok1 then Some (STMT_ASM str outs1 ins1 clobbers labels, st2)
          else
            (let (ok2, cl, st3) = asm_clobbers clobbers st2
             in Some (STMT_ASM str outs1 ins1 cl labels,
                  emsg_if (ok2 \<and> (\<exists>l\<in>set labels. sym_type (ltab st3 l) \<noteq> SYM_LABEL)) ''bad asm label'' st3)) } })"

section \<open>Cases and switches\<close>

definition evaluate_case_statement ::
    "front \<Rightarrow> evaluate_t \<Rightarrow> position \<Rightarrow> expression option \<Rightarrow> expression option \<Rightarrow> statement option \<Rightarrow> symref \<Rightarrow> lstate
     \<Rightarrow> (snode \<times> lstate) option" where
  "evaluate_case_statement f es p e to s lab st = do {
     (r1, e1, st1) \<leftarrow> opt_expr (f_expr f) e st;
     (r2, to1, st2) \<leftarrow> opt_expr (f_expr f) to st1;
     (r3, s1, st3) \<leftarrow> opt_stmt es s st2;
     let n = STMT_CASE e1 to1 s1 lab;
     Some (n, upd lab (\<lambda>x. x\<lparr>s_stmt := Some (Stmt p n)\<rparr>) st3) }"

definition bad_case :: "expression \<Rightarrow> lstate \<Rightarrow> expression \<times> lstate" where
  "bad_case e st = expression_error e ''incompatible types for case statement'' st"

text \<open>
  The expression of a case against the switch, and against the first case of an enumeration: \<open>first\<close>,
  unless the switch is of an enumeration itself (\<open>strict\<close>).
\<close>

definition check_case_expr ::
    "front \<Rightarrow> bool \<Rightarrow> expression \<Rightarrow> symref \<Rightarrow> expression \<Rightarrow> symref \<Rightarrow> expression option \<Rightarrow> lstate
     \<Rightarrow> (expression \<times> expression option \<times> lstate) option" where
  "check_case_expr f strict sel swt e cst first st = do {
     (first1, st1) \<leftarrow> (if strict then Some (first, st)
        else (case first of
            Some x \<Rightarrow> do { st1 \<leftarrow> warn_for_different_enum_types (f_conf f) (Some cst) (e_ctype x) st; Some (first, st1) }
          | None \<Rightarrow> Some (if is_enum_type (ltab st) cst then Some e else None, st)));
     (sc, s, st2) \<leftarrow> classify_type f swt st1;
     (cc, c, st3) \<leftarrow> classify_type f cst st2;
     if TYPE_NUM \<notin> sc \<inter> cc \<or> TYPE_FLOAT \<in> sc \<union> cc then
       (let (e1, st4) = bad_case e st3 in Some (e1, if first1 = first then first else Some e1, st4))
     else if TYPE_RESTRICT \<notin> sc \<union> cc then Some (e, first1, st3)
     else if restricted_binop_type (ltab st3) SPECIAL_EQUAL e sel cc sc c s \<noteq> None then Some (e, first1, st3)
     else do {
       (c1, st4) \<leftarrow> unrestrict cc c st3;
       (s1, st5) \<leftarrow> unrestrict sc s st4;
       Some (e, first1, st5) } }"

definition check_case_type ::
    "front \<Rightarrow> bool \<Rightarrow> expression \<Rightarrow> expression option \<Rightarrow> expression option \<Rightarrow> lstate
     \<Rightarrow> (expression option \<times> expression option \<times> lstate) option" where
  "check_case_type f strict sel eo first st =
     (case eo of
        None \<Rightarrow> Some (None, first, st)
      | Some e \<Rightarrow> do {
          (ct, e1, st1) \<leftarrow> f_expr f e st;
          (e2, first1, st2) \<leftarrow> (case (e_ctype sel, ct) of
              (Some swt, Some cst) \<Rightarrow> check_case_expr f strict sel swt e1 cst first st1
            | _ \<Rightarrow> (let (e2, st2) = bad_case e1 st1 in Some (e2, first, st2)));
          Some (Some e2, first1, st2) })"

fun check_cases :: "front \<Rightarrow> bool \<Rightarrow> expression \<Rightarrow> symref list \<Rightarrow> expression option \<Rightarrow> lstate \<Rightarrow> lstate option" where
  "check_cases f strict sel [] first st = Some st"
| "check_cases f strict sel (l # ls) first st =
     (case s_stmt (ltab st l) of
        Some (Stmt p (STMT_CASE e to s lab)) \<Rightarrow> do {
          (e1, first1, st1) \<leftarrow> check_case_type f strict sel e first st;
          (to1, first2, st2) \<leftarrow> check_case_type f strict sel to first1 st1;
          check_cases f strict sel ls first2 (upd l (\<lambda>x. x\<lparr>s_stmt := Some (Stmt p (STMT_CASE e1 to1 s lab))\<rparr>) st2) }
      | _ \<Rightarrow> None)"

definition evaluate_switch_statement ::
    "front \<Rightarrow> evaluate_t \<Rightarrow> expression option \<Rightarrow> statement option \<Rightarrow> symref \<Rightarrow> symref \<Rightarrow> lstate \<Rightarrow> (snode \<times> lstate) option" where
  "evaluate_switch_statement f es e s brk cas st = do {
     (r, e1, st1) \<leftarrow> opt_expr (f_expr f) e st;
     (r1, s1, st2) \<leftarrow> opt_stmt es s st1;
     st3 \<leftarrow> (case e1 of
         None \<Rightarrow> Some st2
       | Some sel \<Rightarrow>
           check_cases f (case e_ctype sel of None \<Rightarrow> False | Some t \<Rightarrow> is_enum_type (ltab st2) t) sel
             (symbol_list (ltab st2 cas)) None st2);
     Some (STMT_SWITCH e1 s1 brk cas, st3) }"

section \<open>The dispatch\<close>

definition no_type :: "position \<Rightarrow> snode \<times> lstate \<Rightarrow> (symref option \<times> statement \<times> lstate) option" where
  "no_type p x = Some (None, Stmt p (fst x), snd x)"

definition evaluate_statement ::
    "nat \<Rightarrow> front \<Rightarrow> parsed \<Rightarrow> symref option \<Rightarrow> evaluate_y \<Rightarrow> evaluate_t \<Rightarrow> evaluate_t" where
  "evaluate_statement td f p fn ey es stmt st =
     (let q = s_pos stmt in
      case s_node stmt of
        STMT_DECLARATION ss \<Rightarrow> do { st1 \<leftarrow> evaluate_declarations ey ss st; Some (None, stmt, st1) }
      | STMT_RETURN e t \<Rightarrow> do { (e1, st1) \<leftarrow> evaluate_return_expression td f p fn e st; no_type q (STMT_RETURN e1 t, st1) }
      | STMT_EXPRESSION e c \<Rightarrow> do {
          (r, e1, st1) \<leftarrow> opt_expr (f_expr f) e st;
          case (r, e1) of
            (Some t, Some e2) \<Rightarrow> do {
              (e3, st2) \<leftarrow> (if e_ctype e2 = Some Null_ctype then cast_to (f_conf f) e2 Ptr_ctype st1 else Some (e2, st1));
              (d, e4, st3) \<leftarrow> degenerate f e3 st2;
              Some (d, Stmt q (STMT_EXPRESSION (Some e4) c), st3) }
          | _ \<Rightarrow> no_type q (STMT_EXPRESSION e1 c, st1) }
      | STMT_COMPOUND ss ret inl args \<Rightarrow> do {
          (r, st1) \<leftarrow> ey ret st;
          (t, args1, st2) \<leftarrow> opt_stmt es args st1;
          (t1, ss1, st3) \<leftarrow> evaluate_block es t ss st2;
          Some (Some (case t1 of None \<Rightarrow> Void_ctype | Some c \<Rightarrow> c), Stmt q (STMT_COMPOUND ss1 ret inl args1), st3) }
      | STMT_IF c t x \<Rightarrow> do { y \<leftarrow> evaluate_if_statement f es c t x st; no_type q y }
      | STMT_ITERATOR brk con ss pre prec body post postc \<Rightarrow> do {
          y \<leftarrow> evaluate_iterator td f p ey es brk con ss pre prec body post postc st;
          no_type q y }
      | STMT_SWITCH e s brk cas \<Rightarrow> do { y \<leftarrow> evaluate_switch_statement f es e s brk cas st; no_type q y }
      | STMT_CASE e to s lab \<Rightarrow> do { y \<leftarrow> evaluate_case_statement f es q e to s lab st; no_type q y }
      | STMT_LABEL lab s \<Rightarrow> do {
          (t, s1, st1) \<leftarrow> opt_stmt es s st;
          Some (t, Stmt q (STMT_LABEL lab s1), st1) }
      | STMT_GOTO lab e ts \<Rightarrow> do {
          let undeclared = (case lab of None \<Rightarrow> False | Some l \<Rightarrow> s_stmt (ltab st l) = None \<and> \<not> label_keyword p l);
          (r, e1, st1) \<leftarrow> opt_expr (f_expr f) e (emsg_if undeclared ''label was not declared'' st);
          no_type q (STMT_GOTO lab e1 ts, st1) }
      | STMT_NONE \<Rightarrow> Some (None, stmt, st)
      | STMT_ASM str outs ins clobbers labels \<Rightarrow> do {
          y \<leftarrow> evaluate_asm_statement f str outs ins clobbers labels st;
          no_type q y }
      | STMT_CONTEXT e c \<Rightarrow> do { (r, e1, st1) \<leftarrow> opt_expr (f_expr f) e st; no_type q (STMT_CONTEXT e1 c, st1) }
      | STMT_RANGE e lo hi \<Rightarrow> do {
          (r, e1, st1) \<leftarrow> opt_expr (f_expr f) e st;
          (r1, lo1, st2) \<leftarrow> opt_expr (f_expr f) lo st1;
          (r2, hi1, st3) \<leftarrow> opt_expr (f_expr f) hi st2;
          no_type q (STMT_RANGE e1 lo1 hi1, st3) })"

section \<open>The recursion\<close>

text \<open>
  \<open>evaluator n p cf vla ee fn\<close> evaluates expressions, statements and symbols of a nesting of up to \<open>n\<close>
  inside the function \<open>fn\<close>; \<open>n\<close> also bounds the nesting of types. \<open>examine_symbol_type\<close> is that of
  \<open>symbol.c\<close>; \<open>ee\<close> is \<open>expand_expression\<close>.
\<close>

definition front_of ::
    "econf \<Rightarrow> bool \<Rightarrow> expand_e \<Rightarrow> nat \<Rightarrow> evaluate_e \<times> evaluate_t \<times> evaluate_y \<Rightarrow> front" where
  "front_of cf vla ee n x =
     \<lparr>f_conf = cf, f_expr = fst x, f_exam = examine_symbol_type (e_target cf) vla (fst x) ee n,
      f_sym = (\<lambda>s. snd (snd x) (Some s)), f_expand = ee\<rparr>"

primrec evaluator ::
    "nat \<Rightarrow> parsed \<Rightarrow> econf \<Rightarrow> bool \<Rightarrow> expand_e \<Rightarrow> symref option \<Rightarrow> evaluate_e \<times> evaluate_t \<times> evaluate_y" where
  "evaluator 0 p cf vla ee fn = ((\<lambda>e st. None), (\<lambda>s st. None), (\<lambda>s st. None))"
| "evaluator (Suc n) p cf vla ee fn =
     (let E = evaluator n p cf vla ee;
          F = (\<lambda>c. front_of cf vla ee n (E c));
          es = (\<lambda>c. fst (snd (E c)));
          ey = snd (snd (E fn))
      in (evaluate_expression n n (F fn) (evaluate_other n n (F fn) p (es fn)),
          evaluate_statement n (F fn) p fn ey (es fn),
          evaluate_symbol p fn F es ey))"

end
