(* ===== verification/Offset_Props.thy ===== *)
theory Offset_Props
  imports Statements Expand_Props
begin

text \<open>
  The offset of a member: what \<open>__builtin_offsetof\<close> evaluates to is folded to the sum of the offsets
  that the layout has given to the members on the way.
\<close>

section \<open>The expression and its path\<close>

text \<open>The expression that the parser builds for \<open>a.b.c\<close>; only the first step knows the type.\<close>

fun offset_expr :: "position \<Rightarrow> symref option \<Rightarrow> string list \<Rightarrow> expression" where
  "offset_expr q t [] = Expr Int_const_expr (op_chr (CHR ''.'')) q None (EXPR_OFFSETOF t None (Inl None))"
| "offset_expr q t [nm] = Expr Int_const_expr (op_chr (CHR ''.'')) q None (EXPR_OFFSETOF t None (Inl (Some nm)))"
| "offset_expr q t (nm # ns) =
     Expr Int_const_expr (op_chr (CHR ''.'')) q None (EXPR_OFFSETOF t (Some (offset_expr q None ns)) (Inl (Some nm)))"

definition aggregate :: "lstate \<Rightarrow> symref \<Rightarrow> symref option" where
  "aggregate st t =
     (if \<not> examined st t then None
      else case (if sym_type (ltab st t) = SYM_NODE then base_of (ltab st) t else Some t) of
          None \<Rightarrow> None
        | Some c \<Rightarrow> if sym_type (ltab st c) \<in> {SYM_STRUCT, SYM_UNION} then Some c else None)"

text \<open>The members \<open>ns\<close> of \<open>t\<close> and their offsets, each in the type of the one before.\<close>

fun member_path :: "nat \<Rightarrow> lstate \<Rightarrow> symref \<Rightarrow> string list \<Rightarrow> (symref \<times> int) list option" where
  "member_path n st t [] = Some []"
| "member_path n st t (nm # ns) = do {
     c \<leftarrow> aggregate st t;
     x \<leftarrow> find_identifier n (ltab st) nm (symbol_list (ltab st c));
     xs \<leftarrow> member_path n st (fst x) ns;
     Some (x # xs) }"

lemma offset_expr_at:
  "ns \<noteq> [] \<Longrightarrow> (case e_node (offset_expr q None ns) of
      EXPR_OFFSETOF t0 x i \<Rightarrow> set_node (offset_expr q None ns) (EXPR_OFFSETOF t x i) | _ \<Rightarrow> offset_expr q None ns)
    = offset_expr q t ns"
  by (cases "(q, None :: symref option, ns)" rule: offset_expr.cases) (simp_all add: set_node_def)

section \<open>Evaluation\<close>

lemma structure_of_aggregate:
  assumes "aggregate st t = Some c"
  shows "structure_of (front_of cf vla ee (Suc n) x) {TYPE_COMPOUND} (Some t) st = Some (Some c, st)"
proof -
  have ex: "examined st t" and b: "(if sym_type (ltab st t) = SYM_NODE then base_of (ltab st) t else Some t) = Some c"
    and k: "sym_type (ltab st c) \<in> {SYM_STRUCT, SYM_UNION}"
    using assms by (auto simp: aggregate_def split: if_splits option.splits)
  have "f_exam (front_of cf vla ee (Suc n) x) (Some t) st = Some (Some t, st)"
    using ex by (simp add: front_of_def examine_body_def)
  moreover have "classify_type f t st = Some ({TYPE_COMPOUND}, c, st)" for f
    unfolding classify_type_def b using k by (auto simp: class_of_def class_table_def)
  ultimately show ?thesis by (simp add: structure_of_def)
qed

text \<open>One step: a constant, to which the rest is added.\<close>

lemma evaluate_member_step:
  assumes "aggregate st t = Some c" "find_identifier n (ltab st) nm (symbol_list (ltab st c)) = Some (m, off)"
    and "n = Suc k" "f = front_of cf vla ee n x"
  shows "evaluate_expression n n f (evaluate_other n n f p es)
      (Expr Int_const_expr op q None (EXPR_OFFSETOF (Some t) down (Inl (Some nm)))) st
    = offsetof_down f (Expr Int_const_expr op q (Some (size_t_ctype cf)) (EXPR_VALUE (word_of_int off) 0)) (Some m) down st"
  using assms structure_of_aggregate [OF assms(1), of cf vla ee k x]
  by (simp add: evaluate_expression_def evaluate_other_def evaluate_offsetof_def Let_def set_type_def set_flags_def set_node_def
      front_of_def)

section \<open>Arithmetic of a size\<close>

lemma take_bit_ival:
  assumes "1 \<le> n"
  shows "take_bit (nat n) (ival s n v) = take_bit (nat n) (uint v)"
proof -
  from assms obtain k where k: "nat n = Suc k" by (cases "nat n") auto
  then have "nat (n - 1) = k" by simp
  with k show ?thesis by (simp add: ival_def take_bit_signed_take_bit)
qed

lemma of_ival_uint:
  assumes "n \<le> 64"
  shows "uint (of_ival n z) = take_bit (nat n) z"
proof -
  have "min 64 (nat n) = nat n" using assms by simp
  then show ?thesis by (simp add: of_ival_def unsigned_of_int)
qed

lemma of_ival_add:
  assumes "1 \<le> n" "n \<le> 64"
  shows "of_ival n (ival s n (of_ival n x) + ival s n (of_ival n y)) = of_ival n (x + y)"
proof -
  have "take_bit (nat n) (ival s n (of_ival n x) + ival s n (of_ival n y)) = take_bit (nat n) (x + y)"
    by (subst take_bit_add [symmetric]) (simp add: take_bit_ival [OF assms(1)] of_ival_uint [OF assms(2)] take_bit_add)
  then show ?thesis by (simp add: of_ival_def)
qed

lemma canonical_is_of_ival: "n \<le> 64 \<Longrightarrow> canonical n (word_of_int z) \<Longrightarrow> word_of_int z = of_ival n z"
  by (metis canonical_def of_ival_def take_bit_of_int)

section \<open>The offset\<close>

lemma const_eval_sum:
  assumes "size_ok tab sz n" "const_eval tab l (of_ival n x)" "const_eval tab r (of_ival n y)"
    and "e_node e = Binary EXPR_BINOP l r" "e_ctype e = Some sz" "e_op e = op_chr (CHR ''+'')"
  shows "const_eval tab e (of_ival n (x + y))"
proof -
  have n: "1 \<le> n" "n \<le> 64" using assms(1) by (auto simp: size_ok_def)
  have "const_eval tab e (of_ival n (ival (signed_type tab sz) n (of_ival n x) + ival (signed_type tab sz) n (of_ival n y)))"
    by (rule const_eval.Binop [OF assms(4,5,1,2,3)])
      (use assms(6) n in \<open>auto simp: canonical_of_ival int_spec_def\<close>)
  then show ?thesis by (simp only: of_ival_add [OF n])
qed

lemma offset_evaluates:
  assumes "size_ok (ltab st) (size_t_ctype cf) w" "ns \<noteq> []"
    and "\<forall>n\<ge>k. member_path n st t ns = Some ms" "\<forall>(m, off)\<in>set ms. canonical w (word_of_int off)"
  shows "\<exists>n0 e. (\<forall>n\<ge>n0. fst (evaluator n p cf vla ee fn) (offset_expr q (Some t) ns) st = Some (Some (size_t_ctype cf), e, st))
    \<and> const_eval (ltab st) e (of_ival w (sum_list (map snd ms))) \<and> e_ctype e = Some (size_t_ctype cf)"
  using assms(2-4)
proof (induction ns arbitrary: t ms)
  case Nil
  then show ?case by simp
next
  case (Cons nm ns)
  let ?sz = "size_t_ctype cf" and ?ev = "\<lambda>n. fst (evaluator n p cf vla ee fn)"
  have w: "w \<le> 64" "?sz \<noteq> Bad_ctype" using assms(1) by (auto simp: size_ok_def)
  obtain c where c: "aggregate st t = Some c" using Cons.prems(2) by (auto simp: bind_eq_Some_conv)
  obtain m off rest where ms: "ms = (m, off) # rest"
    using Cons.prems(2) by (cases ms; auto simp: bind_eq_Some_conv)
  have f: "find_identifier n (ltab st) nm (symbol_list (ltab st c)) = Some (m, off)"
    and path: "member_path n st m ns = Some rest" if "n \<ge> k" for n
    using Cons.prems(2) that c ms by (auto simp: bind_eq_Some_conv)
  define v where "v = Expr Int_const_expr (op_chr (CHR ''.'')) q (Some ?sz) (EXPR_VALUE (word_of_int off) 0)"
  have "canonical w (word_of_int off)" using Cons.prems(3) ms by simp
  then have off: "(word_of_int off :: u64) = of_ival w off" by (rule canonical_is_of_ival [OF w(1)])
  have v: "const_eval (ltab st) v (of_ival w off)"
    unfolding off [symmetric] by (rule const_eval.Value [where ty = ?sz and t = 0]) (simp_all add: v_def w)
  define F where "F = (\<lambda>n. front_of cf vla ee n (evaluator n p cf vla ee fn))"
  have step: "?ev (Suc n) (Expr Int_const_expr (op_chr (CHR ''.'')) q None (EXPR_OFFSETOF (Some t) down (Inl (Some nm)))) st
      = offsetof_down (F n) v (Some m) down st" if "n \<ge> Suc k" for n down
    using evaluate_member_step [OF c f [of n], of "n - 1"] that by (simp add: v_def F_def Let_def)
  show ?case
  proof (cases ns)
    case Nil
    then have "rest = []" using path [of k] by simp
    moreover have "?ev n (offset_expr q (Some t) (nm # ns)) st = Some (Some ?sz, v, st)" if "n \<ge> Suc (Suc k)" for n
      using step [of "n - 1" None] that Nil by (cases n) (simp_all add: offsetof_down_def F_def front_of_def)
    ultimately show ?thesis using v ms by (intro exI [of _ "Suc (Suc k)"] exI [of _ v]) (simp add: v_def)
  next
    case (Cons a as)
    then have ne: "ns \<noteq> []" by simp
    obtain n0 e where e: "\<forall>n\<ge>n0. ?ev n (offset_expr q (Some m) ns) st = Some (Some ?sz, e, st)"
        "const_eval (ltab st) e (of_ival w (sum_list (map snd rest)))" "e_ctype e = Some ?sz"
      using Cons.IH [OF ne, of m rest] path Cons.prems(3) ms by auto
    define d where "d = set_type (set_flags (set_node (set_op v (op_chr (CHR ''+''))) (Binary EXPR_BINOP v e))
      (and (and (e_flags e) (e_flags v)) Int_const_expr)) (Some ?sz)"
    have "?ev n (offset_expr q (Some t) (nm # ns)) st = Some (Some ?sz, d, st)" if "n \<ge> Suc (max (Suc k) n0)" for n
    proof -
      from that obtain n' where n: "n = Suc n'" "n' \<ge> Suc k" "n' \<ge> n0" by (cases n) auto
      have "?ev n (offset_expr q (Some t) (nm # ns)) st = offsetof_down (F n') v (Some m) (Some (offset_expr q None ns)) st"
        using step [OF n(2)] n(1) Cons by simp
      also have "\<dots> = Some (Some ?sz, d, st)"
        using e(1) n(3) by (simp add: offsetof_down_def offset_expr_at [OF ne] F_def front_of_def give_def d_def Let_def)
      finally show ?thesis .
    qed
    moreover have "const_eval (ltab st) d (of_ival w (off + sum_list (map snd rest)))"
      by (rule const_eval_sum [OF assms(1) v e(2)]) (simp_all add: d_def)
    ultimately show ?thesis using ms
      by (intro exI [of _ "Suc (max (Suc k) n0)"] exI [of _ d]) (simp add: d_def)
  qed
qed

text \<open>
  C39. \<open>__builtin_offsetof\<close> of a member, or of a member of a member, evaluates without a change of the
  state to an expression of type \<open>size_t\<close>, and the expansion folds that, at no cost, to the sum of the
  offsets of the members on the way, as a value of the width of \<open>size_t\<close>. The types on the way are
  laid out, and each offset fits \<open>size_t\<close>.
\<close>

theorem offsetof_is_sum:
  assumes "size_ok (ltab st) (size_t_ctype cf) w" "ns \<noteq> []"
    and "\<forall>n\<ge>k. member_path n st t ns = Some ms" "\<forall>(m, off)\<in>set ms. canonical w (word_of_int off)"
  shows "\<exists>n0 e. \<forall>n\<ge>n0.
      fst (evaluator n p cf vla ee fn) (offset_expr q (Some t) ns) st = Some (Some (size_t_ctype cf), e, st)
    \<and> (\<exists>e' tn x. expand_expression xc td n e (lx st) = Some (e', 0, x)
        \<and> e_node e' = EXPR_VALUE (of_ival w (sum_list (map snd ms))) tn \<and> e_ctype e' = Some (size_t_ctype cf)
        \<and> syms x = ltab st)"
proof -
  obtain n0 e where e: "\<forall>n\<ge>n0. fst (evaluator n p cf vla ee fn) (offset_expr q (Some t) ns) st = Some (Some (size_t_ctype cf), e, st)"
      "const_eval (ltab st) e (of_ival w (sum_list (map snd ms)))" "e_ctype e = Some (size_t_ctype cf)"
    using offset_evaluates [OF assms] by blast
  obtain n1 where n1: "\<forall>n\<ge>n1. folds_to (expand_expression xc td n) (ltab st) e (of_ival w (sum_list (map snd ms)))"
    using const_folds [OF e(2)] by blast
  show ?thesis
  proof (rule exI [of _ "max n0 n1"], rule exI [of _ e], intro allI impI conjI)
    fix n
    assume n: "max n0 n1 \<le> n"
    show "fst (evaluator n p cf vla ee fn) (offset_expr q (Some t) ns) st = Some (Some (size_t_ctype cf), e, st)"
      using e(1) n by simp
    show "\<exists>e' tn x. expand_expression xc td n e (lx st) = Some (e', 0, x)
        \<and> e_node e' = EXPR_VALUE (of_ival w (sum_list (map snd ms))) tn \<and> e_ctype e' = Some (size_t_ctype cf)
        \<and> syms x = ltab st"
      using n1 n e(3) unfolding folds_to_def by (metis max.boundedE)
  qed
qed

text \<open>An example: \<open>struct { int a; struct { int c, d; } b; }\<close>, and the member \<open>b.d\<close>.\<close>

definition member_of_type :: "string \<Rightarrow> u64 \<Rightarrow> symref \<Rightarrow> symbol" where
  "member_of_type nm off t = (blank_symbol SYM_NODE)
     \<lparr>ident := Some nm, s_offset := off, bit_size := 32, s_ctype := (s_ctype (blank_symbol SYM_NODE))\<lparr>base_type := Some t\<rparr>\<rparr>"

definition nested_types :: symtab where
  "nested_types = (\<lambda>s.
     if s = Sym 0 then (blank_symbol SYM_STRUCT)\<lparr>bit_size := 96, symbol_list := [Sym 1, Sym 2]\<rparr>
     else if s = Sym 1 then member_of_type ''a'' 0 Int_ctype
     else if s = Sym 2 then member_of_type ''b'' 4 (Sym 3)
     else if s = Sym 3 then (blank_symbol SYM_STRUCT)\<lparr>bit_size := 64, symbol_list := [Sym 4, Sym 5]\<rparr>
     else if s = Sym 4 then member_of_type ''c'' 0 Int_ctype
     else if s = Sym 5 then member_of_type ''d'' 4 Int_ctype
     else (blank_symbol SYM_BASETYPE)\<lparr>bit_size := 32,
       s_ctype := (s_ctype (blank_symbol SYM_BASETYPE))\<lparr>modifiers := MOD_UNSIGNED, base_type := Some Int_type\<rparr>\<rparr>)"

definition nested_state :: lstate where
  "nested_state = \<lparr>lx = \<lparr>syms = nested_types, conservative = False, xwarns = []\<rparr>, examined = (\<lambda>s. True),
     evaluated = (\<lambda>s. False), restr = [], fouled = [], n_syms = 6, used_syms = [], lwarns = []\<rparr>"

definition plain_econf :: econf where
  "plain_econf = \<lparr>e_target = default_target, size_t_ctype = Uint_ctype, ssize_t_ctype = Int_ctype, Wenum_mismatch = True,
     Wtypesign = False, Wnon_pointer_null = True, Wcast_to_as = True, Wptr_subtraction_blows = True\<rparr>"

theorem offsetof_is_sum_witness:
  "\<forall>p vla ee fn q xc td. \<exists>n e. fst (evaluator n p plain_econf vla ee fn) (offset_expr q (Some (Sym 0)) [''b'', ''d'']) nested_state
      = Some (Some Uint_ctype, e, nested_state)
    \<and> (\<exists>e' tn x. expand_expression xc td n e (lx nested_state) = Some (e', 0, x) \<and> e_node e' = EXPR_VALUE 8 tn)"
proof (intro allI)
  fix p vla ee fn q xc td
  have s: "size_ok (ltab nested_state) (size_t_ctype plain_econf) 32"
    by (simp add: size_ok_def nested_state_def nested_types_def plain_econf_def)
  have "member_path (Suc n) nested_state (Sym 0) [''b'', ''d''] = Some [(Sym 2, 4), (Sym 5, 4)]" for n
    by (simp add: aggregate_def nested_state_def nested_types_def member_of_type_def blank_symbol_def to_int_def)
  then have m: "\<forall>n\<ge>1. member_path n nested_state (Sym 0) [''b'', ''d''] = Some [(Sym 2, 4), (Sym 5, 4)]"
    by (metis Suc_le_D One_nat_def)
  have c: "\<forall>(m, off)\<in>set [(Sym 2, 4 :: int), (Sym 5, 4)]. canonical 32 (word_of_int off)"
    by (simp add: canonical_def)
  have "of_ival 32 8 = 8" by (simp add: of_ival_def)
  with offsetof_is_sum [OF s _ m c, of p vla ee fn q xc td]
  show "\<exists>n e. fst (evaluator n p plain_econf vla ee fn) (offset_expr q (Some (Sym 0)) [''b'', ''d'']) nested_state
      = Some (Some Uint_ctype, e, nested_state)
    \<and> (\<exists>e' tn x. expand_expression xc td n e (lx nested_state) = Some (e', 0, x) \<and> e_node e' = EXPR_VALUE 8 tn)"
    by (force simp: plain_econf_def)
qed

end
