(* ===== verification/Inline.thy ===== *)
theory Inline
  imports Conversion
begin

text \<open>
  Inline functions (\<open>inline.c\<close>): the body of the function is copied to the place of the call, with
  its local symbols replaced by new ones. While a copy goes on, the old and the new symbol name each
  other in \<open>replace\<close>. A copy that is equal to the original is the original: the tree does not tell.
\<close>

section \<open>State\<close>

text \<open>
  \<open>replaced\<close> is the member \<open>replace\<close> of the symbols, \<open>expanding\<close> the mark of a function that is
  being copied. What the parser found out about a function does not change: its body and the symbols
  declared in it.
\<close>

record istate =
  i_front :: lstate
  replaced :: "symref \<Rightarrow> symref option"
  expanding :: "symref \<Rightarrow> bool"

record ifun =
  inline_stmt :: "symref \<Rightarrow> statement option"
  inline_symbols :: "symref \<Rightarrow> symref list"

abbreviation itab :: "istate \<Rightarrow> symtab" where
  "itab st \<equiv> ltab (i_front st)"

definition on_front :: "(lstate \<Rightarrow> lstate) \<Rightarrow> istate \<Rightarrow> istate" where
  "on_front g st = st\<lparr>i_front := g (i_front st)\<rparr>"

type_synonym copy_e = "expression \<Rightarrow> istate \<Rightarrow> (expression \<times> istate) option"
type_synonym copy_s = "statement \<Rightarrow> istate \<Rightarrow> (statement \<times> istate) option"

section \<open>Symbols and lists\<close>

definition kept :: "symtab \<Rightarrow> symref \<Rightarrow> bool" where
  "kept tab s = has_mod (mods tab s) (or (or MOD_STATIC MOD_EXTERN) (or MOD_TOPLEVEL MOD_INLINE))"

definition copy_symbol :: "symref \<Rightarrow> istate \<Rightarrow> symref \<times> istate" where
  "copy_symbol s st =
     (if kept (itab st) s then (s, st)
      else (case replaced st s of
          None \<Rightarrow> (s, on_front (emsg ''unreplaced symbol'') st)
        | Some r \<Rightarrow> (r, st)))"

definition copy_symbol_opt :: "symref option \<Rightarrow> istate \<Rightarrow> symref option \<times> istate" where
  "copy_symbol_opt so st = (case so of None \<Rightarrow> (None, st) | Some s \<Rightarrow> (let (r, st1) = copy_symbol s st in (Some r, st1)))"

fun copy_symbol_list :: "symref list \<Rightarrow> istate \<Rightarrow> symref list \<times> istate" where
  "copy_symbol_list [] st = ([], st)"
| "copy_symbol_list (s # ss) st =
     (let (r, st1) = copy_symbol s st; (rs, st2) = copy_symbol_list ss st1 in (r # rs, st2))"

text \<open>A NULL pointer is copied as such; the copies of a list are added to a new list.\<close>

definition copy_opt ::
    "('a \<Rightarrow> istate \<Rightarrow> ('a \<times> istate) option) \<Rightarrow> 'a option \<Rightarrow> istate \<Rightarrow> ('a option \<times> istate) option" where
  "copy_opt c x st = (case x of None \<Rightarrow> Some (None, st) | Some y \<Rightarrow> do { (z, st1) \<leftarrow> c y st; Some (Some z, st1) })"

fun copy_all :: "('a \<Rightarrow> istate \<Rightarrow> ('a \<times> istate) option) \<Rightarrow> 'a list \<Rightarrow> istate \<Rightarrow> ('a list \<times> istate) option" where
  "copy_all c [] st = Some ([], st)"
| "copy_all c (x # xs) st = do { (y, st1) \<leftarrow> c x st; (ys, st2) \<leftarrow> copy_all c xs st1; Some (y # ys, st2) }"

definition new_list :: "'a list \<Rightarrow> 'a ptr_list" where
  "new_list xs = foldl add_ptr_list [] xs"

definition copy_list ::
    "('a \<Rightarrow> istate \<Rightarrow> ('a \<times> istate) option) \<Rightarrow> 'a ptr_list \<Rightarrow> istate \<Rightarrow> ('a ptr_list \<times> istate) option" where
  "copy_list c l st = do { (ys, st1) \<leftarrow> copy_all c (entries l) st; Some (new_list ys, st1) }"

section \<open>Expressions and statements\<close>

text \<open>
  A compound statement into a new one: the statements, the statement that declares the arguments of
  an inlined call, and the symbol of the value.
\<close>

definition copy_statement :: "copy_s \<Rightarrow> position \<Rightarrow> statement \<Rightarrow> istate \<Rightarrow> (statement \<times> istate) option" where
  "copy_statement cs p src st =
     (case s_node src of
        STMT_COMPOUND ss ret inl args \<Rightarrow> do {
          (ss1, st1) \<leftarrow> copy_all cs ss st;
          (args1, st2) \<leftarrow> copy_opt cs args st1;
          let (ret1, st3) = copy_symbol_opt ret st2;
          Some (Stmt p (STMT_COMPOUND ss1 ret1 inl args1), st3) }
      | _ \<Rightarrow> None)"

text \<open>A compound literal has a type of its own, which its initialiser will be evaluated with.\<close>

definition copy_cast :: "copy_e \<Rightarrow> expression \<Rightarrow> cast_type \<Rightarrow> symref \<Rightarrow> expression option \<Rightarrow> istate \<Rightarrow> (expression \<times> istate) option" where
  "copy_cast ce e k t x st =
     (if k = EXPR_CAST \<and> x = None then None
      else do {
        (x1, st1) \<leftarrow> copy_opt ce x st;
        if k = EXPR_CAST \<and> (case x of Some y \<Rightarrow> (case e_node y of EXPR_INITIALIZER l \<Rightarrow> True | _ \<Rightarrow> False) | None \<Rightarrow> False) then
          (let (t1, l) = new_symbol (itab st1 t) (marks (i_front st1) t) (i_front st1)
           in Some (set_node e (Cast k t1 x1), st1\<lparr>i_front := l\<rparr>))
        else Some (set_node e (Cast k t x1), st1) })"

text \<open>One level of \<open>copy_expression\<close>; \<open>ce\<close> and \<open>cs\<close> are its recursive calls.\<close>

definition copy_expression_body :: "copy_e \<Rightarrow> copy_s \<Rightarrow> copy_e" where
  "copy_expression_body ce cs e st =
     (case e_node e of
        EXPR_SYMBOL s nm \<Rightarrow> (let (r, st1) = copy_symbol s st in Some (set_node e (EXPR_SYMBOL r nm), st1))
      | EXPR_VALUE v t \<Rightarrow> Some (e, st)
      | EXPR_STRING w s \<Rightarrow> Some (e, st)
      | EXPR_FVALUE v \<Rightarrow> Some (e, st)
      | EXPR_TYPE s \<Rightarrow> Some (e, st)
      | Unary k u v \<Rightarrow> do { (u1, st1) \<leftarrow> ce u st; Some (set_node e (Unary k u1 v), st1) }
      | EXPR_SLICE x a b \<Rightarrow> do { (x1, st1) \<leftarrow> ce x st; Some (set_node e (EXPR_SLICE x1 a b), st1) }
      | Binary k l r \<Rightarrow> do {
          (l1, st1) \<leftarrow> ce l st;
          (r1, st2) \<leftarrow> ce r st1;
          Some (set_node e (Binary k l1 r1), st2) }
      | EXPR_DEREF x nm \<Rightarrow> do { (x1, st1) \<leftarrow> ce x st; Some (set_node e (EXPR_DEREF x1 nm), st1) }
      | Cast k t x \<Rightarrow> copy_cast ce e k t x st
      | Cond k c t f \<Rightarrow> do {
          (c1, st1) \<leftarrow> ce c st;
          (t1, st2) \<leftarrow> copy_opt ce t st1;
          (f1, st3) \<leftarrow> copy_opt ce f st2;
          Some (set_node e (Cond k c1 t1 f1), st3) }
      | EXPR_STATEMENT s \<Rightarrow> do {
          (s1, st1) \<leftarrow> copy_statement cs (e_pos e) s st;
          Some (set_node e (EXPR_STATEMENT s1), st1) }
      | EXPR_CALL fn args \<Rightarrow> do {
          (fn1, st1) \<leftarrow> ce fn st;
          (args1, st2) \<leftarrow> copy_list ce args st1;
          Some (set_node e (EXPR_CALL fn1 args1), st2) }
      | EXPR_INITIALIZER l \<Rightarrow> do { (l1, st1) \<leftarrow> copy_list ce l st; Some (set_node e (EXPR_INITIALIZER l1), st1) }
      | EXPR_LABEL s \<Rightarrow> (let (r, st1) = copy_symbol s st in Some (set_node e (EXPR_LABEL r), st1))
      | EXPR_INDEX a b x \<Rightarrow> do { (x1, st1) \<leftarrow> copy_opt ce x st; Some (set_node e (EXPR_INDEX a b x1), st1) }
      | EXPR_IDENTIFIER i s x \<Rightarrow> do { (x1, st1) \<leftarrow> copy_opt ce x st; Some (set_node e (EXPR_IDENTIFIER i s x1), st1) }
      | EXPR_POS a b x \<Rightarrow> do { (x1, st1) \<leftarrow> ce x st; Some (set_node e (EXPR_POS a b x1), st1) }
      | EXPR_OFFSETOF t x i \<Rightarrow> do {
          (x1, st1) \<leftarrow> copy_opt ce x st;
          case i of
            Inl nm \<Rightarrow> Some (set_node e (EXPR_OFFSETOF t x1 i), st1)
          | Inr j \<Rightarrow> do { (j1, st2) \<leftarrow> copy_opt ce j st1; Some (set_node e (EXPR_OFFSETOF t x1 (Inr j1)), st2) } })"

text \<open>Name, constraint and expression follow each other; only the expression is copied.\<close>

fun copy_asm_constraints ::
    "copy_e \<Rightarrow> nat \<Rightarrow> (string option + expression option) list \<Rightarrow> istate
     \<Rightarrow> ((string option + expression option) list \<times> istate) option" where
  "copy_asm_constraints ce k [] st = Some ([], st)"
| "copy_asm_constraints ce k (x # xs) st =
     (if k < 2 then do { (ys, st1) \<leftarrow> copy_asm_constraints ce (Suc k) xs st; Some (x # ys, st1) }
      else (case x of
          Inl i \<Rightarrow> None
        | Inr e \<Rightarrow> do {
            (e1, st1) \<leftarrow> copy_opt ce e st;
            (ys, st2) \<leftarrow> copy_asm_constraints ce 0 xs st1;
            Some (Inr e1 # ys, st2) }))"

text \<open>The initialiser of a replaced symbol is copied with its declaration.\<close>

definition copy_declared :: "copy_e \<Rightarrow> symref \<Rightarrow> istate \<Rightarrow> (symref \<times> istate) option" where
  "copy_declared ce s st =
     (let (r, st1) = copy_symbol s st
      in if r = s then Some (r, st1)
         else do {
           (i, st2) \<leftarrow> copy_opt ce (initializer (itab st1 s)) st1;
           Some (r, on_front (upd r (\<lambda>x. x\<lparr>initializer := i\<rparr>)) st2) })"

definition copy_case ::
    "copy_e \<Rightarrow> copy_s \<Rightarrow> statement \<Rightarrow> expression option \<Rightarrow> expression option \<Rightarrow> statement option \<Rightarrow> symref \<Rightarrow> istate
     \<Rightarrow> (statement \<times> istate) option" where
  "copy_case ce cs stmt e to s lab st = do {
     let (lab1, st1) = copy_symbol lab st;
     (e1, st2) \<leftarrow> copy_opt ce e st1;
     (to1, st3) \<leftarrow> copy_opt ce to st2;
     (s1, st4) \<leftarrow> copy_opt cs s st3;
     let new = Stmt (s_pos stmt) (STMT_CASE e1 to1 s1 lab1);
     Some (new, on_front (upd lab1 (\<lambda>x. x\<lparr>s_stmt := Some new\<rparr>)) st4) }"

definition copy_switch ::
    "copy_e \<Rightarrow> copy_s \<Rightarrow> statement \<Rightarrow> expression option \<Rightarrow> statement option \<Rightarrow> symref \<Rightarrow> symref \<Rightarrow> istate
     \<Rightarrow> (statement \<times> istate) option" where
  "copy_switch ce cs stmt e s brk cas st = do {
     let (brk1, st1) = copy_symbol brk st;
     let (cas1, st2) = copy_symbol cas st1;
     (e1, st3) \<leftarrow> copy_opt ce e st2;
     (s1, st4) \<leftarrow> copy_opt cs s st3;
     let (l, st5) = copy_symbol_list (symbol_list (itab st4 cas1)) st4;
     Some (Stmt (s_pos stmt) (STMT_SWITCH e1 s1 brk1 cas1), on_front (upd cas1 (\<lambda>x. x\<lparr>symbol_list := l\<rparr>)) st5) }"

definition copy_iterator ::
    "copy_e \<Rightarrow> copy_s \<Rightarrow> statement \<Rightarrow> symref \<Rightarrow> symref \<Rightarrow> symref list \<Rightarrow> statement option \<Rightarrow> expression option
     \<Rightarrow> statement option \<Rightarrow> statement option \<Rightarrow> expression option \<Rightarrow> istate \<Rightarrow> (statement \<times> istate) option" where
  "copy_iterator ce cs stmt brk con ss pre prec body post postc st = do {
     let (brk1, st1) = copy_symbol brk st;
     let (con1, st2) = copy_symbol con st1;
     let (ss1, st3) = copy_symbol_list ss st2;
     (pre1, st4) \<leftarrow> copy_opt cs pre st3;
     (prec1, st5) \<leftarrow> copy_opt ce prec st4;
     (body1, st6) \<leftarrow> copy_opt cs body st5;
     (post1, st7) \<leftarrow> copy_opt cs post st6;
     (postc1, st8) \<leftarrow> copy_opt ce postc st7;
     Some (Stmt (s_pos stmt) (STMT_ITERATOR brk1 con1 ss1 pre1 prec1 body1 post1 postc1), st8) }"

text \<open>
  One level of \<open>copy_one_statement\<close>. The second expression of a context statement, the bounds of a
  range and the labels of an \<open>asm goto\<close> stay as they are.
\<close>

definition copy_one_body :: "copy_e \<Rightarrow> copy_s \<Rightarrow> copy_s" where
  "copy_one_body ce cs stmt st =
     (let put = (\<lambda>n s. Some (Stmt (s_pos stmt) n, s)) in
      case s_node stmt of
        STMT_NONE \<Rightarrow> Some (stmt, st)
      | STMT_DECLARATION ss \<Rightarrow> do { (ss1, st1) \<leftarrow> copy_all (copy_declared ce) ss st; put (STMT_DECLARATION ss1) st1 }
      | STMT_CONTEXT e c \<Rightarrow> do { (e1, st1) \<leftarrow> copy_opt ce e st; put (STMT_CONTEXT e1 c) st1 }
      | STMT_EXPRESSION e c \<Rightarrow> do { (e1, st1) \<leftarrow> copy_opt ce e st; put (STMT_EXPRESSION e1 c) st1 }
      | STMT_RANGE e lo hi \<Rightarrow> do { (e1, st1) \<leftarrow> copy_opt ce e st; put (STMT_RANGE e1 lo hi) st1 }
      | STMT_COMPOUND ss ret inl args \<Rightarrow> copy_statement cs (s_pos stmt) stmt st
      | STMT_IF c t f \<Rightarrow> do {
          (c1, st1) \<leftarrow> copy_opt ce c st;
          (t1, st2) \<leftarrow> copy_opt cs t st1;
          (f1, st3) \<leftarrow> copy_opt cs f st2;
          put (STMT_IF c1 t1 f1) st3 }
      | STMT_RETURN e t \<Rightarrow> do {
          (e1, st1) \<leftarrow> copy_opt ce e st;
          let (t1, st2) = copy_symbol_opt t st1;
          put (STMT_RETURN e1 t1) st2 }
      | STMT_CASE e to s lab \<Rightarrow> copy_case ce cs stmt e to s lab st
      | STMT_SWITCH e s brk cas \<Rightarrow> copy_switch ce cs stmt e s brk cas st
      | STMT_ITERATOR brk con ss pre prec body post postc \<Rightarrow>
          copy_iterator ce cs stmt brk con ss pre prec body post postc st
      | STMT_LABEL lab s \<Rightarrow> do {
          let (lab1, st1) = copy_symbol lab st;
          (s1, st2) \<leftarrow> copy_opt cs s st1;
          put (STMT_LABEL lab1 s1) st2 }
      | STMT_GOTO lab e ts \<Rightarrow> do {
          let (lab1, st1) = copy_symbol_opt lab st;
          (e1, st2) \<leftarrow> copy_opt ce e st1;
          let (ts1, st3) = copy_symbol_list ts st2;
          put (STMT_GOTO lab1 e1 ts1) st3 }
      | STMT_ASM str outs ins clobbers labels \<Rightarrow> do {
          (ins1, st1) \<leftarrow> copy_asm_constraints ce 0 ins st;
          (outs1, st2) \<leftarrow> copy_asm_constraints ce 0 outs st1;
          put (STMT_ASM str outs1 ins1 clobbers labels) st2 })"

text \<open>The knot: \<open>copy n\<close> copies trees up to depth \<open>n\<close>, where the initialisers of symbols count.\<close>

primrec copy_tree :: "nat \<Rightarrow> copy_e \<times> copy_s" where
  "copy_tree 0 = ((\<lambda>e st. None), (\<lambda>s st. None))"
| "copy_tree (Suc n) =
     (let (ce, cs) = copy_tree n in (copy_expression_body ce cs, copy_one_body ce cs))"

definition copy_expression :: "nat \<Rightarrow> copy_e" where
  "copy_expression n = fst (copy_tree n)"

definition copy_one_statement :: "nat \<Rightarrow> copy_s" where
  "copy_one_statement n = snd (copy_tree n)"

section \<open>Replacement\<close>

definition set_replace :: "symref \<Rightarrow> symref \<Rightarrow> istate \<Rightarrow> istate" where
  "set_replace old new st = st\<lparr>replaced := (replaced st)(new := Some old, old := Some new)\<rparr>"

definition unset_replace :: "symref \<Rightarrow> istate \<Rightarrow> istate" where
  "unset_replace s st =
     (case replaced st s of
        None \<Rightarrow> on_front (emsg ''not replaced?'') st
      | Some r \<Rightarrow> st\<lparr>replaced := (replaced st)(r := None, s := None)\<rparr>)"

definition unset_replace_list :: "symref list \<Rightarrow> istate \<Rightarrow> istate" where
  "unset_replace_list l st = fold unset_replace l st"

definition create_copy_symbol :: "symref \<Rightarrow> istate \<Rightarrow> symref \<times> istate" where
  "create_copy_symbol orig st =
     (let (s, l) = new_symbol (itab st orig) (marks (i_front st) orig) (i_front st)
      in (s, set_replace orig s (st\<lparr>i_front := l\<rparr>)))"

fun create_symbol_list :: "symref list \<Rightarrow> istate \<Rightarrow> symref list \<times> istate" where
  "create_symbol_list [] st = ([], st)"
| "create_symbol_list (s # ss) st =
     (let (r, st1) = create_copy_symbol s st; (rs, st2) = create_symbol_list ss st1 in (r # rs, st2))"

section \<open>Calls\<close>

text \<open>
  A variable for an argument: a copy of the parameter, if there is one, that is initialised with the
  argument. The second result is the variables that replace a parameter.
\<close>

definition bind_argument :: "symref option \<Rightarrow> expression \<Rightarrow> istate \<Rightarrow> symref \<times> symref list \<times> istate" where
  "bind_argument name arg st =
     (let node = blank_symbol SYM_NODE;
          (x, ms) = (case name of
              None \<Rightarrow> (node\<lparr>s_ctype := (s_ctype node)\<lparr>base_type := e_ctype arg\<rparr>\<rparr>, (False, False))
            | Some s \<Rightarrow> (itab st s, marks (i_front st) s));
          (a, l) = new_symbol (x\<lparr>initializer := Some arg\<rparr>) ms (i_front st);
          st1 = st\<lparr>i_front := l\<rparr>
      in case name of None \<Rightarrow> (a, [], st1) | Some s \<Rightarrow> (a, [a], set_replace s a st1))"

fun bind_arguments :: "symref list \<Rightarrow> expression list \<Rightarrow> istate \<Rightarrow> symref list \<times> symref list \<times> istate" where
  "bind_arguments names [] st = ([], [], st)"
| "bind_arguments names (arg # args) st =
     (let (a, r, st1) = bind_argument (case names of [] \<Rightarrow> None | s # ss \<Rightarrow> Some s) arg st;
          (as, rs, st2) = bind_arguments (tl names) args st1
      in (a # as, r @ rs, st2))"

text \<open>The body of a call: the variables are declared in front, and the block names its function.\<close>

definition call_body :: "position \<Rightarrow> symref \<Rightarrow> symref list \<Rightarrow> statement \<Rightarrow> statement" where
  "call_body p s decls stmt =
     (case s_node stmt of
        STMT_COMPOUND ss ret inl args \<Rightarrow>
          Stmt (s_pos stmt) (STMT_COMPOUND ss ret (Some s)
            (if decls \<noteq> [] then Some (Stmt p (STMT_DECLARATION decls)) else args))
      | _ \<Rightarrow> stmt)"

text \<open>
  A call of \<open>callee\<close> becomes a statement expression; \<open>es\<close> is \<open>evaluate_statement\<close>. A function that has
  no body, or is being copied, is not inlined.
\<close>

definition inline_function ::
    "nat \<Rightarrow> ifun \<Rightarrow> (statement \<Rightarrow> istate \<Rightarrow> (symref option \<times> statement \<times> istate) option)
     \<Rightarrow> expression \<Rightarrow> expression ptr_list \<Rightarrow> symref \<Rightarrow> istate \<Rightarrow> (bool \<times> expression \<times> istate) option" where
  "inline_function n fi es e args callee st = do {
     fn \<leftarrow> base_of (itab st) callee;
     case inline_stmt fi fn of
       None \<Rightarrow> Some (False, e, on_front (emsg ''marked inline, but without a definition'') st)
     | Some body \<Rightarrow>
         if expanding st fn then Some (False, e, st)
         else do {
           let st1 = st\<lparr>expanding := (expanding st)(fn := True)\<rparr>;
           let (locals, st2) = create_symbol_list (inline_symbols fi callee) st1;
           let (decls, params, st3) = bind_arguments (arguments (itab st fn)) (entries args) st2;
           (stmt, st4) \<leftarrow> copy_statement (copy_one_statement n) (e_pos e) body st3;
           let st5 = unset_replace_list (locals @ params) st4;
           (t, stmt1, st6) \<leftarrow> es (call_body (e_pos e) callee decls stmt) st5;
           Some (True, Expr (e_flags e) (e_op e) (e_pos e) (base_of (itab st) fn) (EXPR_STATEMENT stmt1),
             st6\<lparr>expanding := (expanding st6)(fn := False)\<rparr>) } }"

text \<open>The function itself gets a body, a copy of the one it is inlined from.\<close>

definition uninline :: "nat \<Rightarrow> ifun \<Rightarrow> position \<Rightarrow> symref \<Rightarrow> istate \<Rightarrow> istate option" where
  "uninline n fi p callee st = do {
     fn \<leftarrow> base_of (itab st) callee;
     body \<leftarrow> inline_stmt fi fn;
     let (locals, st1) = create_symbol_list (inline_symbols fi callee) st;
     let st2 = on_front (upd callee (\<lambda>x. x\<lparr>symbol_list := locals\<rparr>)) st1;
     let params = arguments (itab st2 fn);
     let st3 = st2\<lparr>replaced := (\<lambda>s. if s \<in> set params then Some s else replaced st2 s)\<rparr>;
     (stmt, st4) \<leftarrow> copy_statement (copy_one_statement n) p body st3;
     let st5 = on_front (upd fn (\<lambda>x. x\<lparr>s_stmt := Some stmt\<rparr>)) st4;
     Some (unset_replace_list params (unset_replace_list locals st5)) }"

end
