(* ===== verification/Inline_Props.thy ===== *)
theory Inline_Props
  imports Inline Const_Fold_Props
begin

text \<open>
  Copying a tree for inlining is a substitution: every symbol of the tree becomes its replacement,
  and nothing else changes.
\<close>

section \<open>The substitution\<close>

text \<open>
  \<open>sub_e r\<close> replaces the symbols of a tree by \<open>r\<close>. Lists are built anew, and the block of a statement
  expression gets the position of the expression.
\<close>

definition place_block :: "position \<Rightarrow> enode \<Rightarrow> enode" where
  "place_block p n = (case n of EXPR_STATEMENT s \<Rightarrow> EXPR_STATEMENT (Stmt p (s_node s)) | _ \<Rightarrow> n)"

primrec sub_e :: "(symref \<Rightarrow> symref) \<Rightarrow> expression \<Rightarrow> expression"
  and sub_n :: "(symref \<Rightarrow> symref) \<Rightarrow> enode \<Rightarrow> enode"
  and sub_s :: "(symref \<Rightarrow> symref) \<Rightarrow> statement \<Rightarrow> statement"
  and sub_sn :: "(symref \<Rightarrow> symref) \<Rightarrow> snode \<Rightarrow> snode" where
  "sub_e r (Expr fl k p t n) = Expr fl k p t (place_block p (sub_n r n))"
| "sub_n r (EXPR_VALUE v t) = EXPR_VALUE v t"
| "sub_n r (EXPR_FVALUE v) = EXPR_FVALUE v"
| "sub_n r (EXPR_STRING w s) = EXPR_STRING w s"
| "sub_n r (EXPR_SYMBOL s nm) = EXPR_SYMBOL (r s) nm"
| "sub_n r (EXPR_TYPE s) = EXPR_TYPE s"
| "sub_n r (Binary k a b) = Binary k (sub_e r a) (sub_e r b)"
| "sub_n r (EXPR_DEREF a nm) = EXPR_DEREF (sub_e r a) nm"
| "sub_n r (Unary k a v) = Unary k (sub_e r a) v"
| "sub_n r (EXPR_SLICE a i j) = EXPR_SLICE (sub_e r a) i j"
| "sub_n r (Cast k t a) = Cast k t (map_option (sub_e r) a)"
| "sub_n r (Cond k a b c) = Cond k (sub_e r a) (map_option (sub_e r) b) (map_option (sub_e r) c)"
| "sub_n r (EXPR_STATEMENT s) = EXPR_STATEMENT (sub_s r s)"
| "sub_n r (EXPR_CALL a l) = EXPR_CALL (sub_e r a) (new_list (concat (map (map (sub_e r)) l)))"
| "sub_n r (EXPR_LABEL s) = EXPR_LABEL (r s)"
| "sub_n r (EXPR_INITIALIZER l) = EXPR_INITIALIZER (new_list (concat (map (map (sub_e r)) l)))"
| "sub_n r (EXPR_IDENTIFIER i s a) = EXPR_IDENTIFIER i s (map_option (sub_e r) a)"
| "sub_n r (EXPR_INDEX i j a) = EXPR_INDEX i j (map_option (sub_e r) a)"
| "sub_n r (EXPR_POS i j a) = EXPR_POS i j (sub_e r a)"
| "sub_n r (EXPR_OFFSETOF t a i) = EXPR_OFFSETOF t (map_option (sub_e r) a) (map_sum id (map_option (sub_e r)) i)"
| "sub_s r (Stmt p n) = Stmt p (sub_sn r n)"
| "sub_sn r STMT_NONE = STMT_NONE"
| "sub_sn r (STMT_DECLARATION ss) = STMT_DECLARATION (map r ss)"
| "sub_sn r (STMT_EXPRESSION a c) = STMT_EXPRESSION (map_option (sub_e r) a) (map_option (sub_e r) c)"
| "sub_sn r (STMT_COMPOUND l t f a) = STMT_COMPOUND (map (sub_s r) l) (map_option r t) f (map_option (sub_s r) a)"
| "sub_sn r (STMT_IF c a b) = STMT_IF (map_option (sub_e r) c) (map_option (sub_s r) a) (map_option (sub_s r) b)"
| "sub_sn r (STMT_RETURN a t) = STMT_RETURN (map_option (sub_e r) a) (map_option r t)"
| "sub_sn r (STMT_CASE a b s l) = STMT_CASE (map_option (sub_e r) a) (map_option (sub_e r) b) (map_option (sub_s r) s) (r l)"
| "sub_sn r (STMT_SWITCH a s b c) = STMT_SWITCH (map_option (sub_e r) a) (map_option (sub_s r) s) (r b) (r c)"
| "sub_sn r (STMT_ITERATOR b c ss s1 a1 s2 s3 a2) =
     STMT_ITERATOR (r b) (r c) (map r ss) (map_option (sub_s r) s1) (map_option (sub_e r) a1) (map_option (sub_s r) s2)
       (map_option (sub_s r) s3) (map_option (sub_e r) a2)"
| "sub_sn r (STMT_LABEL l s) = STMT_LABEL (r l) (map_option (sub_s r) s)"
| "sub_sn r (STMT_GOTO l a ts) = STMT_GOTO (map_option r l) (map_option (sub_e r) a) (map r ts)"
| "sub_sn r (STMT_ASM a b c d l) =
     STMT_ASM (map_option (sub_e r) a) (map (map_sum id (map_option (sub_e r))) b) (map (map_sum id (map_option (sub_e r))) c)
       (map (map_option (sub_e r)) d) (map r l)"
| "sub_sn r (STMT_CONTEXT a c) = STMT_CONTEXT (map_option (sub_e r) a) (map_option (sub_e r) c)"
| "sub_sn r (STMT_RANGE a b c) = STMT_RANGE (map_option (sub_e r) a) (map_option (sub_e r) b) (map_option (sub_e r) c)"

text \<open>
  The trees of which everything is copied: their symbols are in \<open>S\<close>, those declared in \<open>D\<close>. Left out
  are compound literals, whose type is new, and what the code does not copy: the second expression
  of a context statement, the bounds of a range, and \<open>asm\<close>.
\<close>

definition holds :: "bool option \<Rightarrow> bool" where
  "holds b = (case b of None \<Rightarrow> True | Some x \<Rightarrow> x)"

definition is_compound :: "snode \<Rightarrow> bool" where
  "is_compound n = (case n of STMT_COMPOUND l t f a \<Rightarrow> True | _ \<Rightarrow> False)"

definition literal :: "expression \<Rightarrow> bool" where
  "literal e = (case e_node e of EXPR_INITIALIZER l \<Rightarrow> True | _ \<Rightarrow> False)"

definition plain_cast :: "cast_type \<Rightarrow> expression option \<Rightarrow> bool" where
  "plain_cast k x = (k = EXPR_CAST \<longrightarrow> (case x of None \<Rightarrow> False | Some e \<Rightarrow> \<not> literal e))"

primrec fits_e :: "symref set \<Rightarrow> symref set \<Rightarrow> expression \<Rightarrow> bool"
  and fits_n :: "symref set \<Rightarrow> symref set \<Rightarrow> enode \<Rightarrow> bool"
  and fits_s :: "symref set \<Rightarrow> symref set \<Rightarrow> statement \<Rightarrow> bool"
  and fits_sn :: "symref set \<Rightarrow> symref set \<Rightarrow> snode \<Rightarrow> bool" where
  "fits_e S D (Expr fl k p t n) = fits_n S D n"
| "fits_n S D (EXPR_VALUE v t) = True"
| "fits_n S D (EXPR_FVALUE v) = True"
| "fits_n S D (EXPR_STRING w s) = True"
| "fits_n S D (EXPR_SYMBOL s nm) = (s \<in> S)"
| "fits_n S D (EXPR_TYPE s) = True"
| "fits_n S D (Binary k a b) = (fits_e S D a \<and> fits_e S D b)"
| "fits_n S D (EXPR_DEREF a nm) = fits_e S D a"
| "fits_n S D (Unary k a v) = fits_e S D a"
| "fits_n S D (EXPR_SLICE a i j) = fits_e S D a"
| "fits_n S D (Cast k t a) = (plain_cast k a \<and> holds (map_option (fits_e S D) a))"
| "fits_n S D (Cond k a b c) = (fits_e S D a \<and> holds (map_option (fits_e S D) b) \<and> holds (map_option (fits_e S D) c))"
| "fits_n S D (EXPR_STATEMENT s) = (is_compound (s_node s) \<and> fits_s S D s)"
| "fits_n S D (EXPR_CALL a l) = (fits_e S D a \<and> list_all (list_all id) (map (map (fits_e S D)) l))"
| "fits_n S D (EXPR_LABEL s) = (s \<in> S)"
| "fits_n S D (EXPR_INITIALIZER l) = list_all (list_all id) (map (map (fits_e S D)) l)"
| "fits_n S D (EXPR_IDENTIFIER i s a) = holds (map_option (fits_e S D) a)"
| "fits_n S D (EXPR_INDEX i j a) = holds (map_option (fits_e S D) a)"
| "fits_n S D (EXPR_POS i j a) = fits_e S D a"
| "fits_n S D (EXPR_OFFSETOF t a i) =
     (holds (map_option (fits_e S D) a)
      \<and> (case map_sum id (map_option (fits_e S D)) i of Inl nm \<Rightarrow> True | Inr b \<Rightarrow> holds b))"
| "fits_s S D (Stmt p n) = fits_sn S D n"
| "fits_sn S D STMT_NONE = True"
| "fits_sn S D (STMT_DECLARATION ss) = (set ss \<subseteq> S \<inter> D)"
| "fits_sn S D (STMT_EXPRESSION a c) = (holds (map_option (fits_e S D) a) \<and> c = None)"
| "fits_sn S D (STMT_COMPOUND l t f a) =
     (list_all id (map (fits_s S D) l) \<and> set_option t \<subseteq> S \<and> holds (map_option (fits_s S D) a))"
| "fits_sn S D (STMT_IF c a b) =
     (holds (map_option (fits_e S D) c) \<and> holds (map_option (fits_s S D) a) \<and> holds (map_option (fits_s S D) b))"
| "fits_sn S D (STMT_RETURN a t) = (holds (map_option (fits_e S D) a) \<and> set_option t \<subseteq> S)"
| "fits_sn S D (STMT_CASE a b s l) =
     (holds (map_option (fits_e S D) a) \<and> holds (map_option (fits_e S D) b) \<and> holds (map_option (fits_s S D) s) \<and> l \<in> S)"
| "fits_sn S D (STMT_SWITCH a s b c) =
     (holds (map_option (fits_e S D) a) \<and> holds (map_option (fits_s S D) s) \<and> b \<in> S \<and> c \<in> S)"
| "fits_sn S D (STMT_ITERATOR b c ss s1 a1 s2 s3 a2) =
     (b \<in> S \<and> c \<in> S \<and> set ss \<subseteq> S \<and> holds (map_option (fits_s S D) s1) \<and> holds (map_option (fits_e S D) a1)
      \<and> holds (map_option (fits_s S D) s2) \<and> holds (map_option (fits_s S D) s3) \<and> holds (map_option (fits_e S D) a2))"
| "fits_sn S D (STMT_LABEL l s) = (l \<in> S \<and> holds (map_option (fits_s S D) s))"
| "fits_sn S D (STMT_GOTO l a ts) = (set_option l \<subseteq> S \<and> holds (map_option (fits_e S D) a) \<and> set ts \<subseteq> S)"
| "fits_sn S D (STMT_ASM a b c d l) = False"
| "fits_sn S D (STMT_CONTEXT a c) = (holds (map_option (fits_e S D) a) \<and> c = None)"
| "fits_sn S D (STMT_RANGE a b c) = False"

section \<open>Runs that keep an invariant\<close>

text \<open>\<open>runs G m y\<close>: from every good state, \<open>m\<close> gives \<open>y\<close> and a good state.\<close>

definition runs :: "(istate \<Rightarrow> bool) \<Rightarrow> (istate \<Rightarrow> ('a \<times> istate) option) \<Rightarrow> 'a \<Rightarrow> bool" where
  "runs G m y = (\<forall>st. G st \<longrightarrow> (\<exists>st'. m st = Some (y, st') \<and> G st'))"

lemma runsI: "(\<And>st. G st \<Longrightarrow> \<exists>st'. m st = Some (y, st') \<and> G st') \<Longrightarrow> runs G m y"
  by (simp add: runs_def)

lemma runsD:
  assumes "runs G m y" "G st"
  obtains st' where "m st = Some (y, st')" "G st'"
  using assms by (auto simp: runs_def)

lemma runs_return: "runs G (\<lambda>st. Some (y, st)) y"
  by (simp add: runs_def)

lemma runs_bind: "runs G m y \<Longrightarrow> runs G (h y) z \<Longrightarrow> runs G (\<lambda>st. Option.bind (m st) (case_prod h)) z"
  unfolding runs_def by fastforce

lemma runs_opt: "(\<And>y. x = Some y \<Longrightarrow> runs G (c y) (f y)) \<Longrightarrow> runs G (copy_opt c x) (map_option f x)"
  by (cases x) (auto simp: copy_opt_def runs_def bind_eq_Some_conv split: option.split)

lemma runs_all: "(\<And>x. x \<in> set xs \<Longrightarrow> runs G (c x) (f x)) \<Longrightarrow> runs G (copy_all c xs) (map f xs)"
proof (induction xs)
  case Nil
  then show ?case by (simp add: runs_def)
next
  case (Cons x xs)
  have "runs G (\<lambda>st. Option.bind (c x st) (case_prod (\<lambda>y st1. Option.bind (copy_all c xs st1) (case_prod (\<lambda>ys st2. Some (y # ys, st2))))))
      (f x # map f xs)"
    by (intro runs_bind [of _ _ "f x"] runs_bind [of _ _ "map f xs"] runs_return Cons.IH Cons.prems) (simp_all add: Cons.prems)
  then show ?case by (simp add: case_prod_beta)
qed

lemma runs_list:
  "(\<And>x. x \<in> set (concat l) \<Longrightarrow> runs G (c x) (f x)) \<Longrightarrow> runs G (copy_list c l) (new_list (concat (map (map f) l)))"
  using runs_all [of "concat l" G c f]
  by (auto simp: copy_list_def [abs_def] entries_def map_concat intro!: runsI elim!: runsD)

section \<open>Symbols\<close>

text \<open>
  Good states: \<open>r\<close> gives the replacement of the symbols in \<open>S\<close>, whose initialisers are \<open>ini\<close>. A
  replacement is not itself in \<open>S\<close>.
\<close>

definition good :: "symref set \<Rightarrow> (symref \<Rightarrow> symref) \<Rightarrow> (symref \<Rightarrow> expression option) \<Rightarrow> istate \<Rightarrow> bool" where
  "good S r ini st = (\<forall>s\<in>S. r s = fst (copy_symbol s st) \<and> initializer (itab st s) = ini s \<and> (r s \<noteq> s \<longrightarrow> r s \<notin> S))"

lemma good_tables:
  assumes "good S r ini st" "replaced st' = replaced st"
    and "\<And>s. s \<in> S \<Longrightarrow> mods (itab st') s = mods (itab st) s \<and> initializer (itab st' s) = initializer (itab st s)"
  shows "good S r ini st'"
  using assms by (auto simp: good_def copy_symbol_def kept_def split: option.splits)

lemma copy_symbol_tables [simp]:
  "replaced (snd (copy_symbol s st)) = replaced st" "itab (snd (copy_symbol s st)) = itab st"
  by (auto simp: copy_symbol_def on_front_def lwarn_def split: option.split)

lemma copy_symbol_list_tables [simp]:
  "replaced (snd (copy_symbol_list l st)) = replaced st" "itab (snd (copy_symbol_list l st)) = itab st"
proof (induction l arbitrary: st)
  case (Cons s l)
  { case 1 show ?case using Cons(1) [of "snd (copy_symbol s st)"] by (simp add: case_prod_beta Let_def) }
  { case 2 show ?case using Cons(2) [of "snd (copy_symbol s st)"] by (simp add: case_prod_beta Let_def) }
qed simp_all

lemma good_copy_symbol: "good S r ini st \<Longrightarrow> good S r ini (snd (copy_symbol s st))"
  by (rule good_tables) simp_all

lemma good_symbol: "good S r ini st \<Longrightarrow> s \<in> S \<Longrightarrow> fst (copy_symbol s st) = r s"
  by (simp add: good_def)

lemma good_copy_symbol_list: "good S r ini st \<Longrightarrow> good S r ini (snd (copy_symbol_list l st))"
  by (rule good_tables) simp_all

lemma good_symbol_list: "good S r ini st \<Longrightarrow> set l \<subseteq> S \<Longrightarrow> fst (copy_symbol_list l st) = map r l"
proof (induction l arbitrary: st)
  case (Cons s l)
  have "fst (copy_symbol_list l (snd (copy_symbol s st))) = map r l"
    by (rule Cons.IH [OF good_copy_symbol]) (use Cons.prems in auto)
  then show ?case using good_symbol Cons.prems by (simp add: case_prod_beta Let_def)
qed simp

lemma runs_case:
  "(\<And>st. G st \<Longrightarrow> fst (m st) = y \<and> G (snd (m st))) \<Longrightarrow> runs G (F y) z \<Longrightarrow>
   runs G (\<lambda>st. case m st of (x, st1) \<Rightarrow> F x st1) z"
  by (simp add: runs_def case_prod_beta)

lemma runs_symbol:
  "s \<in> S \<Longrightarrow> runs (good S r ini) (F (r s)) z \<Longrightarrow> runs (good S r ini) (\<lambda>st. case copy_symbol s st of (y, st1) \<Rightarrow> F y st1) z"
  by (rule runs_case) (simp_all add: good_symbol good_copy_symbol)

lemma good_symbol_opt:
  "good S r ini st \<Longrightarrow> set_option t \<subseteq> S \<Longrightarrow>
   fst (copy_symbol_opt t st) = map_option r t \<and> good S r ini (snd (copy_symbol_opt t st))"
  by (cases t) (simp_all add: copy_symbol_opt_def case_prod_beta Let_def good_symbol good_copy_symbol)

lemma runs_symbol_opt:
  "set_option t \<subseteq> S \<Longrightarrow> runs (good S r ini) (F (map_option r t)) z \<Longrightarrow>
   runs (good S r ini) (\<lambda>st. case copy_symbol_opt t st of (y, st1) \<Rightarrow> F y st1) z"
  by (rule runs_case) (simp_all add: good_symbol_opt)

lemma runs_symbol_list:
  "set l \<subseteq> S \<Longrightarrow> runs (good S r ini) (F (map r l)) z \<Longrightarrow>
   runs (good S r ini) (\<lambda>st. case copy_symbol_list l st of (y, st1) \<Rightarrow> F y st1) z"
  by (rule runs_case) (simp_all add: good_symbol_list good_copy_symbol_list)

text \<open>Writes to the symbol table that keep a state good.\<close>

lemma good_upd:
  assumes "good S r ini st" "\<And>x. s_ctype (g x) = s_ctype x" "\<And>x. initializer (g x) = initializer x \<or> s \<notin> S"
  shows "good S r ini (on_front (upd s g) st)"
  using assms by (intro good_tables [OF assms(1)]) (auto simp: on_front_def upd_def)

lemma runs_declared:
  assumes "s \<in> S" "\<And>e. ini s = Some e \<Longrightarrow> \<exists>e'. runs (good S r ini) (ce e) e'"
  shows "runs (good S r ini) (copy_declared ce s) (r s)"
proof (rule runsI)
  fix st
  assume g: "good S r ini st"
  let ?st = "snd (copy_symbol s st)"
  have g1: "good S r ini ?st" by (rule good_copy_symbol [OF g])
  have r: "fst (copy_symbol s st) = r s" "initializer (itab st s) = ini s" "r s \<noteq> s \<Longrightarrow> r s \<notin> S"
    using g assms(1) by (auto simp: good_def)
  show "\<exists>st'. copy_declared ce s st = Some (r s, st') \<and> good S r ini st'"
  proof (cases "r s = s")
    case True
    then show ?thesis using r g1 by (auto simp: copy_declared_def case_prod_beta Let_def)
  next
    case False
    have "\<exists>i st2. copy_opt ce (ini s) ?st = Some (i, st2) \<and> good S r ini st2"
    proof (cases "ini s")
      case None
      then show ?thesis using g1 by (simp add: copy_opt_def)
    next
      case (Some e)
      then show ?thesis using assms(2) [OF Some] g1 by (fastforce simp: copy_opt_def runs_def)
    qed
    then show ?thesis using r False good_upd [of S r ini _ _ "r s"]
      by (fastforce simp: copy_declared_def case_prod_beta Let_def)
  qed
qed

section \<open>Deep enough copies\<close>

text \<open>From some depth on, the copy of \<open>e\<close> is \<open>y\<close> in all good states.\<close>

definition copies :: "(istate \<Rightarrow> bool) \<Rightarrow> expression \<Rightarrow> expression \<Rightarrow> bool" where
  "copies G e y = eventually (\<lambda>n. runs G (copy_expression n e) y) sequentially"

definition copies_s :: "(istate \<Rightarrow> bool) \<Rightarrow> statement \<Rightarrow> statement \<Rightarrow> bool" where
  "copies_s G s y = eventually (\<lambda>n. runs G (copy_one_statement n s) y) sequentially"

lemma copy_expression_Suc:
  "copy_expression (Suc n) = copy_expression_body (copy_expression n) (copy_one_statement n)"
  "copy_one_statement (Suc n) = copy_one_body (copy_expression n) (copy_one_statement n)"
  by (simp_all add: copy_expression_def copy_one_statement_def case_prod_beta Let_def)

lemma eventually_later: "eventually (\<lambda>n. P (Suc n)) sequentially \<Longrightarrow> eventually P sequentially"
  unfolding eventually_sequentially by (metis Suc_le_D Suc_le_mono)

lemma copies_body:
  "eventually (\<lambda>n. runs G (copy_expression_body (copy_expression n) (copy_one_statement n) e) y) sequentially \<Longrightarrow> copies G e y"
  unfolding copies_def by (rule eventually_later) (simp add: copy_expression_Suc)

lemma copies_one_body:
  "eventually (\<lambda>n. runs G (copy_one_body (copy_expression n) (copy_one_statement n) s) y) sequentially \<Longrightarrow> copies_s G s y"
  unfolding copies_s_def by (rule eventually_later) (simp add: copy_expression_Suc)

lemma holds_Some: "holds (Some b) = b"
  by (simp add: holds_def)

lemma holds_iff: "holds (map_option P a) \<longleftrightarrow> (\<forall>x\<in>set_option a. P x)"
  by (cases a) (simp_all add: holds_def)

lemma copies_opt:
  "(\<And>x. x \<in> set_option a \<Longrightarrow> copies G x (f x)) \<Longrightarrow>
   eventually (\<lambda>n. runs G (copy_opt (copy_expression n) a) (map_option f a)) sequentially"
  by (cases a) (auto simp: copies_def copy_opt_def runs_def bind_eq_Some_conv elim!: eventually_mono)

lemma copies_opt_s:
  "(\<And>x. x \<in> set_option a \<Longrightarrow> copies_s G x (f x)) \<Longrightarrow>
   eventually (\<lambda>n. runs G (copy_opt (copy_one_statement n) a) (map_option f a)) sequentially"
  by (cases a) (auto simp: copies_s_def copy_opt_def runs_def bind_eq_Some_conv elim!: eventually_mono)

lemma copies_all_s:
  assumes "\<And>x. x \<in> set l \<Longrightarrow> copies_s G x (f x)"
  shows "eventually (\<lambda>n. runs G (copy_all (copy_one_statement n) l) (map f l)) sequentially"
proof -
  have "eventually (\<lambda>n. \<forall>x\<in>set l. runs G (copy_one_statement n x) (f x)) sequentially"
    using assms by (intro eventually_ball_finite) (auto simp: copies_s_def)
  then show ?thesis by (rule eventually_mono) (rule runs_all, simp)
qed

lemma copies_list:
  assumes "\<And>x. x \<in> set (concat l) \<Longrightarrow> copies G x (f x)"
  shows "eventually (\<lambda>n. runs G (copy_list (copy_expression n) l) (new_list (concat (map (map f) l)))) sequentially"
proof -
  have "eventually (\<lambda>n. \<forall>x\<in>set (concat l). runs G (copy_expression n x) (f x)) sequentially"
    using assms by (intro eventually_ball_finite) (auto simp: copies_def)
  then show ?thesis by (rule eventually_mono) (rule runs_list, blast)
qed

lemma set_node_Expr [simp]: "set_node (Expr fl k p t n) m = Expr fl k p t m"
  by (simp add: set_node_def)

lemmas body_simps = copy_expression_body_def [abs_def] Let_def

lemma copies_leaf:
  "copies G (Expr fl k p t (EXPR_VALUE v u)) (Expr fl k p t (EXPR_VALUE v u))"
  "copies G (Expr fl k p t (EXPR_FVALUE x)) (Expr fl k p t (EXPR_FVALUE x))"
  "copies G (Expr fl k p t (EXPR_STRING w str)) (Expr fl k p t (EXPR_STRING w str))"
  "copies G (Expr fl k p t (EXPR_TYPE s)) (Expr fl k p t (EXPR_TYPE s))"
  by (rule copies_body, simp add: body_simps runs_return)+

lemma copies_by:
  assumes "eventually P sequentially"
    "\<And>n. P n \<Longrightarrow> runs G (copy_expression_body (copy_expression n) (copy_one_statement n) e) y"
  shows "copies G e y"
  by (rule copies_body) (rule eventually_mono [OF assms])

lemma copies_by_s:
  assumes "eventually P sequentially"
    "\<And>n. P n \<Longrightarrow> runs G (copy_one_body (copy_expression n) (copy_one_statement n) e) y"
  shows "copies_s G e y"
  by (rule copies_one_body) (rule eventually_mono [OF assms])

lemmas copiesD = copies_def [THEN iffD1]
lemmas copies_sD = copies_s_def [THEN iffD1]

lemma copies_symbol:
  "s \<in> S \<Longrightarrow> copies (good S r ini) (Expr fl k p t (EXPR_SYMBOL s nm)) (Expr fl k p t (EXPR_SYMBOL (r s) nm))"
  "s \<in> S \<Longrightarrow> copies (good S r ini) (Expr fl k p t (EXPR_LABEL s)) (Expr fl k p t (EXPR_LABEL (r s)))"
  by (rule copies_body, simp add: body_simps, rule runs_symbol, assumption, rule runs_return)+

lemma copies_one:
  assumes "copies G a a'"
  shows "copies G (Expr fl k p t (Unary uk a v)) (Expr fl k p t (Unary uk a' v))"
    "copies G (Expr fl k p t (EXPR_DEREF a nm)) (Expr fl k p t (EXPR_DEREF a' nm))"
    "copies G (Expr fl k p t (EXPR_SLICE a i j)) (Expr fl k p t (EXPR_SLICE a' i j))"
    "copies G (Expr fl k p t (EXPR_POS b c a)) (Expr fl k p t (EXPR_POS b c a'))"
  by (rule copies_by [OF copiesD [OF assms]], simp add: body_simps, rule runs_bind, assumption, rule runs_return)+

lemma copies_Binary:
  assumes "copies G a a'" "copies G b b'"
  shows "copies G (Expr fl k p t (Binary bk a b)) (Expr fl k p t (Binary bk a' b'))"
  by (rule copies_by [OF eventually_conj [OF assms [THEN copiesD]]], simp add: body_simps, elim conjE,
      (rule runs_bind, assumption)+, rule runs_return)

lemma copies_opts:
  assumes "\<And>x. x \<in> set_option a \<Longrightarrow> copies G x (f x)"
  shows "copies G (Expr fl k p t (EXPR_IDENTIFIER i s a)) (Expr fl k p t (EXPR_IDENTIFIER i s (map_option f a)))"
    "copies G (Expr fl k p t (EXPR_INDEX b c a)) (Expr fl k p t (EXPR_INDEX b c (map_option f a)))"
  by (rule copies_by [OF copies_opt [of a G f, OF assms]], assumption, simp add: body_simps, rule runs_bind, assumption,
      rule runs_return)+

lemma copies_OFFSETOF:
  assumes "\<And>x. x \<in> set_option a \<Longrightarrow> copies G x (f x)" "\<And>j x. i = Inr j \<Longrightarrow> x \<in> set_option j \<Longrightarrow> copies G x (f x)"
  shows "copies G (Expr fl k p t (EXPR_OFFSETOF s a i)) (Expr fl k p t (EXPR_OFFSETOF s (map_option f a) (map_sum id (map_option f) i)))"
proof (cases i)
  case (Inl nm)
  show ?thesis unfolding Inl
    by (rule copies_by [OF copies_opt [of a G f, OF assms(1)]], assumption, simp add: body_simps, rule runs_bind,
        assumption, rule runs_return)
next
  case (Inr j)
  show ?thesis unfolding Inr
    by (rule copies_by [OF eventually_conj [OF copies_opt [of a G f, OF assms(1)] copies_opt [of j G f, OF assms(2) [OF Inr]]]],
        assumption+, simp add: body_simps, elim conjE, (rule runs_bind, assumption)+, rule runs_return)
qed

lemma copies_Cast:
  assumes "plain_cast ck a" "\<And>x. x \<in> set_option a \<Longrightarrow> copies G x (f x)"
  shows "copies G (Expr fl k p t (Cast ck ty a)) (Expr fl k p t (Cast ck ty (map_option f a)))"
proof (rule copies_by [OF copies_opt [of a G f, OF assms(2)]])
  fix n
  assume a: "runs G (copy_opt (copy_expression n) a) (map_option f a)"
  have ok: "\<not> (ck = EXPR_CAST \<and> a = None)"
    "\<not> (ck = EXPR_CAST \<and> (case a of Some y \<Rightarrow> (case e_node y of EXPR_INITIALIZER l \<Rightarrow> True | _ \<Rightarrow> False) | None \<Rightarrow> False))"
    using assms(1) by (auto simp: plain_cast_def literal_def split: option.splits)
  show "runs G (copy_expression_body (copy_expression n) (copy_one_statement n) (Expr fl k p t (Cast ck ty a)))
      (Expr fl k p t (Cast ck ty (map_option f a)))"
    unfolding body_simps by (simp only: expression.sel enode.case copy_cast_def ok if_False set_node_Expr)
      (rule runs_bind [OF a], rule runs_return)
qed

lemma copies_Cond:
  assumes "copies G a a'" "\<And>x. x \<in> set_option b \<Longrightarrow> copies G x (f x)" "\<And>x. x \<in> set_option c \<Longrightarrow> copies G x (f x)"
  shows "copies G (Expr fl k p t (Cond ck a b c)) (Expr fl k p t (Cond ck a' (map_option f b) (map_option f c)))"
  by (rule copies_by [OF eventually_conj [OF copiesD [OF assms(1)]
        eventually_conj [OF copies_opt [of b G f, OF assms(2)] copies_opt [of c G f, OF assms(3)]]]],
      assumption+, simp add: body_simps, elim conjE, (rule runs_bind, assumption)+, rule runs_return)

lemma copies_lists:
  assumes "\<And>x. x \<in> set (concat l) \<Longrightarrow> copies G x (f x)"
  shows "copies G (Expr fl k p t (EXPR_INITIALIZER l)) (Expr fl k p t (EXPR_INITIALIZER (new_list (concat (map (map f) l)))))"
    and "copies G a a' \<Longrightarrow> copies G (Expr fl k p t (EXPR_CALL a l)) (Expr fl k p t (EXPR_CALL a' (new_list (concat (map (map f) l)))))"
proof -
  note l = copies_list [of l G f, OF assms]
  show "copies G (Expr fl k p t (EXPR_INITIALIZER l)) (Expr fl k p t (EXPR_INITIALIZER (new_list (concat (map (map f) l)))))"
    by (rule copies_by [OF l], assumption, simp add: body_simps, rule runs_bind, assumption, rule runs_return)
  show "copies G (Expr fl k p t (EXPR_CALL a l)) (Expr fl k p t (EXPR_CALL a' (new_list (concat (map (map f) l)))))"
    if "copies G a a'"
    by (rule copies_by [OF eventually_conj [OF copiesD [OF that] l]], assumption, simp add: body_simps, elim conjE,
        (rule runs_bind, assumption)+, rule runs_return)
qed

lemma copies_block:
  assumes "\<And>x. x \<in> set l \<Longrightarrow> copies_s (good S r ini) x (f x)" "\<And>x. x \<in> set_option a \<Longrightarrow> copies_s (good S r ini) x (f x)"
    and "set_option t \<subseteq> S"
  shows "eventually (\<lambda>n. runs (good S r ini) (copy_statement (copy_one_statement n) q (Stmt p (STMT_COMPOUND l t i a)))
      (Stmt q (STMT_COMPOUND (map f l) (map_option r t) i (map_option f a)))) sequentially"
  by (rule eventually_mono [OF eventually_conj [OF copies_all_s [of l _ f, OF assms(1)] copies_opt_s [of a _ f, OF assms(2)]]],
      assumption+, simp add: copy_statement_def [abs_def] Let_def, elim conjE, (rule runs_bind, assumption)+,
      rule runs_symbol_opt, rule assms, rule runs_return)

lemma copies_STATEMENT:
  assumes "eventually (\<lambda>n. runs G (copy_statement (copy_one_statement n) p s) s') sequentially"
  shows "copies G (Expr fl k p t (EXPR_STATEMENT s)) (Expr fl k p t (EXPR_STATEMENT s'))"
  by (rule copies_by [OF assms], simp add: body_simps, rule runs_bind, assumption, rule runs_return)

lemmas one_simps = copy_one_body_def [abs_def] Let_def

lemma copies_compound:
  assumes "eventually (\<lambda>n. runs G (copy_statement (copy_one_statement n) p (Stmt p (STMT_COMPOUND l t i a))) s') sequentially"
  shows "copies_s G (Stmt p (STMT_COMPOUND l t i a)) s'"
  by (rule copies_by_s [OF assms], simp add: one_simps)

lemma copies_declaration:
  assumes "set ss \<subseteq> S" "\<And>s e. s \<in> set ss \<Longrightarrow> ini s = Some e \<Longrightarrow> \<exists>e'. copies (good S r ini) e e'"
  shows "copies_s (good S r ini) (Stmt p (STMT_DECLARATION ss)) (Stmt p (STMT_DECLARATION (map r ss)))"
proof -
  have "eventually (\<lambda>n. runs (good S r ini) (copy_declared (copy_expression n) s) (r s)) sequentially" if mem: "s \<in> set ss" for s
  proof (cases "ini s")
    case None
    show ?thesis by (rule always_eventually) (use assms mem None in \<open>auto intro!: runs_declared\<close>)
  next
    case (Some e)
    then obtain e' where "copies (good S r ini) e e'" using assms(2) mem by blast
    then show ?thesis unfolding copies_def
      by (rule eventually_mono) (use assms(1) mem Some in \<open>auto intro!: runs_declared\<close>)
  qed
  then have "eventually (\<lambda>n. \<forall>s\<in>set ss. runs (good S r ini) (copy_declared (copy_expression n) s) (r s)) sequentially"
    by (intro eventually_ball_finite) auto
  then show ?thesis
    by (rule copies_by_s, simp add: one_simps) (rule runs_bind [OF runs_all [of _ _ _ r]], blast, rule runs_return)
qed

lemma copies_none: "copies_s G (Stmt p STMT_NONE) (Stmt p STMT_NONE)"
  by (rule copies_one_body) (simp add: one_simps runs_return)

lemma copies_simple:
  assumes "\<And>x. x \<in> set_option a \<Longrightarrow> copies G x (f x)"
  shows "copies_s G (Stmt p (STMT_EXPRESSION a c)) (Stmt p (STMT_EXPRESSION (map_option f a) c))"
    "copies_s G (Stmt p (STMT_CONTEXT a c)) (Stmt p (STMT_CONTEXT (map_option f a) c))"
  by (rule copies_by_s [OF copies_opt [of a G f, OF assms]], assumption, simp add: one_simps, rule runs_bind, assumption,
      rule runs_return)+

lemma copies_return:
  assumes "\<And>x. x \<in> set_option a \<Longrightarrow> copies (good S r ini) x (f x)" "set_option t \<subseteq> S"
  shows "copies_s (good S r ini) (Stmt p (STMT_RETURN a t)) (Stmt p (STMT_RETURN (map_option f a) (map_option r t)))"
  by (rule copies_by_s [OF copies_opt [of a _ f, OF assms(1)]], assumption, simp add: one_simps, rule runs_bind, assumption,
      rule runs_symbol_opt, rule assms, rule runs_return)

lemma copies_goto:
  assumes "\<And>x. x \<in> set_option a \<Longrightarrow> copies (good S r ini) x (f x)" "set_option l \<subseteq> S" "set ts \<subseteq> S"
  shows "copies_s (good S r ini) (Stmt p (STMT_GOTO l a ts)) (Stmt p (STMT_GOTO (map_option r l) (map_option f a) (map r ts)))"
  by (rule copies_by_s [OF copies_opt [of a _ f, OF assms(1)]], assumption, simp add: one_simps, rule runs_symbol_opt,
      rule assms, rule runs_bind, assumption, rule runs_symbol_list, rule assms, rule runs_return)

lemma copies_label:
  assumes "\<And>x. x \<in> set_option a \<Longrightarrow> copies_s (good S r ini) x (f x)" "l \<in> S"
  shows "copies_s (good S r ini) (Stmt p (STMT_LABEL l a)) (Stmt p (STMT_LABEL (r l) (map_option f a)))"
  by (rule copies_by_s [OF copies_opt_s [of a _ f, OF assms(1)]], assumption, simp add: one_simps, rule runs_symbol,
      rule assms, rule runs_bind, assumption, rule runs_return)

lemma copies_if:
  assumes "\<And>x. x \<in> set_option c \<Longrightarrow> copies G x (f x)"
    "\<And>x. x \<in> set_option a \<Longrightarrow> copies_s G x (g x)" "\<And>x. x \<in> set_option b \<Longrightarrow> copies_s G x (g x)"
  shows "copies_s G (Stmt p (STMT_IF c a b)) (Stmt p (STMT_IF (map_option f c) (map_option g a) (map_option g b)))"
  by (rule copies_by_s [OF eventually_conj [OF copies_opt [of c G f, OF assms(1)]
        eventually_conj [OF copies_opt_s [of a G g, OF assms(2)] copies_opt_s [of b G g, OF assms(3)]]]],
      assumption+, simp add: one_simps, elim conjE, (rule runs_bind, assumption)+, rule runs_return)

lemma copies_iterator:
  assumes "b \<in> S" "c \<in> S" "set ss \<subseteq> S"
    and "\<And>x. x \<in> set_option s1 \<Longrightarrow> copies_s (good S r ini) x (g x)" "\<And>x. x \<in> set_option a1 \<Longrightarrow> copies (good S r ini) x (f x)"
    and "\<And>x. x \<in> set_option s2 \<Longrightarrow> copies_s (good S r ini) x (g x)" "\<And>x. x \<in> set_option s3 \<Longrightarrow> copies_s (good S r ini) x (g x)"
    and "\<And>x. x \<in> set_option a2 \<Longrightarrow> copies (good S r ini) x (f x)"
  shows "copies_s (good S r ini) (Stmt p (STMT_ITERATOR b c ss s1 a1 s2 s3 a2))
    (Stmt p (STMT_ITERATOR (r b) (r c) (map r ss) (map_option g s1) (map_option f a1) (map_option g s2) (map_option g s3)
      (map_option f a2)))"
  by (rule copies_by_s [OF eventually_conj [OF copies_opt_s [of s1 _ g, OF assms(4)]
        eventually_conj [OF copies_opt [of a1 _ f, OF assms(5)]
        eventually_conj [OF copies_opt_s [of s2 _ g, OF assms(6)]
        eventually_conj [OF copies_opt_s [of s3 _ g, OF assms(7)] copies_opt [of a2 _ f, OF assms(8)]]]]]],
      assumption+, simp add: one_simps copy_iterator_def [abs_def], elim conjE, rule runs_symbol, rule assms,
      rule runs_symbol, rule assms, rule runs_symbol_list, rule assms, (rule runs_bind, assumption)+, rule runs_return)

text \<open>A case writes its statement to its label, a switch the list of its cases.\<close>

lemma runs_upd:
  assumes "\<And>x. s_ctype (g x) = s_ctype x" "\<And>x. initializer (g x) = initializer x"
  shows "runs (good S r ini) (\<lambda>st. Some (y, on_front (upd s g) st)) y"
  by (rule runsI) (use assms good_upd [of S r ini _ g s] in simp)

lemma copies_case:
  assumes "\<And>x. x \<in> set_option a \<Longrightarrow> copies (good S r ini) x (f x)" "\<And>x. x \<in> set_option b \<Longrightarrow> copies (good S r ini) x (f x)"
    and "\<And>x. x \<in> set_option s \<Longrightarrow> copies_s (good S r ini) x (g x)" "l \<in> S"
  shows "copies_s (good S r ini) (Stmt p (STMT_CASE a b s l))
    (Stmt p (STMT_CASE (map_option f a) (map_option f b) (map_option g s) (r l)))"
  by (rule copies_by_s [OF eventually_conj [OF copies_opt [of a _ f, OF assms(1)]
        eventually_conj [OF copies_opt [of b _ f, OF assms(2)] copies_opt_s [of s _ g, OF assms(3)]]]],
      assumption+, simp add: one_simps copy_case_def [abs_def], elim conjE, rule runs_symbol, rule assms,
      (rule runs_bind, assumption)+, rule runs_upd, simp_all)

lemma copies_switch:
  assumes "\<And>x. x \<in> set_option a \<Longrightarrow> copies (good S r ini) x (f x)"
    and "\<And>x. x \<in> set_option s \<Longrightarrow> copies_s (good S r ini) x (g x)" "b \<in> S" "c \<in> S"
  shows "copies_s (good S r ini) (Stmt p (STMT_SWITCH a s b c))
    (Stmt p (STMT_SWITCH (map_option f a) (map_option g s) (r b) (r c)))"
proof -
  have last: "runs (good S r ini) (\<lambda>st. case copy_symbol_list (symbol_list (itab st d)) st of (l, st5) \<Rightarrow>
      Some (y, on_front (upd d (\<lambda>x. x\<lparr>symbol_list := l\<rparr>)) st5)) y" for d and y :: statement
    by (rule runsI) (use good_copy_symbol_list good_upd in \<open>simp add: case_prod_beta\<close>)
  show ?thesis
    by (rule copies_by_s [OF eventually_conj [OF copies_opt [of a _ f, OF assms(1)] copies_opt_s [of s _ g, OF assms(2)]]],
      assumption+, simp add: one_simps copy_switch_def [abs_def], elim conjE, rule runs_symbol, rule assms,
      rule runs_symbol, rule assms, (rule runs_bind, assumption)+, rule last)
qed

section \<open>The copy of a tree\<close>

lemma copies_tree:
  assumes ini: "\<And>s e. s \<in> S \<inter> D \<Longrightarrow> ini s = Some e \<Longrightarrow> \<exists>e'. copies (good S r ini) e e'"
  shows "fits_e S D e \<Longrightarrow> copies (good S r ini) e (sub_e r e)"
    and "fits_n S D n \<Longrightarrow> copies (good S r ini) (Expr fl k p t n) (sub_e r (Expr fl k p t n))"
    and "fits_s S D s \<Longrightarrow> copies_s (good S r ini) s (sub_s r s)
      \<and> (is_compound (s_node s) \<longrightarrow> eventually (\<lambda>m. runs (good S r ini) (copy_statement (copy_one_statement m) q s)
            (Stmt q (sub_sn r (s_node s)))) sequentially)"
    and "fits_sn S D sn \<Longrightarrow> copies_s (good S r ini) (Stmt p sn) (Stmt p (sub_sn r sn))
      \<and> (is_compound sn \<longrightarrow> eventually (\<lambda>m. runs (good S r ini) (copy_statement (copy_one_statement m) q (Stmt p sn))
            (Stmt q (sub_sn r sn))) sequentially)"
proof (induction e and n and s and sn arbitrary: and fl k p t and q and p q)
  case (EXPR_STATEMENT s)
  then show ?case
    by (cases s) (auto simp: place_block_def is_compound_def intro!: copies_STATEMENT)
next
  case (STMT_DECLARATION ss)
  then have "set ss \<subseteq> S \<inter> D" by simp
  then have "copies_s (good S r ini) (Stmt p (STMT_DECLARATION ss)) (Stmt p (STMT_DECLARATION (map r ss)))"
    by (intro copies_declaration) (use ini in blast)+
  then show ?case by (simp add: is_compound_def)
next
  case (STMT_COMPOUND l t f a)
  have b: "eventually (\<lambda>m. runs (good S r ini) (copy_statement (copy_one_statement m) q (Stmt p (STMT_COMPOUND l t f a)))
      (Stmt q (sub_sn r (STMT_COMPOUND l t f a)))) sequentially" for q
    using STMT_COMPOUND by (auto simp: holds_iff list_all_iff intro!: copies_block)
  show ?case using b [of q] copies_compound [OF b] by simp
qed (auto simp: place_block_def is_compound_def holds_iff holds_Some list_all_iff
    intro!: copies_leaf copies_symbol copies_one copies_Binary copies_opts copies_OFFSETOF copies_Cast copies_Cond copies_lists
      copies_none copies_simple copies_return copies_goto copies_label copies_if copies_iterator copies_case copies_switch)

lemma initialisers_copied:
  fixes rank :: "symref \<Rightarrow> nat"
  assumes "\<forall>s\<in>S. \<forall>e. ini s = Some e \<longrightarrow> fits_e S {d. rank d < rank s} e"
  shows "s \<in> S \<Longrightarrow> ini s = Some e \<Longrightarrow> \<exists>e'. copies (good S r ini) e e'"
proof (induction "rank s" arbitrary: s e rule: less_induct)
  case less
  then show ?case using assms copies_tree(1) [of S "{d. rank d < rank s}" ini r e] by blast
qed

text \<open>
  C40. Copying a statement for inlining ends, and gives the statement with every symbol replaced by
  \<open>copy_symbol\<close> and nothing else changed: when all of it is copied (\<open>fits_s\<close>, see there for what the
  code leaves out), its symbols are in \<open>S\<close> and not replacements themselves, and no declaration inside
  the initialiser of a symbol leads back to the symbol (\<open>rank\<close>). The same symbols are replaced by the
  same ones after it, and keep their initialisers.
\<close>

theorem copy_is_substitution:
  fixes rank :: "symref \<Rightarrow> nat"
  assumes "\<forall>s\<in>S. r s = fst (copy_symbol s st) \<and> (r s \<noteq> s \<longrightarrow> r s \<notin> S)"
    and "\<forall>s\<in>S. \<forall>e. initializer (itab st s) = Some e \<longrightarrow> fits_e S {d. rank d < rank s} e"
    and "fits_s S D stmt"
  shows "\<exists>n0. \<forall>n\<ge>n0. \<exists>st'. copy_one_statement n stmt st = Some (sub_s r stmt, st')
    \<and> (\<forall>s\<in>S. fst (copy_symbol s st') = r s \<and> initializer (itab st' s) = initializer (itab st s))"
proof -
  let ?G = "good S r (\<lambda>s. initializer (itab st s))"
  have "copies_s ?G stmt (sub_s r stmt)"
    using copies_tree(3) [of S D "\<lambda>s. initializer (itab st s)" r stmt] initialisers_copied [OF assms(2)] assms(3) by blast
  then obtain n0 where n0: "\<And>n. n \<ge> n0 \<Longrightarrow> runs ?G (copy_one_statement n stmt) (sub_s r stmt)"
    by (auto simp: copies_s_def eventually_sequentially)
  have "?G st" using assms(1) unfolding good_def by blast
  then have "\<exists>st'. copy_one_statement n stmt st = Some (sub_s r stmt, st') \<and> ?G st'" if "n \<ge> n0" for n
    using n0 [OF that] by (simp add: runs_def)
  then show ?thesis unfolding good_def by metis
qed

text \<open>An example: a block that declares \<open>Sym 0\<close>, initialised with 1, and uses it; \<open>Sym 1\<close> replaces it.\<close>

definition local_block :: "symref \<Rightarrow> statement" where
  "local_block s = Stmt no_pos (STMT_COMPOUND
     [Stmt no_pos (STMT_DECLARATION [s]),
      Stmt no_pos (STMT_EXPRESSION (Some (Expr 0 0 no_pos None (EXPR_SYMBOL s ''x''))) None)] None None None)"

definition local_state :: istate where
  "local_state =
     \<lparr>i_front = \<lparr>lx = \<lparr>syms = (\<lambda>s. (blank_symbol SYM_NODE)\<lparr>initializer := if s = Sym 0 then Some (int_const 1) else None\<rparr>),
                      conservative = False, xwarns = []\<rparr>,
                examined = (\<lambda>s. False), evaluated = (\<lambda>s. False), restr = [], fouled = [], n_syms = 2, used_syms = [], lwarns = []\<rparr>,
      replaced = (\<lambda>s. if s = Sym 0 then Some (Sym 1) else if s = Sym 1 then Some (Sym 0) else None),
      expanding = (\<lambda>s. False)\<rparr>"

theorem copy_is_substitution_witness:
  "\<exists>n st'. copy_one_statement n (local_block (Sym 0)) local_state = Some (local_block (Sym 1), st')"
proof -
  have s: "\<forall>s\<in>{Sym 0}. Sym 1 = fst (copy_symbol s local_state) \<and> (Sym 1 \<noteq> s \<longrightarrow> Sym 1 \<notin> {Sym 0})"
    by (simp add: copy_symbol_def kept_def local_state_def blank_symbol_def has_mod_def)
  have i: "\<forall>s\<in>{Sym 0}. \<forall>e. initializer (itab local_state s) = Some e \<longrightarrow> fits_e {Sym 0} {d. (0::nat) < 0} e"
    by (simp add: local_state_def int_const_def)
  have f: "fits_s {Sym 0} UNIV (local_block (Sym 0))" by (simp add: local_block_def holds_def)
  have "sub_s (\<lambda>s. Sym 1) (local_block (Sym 0)) = local_block (Sym 1)"
    by (simp add: local_block_def place_block_def)
  with copy_is_substitution [OF s i f] show ?thesis by (metis order_refl)
qed

end
